(* ===== verification/MutPrelude.thy ===== *)
theory MutPrelude
  imports Main "HOL-Library.Word" "HOL-Library.Monad_Syntax" "HOL-Library.Char_ord" "HOL-Library.Multiset"
begin

text \<open>
  The prelude of the MUT development: the machine types of the 32-bit build
  (\<open>mut_opt_arch_size=32\<close> in src/src/Makefile), the result conventions shared by every
  component, the number formats of the log, and the lemma collections the component
  theories use.

  Result conventions. A C function is a function on an explicit state. \<open>None\<close> is a run that
  stops abnormally: a failed \<open>assert\<close> (every \<open>mut_assert_*\<close> is \<open>assert\<close>, see
  src/src/include/assert/vendor/mut_assert.h), a call of \<open>abort\<close>, or an operation that C
  leaves undefined. \<open>Some\<close> is a return. A status code is a boolean next to the state, and
  a value that is unspecified when the status is zero is an inner option.
\<close>

unbundle bit_operations_syntax

section \<open>Machine types\<close>

type_synonym u8 = "8 word"
type_synonym u32 = "32 word"
type_synonym ptr = u32

abbreviation (input) NULL :: ptr where "NULL \<equiv> 0"

lemma unat_u32_less: "unat (x :: u32) < 4294967296"
  using unsigned_less [of x, where 'a = nat] by simp

section \<open>Lemma collections\<close>

named_theorems frame \<open>what an operation leaves unchanged\<close>
named_theorems wp \<open>rules for the two result predicates\<close>

section \<open>Results\<close>

text \<open>\<open>assert\<close>: the run goes on only if the condition holds.\<close>

definition assert_c :: "bool \<Rightarrow> unit option" where
  "assert_c b = (if b then Some () else None)"

lemma assert_c_simps [simp]:
  "assert_c True = Some ()"
  "assert_c False = None"
  by (simp_all add: assert_c_def)

lemma assert_c_eq_Some [simp]: "assert_c b = Some u \<longleftrightarrow> b"
  by (simp add: assert_c_def)

lemma bind_assert_c: "(assert_c b \<bind> f) = (if b then f () else None)"
  by (simp add: assert_c_def)

text \<open>
  \<open>returns m Q\<close>: the run returns, and its result satisfies \<open>Q\<close> (total correctness).
  \<open>whenever m Q\<close>: if it returns, the result satisfies \<open>Q\<close> (partial correctness).
\<close>

definition returns :: "'a option \<Rightarrow> ('a \<Rightarrow> bool) \<Rightarrow> bool" where
  "returns m Q \<longleftrightarrow> (case m of None \<Rightarrow> False | Some r \<Rightarrow> Q r)"

definition whenever :: "'a option \<Rightarrow> ('a \<Rightarrow> bool) \<Rightarrow> bool" where
  "whenever m Q \<longleftrightarrow> (case m of None \<Rightarrow> True | Some r \<Rightarrow> Q r)"

lemma returns_simps [simp]:
  "returns None Q \<longleftrightarrow> False"
  "returns (Some r) Q \<longleftrightarrow> Q r"
  by (simp_all add: returns_def)

lemma whenever_simps [simp]:
  "whenever None Q"
  "whenever (Some r) Q \<longleftrightarrow> Q r"
  by (simp_all add: whenever_def)

lemma returns_eq: "returns m Q \<longleftrightarrow> (\<exists>r. m = Some r \<and> Q r)"
  by (cases m) auto

lemma whenever_eq: "whenever m Q \<longleftrightarrow> (\<forall>r. m = Some r \<longrightarrow> Q r)"
  by (cases m) auto

lemma wheneverI [intro]: "(\<And>r. m = Some r \<Longrightarrow> Q r) \<Longrightarrow> whenever m Q"
  by (auto simp: whenever_eq)

lemma wheneverD: "whenever m Q \<Longrightarrow> m = Some r \<Longrightarrow> Q r"
  by simp

lemma returns_bind [wp]:
  "returns m R \<Longrightarrow> (\<And>r. R r \<Longrightarrow> returns (f r) Q) \<Longrightarrow> returns (m \<bind> f) Q"
  by (cases m) auto

lemma whenever_bind [wp]:
  "whenever m R \<Longrightarrow> (\<And>r. R r \<Longrightarrow> whenever (f r) Q) \<Longrightarrow> whenever (m \<bind> f) Q"
  by (cases m) auto

lemma returns_mono: "returns m R \<Longrightarrow> (\<And>r. R r \<Longrightarrow> Q r) \<Longrightarrow> returns m Q"
  by (cases m) auto

lemma whenever_mono: "whenever m R \<Longrightarrow> (\<And>r. R r \<Longrightarrow> Q r) \<Longrightarrow> whenever m Q"
  by (cases m) auto

lemma returns_whenever: "returns m Q \<Longrightarrow> whenever m Q"
  by (cases m) auto

lemma whenever_conj: "whenever m P \<Longrightarrow> whenever m Q \<Longrightarrow> whenever m (\<lambda>r. P r \<and> Q r)"
  by (cases m) auto

section \<open>Frames of computations\<close>

text \<open>
  \<open>within R w m\<close>: whenever the computation \<open>m\<close> returns a value and a state, the state is related to
  \<open>w\<close> by \<open>R\<close>; \<open>within0\<close> is for computations that return a state only. With \<open>R\<close> a
  frame condition (what may differ between two states), the rules follow the syntax of a program.
\<close>

definition within :: "('w \<Rightarrow> 'w \<Rightarrow> bool) \<Rightarrow> 'w \<Rightarrow> ('r \<times> 'w) option \<Rightarrow> bool" where
  "within R w m \<longleftrightarrow> (\<forall>r w'. m = Some (r, w') \<longrightarrow> R w w')"

definition within0 :: "('w \<Rightarrow> 'w \<Rightarrow> bool) \<Rightarrow> 'w \<Rightarrow> 'w option \<Rightarrow> bool" where
  "within0 R w m \<longleftrightarrow> (\<forall>w'. m = Some w' \<longrightarrow> R w w')"

lemma withinD: "within R w m \<Longrightarrow> m = Some (r, w') \<Longrightarrow> R w w'"
  by (simp add: within_def)

lemma within0D: "within0 R w m \<Longrightarrow> m = Some w' \<Longrightarrow> R w w'"
  by (simp add: within0_def)

lemma withinI: "(\<And>r w'. m = Some (r, w') \<Longrightarrow> R w w') \<Longrightarrow> within R w m"
  by (simp add: within_def)

lemma within0I: "(\<And>w'. m = Some w' \<Longrightarrow> R w w') \<Longrightarrow> within0 R w m"
  by (simp add: within0_def)

lemma within_None: "within R w None" and within0_None: "within0 R w None"
  by (simp_all add: within_def within0_def)

lemma within_Some: "R w v \<Longrightarrow> within R w (Some (r, v))"
  by (simp add: within_def)

lemma within0_Some: "R w v \<Longrightarrow> within0 R w (Some v)"
  by (simp add: within0_def)

lemma within_bind:
  "transp R \<Longrightarrow> within R w m \<Longrightarrow> (\<And>r v. within R v (g r v)) \<Longrightarrow> within R w (m \<bind> (\<lambda>(r, v). g r v))"
  by (cases m) (fastforce simp: within_def dest: transpD)+

lemma within_bind0:
  "transp R \<Longrightarrow> within0 R w m \<Longrightarrow> (\<And>v. within R v (f v)) \<Longrightarrow> within R w (m \<bind> f)"
  by (cases m) (fastforce simp: within_def within0_def dest: transpD)+

lemma within0_bind:
  "transp R \<Longrightarrow> within R w m \<Longrightarrow> (\<And>r v. within0 R v (g r v)) \<Longrightarrow> within0 R w (m \<bind> (\<lambda>(r, v). g r v))"
  by (cases m) (fastforce simp: within_def within0_def dest: transpD)+

lemma within0_bind0:
  "transp R \<Longrightarrow> within0 R w m \<Longrightarrow> (\<And>v. within0 R v (f v)) \<Longrightarrow> within0 R w (m \<bind> f)"
  by (cases m) (fastforce simp: within0_def dest: transpD)+

lemma within_pure: fixes m :: "'x option" shows "(\<And>x. m = Some x \<Longrightarrow> within R w (f x)) \<Longrightarrow> within R w (m \<bind> f)"
  by (cases m) (simp_all add: within_def)

lemma within0_pure: fixes m :: "'x option" shows "(\<And>x. m = Some x \<Longrightarrow> within0 R w (f x)) \<Longrightarrow> within0 R w (m \<bind> f)"
  by (cases m) (simp_all add: within0_def)

lemma within_if: "(c \<Longrightarrow> within R w a) \<Longrightarrow> (\<not> c \<Longrightarrow> within R w b) \<Longrightarrow> within R w (if c then a else b)"
  by simp

lemma within0_if: "(c \<Longrightarrow> within0 R w a) \<Longrightarrow> (\<not> c \<Longrightarrow> within0 R w b) \<Longrightarrow> within0 R w (if c then a else b)"
  by simp

lemma within_option:
  "within R w a \<Longrightarrow> (\<And>x. within R w (f x)) \<Longrightarrow> within R w (case m of None \<Rightarrow> a | Some x \<Rightarrow> f x)"
  by (simp split: option.split)

lemma within0_option:
  "within0 R w a \<Longrightarrow> (\<And>x. within0 R w (f x)) \<Longrightarrow> within0 R w (case m of None \<Rightarrow> a | Some x \<Rightarrow> f x)"
  by (simp split: option.split)

lemma within_prod: "(\<And>a b. within R w (f a b)) \<Longrightarrow> within R w (case p of (a, b) \<Rightarrow> f a b)"
  by (simp split: prod.split)

lemma within0_prod: "(\<And>a b. within0 R w (f a b)) \<Longrightarrow> within0 R w (case p of (a, b) \<Rightarrow> f a b)"
  by (simp split: prod.split)

text \<open>The pure computations that occur, by the type of their value.\<close>

lemmas within_pure_intros =
  within_pure [where ?'x = unit] within_pure [where ?'x = u32] within_pure [where ?'x = bool]
  within_pure [where ?'x = string]
  within0_pure [where ?'x = unit] within0_pure [where ?'x = u32] within0_pure [where ?'x = bool]
  within0_pure [where ?'x = string]

lemmas within_intros = within_None within0_None within_Some within0_Some within_if within0_if
  within_option within0_option within_bind within_bind0 within0_bind within0_bind0

section \<open>Number formats\<close>

text \<open>The conversions \<open>%u\<close>/\<open>%lu\<close>, \<open>%d\<close>/\<open>%ld\<close> and \<open>%X\<close> of \<open>fprintf\<close>.\<close>

definition digit_char :: "nat \<Rightarrow> char" where
  "digit_char d = char_of (if d < 10 then 48 + d else 55 + d)"

fun dec_string :: "nat \<Rightarrow> string" where
  "dec_string n = (if n < 10 then [digit_char n]
                   else dec_string (n div 10) @ [digit_char (n mod 10)])"

fun hex_string :: "nat \<Rightarrow> string" where
  "hex_string n = (if n < 16 then [digit_char n]
                   else hex_string (n div 16) @ [digit_char (n mod 16)])"

declare dec_string.simps [simp del] hex_string.simps [simp del]

definition fmt_u :: "u32 \<Rightarrow> string" where
  "fmt_u x = dec_string (unat x)"

definition fmt_d :: "u32 \<Rightarrow> string" where
  "fmt_d x = (if sint x < 0 then CHR ''-'' # dec_string (nat (- sint x))
              else dec_string (nat (sint x)))"

definition fmt_X :: "u32 \<Rightarrow> string" where
  "fmt_X x = hex_string (unat x)"

text \<open>\<open>%p\<close> as the GNU library prints it.\<close>

definition fmt_p :: "u32 \<Rightarrow> string" where
  "fmt_p x = (if x = 0 then ''(nil)''
              else ''0x'' @ map (\<lambda>c. if CHR ''A'' \<le> c then char_of (of_char c + 32 :: nat) else c) (fmt_X x))"

text \<open>Reading a decimal string back, to state that the format loses nothing.\<close>

definition char_digit :: "char \<Rightarrow> nat" where
  "char_digit c = of_char c - 48"

definition parse_dec :: "string \<Rightarrow> nat" where
  "parse_dec s = foldl (\<lambda>n c. 10 * n + char_digit c) 0 s"

lemma char_digit_digit_char [simp]: "d < 10 \<Longrightarrow> char_digit (digit_char d) = d"
  by (simp add: char_digit_def digit_char_def)

lemma parse_dec_snoc: "parse_dec (s @ [c]) = 10 * parse_dec s + char_digit c"
  by (simp add: parse_dec_def)

lemma parse_dec_string: "parse_dec (dec_string n) = n"
proof (induction n rule: dec_string.induct)
  case (1 n)
  show ?case
  proof (cases "n < 10")
    case True
    then show ?thesis by (simp add: dec_string.simps [of n] parse_dec_def)
  next
    case False
    then show ?thesis
      using "1.IH" by (simp add: dec_string.simps [of n] parse_dec_snoc)
  qed
qed

lemma dec_string_inject [simp]: "dec_string m = dec_string n \<longleftrightarrow> m = n"
  by (metis parse_dec_string)

lemma fmt_u_inject [simp]: "fmt_u x = fmt_u y \<longleftrightarrow> x = y"
  by (simp add: fmt_u_def word_unat_eq_iff)

lemma dec_string_length: "n < 10 ^ k \<Longrightarrow> 0 < k \<Longrightarrow> length (dec_string n) \<le> k"
proof (induction k arbitrary: n)
  case 0
  then show ?case by simp
next
  case (Suc k)
  show ?case
  proof (cases "n < 10")
    case True
    then show ?thesis by (simp add: dec_string.simps [of n])
  next
    case False
    with Suc.prems have "n div 10 < 10 ^ k" and "0 < k"
      by (auto intro: Nat.gr0I)
    with Suc.IH have "length (dec_string (n div 10)) \<le> k" by blast
    with False show ?thesis by (simp add: dec_string.simps [of n])
  qed
qed

end
