(* ===== verification/MutLibc.thy ===== *)
theory MutLibc
  imports MutPrelude
begin

text \<open>
  The C library calls MUT makes on its own behalf: the heap of \<open>malloc\<close>/\<open>free\<close> with the
  bytes of each block, \<open>memset\<close>/\<open>memcpy\<close>, and output streams. Each component's state
  extends the record \<open>libc\<close>, so every operation below also runs on the larger states.

  What the C standard leaves to the implementation is a field that no operation changes:
  the block \<open>malloc\<close> picks (\<open>c_pick\<close>, 0 when it has none), the indeterminate contents of a
  new block (\<open>c_fill\<close>), the indeterminate contents of an automatic variable at a call with
  given arguments (\<open>c_indet\<close>), and which writes and opens fail.
\<close>

section \<open>State\<close>

datatype stream = Stderr | Stdout | File string

record libc =
  c_heap :: "ptr \<Rightarrow> u8 list option"
  c_pick :: "(ptr \<Rightarrow> u8 list option) \<Rightarrow> u32 \<Rightarrow> ptr"
  c_fill :: "ptr \<Rightarrow> nat \<Rightarrow> u8"
  c_indet :: "u32 list \<Rightarrow> u32"
  c_errno :: u32
  c_out :: "stream \<Rightarrow> string"
  c_write_fails :: "stream \<Rightarrow> string \<Rightarrow> string \<Rightarrow> bool"
  c_fopen_fails :: "string \<Rightarrow> bool"

definition ENOMEM :: u32 where "ENOMEM = 12"
definition EIO :: u32 where "EIO = 5"
definition ENOENT :: u32 where "ENOENT = 2"

text \<open>
  The documented behaviour of \<open>malloc\<close>: a block it returns is not allocated already.
\<close>

definition malloc_fresh :: "'a libc_scheme \<Rightarrow> bool" where
  "malloc_fresh w \<longleftrightarrow> (\<forall>h n. c_pick w h n \<noteq> 0 \<longrightarrow> h (c_pick w h n) = None)"

definition writes_ok :: "'a libc_scheme \<Rightarrow> bool" where
  "writes_ok w \<longleftrightarrow> (\<forall>s old new. \<not> c_write_fails w s old new)"

section \<open>Memory\<close>

definition libc_malloc :: "u32 \<Rightarrow> 'a libc_scheme \<Rightarrow> ptr \<times> 'a libc_scheme" where
  "libc_malloc n w =
     (let p = c_pick w (c_heap w) n
      in if p = 0 then (0, w\<lparr>c_errno := ENOMEM\<rparr>)
         else (p, w\<lparr>c_heap := (c_heap w)(p \<mapsto> map (c_fill w p) [0..<unat n])\<rparr>))"

definition libc_free :: "ptr \<Rightarrow> 'a libc_scheme \<Rightarrow> 'a libc_scheme option" where
  "libc_free p w =
     (if p = 0 then Some w
      else if c_heap w p = None then None
      else Some (w\<lparr>c_heap := (c_heap w)(p := None)\<rparr>))"

definition libc_memset :: "ptr \<Rightarrow> u8 \<Rightarrow> u32 \<Rightarrow> 'a libc_scheme \<Rightarrow> 'a libc_scheme option" where
  "libc_memset p c n w =
     (case c_heap w p of
        None \<Rightarrow> None
      | Some bs \<Rightarrow>
          if unat n \<le> length bs
          then Some (w\<lparr>c_heap := (c_heap w)(p \<mapsto> replicate (unat n) c @ drop (unat n) bs)\<rparr>)
          else None)"

definition libc_memcpy :: "ptr \<Rightarrow> ptr \<Rightarrow> u32 \<Rightarrow> 'a libc_scheme \<Rightarrow> 'a libc_scheme option" where
  "libc_memcpy dst src n w =
     (case (c_heap w dst, c_heap w src) of
        (Some ds, Some ss) \<Rightarrow>
          if unat n \<le> length ds \<and> unat n \<le> length ss \<and> (dst \<noteq> src \<or> n = 0)
          then Some (w\<lparr>c_heap := (c_heap w)(dst \<mapsto> take (unat n) ss @ drop (unat n) ds)\<rparr>)
          else None
      | _ \<Rightarrow> None)"

lemma libc_malloc_cases:
  "(libc_malloc n w = (0, w\<lparr>c_errno := ENOMEM\<rparr>) \<and> c_pick w (c_heap w) n = 0) \<or>
   (\<exists>p. p \<noteq> 0 \<and> p = c_pick w (c_heap w) n \<and>
      libc_malloc n w = (p, w\<lparr>c_heap := (c_heap w)(p \<mapsto> map (c_fill w p) [0..<unat n])\<rparr>))"
  by (simp add: libc_malloc_def Let_def)

lemma libc_malloc_fresh:
  "malloc_fresh w \<Longrightarrow> libc_malloc n w = (p, w') \<Longrightarrow> p \<noteq> 0 \<Longrightarrow> c_heap w p = None"
  by (auto simp: libc_malloc_def malloc_fresh_def Let_def split: if_splits)

section \<open>Streams\<close>

text \<open>
  One call of \<open>fprintf\<close>/\<open>fputs\<close>/\<open>fputc\<close> with the text it writes. The result says whether
  it succeeded; a call that fails has written nothing.
\<close>

definition libc_fput :: "stream \<Rightarrow> string \<Rightarrow> 'a libc_scheme \<Rightarrow> bool \<times> 'a libc_scheme" where
  "libc_fput s str w =
     (if c_write_fails w s (c_out w s) str then (False, w\<lparr>c_errno := EIO\<rparr>)
      else (True, w\<lparr>c_out := (c_out w)(s := c_out w s @ str)\<rparr>))"

definition libc_fopen_w :: "string \<Rightarrow> 'a libc_scheme \<Rightarrow> stream option \<times> 'a libc_scheme" where
  "libc_fopen_w name w =
     (if c_fopen_fails w name then (None, w\<lparr>c_errno := ENOENT\<rparr>)
      else (Some (File name), w\<lparr>c_out := (c_out w)(File name := [])\<rparr>))"

lemma libc_fput_ok:
  "writes_ok w \<Longrightarrow> libc_fput s str w = (True, w\<lparr>c_out := (c_out w)(s := c_out w s @ str)\<rparr>)"
  by (simp add: libc_fput_def writes_ok_def)

text \<open>The fields that describe the implementation never change.\<close>

definition same_libc_params :: "'a libc_scheme \<Rightarrow> 'b libc_scheme \<Rightarrow> bool" where
  "same_libc_params w w' \<longleftrightarrow> c_pick w' = c_pick w \<and> c_fill w' = c_fill w \<and> c_indet w' = c_indet w \<and>
     c_write_fails w' = c_write_fails w \<and> c_fopen_fails w' = c_fopen_fails w"

lemma same_libc_params_refl [simp]: "same_libc_params w w"
  by (simp add: same_libc_params_def)

lemma same_libc_params_trans:
  "same_libc_params u v \<Longrightarrow> same_libc_params v w \<Longrightarrow> same_libc_params u w"
  by (simp add: same_libc_params_def)

lemma same_libc_params_malloc_fresh:
  "same_libc_params w w' \<Longrightarrow> malloc_fresh w' = malloc_fresh w"
  by (simp add: same_libc_params_def malloc_fresh_def)

lemma same_libc_params_writes_ok:
  "same_libc_params w w' \<Longrightarrow> writes_ok w' = writes_ok w"
  by (simp add: same_libc_params_def writes_ok_def)

lemma malloc_fresh_update [simp]:
  "malloc_fresh (w\<lparr>c_heap := h\<rparr>) = malloc_fresh w"
  "malloc_fresh (w\<lparr>c_errno := e\<rparr>) = malloc_fresh w"
  "malloc_fresh (w\<lparr>c_out := out\<rparr>) = malloc_fresh w"
  by (simp_all add: malloc_fresh_def)

lemma writes_ok_update [simp]:
  "writes_ok (w\<lparr>c_heap := h\<rparr>) = writes_ok w"
  "writes_ok (w\<lparr>c_errno := e\<rparr>) = writes_ok w"
  "writes_ok (w\<lparr>c_out := out\<rparr>) = writes_ok w"
  by (simp_all add: writes_ok_def)

end
