(* ===== verification/MutUint64.thy ===== *)
theory MutUint64
  imports MutLibc
begin

text \<open>
  The 64-bit counter as two 32-bit words: src/src/uint64/struct/mut_uint64.c, the default
  \<open>mut_opt_uint64=struct\<close> of the Makefile.
\<close>

section \<open>The counter and its operations\<close>

record mut_uint64 =
  hi :: u32
  lo :: u32

text \<open>The number a pair of words stands for.\<close>

definition u64_val :: "mut_uint64 \<Rightarrow> nat" where
  "u64_val x = unat (hi x) * 2 ^ 32 + unat (lo x)"

text \<open>\<open>ULONG_MAX\<close> of the 32-bit build.\<close>

definition ULONG_MAX :: u32 where
  "ULONG_MAX = 0xFFFFFFFF"

definition mut_uint64_from_uint :: "u32 \<Rightarrow> mut_uint64" where
  "mut_uint64_from_uint ui = \<lparr>hi = 0, lo = ui\<rparr>"

text \<open>
  \<open>ans\<close> is an automatic variable without an initialiser, and the carry branch reads
  \<open>ans.hi\<close>. Its indeterminate contents are the first argument.
\<close>

definition mut_uint64_inc :: "mut_uint64 \<Rightarrow> mut_uint64 \<Rightarrow> u32 \<Rightarrow> mut_uint64" where
  "mut_uint64_inc ans xui ui =
     (if ULONG_MAX - lo xui < ui
      then let ans = ans\<lparr>lo := (if ui < lo xui then ui - (ULONG_MAX - lo xui) - 1
                                else lo xui - (ULONG_MAX - ui) - 1)\<rparr>
           in ans\<lparr>hi := hi ans + 1\<rparr>
      else ans\<lparr>lo := lo xui + ui, hi := hi xui\<rparr>)"

definition mut_uint64_dec :: "mut_uint64 \<Rightarrow> mut_uint64 \<Rightarrow> u32 \<Rightarrow> mut_uint64 option" where
  "mut_uint64_dec ans xui ui =
     (if lo xui < ui
      then do {
        assert_c (0 < hi xui);
        let ans = ans\<lparr>hi := hi ans - 1\<rparr>;
        Some (ans\<lparr>lo := ULONG_MAX - (ui - lo xui) + 1\<rparr>)
      }
      else Some (ans\<lparr>hi := hi xui, lo := lo xui - ui\<rparr>))"

definition mut_uint64_lt :: "mut_uint64 \<Rightarrow> mut_uint64 \<Rightarrow> bool" where
  "mut_uint64_lt a b \<longleftrightarrow> hi a \<le> hi b \<and> lo a < lo b"

section \<open>Division by ten, a nibble at a time\<close>

definition mut_uint64_chunk_bits :: nat where "mut_uint64_chunk_bits = 4"

definition mut_uint64_chunk_mask :: u32 where
  "mut_uint64_chunk_mask = push_bit mut_uint64_chunk_bits 1 - 1"

definition mut_uint64_2chunk_bits :: nat where
  "mut_uint64_2chunk_bits = mut_uint64_chunk_bits * 2"

definition mut_uint64_2chunk_mask :: u32 where
  "mut_uint64_2chunk_mask = push_bit mut_uint64_2chunk_bits 1 - 1"

definition mut_uint64_init_shift :: nat where
  "mut_uint64_init_shift = 4 * mut_uint64_2chunk_bits - mut_uint64_chunk_bits"

definition mut_uint64_n_shifts :: nat where
  "mut_uint64_n_shifts = (4 * mut_uint64_2chunk_bits) div mut_uint64_chunk_bits"

lemmas udiv10_consts =
  mut_uint64_chunk_bits_def mut_uint64_chunk_mask_def mut_uint64_2chunk_bits_def
  mut_uint64_2chunk_mask_def mut_uint64_init_shift_def mut_uint64_n_shifts_def

text \<open>The mask for the next nibble, and the word with the remainder put back in place.\<close>

definition udiv10_mask :: "u32 \<Rightarrow> u32 \<Rightarrow> u32" where
  "udiv10_mask x msk =
     (if x = 0 then push_bit mut_uint64_chunk_bits msk OR msk else mut_uint64_2chunk_mask)"

definition udiv10_put :: "u32 \<Rightarrow> nat \<Rightarrow> u32 \<Rightarrow> u32" where
  "udiv10_put r shift n =
     push_bit shift r OR (n AND NOT (push_bit shift mut_uint64_chunk_mask))"

text \<open>
  The \<open>do\<close> loop over the high word, which leaves the low nibble to the code after it, and
  the \<open>for\<close> loop over the low word, whose first argument is the number of iterations left.
  The shift is a natural number; it only goes below zero in C after its last use.
\<close>

function udiv10_hi :: "nat \<Rightarrow> u32 \<Rightarrow> u32 \<Rightarrow> u32 \<Rightarrow> u32 \<times> u32 \<times> u32" where
  "udiv10_hi shift n_hi msk ans_hi =
     (let x = drop_bit shift n_hi AND msk;
          q = x div 10;
          r = x mod 10;
          ans_hi = push_bit mut_uint64_chunk_bits ans_hi OR q;
          msk = udiv10_mask x msk;
          n_hi = udiv10_put r shift n_hi;
          shift = shift - mut_uint64_chunk_bits
      in if shift \<noteq> 0 then udiv10_hi shift n_hi msk ans_hi else (n_hi, msk, ans_hi))"
  by pat_completeness auto
termination
  by (relation "measure fst") (auto simp: mut_uint64_chunk_bits_def)

fun udiv10_lo :: "nat \<Rightarrow> nat \<Rightarrow> u32 \<Rightarrow> u32 \<Rightarrow> u32 \<Rightarrow> u32 \<Rightarrow> u32 \<times> u32" where
  "udiv10_lo 0 shift n_lo msk ans_lo r = (ans_lo, r)"
| "udiv10_lo (Suc i) shift n_lo msk ans_lo r =
     (let x = drop_bit shift n_lo AND msk;
          q = x div 10;
          r = x mod 10;
          ans_lo = push_bit mut_uint64_chunk_bits ans_lo OR q;
          msk = udiv10_mask x msk;
          n_lo = udiv10_put r shift n_lo;
          shift = shift - mut_uint64_chunk_bits
      in udiv10_lo i shift n_lo msk ans_lo r)"

declare udiv10_hi.simps [simp del]

text \<open>The quotient (written back to \<open>*n\<close>) and the remainder.\<close>

definition mut_uint64_udiv10 :: "mut_uint64 \<Rightarrow> mut_uint64 \<times> u32" where
  "mut_uint64_udiv10 n =
     (let shift = mut_uint64_init_shift;
          (n_hi, msk, ans_hi) = udiv10_hi shift (hi n) mut_uint64_chunk_mask 0;
          x = n_hi AND msk;
          q = x div 10;
          r = x mod 10;
          ans_hi = push_bit mut_uint64_chunk_bits ans_hi OR q;
          msk = mut_uint64_2chunk_mask;
          shift = mut_uint64_init_shift;
          n_lo = lo n;
          x = (push_bit mut_uint64_chunk_bits r OR drop_bit shift n_lo) AND msk;
          q = x div 10;
          r = x mod 10;
          ans_lo = push_bit mut_uint64_chunk_bits 0 OR q;
          msk = udiv10_mask x msk;
          n_lo = udiv10_put r shift n_lo;
          shift = shift - mut_uint64_chunk_bits;
          (ans_lo, r) = udiv10_lo (mut_uint64_n_shifts - 1) shift n_lo msk ans_lo r
      in (\<lparr>hi = ans_hi, lo = ans_lo\<rparr>, r))"

subsection \<open>One step of the division\<close>


lemma udiv10_vals:
  "mut_uint64_chunk_bits = 4" "mut_uint64_chunk_mask = 15"
  "mut_uint64_2chunk_bits = 8" "mut_uint64_2chunk_mask = 255"
  "mut_uint64_init_shift = 28" "mut_uint64_n_shifts = 8"
  by (simp_all add: udiv10_consts)

lemma udiv10_mask_val:
  assumes "msk = mask (4 * j)" and "1 \<le> j"
  shows "udiv10_mask x msk = (if x = 0 then mask (4 * Suc j) else mask 8)"
proof -
  have "push_bit 4 (mask (4 * j)) OR mask (4 * j) = (mask (4 * Suc j) :: u32)"
    using assms(2) by (intro bit_eqI) (auto simp: bit_simps)
  moreover have "(0xFF :: u32) = mask 8"
    by (simp add: mask_eq_exp_minus_1)
  ultimately show ?thesis
    using assms(1) by (simp add: udiv10_mask_def udiv10_consts)
qed

lemma bit_small_u32: "unat (r :: u32) < 2 ^ k \<Longrightarrow> bit r i \<Longrightarrow> i < k"
proof -
  assume "unat r < 2 ^ k" and "bit r i"
  then have "take_bit k (unat r) = unat r" and "bit (unat r) i"
    by (simp_all add: take_bit_nat_eq_self_iff bit_unsigned_iff bit_imp_le_length)
  then show "i < k" by (metis bit_take_bit_iff)
qed

lemma drop_bit_eq_unat: "unat (drop_bit s (n :: u32)) = unat n div 2 ^ s"
  by (subst unat_drop_bit_eq) (rule drop_bit_eq_div)

lemma take_bit_eq_unat: "unat (take_bit s (n :: u32)) = unat n mod 2 ^ s"
  by (subst unsigned_take_bit_eq) (rule take_bit_eq_mod)

lemma udiv10_put_facts:
  assumes r: "unat r < 16" and s: "s \<le> 28"
  shows "unat (udiv10_put r s n) div 2 ^ (s + 4) = unat n div 2 ^ (s + 4)"
    and "unat (udiv10_put r s n) div 2 ^ s mod 16 = unat r"
    and "unat (udiv10_put r s n) mod 2 ^ s = unat n mod 2 ^ s"
proof -
  have b: "bit r i \<Longrightarrow> i < 4" for i
    using bit_small_u32 [of r 4 i] r by simp
  have F: "(0xF :: u32) = mask 4"
    by (simp add: mask_eq_exp_minus_1)
  have "drop_bit (s + 4) (udiv10_put r s n) = drop_bit (s + 4) n"
    by (rule bit_eqI) (auto simp: udiv10_put_def udiv10_consts F bit_simps dest: b bit_imp_le_length)
  then show "unat (udiv10_put r s n) div 2 ^ (s + 4) = unat n div 2 ^ (s + 4)"
    by (metis drop_bit_eq_unat)
  have "take_bit 4 (drop_bit s (udiv10_put r s n)) = r"
    using s by (intro bit_eqI) (auto simp: udiv10_put_def udiv10_consts F bit_simps dest: b)
  then have "unat (take_bit 4 (drop_bit s (udiv10_put r s n))) = unat r" by simp
  then show "unat (udiv10_put r s n) div 2 ^ s mod 16 = unat r"
    by (simp add: take_bit_eq_unat drop_bit_eq_unat)
  have "take_bit s (udiv10_put r s n) = take_bit s n"
    by (rule bit_eqI) (auto simp: udiv10_put_def udiv10_consts F bit_simps)
  then show "unat (udiv10_put r s n) mod 2 ^ s = unat n mod 2 ^ s"
    by (metis take_bit_eq_unat)
qed

lemma udiv10_append:
  assumes "unat ans < 2 ^ 28" and "unat q < 16"
  shows "unat (push_bit 4 ans OR (q :: u32)) = 16 * unat ans + unat q"
proof -
  have "push_bit 4 ans AND q = 0"
    using bit_small_u32 [of q 4] assms(2) by (intro bit_eqI) (force simp: bit_simps)
  then have "push_bit 4 ans OR q = push_bit 4 ans + q"
    by (simp add: disjunctive_add_eq_or)
  moreover have "unat (push_bit 4 ans) = 16 * unat ans"
    using assms(1) by (simp add: push_bit_eq_mult unat_mult_lem [THEN iffD1])
  ultimately show ?thesis
    using assms by (simp add: unat_add_lem [THEN iffD1])
qed
text \<open>
  The invariant with \<open>t\<close> low bits of the dividend \<open>N0\<close> still to be read, and \<open>P\<close> the
  remainder carried in from the word above.
\<close>

definition udiv10_inv :: "nat \<Rightarrow> nat \<Rightarrow> nat \<Rightarrow> u32 \<Rightarrow> u32 \<Rightarrow> u32 \<Rightarrow> nat \<Rightarrow> bool" where
  "udiv10_inv P N0 t n msk ans r \<longleftrightarrow>
     P < 10 \<and> r < 10 \<and>
     (\<exists>j. 1 \<le> j \<and> msk = mask (4 * j) \<and> unat n div 2 ^ t mod 2 ^ (4 * (j - 1)) = r) \<and>
     unat n mod 2 ^ t = N0 mod 2 ^ t \<and>
     10 * unat ans + r = P * 2 ^ (32 - t) + N0 div 2 ^ t"

lemma div_pow_split: "(N :: nat) div 2 ^ s = 16 * (N div 2 ^ (s + 4)) + N div 2 ^ s mod 16"
proof -
  have "N div 2 ^ (s + 4) = N div 2 ^ s div 16"
    by (simp add: power_add div_mult2_eq)
  then show ?thesis by simp
qed

lemma mod_pow_nibble: "(M :: nat) mod 2 ^ (s + 4) = N mod 2 ^ (s + 4) \<Longrightarrow>
  M div 2 ^ s mod 16 = N div 2 ^ s mod 16"
  and mod_pow_low: "M mod 2 ^ (s + 4) = N mod 2 ^ (s + 4) \<Longrightarrow> M mod 2 ^ s = N mod 2 ^ s"
proof -
  assume eq: "M mod 2 ^ (s + 4) = N mod 2 ^ (s + 4)"
  have "K div 2 ^ s mod 16 = K mod 2 ^ (s + 4) div 2 ^ s" for K :: nat
    by (simp add: power_add mod_mult2_eq)
  with eq show "M div 2 ^ s mod 16 = N div 2 ^ s mod 16" by simp
  have "K mod 2 ^ s = K mod 2 ^ (s + 4) mod 2 ^ s" for K :: nat
    by (simp add: power_add mod_mult2_eq)
  with eq show "M mod 2 ^ s = N mod 2 ^ s" by metis
qed

lemma udiv10_x:
  assumes "udiv10_inv P N0 (s + 4) n msk ans r" and "s \<le> 28"
  shows "unat (drop_bit s n AND msk) = 16 * r + N0 div 2 ^ s mod 16"
proof -
  from assms(1) obtain j where j: "1 \<le> j" "msk = mask (4 * j)"
    and A: "unat n div 2 ^ (s + 4) mod 2 ^ (4 * (j - 1)) = r"
    and low: "unat n mod 2 ^ (s + 4) = N0 mod 2 ^ (s + 4)"
    by (auto simp: udiv10_inv_def)
  have pow: "(2::nat) ^ (4 * j) = 16 * 2 ^ (4 * (j - 1))"
    using j(1) by (cases j) (simp_all add: power_add)
  have "unat (drop_bit s n AND msk) = unat n div 2 ^ s mod 2 ^ (4 * j)"
    by (simp add: j(2) flip: take_bit_eq_mask take_bit_eq_unat drop_bit_eq_unat)
  also have "\<dots> = (16 * (unat n div 2 ^ (s + 4)) + unat n div 2 ^ s mod 16) mod (16 * 2 ^ (4 * (j - 1)))"
    by (subst div_pow_split) (simp add: pow)
  also have "\<dots> = 16 * r + unat n div 2 ^ s mod 16"
    using A by (simp add: mod_mult2_eq)
  also have "unat n div 2 ^ s mod 16 = N0 div 2 ^ s mod 16"
    using low by (rule mod_pow_nibble)
  finally show ?thesis .
qed

lemma udiv10_ans_bound:
  assumes "udiv10_inv P N0 (s + 4) n msk ans r" and "s \<le> 28" and "N0 < 2 ^ 32"
  shows "unat ans < 2 ^ 28"
proof -
  have "N0 div 2 ^ (s + 4) < 2 ^ (32 - (s + 4))"
    using assms(2,3) by (subst div_less_iff_less_mult) (auto simp flip: power_add)
  moreover have "(2::nat) ^ (32 - (s + 4)) \<le> 2 ^ 28" by (rule power_increasing) auto
  moreover have "10 * unat ans \<le> 9 * 2 ^ (32 - (s + 4)) + N0 div 2 ^ (s + 4)"
  proof -
    have "P \<le> 9" and "10 * unat ans + r = P * 2 ^ (32 - (s + 4)) + N0 div 2 ^ (s + 4)"
      using assms(1) by (auto simp: udiv10_inv_def)
    moreover have "P * 2 ^ (32 - (s + 4)) \<le> 9 * (2::nat) ^ (32 - (s + 4))"
      using \<open>P \<le> 9\<close> by simp
    ultimately show ?thesis by linarith
  qed
  ultimately show ?thesis by linarith
qed

lemma udiv10_step:
  assumes I: "udiv10_inv P N0 (s + 4) n msk ans r" and s: "s \<le> 28" and N0: "N0 < 2 ^ 32"
    and x: "x = drop_bit s n AND msk"
  shows "udiv10_inv P N0 s (udiv10_put (x mod 10) s n) (udiv10_mask x msk)
           (push_bit 4 ans OR (x div 10)) (unat (x mod 10))"
proof -
  from I obtain j where j: "1 \<le> j" "msk = mask (4 * j)" and r: "r < 10" and P: "P < 10"
    and A: "unat n div 2 ^ (s + 4) mod 2 ^ (4 * (j - 1)) = r"
    and low: "unat n mod 2 ^ (s + 4) = N0 mod 2 ^ (s + 4)"
    and val: "10 * unat ans + r = P * 2 ^ (32 - (s + 4)) + N0 div 2 ^ (s + 4)"
    by (auto simp: udiv10_inv_def)
  let ?b = "N0 div 2 ^ s mod 16"
  let ?n = "udiv10_put (x mod 10) s n"
  have ux: "unat x = 16 * r + ?b" unfolding x using I s by (rule udiv10_x)
  have ur: "unat (x mod 10) = unat x mod 10" and uq: "unat (x div 10) = unat x div 10"
    by (simp_all add: unat_mod unat_div)
  have b16: "?b < 16" by simp
  have q16: "unat (x div 10) < 16" using ux r b16 unfolding uq by linarith
  have r16: "unat (x mod 10) < 16" unfolding ur by linarith
  note put = udiv10_put_facts [OF r16 s, of n]
  have low': "unat ?n mod 2 ^ s = N0 mod 2 ^ s"
    using put(3) mod_pow_low [OF low] by simp
  have ans': "unat (push_bit 4 ans OR (x div 10)) = 16 * unat ans + unat x div 10"
    using udiv10_append [OF udiv10_ans_bound [OF I s N0] q16] uq by simp
  have e: "(2::nat) ^ (32 - s) = 16 * 2 ^ (32 - (s + 4))"
    using s by (simp flip: power_Suc add: eval_nat_numeral) (simp add: Suc_diff_le numeral_eq_Suc)
  have val': "10 * unat (push_bit 4 ans OR (x div 10)) + unat (x mod 10)
      = P * 2 ^ (32 - s) + N0 div 2 ^ s"
    unfolding ans' ur e using val ux div_pow_split [of N0 s] mult_div_mod_eq [of 10 "unat x"]
    by (simp add: algebra_simps)
  have msk': "\<exists>j'. 1 \<le> j' \<and> udiv10_mask x msk = mask (4 * j') \<and>
      unat ?n div 2 ^ s mod 2 ^ (4 * (j' - 1)) = unat (x mod 10)"
  proof (cases "x = 0")
    case True
    then have "unat x = 0" by simp
    then have "r = 0" using ux by simp
    have "unat ?n div 2 ^ s = 16 * (unat n div 2 ^ (s + 4))"
      using div_pow_split [of "unat ?n" s] put(1,2) True by simp
    moreover have "(2::nat) ^ (4 * j) = 16 * 2 ^ (4 * (j - 1))"
      using j(1) by (cases j) (simp_all add: power_add)
    ultimately have "unat ?n div 2 ^ s mod 2 ^ (4 * j) = 0"
      using A \<open>r = 0\<close> by simp
    then show ?thesis
      using True udiv10_mask_val [OF j(2,1), of x] by (intro exI [of _ "Suc j"]) simp
  next
    case False
    then show ?thesis
      using put(2) udiv10_mask_val [OF j(2,1), of x] by (intro exI [of _ 2]) simp
  qed
  show ?thesis
    unfolding udiv10_inv_def using P ur low' val' msk' by simp
qed
lemma udiv10_hi_inv:
  assumes "udiv10_inv P N0 (4 * Suc k + 4) n msk ans r" and "4 * Suc k \<le> 28" and "N0 < 2 ^ 32"
    and "udiv10_hi (4 * Suc k) n msk ans = (n', msk', ans')"
  shows "\<exists>r'. udiv10_inv P N0 4 n' msk' ans' r'"
  using assms
proof (induction k arbitrary: n msk ans r)
  case 0
  then show ?case
    using udiv10_step [OF 0(1) 0(2,3) refl]
    by (auto simp: udiv10_hi.simps [of 4] Let_def mut_uint64_chunk_bits_def)
next
  case (Suc k)
  let ?x = "drop_bit (4 * Suc (Suc k)) n AND msk"
  have "udiv10_hi (4 * Suc k) (udiv10_put (?x mod 10) (4 * Suc (Suc k)) n) (udiv10_mask ?x msk)
      (push_bit 4 ans OR (?x div 10)) = (n', msk', ans')"
    using Suc.prems(4)
    by (simp add: udiv10_hi.simps [of "8 + 4 * k"] Let_def mut_uint64_chunk_bits_def)
  moreover have "udiv10_inv P N0 (4 * Suc k + 4) (udiv10_put (?x mod 10) (4 * Suc (Suc k)) n)
      (udiv10_mask ?x msk) (push_bit 4 ans OR (?x div 10)) (unat (?x mod 10))"
    using udiv10_step [OF Suc.prems(1) Suc.prems(2,3) refl] by (simp add: add.commute)
  ultimately show ?case
    using Suc.IH Suc.prems(2,3) by simp
qed

lemma udiv10_lo_inv:
  assumes "udiv10_inv P N0 (4 * k) n msk ans (unat r)" and "4 * k \<le> 28" and "N0 < 2 ^ 32"
    and "udiv10_lo k (4 * k - 4) n msk ans r = (ans', r')"
  shows "\<exists>n' msk'. udiv10_inv P N0 0 n' msk' ans' (unat r')"
  using assms
proof (induction k arbitrary: n msk ans r)
  case 0
  then show ?case by auto
next
  case (Suc k)
  let ?x = "drop_bit (4 * k) n AND msk"
  have I: "udiv10_inv P N0 (4 * k + 4) n msk ans (unat r)"
    using Suc.prems(1) by (simp add: add.commute)
  have "udiv10_lo k (4 * k - 4) (udiv10_put (?x mod 10) (4 * k) n) (udiv10_mask ?x msk)
      (push_bit 4 ans OR (?x div 10)) (?x mod 10) = (ans', r')"
    using Suc.prems(4) by (simp add: Let_def mut_uint64_chunk_bits_def)
  moreover have "udiv10_inv P N0 (4 * k) (udiv10_put (?x mod 10) (4 * k) n)
      (udiv10_mask ?x msk) (push_bit 4 ans OR (?x div 10)) (unat (?x mod 10))"
    using udiv10_step [OF I _ Suc.prems(3) refl] Suc.prems(2) by simp
  ultimately show ?case
    using Suc.IH Suc.prems(2,3) by simp
qed

lemma udiv10_inv_start: "udiv10_inv 0 (unat n) 32 n 15 0 0"
proof -
  have "(15 :: u32) = mask (4 * 1)" by (simp add: mask_eq_exp_minus_1)
  moreover have "unat n < 2 ^ 32" using unsigned_less [of n] by simp
  ultimately show ?thesis unfolding udiv10_inv_def by (auto intro!: exI [of _ 1])
qed

text \<open>The first nibble of the low word, read together with the remainder of the high word.\<close>

lemma udiv10_inv_middle:
  assumes P: "unat p < 10" and x: "x = (push_bit 4 p OR drop_bit 28 n) AND 255"
  shows "udiv10_inv (unat p) (unat n) 28 (udiv10_put (x mod 10) 28 n)
     (if x = 0 then push_bit 4 255 OR 255 else 255) (push_bit 4 0 OR (x div 10)) (unat (x mod 10))"
proof -
  have n32: "unat n < 2 ^ 32" using unsigned_less [of n] by simp
  have top: "unat (drop_bit 28 n) = unat n div 2 ^ 28" "unat n div 2 ^ 28 < 16"
    using n32 by (auto simp: drop_bit_eq_unat)
  have "unat (push_bit 4 p OR drop_bit 28 n) = 16 * unat p + unat n div 2 ^ 28"
    using udiv10_append [of p "drop_bit 28 n"] P top by simp
  moreover have "(255 :: u32) = mask 8" by (simp add: mask_eq_exp_minus_1)
  moreover have bound: "(16 * unat p + unat n div 2 ^ 28) mod 2 ^ 8 = 16 * unat p + unat n div 2 ^ 28"
    using P top(2) by simp
  ultimately have ux: "unat x = 16 * unat p + unat n div 2 ^ 28"
    using P top(2) unfolding x by (metis (no_types, lifting) bound take_bit_eq_mask take_bit_eq_unat)
  have ur: "unat (x mod 10) = unat x mod 10" and uq: "unat (x div 10) = unat x div 10"
    by (simp_all add: unat_mod unat_div)
  have r16: "unat (x mod 10) < 16" unfolding ur by linarith
  note put = udiv10_put_facts [OF r16, of 28 n]
  have small: "unat (udiv10_put (x mod 10) 28 n) div 2 ^ 28 < 16"
  proof -
    have "unat (udiv10_put (x mod 10) 28 n) < 2 ^ 32"
      using unsigned_less [of "udiv10_put (x mod 10) 28 n"] by simp
    then show ?thesis by auto
  qed
  then have top': "unat (udiv10_put (x mod 10) 28 n) div 2 ^ 28 = unat (x mod 10)"
    using put(2) by simp
  have m8: "(255 :: u32) = mask (4 * 2)" and m12: "push_bit 4 255 OR (255 :: u32) = mask (4 * 3)"
    by (simp_all add: mask_eq_exp_minus_1)
  have msk: "\<exists>j. 1 \<le> j \<and> (if x = 0 then push_bit 4 255 OR 255 else 255) = (mask (4 * j) :: u32) \<and>
      unat (udiv10_put (x mod 10) 28 n) div 2 ^ 28 mod 2 ^ (4 * (j - 1)) = unat (x mod 10)"
  proof (cases "x = 0")
    case True
    then show ?thesis using top' m12 by (intro exI [of _ 3]) simp
  next
    case False
    then show ?thesis using top' m8 r16 by (intro exI [of _ 2]) simp
  qed
  have "10 * unat (x div 10) + unat (x mod 10) = unat p * 2 ^ (32 - 28) + unat n div 2 ^ 28"
    unfolding ur uq using ux by simp
  then show ?thesis
    unfolding udiv10_inv_def using P ur msk put(3) by simp
qed

subsection \<open>The whole division\<close>

lemma udiv10_val:
  "mut_uint64_udiv10 n = (q, r) \<Longrightarrow> u64_val q = u64_val n div 10 \<and> unat r = u64_val n mod 10"
proof -
  assume udiv: "mut_uint64_udiv10 n = (q, r)"
  obtain nh mh ah where H: "udiv10_hi 28 (hi n) 15 0 = (nh, mh, ah)" by (metis prod_cases3)
  let ?xh = "nh AND mh"
  let ?p = "?xh mod 10"
  let ?x = "(push_bit 4 ?p OR drop_bit 28 (lo n)) AND 255"
  let ?m = "if ?x = 0 then push_bit 4 255 OR 255 else 255"
  let ?n = "udiv10_put (?x mod 10) 28 (lo n)"
  obtain al rl where L: "udiv10_lo 7 24 ?n ?m (push_bit 4 0 OR (?x div 10)) (?x mod 10) = (al, rl)"
    by fastforce
  have res: "q = \<lparr>hi = push_bit 4 ah OR (?xh div 10), lo = al\<rparr>" "r = rl"
    using udiv H L unfolding mut_uint64_udiv10_def udiv10_mask_def udiv10_vals Let_def
    by (simp_all split: prod.splits)
  have h32: "unat (hi n) < 2 ^ 32" and l32: "unat (lo n) < 2 ^ 32"
    using unsigned_less [of "hi n"] unsigned_less [of "lo n"] by simp_all
  obtain rh where "udiv10_inv 0 (unat (hi n)) (0 + 4) nh mh ah rh"
    using udiv10_hi_inv [of 0 "unat (hi n)" 6 "hi n" 15 0 0 nh mh ah] udiv10_inv_start [of "hi n"] H h32
    by auto
  from udiv10_step [OF this _ h32 refl]
  have hi: "10 * unat (push_bit 4 ah OR (?xh div 10)) + unat ?p = unat (hi n)" and p: "unat ?p < 10"
    by (simp_all add: udiv10_inv_def)
  from udiv10_inv_middle [OF p refl]
  have "udiv10_inv (unat ?p) (unat (lo n)) (4 * 7) ?n ?m (push_bit 4 0 OR (?x div 10)) (unat (?x mod 10))"
    by simp
  from udiv10_lo_inv [OF this _ l32] L
  have lo: "10 * unat al + unat rl = unat ?p * 2 ^ 32 + unat (lo n)" and "unat rl < 10"
    by (auto simp: udiv10_inv_def)
  have "u64_val n = 10 * u64_val q + unat r"
    using hi lo by (simp add: u64_val_def res)
  with \<open>unat rl < 10\<close> show ?thesis by (simp add: res(2))
qed

lemma udiv10_fst: "u64_val (fst (mut_uint64_udiv10 n)) = u64_val n div 10"
  and udiv10_snd: "unat (snd (mut_uint64_udiv10 n)) = u64_val n mod 10"
  using udiv10_val [of n "fst (mut_uint64_udiv10 n)" "snd (mut_uint64_udiv10 n)"] by simp_all

lemma u64_val_bound: "u64_val x < 2 ^ 64"
  using unat_u32_less [of "hi x"] unat_u32_less [of "lo x"] by (simp add: u64_val_def)

lemma u64_val_eq_0: "u64_val x = 0 \<longleftrightarrow> hi x = 0 \<and> lo x = 0"
  by (auto simp: u64_val_def unat_eq_0)

section \<open>Decimal output\<close>

definition mut_uint64_max_decimal_chars :: nat where "mut_uint64_max_decimal_chars = 20"

text \<open>
  The loop that fills \<open>buffer\<close> from its end. \<open>i\<close> is the index of the first character
  written and \<open>s\<close> the characters from there on. \<open>mut_assert_check(i >= 0)\<close> cannot fail,
  since \<open>i\<close> is a \<open>size_t\<close>; a store below the buffer is undefined, hence \<open>None\<close>.
\<close>

function mut_uint64_digits :: "mut_uint64 \<Rightarrow> nat \<Rightarrow> string \<Rightarrow> string option" where
  "mut_uint64_digits ui i s =
     (let (ui', r) = mut_uint64_udiv10 ui
      in if \<not> r < 10 then None
         else if i = 0 then None
         else let s = char_of (unat r + 48) # s
              in if hi ui' \<noteq> 0 \<or> lo ui' \<noteq> 0 then mut_uint64_digits ui' (i - 1) s else Some s)"
  by pat_completeness auto
termination
  by (relation "measure (\<lambda>(ui, i, s). i)") auto

declare mut_uint64_digits.simps [simp del]

definition mut_uint64_out :: "stream \<Rightarrow> mut_uint64 \<Rightarrow> 'a libc_scheme \<Rightarrow> (bool \<times> 'a libc_scheme) option" where
  "mut_uint64_out sink ui w = do {
     buffer \<leftarrow> mut_uint64_digits ui mut_uint64_max_decimal_chars [];
     Some (libc_fput sink buffer w)
   }"

lemma mut_uint64_digits_dec:
  assumes "u64_val ui < 10 ^ i" and "0 < i"
  shows "mut_uint64_digits ui i s = Some (dec_string (u64_val ui) @ s)"
  using assms
proof (induction i arbitrary: ui s)
  case 0
  then show ?case by simp
next
  case (Suc i)
  obtain q r where qr: "mut_uint64_udiv10 ui = (q, r)" by fastforce
  note v = udiv10_val [OF qr]
  have "r < 10" using v by (simp add: word_less_nat_alt)
  moreover have "char_of (unat r + 48) = digit_char (u64_val ui mod 10)"
    using v by (simp add: digit_char_def add.commute)
  ultimately have r: "r < 10" "char_of (unat r + 48) = digit_char (u64_val ui mod 10)" .
  show ?case
  proof (cases "u64_val q = 0")
    case True
    then have "u64_val ui < 10" using v by simp
    with True qr r show ?thesis
      by (simp add: mut_uint64_digits.simps [of ui] dec_string.simps [of "u64_val ui"] u64_val_eq_0)
  next
    case False
    then have "10 \<le> u64_val ui" and "u64_val q < 10 ^ i" and "0 < i"
      using v Suc.prems(1) by (auto intro: gr0I)
    moreover from False have "\<not> (hi q = 0 \<and> lo q = 0)" by (simp add: u64_val_eq_0)
    ultimately show ?thesis
      using qr r v Suc.IH [of q]
      by (simp add: mut_uint64_digits.simps [of ui] dec_string.simps [of "u64_val ui"] Let_def)
  qed
qed

lemma mut_uint64_out_dec:
  "mut_uint64_out sink ui w = Some (libc_fput sink (dec_string (u64_val ui)) w)"
proof -
  have "u64_val ui < 10 ^ 20" using u64_val_bound [of ui] by simp
  then show ?thesis
    by (simp add: mut_uint64_out_def mut_uint64_digits_dec mut_uint64_max_decimal_chars_def)
qed

section \<open>Increment, decrement, comparison\<close>

lemma ULONG_MAX_minus: "ULONG_MAX - x = - x - 1"
  by (simp add: ULONG_MAX_def)

lemma inc_carry_iff: "ULONG_MAX - lo x < d \<longleftrightarrow> 2 ^ 32 \<le> unat (lo x) + unat d"
proof -
  have "unat (ULONG_MAX - lo x) = 2 ^ 32 - 1 - unat (lo x)"
    using unat_u32_less [of "lo x"]
    by (simp add: ULONG_MAX_def unat_sub_if_size word_size)
  then show ?thesis
    using unat_u32_less [of "lo x"] by (simp add: word_less_nat_alt) linarith
qed

lemma mut_uint64_inc_lo: "lo (mut_uint64_inc ans x d) = lo x + d"
  by (simp add: mut_uint64_inc_def ULONG_MAX_minus Let_def)

lemma mut_uint64_inc_hi:
  "hi (mut_uint64_inc ans x d) =
     (if 2 ^ 32 \<le> unat (lo x) + unat d then hi ans + 1 else hi x)"
  by (simp add: mut_uint64_inc_def inc_carry_iff Let_def)

lemma mut_uint64_inc_val:
  assumes "unat (lo x) + unat d < 2 ^ 32"
  shows "u64_val (mut_uint64_inc ans x d) = u64_val x + unat d"
  using assms by (simp add: u64_val_def mut_uint64_inc_lo mut_uint64_inc_hi unat_add_lem [THEN iffD1])

lemma mut_uint64_dec_val:
  assumes "d \<le> lo x"
  shows "\<exists>y. mut_uint64_dec ans x d = Some y \<and> u64_val y = u64_val x - unat d"
proof -
  have "unat d \<le> unat (lo x)" using assms by (simp add: word_le_nat_alt)
  then show ?thesis
    using assms by (simp add: mut_uint64_dec_def u64_val_def unat_sub leD)
qed

lemma mut_uint64_lt_iff: "mut_uint64_lt a b \<longleftrightarrow> u64_val a < u64_val b \<and> lo a < lo b"
  using unat_u32_less [of "lo a"] unat_u32_less [of "lo b"]
  by (auto simp: mut_uint64_lt_def u64_val_def word_le_nat_alt word_less_nat_alt)

section \<open>Properties\<close>

text \<open>
  C31: \<open>mut_uint64_udiv10\<close> divides any 64-bit value by ten: the nibble-by-nibble algorithm
  leaves the quotient in \<open>*n\<close> and returns the remainder.
\<close>

theorem mut_uint64_udiv10_correct:
  "u64_val (fst (mut_uint64_udiv10 n)) = u64_val n div 10 \<and>
   unat (snd (mut_uint64_udiv10 n)) = u64_val n mod 10"
  by (simp add: udiv10_fst udiv10_snd)

text \<open>
  C34: \<open>mut_uint64_out\<close> always returns, never writes outside its 21-byte buffer, and writes
  a text that reads back in decimal as the value of the counter, in at most 20 characters.
\<close>

theorem mut_uint64_out_roundtrip:
  "\<exists>s. mut_uint64_out sink ui w = Some (libc_fput sink s w) \<and>
       parse_dec s = u64_val ui \<and> length s \<le> mut_uint64_max_decimal_chars"
proof -
  have "length (dec_string (u64_val ui)) \<le> 20"
    using u64_val_bound [of ui] by (intro dec_string_length) simp_all
  then show ?thesis
    by (auto simp: mut_uint64_out_dec parse_dec_string mut_uint64_max_decimal_chars_def)
qed

text \<open>
  C35: \<open>mut_uint64_inc\<close> adds \<open>d\<close> modulo \<open>2^64\<close> exactly when there is no carry out of the low
  word, or the uninitialised \<open>ans.hi\<close> happens to hold the high word of the argument.
\<close>

theorem mut_uint64_inc_exact_iff:
  "u64_val (mut_uint64_inc ans x d) = (u64_val x + unat d) mod 2 ^ 64 \<longleftrightarrow>
   unat (lo x) + unat d < 2 ^ 32 \<or> hi ans = hi x"
proof (cases "unat (lo x) + unat d < 2 ^ 32")
  case True
  have "u64_val x + unat d < 2 ^ 64"
    using True unat_u32_less [of "hi x"] by (simp add: u64_val_def)
  with True show ?thesis by (simp add: mut_uint64_inc_val)
next
  case False
  have carry: "unat (lo x + d) + 2 ^ 32 = unat (lo x) + unat d"
    using False unat_u32_less [of "lo x"] unat_u32_less [of d]
    by (simp add: unat_word_ariths le_mod_geq)
  have hi1: "unat (h + 1) = (unat h + 1) mod 2 ^ 32" for h :: u32
    by (simp add: unat_word_ariths)
  have "(u64_val x + unat d) mod 2 ^ 64 = unat (hi x + 1) * 2 ^ 32 + unat (lo x + d)"
  proof -
    have split: "(A * 2 ^ 32 + L) mod 2 ^ 64 = A mod 2 ^ 32 * 2 ^ 32 + L" if "L < 2 ^ 32" for A L :: nat
      using that mod_mult2_eq [of "A * 2 ^ 32 + L" "2 ^ 32" "2 ^ 32"] by simp
    moreover have "u64_val x + unat d = (unat (hi x) + 1) * 2 ^ 32 + unat (lo x + d)"
      using carry by (simp add: u64_val_def)
    ultimately show ?thesis
      unfolding hi1 using unat_u32_less [of "lo x + d"] by (simp only:) (rule split, simp)
  qed
  moreover have "u64_val (mut_uint64_inc ans x d) = unat (hi ans + 1) * 2 ^ 32 + unat (lo x + d)"
    using False by (simp add: u64_val_def mut_uint64_inc_lo mut_uint64_inc_hi)
  ultimately show ?thesis
    using False by (simp add: word_unat_eq_iff [symmetric])
qed

text \<open>
  \<open>mut_uint64_lt a b\<close> implies that \<open>a\<close> is less than \<open>b\<close>, but it misses every pair whose
  low words are not in the same order.
\<close>

theorem mut_uint64_lt_characterised:
  "mut_uint64_lt a b \<longleftrightarrow> u64_val a < u64_val b \<and> lo a < lo b"
  by (rule mut_uint64_lt_iff)

end
