(* ===== verification/MutCounter.thy ===== *)
theory MutCounter
  imports MutUint64
begin

text \<open>
  \<open>mut_counter\<close>: the counter interface (src/src/counter) and its three providers: the
  64-bit pair of words (\<open>counter=uint64\<close>, \<open>uint64=struct\<close>, the default), the
  \<open>long long\<close> variant (\<open>uint64=longlong\<close>) and \<open>unsigned long\<close> (\<open>counter=ulong\<close>).
\<close>

section \<open>The default provider: src/src/counter/uint64\<close>

type_synonym mut_counter = mut_uint64

definition mut_counter_from_uint :: "u32 \<Rightarrow> mut_counter" where
  "mut_counter_from_uint ui = mut_uint64_from_uint ui"

text \<open>The call of \<open>mut_uint64_inc\<close>, whose \<open>ans\<close> starts with indeterminate words.\<close>

definition mut_counter_inc :: "'a libc_scheme \<Rightarrow> mut_counter \<Rightarrow> u32 \<Rightarrow> mut_counter" where
  "mut_counter_inc w c d =
     mut_uint64_inc \<lparr>hi = c_indet w [0, hi c, lo c, d], lo = c_indet w [1, hi c, lo c, d]\<rparr> c d"

definition mut_counter_dec :: "'a libc_scheme \<Rightarrow> mut_counter \<Rightarrow> u32 \<Rightarrow> mut_counter option" where
  "mut_counter_dec w c d =
     mut_uint64_dec \<lparr>hi = c_indet w [2, hi c, lo c, d], lo = c_indet w [3, hi c, lo c, d]\<rparr> c d"

definition mut_counter_lt :: "mut_counter \<Rightarrow> mut_counter \<Rightarrow> bool" where
  "mut_counter_lt a b = mut_uint64_lt a b"

section \<open>The \<open>long long\<close> provider: src/src/uint64/longlong\<close>

definition longlong_from_uint :: "u32 \<Rightarrow> 64 word" where
  "longlong_from_uint ui = ucast ui"

definition longlong_inc :: "64 word \<Rightarrow> u32 \<Rightarrow> 64 word" where
  "longlong_inc ui i = ui + ucast i"

definition longlong_dec :: "64 word \<Rightarrow> u32 \<Rightarrow> 64 word" where
  "longlong_dec ui i = ui - ucast i"

definition longlong_lt :: "64 word \<Rightarrow> 64 word \<Rightarrow> bool" where
  "longlong_lt a b \<longleftrightarrow> a < b"

section \<open>The \<open>unsigned long\<close> provider: src/src/counter/ulong\<close>

definition ulong_from_uint :: "u32 \<Rightarrow> u32" where "ulong_from_uint ui = ui"
definition ulong_inc :: "u32 \<Rightarrow> u32 \<Rightarrow> u32" where "ulong_inc c d = c + d"
definition ulong_dec :: "u32 \<Rightarrow> u32 \<Rightarrow> u32" where "ulong_dec c d = c - d"
definition ulong_lt :: "u32 \<Rightarrow> u32 \<Rightarrow> bool" where "ulong_lt a b \<longleftrightarrow> a < b"

section \<open>The interface\<close>

text \<open>
  What \<open>mut.c\<close> relies on: the operations are those of the natural numbers as long as the
  values stay below a limit of the provider.
\<close>

locale counter =
  fixes from_uint :: "u32 \<Rightarrow> 'c"
    and inc :: "'c \<Rightarrow> u32 \<Rightarrow> 'c"
    and dec :: "'c \<Rightarrow> u32 \<Rightarrow> 'c option"
    and less :: "'c \<Rightarrow> 'c \<Rightarrow> bool"
    and val :: "'c \<Rightarrow> nat"
    and limit :: nat
  assumes from_uint_val: "unat n < limit \<Longrightarrow> val (from_uint n) = unat n"
    and inc_val: "val c + unat d < limit \<Longrightarrow> val (inc c d) = val c + unat d"
    and dec_val: "val c < limit \<Longrightarrow> unat d \<le> val c \<Longrightarrow> \<exists>c'. dec c d = Some c' \<and> val c' = val c - unat d"
    and less_val: "val a < limit \<Longrightarrow> val b < limit \<Longrightarrow> less a b \<longleftrightarrow> val a < val b"
    and limit_pos: "0 < limit"
begin

lemma zero_val: "val (from_uint 0) = 0"
  using from_uint_val [of 0] limit_pos by simp

lemma inc_then_dec:
  assumes "val c + unat d < limit"
  shows "\<exists>c'. dec (inc c d) d = Some c' \<and> val c' = val c"
  using dec_val [of "inc c d" d] inc_val [OF assms] assms by simp

lemma incs_val:
  "val c + (\<Sum>d\<leftarrow>ds. unat d) < limit \<Longrightarrow> val (foldl inc c ds) = val c + (\<Sum>d\<leftarrow>ds. unat d)"
proof (induction ds arbitrary: c)
  case (Cons d ds)
  then have "val (inc c d) = val c + unat d" by (intro inc_val) simp
  with Cons show ?case by simp
qed simp

text \<open>A running maximum: the update \<open>if (mut_counter_lt(max, now)) max = now\<close>.\<close>

lemma running_max_val:
  "val m < limit \<Longrightarrow> val now < limit \<Longrightarrow>
   val (if less m now then now else m) = max (val m) (val now)"
  by (simp add: less_val max_def)

end

section \<open>The providers keep the interface\<close>

lemma u64_val_small:
  assumes "u64_val c < 2 ^ 32" shows "hi c = 0" and "u64_val c = unat (lo c)"
proof -
  show "hi c = 0"
  proof (rule ccontr)
    assume "hi c \<noteq> 0"
    then have "0 < unat (hi c)" by (simp add: unat_gt_0)
    with assms show False by (simp add: u64_val_def)
  qed
  then show "u64_val c = unat (lo c)" by (simp add: u64_val_def)
qed

text \<open>The pair of words keeps it only while no value needs its high word.\<close>

interpretation struct_counter:
  counter mut_counter_from_uint "mut_counter_inc w" "mut_counter_dec w" mut_counter_lt u64_val "2 ^ 32"
proof unfold_locales
  fix n :: u32
  show "u64_val (mut_counter_from_uint n) = unat n"
    by (simp add: mut_counter_from_uint_def mut_uint64_from_uint_def u64_val_def)
next
  fix c :: mut_counter and d :: u32
  assume "u64_val c + unat d < 2 ^ 32"
  moreover from this have "u64_val c = unat (lo c)" by (intro u64_val_small(2)) simp
  ultimately show "u64_val (mut_counter_inc w c d) = u64_val c + unat d"
    unfolding mut_counter_inc_def by (intro mut_uint64_inc_val) simp
next
  fix c :: mut_counter and d :: u32
  assume "u64_val c < 2 ^ 32" "unat d \<le> u64_val c"
  then have "d \<le> lo c" using u64_val_small(2) [of c] by (simp add: word_le_nat_alt)
  then show "\<exists>c'. mut_counter_dec w c d = Some c' \<and> u64_val c' = u64_val c - unat d"
    unfolding mut_counter_dec_def by (rule mut_uint64_dec_val)
next
  fix a b :: mut_counter
  assume "u64_val a < 2 ^ 32" "u64_val b < 2 ^ 32"
  then show "mut_counter_lt a b \<longleftrightarrow> u64_val a < u64_val b"
    using u64_val_small(2) [of a] u64_val_small(2) [of b]
    by (simp add: mut_counter_lt_def mut_uint64_lt_iff word_less_nat_alt)
qed simp

lemma unat_ucast_u32_64: "unat (ucast (x :: u32) :: 64 word) = unat x"
  using unat_u32_less [of x] by (simp add: unsigned_ucast_eq take_bit_nat_eq_self_iff)

interpretation longlong_counter:
  counter longlong_from_uint longlong_inc "\<lambda>c d. Some (longlong_dec c d)" longlong_lt unat "2 ^ 64"
proof unfold_locales
  fix c :: "64 word" and d :: u32
  assume "unat c + unat d < 2 ^ 64"
  then show "unat (longlong_inc c d) = unat c + unat d"
    by (simp add: longlong_inc_def unat_add_lem [THEN iffD1] unat_ucast_u32_64)
next
  fix c :: "64 word" and d :: u32
  assume "unat d \<le> unat c"
  then show "\<exists>c'. Some (longlong_dec c d) = Some c' \<and> unat c' = unat c - unat d"
    by (simp add: longlong_dec_def unat_sub word_le_nat_alt unat_ucast_u32_64)
qed (simp_all add: longlong_from_uint_def longlong_lt_def word_less_nat_alt unat_ucast_u32_64)

interpretation ulong_counter:
  counter ulong_from_uint ulong_inc "\<lambda>c d. Some (ulong_dec c d)" ulong_lt unat "2 ^ 32"
proof unfold_locales
  fix c :: u32 and d :: u32
  assume "unat c + unat d < 2 ^ 32"
  then show "unat (ulong_inc c d) = unat c + unat d"
    by (simp add: ulong_inc_def unat_add_lem [THEN iffD1])
next
  fix c :: u32 and d :: u32
  assume "unat d \<le> unat c"
  then show "\<exists>c'. Some (ulong_dec c d) = Some c' \<and> unat c' = unat c - unat d"
    by (simp add: ulong_dec_def unat_sub word_le_nat_alt)
qed (simp_all add: ulong_from_uint_def ulong_lt_def word_less_nat_alt)

end
