(* ===== verification/MutMem.thy ===== *)
theory MutMem
  imports MutLibc
begin

text \<open>
  MUT's own debugging allocator, src/src/mem/debug/mut_mem.c (the default \<open>mut_opt_mem=debug\<close>).
  Every block MUT allocates is on one of two lists until \<open>mut_mem_close\<close>: \<open>in_use\<close> or
  \<open>freed\<close>. A linked list is a HOL list in the order of the \<open>next\<close> fields.
\<close>

section \<open>The store\<close>

record mut_mem_source_pos =
  line :: u32
  file_name :: "string option"

text \<open>\<open>mn_self\<close> is the address of the node itself, which is a block of the C heap too.\<close>

record mut_mem_node =
  mn_self :: ptr
  mn_addr :: ptr
  mn_bytes :: u32
  mn_malloc :: mut_mem_source_pos
  mn_free :: mut_mem_source_pos

record mem =
  in_use :: "mut_mem_node list"
  freed :: "mut_mem_node list"
  n_bytes_allocated :: u32
  n_bytes_in_use :: u32
  n_blocks_in_use :: u32
  max_bytes_in_use :: u32
  max_blocks_in_use :: u32
  n_malloc :: u32
  n_realloc :: u32
  n_realloc0 :: u32
  n_free :: u32
  n_free0 :: u32
  mem_log :: stream
  mem_report :: "stream option"

record mem_world = libc +
  store :: mem

definition sizeof_mut_mem_node :: u32 where "sizeof_mut_mem_node = 28"

text \<open>\<open>store.halt\<close> is \<open>abort\<close>: \<open>mut_mem_init\<close> sets it and nothing else does.\<close>

definition mem_halt :: "'a mem_world_scheme \<Rightarrow> 'b option" where
  "mem_halt w = None"

section \<open>Operations\<close>

text \<open>The new node at the head of \<open>in_use\<close>, with the statistics.\<close>

definition mem_enter :: "ptr \<Rightarrow> ptr \<Rightarrow> u32 \<Rightarrow> u32 \<Rightarrow> string \<Rightarrow> mem \<Rightarrow> mem" where
  "mem_enter node addr n_bytes ln file s =
     (let n = \<lparr>mn_self = node, mn_addr = addr, mn_bytes = n_bytes,
               mn_malloc = \<lparr>line = ln, file_name = Some file\<rparr>,
               mn_free = \<lparr>line = 0, file_name = None\<rparr>\<rparr>;
          s = s\<lparr>in_use := n # in_use s,
                n_malloc := n_malloc s + 1,
                n_bytes_allocated := n_bytes_allocated s + n_bytes,
                n_bytes_in_use := n_bytes_in_use s + n_bytes\<rparr>;
          s = (if max_bytes_in_use s < n_bytes_in_use s
               then s\<lparr>max_bytes_in_use := n_bytes_in_use s\<rparr> else s);
          s = s\<lparr>n_blocks_in_use := n_blocks_in_use s + 1\<rparr>
      in if max_blocks_in_use s < n_blocks_in_use s
         then s\<lparr>max_blocks_in_use := n_blocks_in_use s\<rparr> else s)"

definition mut_mem__malloc ::
  "u32 \<Rightarrow> u32 \<Rightarrow> string \<Rightarrow> 'a mem_world_scheme \<Rightarrow> (ptr \<times> 'a mem_world_scheme) option" where
  "mut_mem__malloc n_bytes ln file w =
     (let (addr, w) = libc_malloc n_bytes w
      in if addr = 0 then Some (0, w)
         else let (node, w) = libc_malloc sizeof_mut_mem_node w
              in if node = 0 then do { w \<leftarrow> libc_free addr w; Some (0, w) }
                 else Some (addr, w\<lparr>store := mem_enter node addr n_bytes ln file (store w)\<rparr>))"

text \<open>The first node for \<open>addr\<close> on a list, and the list without it.\<close>

fun mem_unlink :: "ptr \<Rightarrow> mut_mem_node list \<Rightarrow> (mut_mem_node \<times> mut_mem_node list) option" where
  "mem_unlink addr [] = None"
| "mem_unlink addr (n # ns) =
     (if mn_addr n = addr then Some (n, ns)
      else case mem_unlink addr ns of None \<Rightarrow> None | Some (m, ms) \<Rightarrow> Some (m, n # ms))"

text \<open>The move of a node from \<open>in_use\<close> to \<open>freed\<close> that \<open>free\<close> and \<open>realloc\<close> share.\<close>

definition mem_retire ::
  "mut_mem_node \<Rightarrow> mut_mem_node list \<Rightarrow> u32 \<Rightarrow> string \<Rightarrow> mem \<Rightarrow> mem" where
  "mem_retire n rest ln file s =
     s\<lparr>in_use := rest,
       freed := n\<lparr>mn_free := \<lparr>line = ln, file_name = Some file\<rparr>\<rparr> # freed s,
       n_bytes_in_use := n_bytes_in_use s - mn_bytes n,
       n_blocks_in_use := n_blocks_in_use s - 1\<rparr>"

text \<open>The diagnosis of an address that is not in use; both ends call \<open>store.halt\<close>.\<close>

definition mem_bad_addr ::
  "string \<Rightarrow> string \<Rightarrow> ptr \<Rightarrow> u32 \<Rightarrow> string \<Rightarrow> 'a mem_world_scheme \<Rightarrow> 'b option" where
  "mem_bad_addr freed_msg unalloc_msg addr ln file w =
     (case mem_unlink addr (freed (store w)) of
        Some (n, _) \<Rightarrow>
          mem_halt (snd (libc_fput (mem_log (store w))
            (file @ '' '' @ fmt_u ln @ freed_msg @
             (case file_name (mn_free n) of Some f \<Rightarrow> f | None \<Rightarrow> ''(null)'') @ '' '' @
             fmt_u (line (mn_free n)) @ ''\<newline>'') w))
      | None \<Rightarrow>
          mem_halt (snd (libc_fput (mem_log (store w))
            (file @ '' '' @ fmt_u ln @ unalloc_msg @ fmt_p addr @ ''\<newline>'') w)))"

definition mut_mem__free ::
  "ptr \<Rightarrow> u32 \<Rightarrow> string \<Rightarrow> 'a mem_world_scheme \<Rightarrow> 'a mem_world_scheme option" where
  "mut_mem__free addr ln file w =
     (let w = w\<lparr>store := (store w)\<lparr>n_free := n_free (store w) + 1\<rparr>\<rparr>
      in if addr = 0
         then Some (w\<lparr>store := (store w)\<lparr>n_free0 := n_free0 (store w) + 1\<rparr>\<rparr>)
         else case mem_unlink addr (in_use (store w)) of
                Some (n, rest) \<Rightarrow> do {
                  w \<leftarrow> libc_memset addr 0xaa (mn_bytes n) w;
                  Some (w\<lparr>store := mem_retire n rest ln file (store w)\<rparr>)
                }
              | None \<Rightarrow> mem_bad_addr '' freeing_freed_memory '' '' freeing_unallocated_memory ''
                          addr ln file w)"

definition mut_mem__realloc ::
  "ptr \<Rightarrow> u32 \<Rightarrow> u32 \<Rightarrow> string \<Rightarrow> 'a mem_world_scheme \<Rightarrow> (ptr \<times> 'a mem_world_scheme) option" where
  "mut_mem__realloc addr n_bytes ln file w =
     (let w = w\<lparr>store := (store w)\<lparr>n_realloc := n_realloc (store w) + 1\<rparr>\<rparr>
      in if addr = 0
         then mut_mem__malloc n_bytes ln file
                (w\<lparr>store := (store w)\<lparr>n_realloc0 := n_realloc0 (store w) + 1,
                                      n_malloc := n_malloc (store w) - 1\<rparr>\<rparr>)
         else case mem_unlink addr (in_use (store w)) of
                Some (n, rest) \<Rightarrow> do {
                  let w = w\<lparr>store := mem_retire n rest ln file (store w)\<rparr>;
                  (new_addr, w) \<leftarrow> mut_mem__malloc n_bytes ln file w;
                  if new_addr \<noteq> 0
                  then do {
                    w \<leftarrow> libc_memcpy new_addr addr (if mn_bytes n < n_bytes then mn_bytes n else n_bytes) w;
                    w \<leftarrow> libc_memset addr 1 (mn_bytes n) w;
                    Some (new_addr, w\<lparr>store := (store w)\<lparr>n_malloc := n_malloc (store w) - 1\<rparr>\<rparr>)
                  }
                  else Some (new_addr, w)
                }
              | None \<Rightarrow> mem_bad_addr '' reallocing_freed_memory '' '' reallocing_unallocated_memory ''
                          addr ln file w)"

definition mut_mem_init :: "mem" where
  "mut_mem_init = \<lparr>in_use = [], freed = [], n_bytes_allocated = 0, n_bytes_in_use = 0,
     n_blocks_in_use = 0, max_bytes_in_use = 0, max_blocks_in_use = 0, n_malloc = 0,
     n_realloc = 0, n_realloc0 = 0, n_free = 0, n_free0 = 0, mem_log = Stderr, mem_report = None\<rparr>"

definition mut_mem_open :: "'a mem_world_scheme \<Rightarrow> 'a mem_world_scheme" where
  "mut_mem_open w = w"

definition mut_mem_log :: "stream \<Rightarrow> 'a mem_world_scheme \<Rightarrow> stream \<times> 'a mem_world_scheme" where
  "mut_mem_log l w = (mem_log (store w), w\<lparr>store := (store w)\<lparr>mem_log := l\<rparr>\<rparr>)"

definition mut_mem_report ::
  "stream option \<Rightarrow> 'a mem_world_scheme \<Rightarrow> stream option \<times> 'a mem_world_scheme" where
  "mut_mem_report l w = (mem_report (store w), w\<lparr>store := (store w)\<lparr>mem_report := l\<rparr>\<rparr>)"

section \<open>Closing\<close>

text \<open>The lines of the report; a failed write makes the status 2.\<close>

definition mem_report_lines :: "mem \<Rightarrow> string list" where
  "mem_report_lines s =
     [''(mut_mem_report\<newline>'',
      ''  (nBytesAllocated '' @ fmt_u (n_bytes_allocated s) @ '')\<newline>'',
      ''  (nBytesInUse '' @ fmt_u (n_bytes_in_use s) @ '')\<newline>'',
      ''  (maxBytesInUse '' @ fmt_u (max_bytes_in_use s) @ '')\<newline>'',
      ''  (nBlocksInUse '' @ fmt_u (n_blocks_in_use s) @ '')\<newline>'',
      ''  (maxBlocksInUse '' @ fmt_u (max_blocks_in_use s) @ '')\<newline>'',
      ''  (nMallocCalls '' @ fmt_u (n_malloc s) @ '')\<newline>'',
      ''  (nReallocCalls '' @ fmt_u (n_realloc s) @ '')\<newline>'',
      ''  (nRealloc0Calls '' @ fmt_u (n_realloc0 s) @ '')\<newline>'',
      ''  (nFreeCalls '' @ fmt_u (n_free s) @ '')\<newline>'',
      ''  (nFree0Calls '' @ fmt_u (n_free0 s) @ ''))\<newline>'']"

fun mem_write_report :: "stream \<Rightarrow> string list \<Rightarrow> nat \<Rightarrow> 'a mem_world_scheme \<Rightarrow> nat \<times> 'a mem_world_scheme" where
  "mem_write_report str [] status w = (status, w)"
| "mem_write_report str (l # ls) status w =
     (let (ok, w) = libc_fput str l w
      in mem_write_report str ls (if ok then status else 2) w)"

definition mem_leak_line :: "mut_mem_node \<Rightarrow> string" where
  "mem_leak_line p =
     (case file_name (mn_malloc p) of Some f \<Rightarrow> f | None \<Rightarrow> ''(null)'') @ '' '' @
     fmt_u (line (mn_malloc p)) @ '' memory_leak '' @ fmt_p (mn_addr p) @ '' '' @
     fmt_u (mn_bytes p) @ ''\<newline>''"

fun mem_close_in_use ::
  "mut_mem_node list \<Rightarrow> nat \<Rightarrow> 'a mem_world_scheme \<Rightarrow> (nat \<times> 'a mem_world_scheme) option" where
  "mem_close_in_use [] status w = Some (status, w)"
| "mem_close_in_use (p # ps) status w = do {
     let (ok, w) = libc_fput (mem_log (store w)) (mem_leak_line p) w;
     let status = (if ok then status else 1);
     let w = w\<lparr>store := (store w)\<lparr>n_bytes_in_use := n_bytes_in_use (store w) - mn_bytes p,
                                  n_blocks_in_use := n_blocks_in_use (store w) - 1\<rparr>\<rparr>;
     w \<leftarrow> libc_free (mn_addr p) w;
     w \<leftarrow> libc_free (mn_self p) w;
     mem_close_in_use ps status w
   }"

fun mem_close_freed :: "mut_mem_node list \<Rightarrow> 'a mem_world_scheme \<Rightarrow> 'a mem_world_scheme option" where
  "mem_close_freed [] w = Some w"
| "mem_close_freed (p # ps) w = do {
     w \<leftarrow> libc_free (mn_addr p) w;
     w \<leftarrow> libc_free (mn_self p) w;
     mem_close_freed ps w
   }"

definition mut_mem_close :: "'a mem_world_scheme \<Rightarrow> (nat \<times> 'a mem_world_scheme) option" where
  "mut_mem_close w = do {
     let (status, w) = (case mem_report (store w) of
                          None \<Rightarrow> (0, w)
                        | Some str \<Rightarrow> mem_write_report str (mem_report_lines (store w)) 0 w);
     (status, w) \<leftarrow> mem_close_in_use (in_use (store w)) status w;
     assert_c (n_bytes_in_use (store w) = 0);
     assert_c (n_blocks_in_use (store w) = 0);
     w \<leftarrow> mem_close_freed (freed (store w)) w;
     Some (status, w)
   }"

section \<open>Well-formed stores\<close>

definition mem_nodes :: "mem \<Rightarrow> mut_mem_node list" where
  "mem_nodes s = in_use s @ freed s"

text \<open>The blocks the store owns: the client blocks and the nodes that describe them.\<close>

definition mem_blocks :: "mem \<Rightarrow> ptr list" where
  "mem_blocks s = map mn_addr (mem_nodes s) @ map mn_self (mem_nodes s)"

definition mem_wf :: "'a mem_world_scheme \<Rightarrow> bool" where
  "mem_wf w \<longleftrightarrow>
     malloc_fresh w \<and> c_heap w 0 = None \<and>
     distinct (mem_blocks (store w)) \<and>
     dom (c_heap w) = set (mem_blocks (store w)) \<and>
     (\<forall>n \<in> set (mem_nodes (store w)). \<exists>bs. c_heap w (mn_addr n) = Some bs \<and> length bs = unat (mn_bytes n)) \<and>
     n_bytes_in_use (store w) = sum_list (map mn_bytes (in_use (store w))) \<and>
     n_blocks_in_use (store w) = of_nat (length (in_use (store w))) \<and>
     n_bytes_allocated (store w) = sum_list (map mn_bytes (mem_nodes (store w)))"

named_theorems mem_defs
declare mem_nodes_def [mem_defs] mem_blocks_def [mem_defs]

lemma mem_enter_simps [simp]:
  "in_use (mem_enter node addr n ln f s) =
     \<lparr>mn_self = node, mn_addr = addr, mn_bytes = n, mn_malloc = \<lparr>line = ln, file_name = Some f\<rparr>,
      mn_free = \<lparr>line = 0, file_name = None\<rparr>\<rparr> # in_use s"
  "freed (mem_enter node addr n ln f s) = freed s"
  "n_bytes_in_use (mem_enter node addr n ln f s) = n_bytes_in_use s + n"
  "n_blocks_in_use (mem_enter node addr n ln f s) = n_blocks_in_use s + 1"
  "n_bytes_allocated (mem_enter node addr n ln f s) = n_bytes_allocated s + n"
  "mem_log (mem_enter node addr n ln f s) = mem_log s"
  "mem_report (mem_enter node addr n ln f s) = mem_report s"
  by (simp_all add: mem_enter_def Let_def)

lemma mem_retire_simps [simp]:
  "in_use (mem_retire n rest ln f s) = rest"
  "freed (mem_retire n rest ln f s) = n\<lparr>mn_free := \<lparr>line = ln, file_name = Some f\<rparr>\<rparr> # freed s"
  "n_bytes_in_use (mem_retire n rest ln f s) = n_bytes_in_use s - mn_bytes n"
  "n_blocks_in_use (mem_retire n rest ln f s) = n_blocks_in_use s - 1"
  "n_bytes_allocated (mem_retire n rest ln f s) = n_bytes_allocated s"
  "mem_log (mem_retire n rest ln f s) = mem_log s"
  "mem_report (mem_retire n rest ln f s) = mem_report s"
  by (simp_all add: mem_retire_def)

lemma mem_unlink_Some:
  "mem_unlink a ns = Some (n, rest) \<Longrightarrow>
   \<exists>xs ys. ns = xs @ n # ys \<and> rest = xs @ ys \<and> mn_addr n = a \<and> a \<notin> mn_addr ` set xs"
proof (induction ns arbitrary: rest)
  case (Cons m ns)
  show ?case
  proof (cases "mn_addr m = a")
    case True
    with Cons.prems show ?thesis by (intro exI [of _ "[]"] exI [of _ ns]) auto
  next
    case False
    with Cons.prems obtain r where r: "mem_unlink a ns = Some (n, r)" "rest = m # r"
      by (auto split: option.splits)
    then obtain xs ys where "ns = xs @ n # ys" "r = xs @ ys" "mn_addr n = a" "a \<notin> mn_addr ` set xs"
      using Cons.IH by blast
    with False r(2) show ?thesis by (intro exI [of _ "m # xs"] exI [of _ ys]) auto
  qed
qed simp

lemma mem_unlink_None: "mem_unlink a ns = None \<longleftrightarrow> a \<notin> mn_addr ` set ns"
  by (induction ns) (auto split: option.splits)

text \<open>Keeping a block's length keeps a store well formed.\<close>

lemma mem_wf_heap_write:
  assumes "mem_wf w" and "c_heap w p = Some bs" and "length bs' = length bs"
  shows "mem_wf (w\<lparr>c_heap := (c_heap w)(p \<mapsto> bs')\<rparr>)"
proof -
  have "insert p (dom (c_heap w)) = dom (c_heap w)" and "p \<noteq> 0"
    using assms by (auto simp: mem_wf_def)
  with assms show ?thesis by (fastforce simp: mem_wf_def)
qed

lemma mem_wf_simple_updates [simp]:
  "mem_wf (w\<lparr>c_errno := e\<rparr>) = mem_wf w"
  "mem_wf (w\<lparr>c_out := out\<rparr>) = mem_wf w"
  "mem_wf (w\<lparr>store := s\<lparr>n_free := x\<rparr>\<rparr>) = mem_wf (w\<lparr>store := s\<rparr>)"
  "mem_wf (w\<lparr>store := s\<lparr>n_free0 := x\<rparr>\<rparr>) = mem_wf (w\<lparr>store := s\<rparr>)"
  "mem_wf (w\<lparr>store := s\<lparr>n_malloc := x\<rparr>\<rparr>) = mem_wf (w\<lparr>store := s\<rparr>)"
  "mem_wf (w\<lparr>store := s\<lparr>n_realloc := x\<rparr>\<rparr>) = mem_wf (w\<lparr>store := s\<rparr>)"
  "mem_wf (w\<lparr>store := s\<lparr>n_realloc0 := x\<rparr>\<rparr>) = mem_wf (w\<lparr>store := s\<rparr>)"
  "mem_wf (w\<lparr>store := s\<lparr>mem_log := l\<rparr>\<rparr>) = mem_wf (w\<lparr>store := s\<rparr>)"
  "mem_wf (w\<lparr>store := s\<lparr>mem_report := r\<rparr>\<rparr>) = mem_wf (w\<lparr>store := s\<rparr>)"
  by (simp_all add: mem_wf_def mem_defs malloc_fresh_def)

lemma store_update_params [simp]:
  "malloc_fresh (w\<lparr>store := s\<rparr>) = malloc_fresh w"
  "writes_ok (w\<lparr>store := s\<rparr>) = writes_ok w"
  by (simp_all add: malloc_fresh_def writes_ok_def)

lemma mem_wf_store_same [simp]: "mem_wf (w\<lparr>store := store w\<rparr>) = mem_wf w"
  by (simp add: mem_wf_def malloc_fresh_def)

text \<open>The three outcomes of \<open>mut_mem__malloc\<close>.\<close>

lemma mut_mem__malloc_cases:
  assumes fresh: "malloc_fresh w" and "mut_mem__malloc n ln f w = Some (a, w')"
  obtains (fail) e where "a = 0" "w' = w\<lparr>c_errno := e\<rparr>"
  | (new) node b1 b2 where "a \<noteq> 0" "node \<noteq> 0" "node \<noteq> a" "c_heap w a = None" "c_heap w node = None"
      "length b1 = unat n" "length b2 = unat sizeof_mut_mem_node"
      "w' = w\<lparr>c_heap := (c_heap w)(a \<mapsto> b1, node \<mapsto> b2), store := mem_enter node a n ln f (store w)\<rparr>"
proof -
  consider (none) "libc_malloc n w = (0, w\<lparr>c_errno := ENOMEM\<rparr>)"
    | (some) p where "p \<noteq> 0" "p = c_pick w (c_heap w) n"
        "libc_malloc n w = (p, w\<lparr>c_heap := (c_heap w)(p \<mapsto> map (c_fill w p) [0..<unat n])\<rparr>)"
    using libc_malloc_cases [of n w] by blast
  then show thesis
  proof cases
    case none
    with assms(2) show thesis by (auto simp: mut_mem__malloc_def Let_def intro: fail)
  next
    case some
    let ?w = "w\<lparr>c_heap := (c_heap w)(p \<mapsto> map (c_fill w p) [0..<unat n])\<rparr>"
    have new1: "c_heap w p = None" using some(1,2) fresh by (auto simp: malloc_fresh_def)
    consider (none2) "libc_malloc sizeof_mut_mem_node ?w = (0, ?w\<lparr>c_errno := ENOMEM\<rparr>)"
      | (some2) q where "q \<noteq> 0" "q = c_pick ?w (c_heap ?w) sizeof_mut_mem_node"
          "libc_malloc sizeof_mut_mem_node ?w =
             (q, ?w\<lparr>c_heap := (c_heap ?w)(q \<mapsto> map (c_fill ?w q) [0..<unat sizeof_mut_mem_node])\<rparr>)"
      using libc_malloc_cases [of sizeof_mut_mem_node ?w] by blast
    then show thesis
    proof cases
      case none2
      have undo: "(c_heap w)(p := None) = c_heap w" using new1 by auto
      have "a = 0" "w' = w\<lparr>c_errno := ENOMEM\<rparr>"
        using assms(2) some(1,3) none2 undo
        by (auto simp: mut_mem__malloc_def Let_def libc_free_def)
      then show thesis by (rule fail)
    next
      case some2
      have "malloc_fresh ?w" using fresh by simp
      then have "c_heap ?w q = None" using some2(3,1) by (rule libc_malloc_fresh)
      then show thesis
        using assms(2) some some2 new1
        by (intro new [of q "map (c_fill w p) [0..<unat n]" "map (c_fill w q) [0..<unat sizeof_mut_mem_node]"])
          (auto simp: mut_mem__malloc_def Let_def split: if_splits)
    qed
  qed
qed

lemma mut_mem__malloc_returns:
  assumes "malloc_fresh w" shows "mut_mem__malloc n ln f w \<noteq> None"
proof -
  have "c_heap w (c_pick w (c_heap w) n) = None" if "c_pick w (c_heap w) n \<noteq> 0"
    using that assms by (auto simp: malloc_fresh_def)
  then show ?thesis
    by (auto simp: mut_mem__malloc_def libc_malloc_def libc_free_def Let_def)
qed

lemma mut_mem__malloc_wf:
  assumes "mem_wf w" and "mut_mem__malloc n ln f w = Some (a, w')"
  shows "mem_wf w'"
proof -
  have "malloc_fresh w" using assms(1) by (simp add: mem_wf_def)
  from this assms(2) show ?thesis
  proof (cases rule: mut_mem__malloc_cases)
    case (fail e)
    with assms(1) show ?thesis by simp
  next
    case (new node b1 b2)
    have dom: "dom (c_heap w) = set (mem_blocks (store w))" using assms(1) by (simp add: mem_wf_def)
    have out: "a \<notin> set (mem_blocks (store w))" "node \<notin> set (mem_blocks (store w))"
      using new(4,5) dom by auto
    have "\<forall>m \<in> set (mem_nodes (store w)). mn_addr m \<noteq> a \<and> mn_addr m \<noteq> node"
      using out by (auto simp: mem_defs)
    with assms(1) new out show ?thesis
      unfolding mem_wf_def by (auto simp: mem_defs add.commute add.left_commute add.assoc)
  qed
qed

lemma mem_wf_retire:
  assumes wf: "mem_wf w" and un: "mem_unlink a (in_use (store w)) = Some (n, rest)"
  shows "mem_wf (w\<lparr>store := mem_retire n rest ln f (store w)\<rparr>)"
proof -
  obtain xs ys where d: "in_use (store w) = xs @ n # ys" "rest = xs @ ys"
    using mem_unlink_Some [OF un] by blast
  let ?s = "mem_retire n rest ln f (store w)"
  have "mset (mem_blocks ?s) = mset (mem_blocks (store w))"
    by (simp add: mem_defs d)
  then have "distinct (mem_blocks ?s)" and "set (mem_blocks ?s) = set (mem_blocks (store w))"
    using wf by (auto simp: mem_wf_def dest: mset_eq_imp_distinct_iff mset_eq_setD)
  with wf show ?thesis
    unfolding mem_wf_def by (auto simp: mem_nodes_def d algebra_simps)
qed

lemma libc_memset_Some:
  "libc_memset p c n w = Some w' \<longleftrightarrow>
   (\<exists>bs. c_heap w p = Some bs \<and> unat n \<le> length bs \<and>
     w' = w\<lparr>c_heap := (c_heap w)(p \<mapsto> replicate (unat n) c @ drop (unat n) bs)\<rparr>)"
  by (auto simp: libc_memset_def split: option.splits)

lemma libc_memcpy_Some:
  "libc_memcpy d s n w = Some w' \<longleftrightarrow>
   (\<exists>ds ss. c_heap w d = Some ds \<and> c_heap w s = Some ss \<and> unat n \<le> length ds \<and>
     unat n \<le> length ss \<and> (d \<noteq> s \<or> n = 0) \<and>
     w' = w\<lparr>c_heap := (c_heap w)(d \<mapsto> take (unat n) ss @ drop (unat n) ds)\<rparr>)"
  by (auto simp: libc_memcpy_def split: option.splits)

lemma libc_memset_wf: "mem_wf w \<Longrightarrow> libc_memset p c n w = Some w' \<Longrightarrow> mem_wf w'"
  by (auto simp: libc_memset_Some intro!: mem_wf_heap_write)

lemma libc_memcpy_wf: "mem_wf w \<Longrightarrow> libc_memcpy d s n w = Some w' \<Longrightarrow> mem_wf w'"
  by (auto simp: libc_memcpy_Some intro!: mem_wf_heap_write)

lemma libc_memset_store: "libc_memset p c n w = Some w' \<Longrightarrow> store w' = store w"
  by (auto simp: libc_memset_Some)

lemma mem_bad_addr_None [simp]: "mem_bad_addr m1 m2 a ln f w = None"
  by (simp add: mem_bad_addr_def mem_halt_def split: option.splits prod.splits)

lemma mut_mem__free_wf:
  assumes "mem_wf w" and "mut_mem__free a ln f w = Some w'"
  shows "mem_wf w'"
proof (cases "a = 0")
  case True
  with assms show ?thesis by (auto simp: mut_mem__free_def Let_def)
next
  case False
  let ?w = "w\<lparr>store := (store w)\<lparr>n_free := n_free (store w) + 1\<rparr>\<rparr>"
  have wf: "mem_wf ?w" using assms(1) by simp
  from assms(2) False obtain n rest v where un: "mem_unlink a (in_use (store ?w)) = Some (n, rest)"
    and v: "libc_memset a 0xaa (mn_bytes n) ?w = Some v"
    and w': "w' = v\<lparr>store := mem_retire n rest ln f (store v)\<rparr>"
    by (auto simp: mut_mem__free_def Let_def split: option.splits bind_splits)
  have "mem_wf v" and "store v = store ?w"
    using libc_memset_wf [OF wf v] libc_memset_store [OF v] by auto
  with un show ?thesis unfolding w' by (intro mem_wf_retire) simp_all
qed

lemma mut_mem__realloc_wf:
  assumes "mem_wf w" and "mut_mem__realloc a n ln f w = Some (b, w')"
  shows "mem_wf w'"
proof (cases "a = 0")
  case True
  then show ?thesis
    using assms by (auto simp: mut_mem__realloc_def Let_def elim!: mut_mem__malloc_wf [rotated])
next
  case False
  let ?w = "w\<lparr>store := (store w)\<lparr>n_realloc := n_realloc (store w) + 1\<rparr>\<rparr>"
  have wf: "mem_wf ?w" using assms(1) by simp
  from assms(2) False obtain m rest where un: "mem_unlink a (in_use (store ?w)) = Some (m, rest)"
    by (auto simp: mut_mem__realloc_def Let_def split: option.splits)
  let ?v = "?w\<lparr>store := mem_retire m rest ln f (store ?w)\<rparr>"
  have "mem_wf ?v" using wf un by (rule mem_wf_retire)
  moreover from assms(2) False un obtain c x where mal: "mut_mem__malloc n ln f ?v = Some (c, x)"
    by (auto simp: mut_mem__realloc_def Let_def split: bind_splits)
  ultimately have x: "mem_wf x" by (rule mut_mem__malloc_wf)
  show ?thesis
  proof (cases "c = 0")
    case True
    with assms(2) False un mal x show ?thesis
      by (auto simp: mut_mem__realloc_def Let_def)
  next
    case c: False
    with assms(2) False un mal obtain y z where
      "libc_memcpy c a (if mn_bytes m < n then mn_bytes m else n) x = Some y"
      "libc_memset a 1 (mn_bytes m) y = Some z"
      "w' = z\<lparr>store := (store z)\<lparr>n_malloc := n_malloc (store z) - 1\<rparr>\<rparr>"
      by (auto simp: mut_mem__realloc_def Let_def split: bind_splits)
    with x show ?thesis by (auto dest: libc_memcpy_wf libc_memset_wf)
  qed
qed

section \<open>What the operations do\<close>

definition mem_in_use :: "'a mem_world_scheme \<Rightarrow> ptr set" where
  "mem_in_use w = mn_addr ` set (in_use (store w))"

definition mem_freed :: "'a mem_world_scheme \<Rightarrow> ptr set" where
  "mem_freed w = mn_addr ` set (freed (store w))"

lemma mem_wf_disjoint: "mem_wf w \<Longrightarrow> mem_in_use w \<inter> mem_freed w = {}"
  by (auto simp: mem_wf_def mem_defs mem_in_use_def mem_freed_def)

lemma mem_wf_block:
  assumes "mem_wf w" and "mem_unlink a (in_use (store w)) = Some (n, rest)"
  shows "\<exists>bs. c_heap w a = Some bs \<and> length bs = unat (mn_bytes n)"
proof -
  have "n \<in> set (mem_nodes (store w))" and "mn_addr n = a"
    using mem_unlink_Some [OF assms(2)] by (auto simp: mem_nodes_def)
  with assms(1) show ?thesis by (auto simp: mem_wf_def)
qed

lemma mem_unlink_addrs:
  assumes "distinct (map mn_addr ns)" and "mem_unlink a ns = Some (n, rest)"
  shows "mn_addr ` set rest = mn_addr ` set ns - {a}"
proof -
  obtain xs ys where d: "ns = xs @ n # ys" "rest = xs @ ys" "mn_addr n = a"
    using mem_unlink_Some [OF assms(2)] by blast
  have "a \<notin> mn_addr ` set xs" "a \<notin> mn_addr ` set ys" using assms(1) d by auto
  then show ?thesis using d by (auto simp: image_Un)
qed

lemma mem_wf_in_use_distinct: "mem_wf w \<Longrightarrow> distinct (map mn_addr (in_use (store w)))"
  by (simp add: mem_wf_def mem_defs)

lemma mut_mem__free_result:
  assumes wf: "mem_wf w" and "a \<in> mem_in_use w" and "a \<noteq> 0"
  shows "\<exists>w' n. mut_mem__free a ln f w = Some w' \<and> mem_in_use w' = mem_in_use w - {a} \<and>
     mem_freed w' = insert a (mem_freed w) \<and> n \<in> set (in_use (store w)) \<and> mn_addr n = a \<and>
     c_heap w' = (c_heap w)(a \<mapsto> replicate (unat (mn_bytes n)) 0xaa)"
proof -
  obtain n rest where un: "mem_unlink a (in_use (store w)) = Some (n, rest)"
    using assms(2) mem_unlink_None [of a] by (cases "mem_unlink a (in_use (store w))") (auto simp: mem_in_use_def)
  obtain bs where bs: "c_heap w a = Some bs" "length bs = unat (mn_bytes n)"
    using mem_wf_block [OF wf un] by blast
  have n: "n \<in> set (in_use (store w))" "mn_addr n = a" using mem_unlink_Some [OF un] by auto
  have "mut_mem__free a ln f w = Some (w\<lparr>store := mem_retire n rest ln f
      ((store w)\<lparr>n_free := n_free (store w) + 1\<rparr>),
      c_heap := (c_heap w)(a \<mapsto> replicate (unat (mn_bytes n)) 0xaa)\<rparr>)"
    using assms(3) un bs by (simp add: mut_mem__free_def Let_def libc_memset_def)
  moreover have "mn_addr ` set rest = mem_in_use w - {a}"
    using mem_unlink_addrs [OF mem_wf_in_use_distinct [OF wf] un] by (simp add: mem_in_use_def)
  ultimately show ?thesis
    using n by (auto simp: mem_in_use_def mem_freed_def)
qed

lemma mut_mem__free_aborts:
  "a \<noteq> 0 \<Longrightarrow> a \<notin> mem_in_use w \<Longrightarrow> mut_mem__free a ln f w = None"
  using mem_unlink_None [of a "in_use (store w)"]
  by (simp add: mut_mem__free_def Let_def mem_in_use_def)

text \<open>What \<open>mut_mem__realloc\<close> of a block in use does, in both outcomes of the allocation.\<close>

lemma mut_mem__realloc_result:
  assumes wf: "mem_wf w" and "a \<in> mem_in_use w" and "a \<noteq> 0" and old: "c_heap w a = Some old"
    and run: "mut_mem__realloc a n ln f w = Some (b, w')"
  shows "mem_freed w' = insert a (mem_freed w) \<and>
    (if b = 0 then mem_in_use w' = mem_in_use w - {a} \<and> c_heap w' a = Some old
     else b \<noteq> a \<and> b \<notin> mem_in_use w \<and> mem_in_use w' = insert b (mem_in_use w - {a}) \<and>
          (\<exists>new. c_heap w' b = Some new \<and> length new = unat n \<and>
             take (min (length old) (unat n)) new = take (min (length old) (unat n)) old))"
proof -
  let ?w = "w\<lparr>store := (store w)\<lparr>n_realloc := n_realloc (store w) + 1\<rparr>\<rparr>"
  obtain m rest where un: "mem_unlink a (in_use (store w)) = Some (m, rest)"
    using assms(2) mem_unlink_None [of a] by (cases "mem_unlink a (in_use (store w))") (auto simp: mem_in_use_def)
  let ?v = "?w\<lparr>store := mem_retire m rest ln f (store ?w)\<rparr>"
  have len: "length old = unat (mn_bytes m)" using mem_wf_block [OF wf un] old by auto
  have m: "mn_addr m = a" using mem_unlink_Some [OF un] by auto
  have rest: "mn_addr ` set rest = mem_in_use w - {a}"
    using mem_unlink_addrs [OF mem_wf_in_use_distinct [OF wf] un] by (simp add: mem_in_use_def)
  obtain c x where mal: "mut_mem__malloc n ln f ?v = Some (c, x)"
    using run assms(3) un by (auto simp: mut_mem__realloc_def Let_def split: bind_splits)
  have "malloc_fresh ?v" using wf by (simp add: mem_wf_def)
  from this mal show ?thesis
  proof (cases rule: mut_mem__malloc_cases)
    case (fail e)
    with run assms(3) un mal have "b = 0" "w' = x" by (auto simp: mut_mem__realloc_def Let_def)
    with fail m rest old show ?thesis by (auto simp: mem_in_use_def mem_freed_def)
  next
    case (new node b1 b2)
    have heap: "c_heap ?v = c_heap w" by simp
    have "c \<notin> mem_in_use w"
    proof
      assume "c \<in> mem_in_use w"
      then obtain k where "k \<in> set (mem_nodes (store w))" "mn_addr k = c"
        by (auto simp: mem_in_use_def mem_nodes_def)
      with wf new(4) heap show False by (auto simp: mem_wf_def)
    qed
    moreover have ca: "c \<noteq> a" "node \<noteq> a" using new(4,5) old by auto
    moreover define k where "k = (if mn_bytes m < n then mn_bytes m else n)"
    have k: "unat k = min (length old) (unat n)"
      using len by (auto simp: k_def word_less_nat_alt min_def)
    have "b = c" and heap': "c_heap w' c = Some (take (unat k) old @ drop (unat k) b1)"
      and st: "in_use (store w') = in_use (store x)" "freed (store w') = freed (store x)"
      using run assms(3) un mal new ca old
      by (auto simp: mut_mem__realloc_def Let_def k_def libc_memcpy_def libc_memset_def
          split: bind_splits if_splits option.splits)
    moreover have "mem_in_use w' = insert c (mem_in_use w - {a})" "mem_freed w' = insert a (mem_freed w)"
      using st new m rest by (auto simp: mem_in_use_def mem_freed_def)
    ultimately show ?thesis
      using new(1,6) k by (auto simp: min_def)
  qed
qed

section \<open>Closing the store\<close>

definition node_blocks :: "mut_mem_node list \<Rightarrow> ptr set" where
  "node_blocks ns = mn_addr ` set ns \<union> mn_self ` set ns"

lemma node_blocks_simps [simp]:
  "node_blocks [] = {}"
  "node_blocks (n # ns) = insert (mn_addr n) (insert (mn_self n) (node_blocks ns))"
  by (auto simp: node_blocks_def)

lemma node_blocks_distinct:
  "distinct (map mn_addr (p # ps) @ map mn_self (p # ps)) \<Longrightarrow>
   mn_addr p \<notin> node_blocks ps \<and> mn_self p \<notin> node_blocks ps \<and> mn_addr p \<noteq> mn_self p \<and>
   distinct (map mn_addr ps @ map mn_self ps)"
  by (auto simp: node_blocks_def)

lemma libc_free_Some: "p \<noteq> 0 \<Longrightarrow> p \<in> dom (c_heap w) \<Longrightarrow>
  libc_free p w = Some (w\<lparr>c_heap := (c_heap w)(p := None)\<rparr>)"
  by (auto simp: libc_free_def)

text \<open>Each loop frees exactly the blocks of its list, and the first one logs the leaks.\<close>

lemma mem_close_in_use_result:
  assumes "distinct (map mn_addr ps @ map mn_self ps)" and "node_blocks ps \<subseteq> dom (c_heap w)"
    and "0 \<notin> node_blocks ps"
  shows "\<exists>st w'. mem_close_in_use ps status w = Some (st, w') \<and>
     c_heap w' = (\<lambda>p. if p \<in> node_blocks ps then None else c_heap w p) \<and>
     n_bytes_in_use (store w') = n_bytes_in_use (store w) - sum_list (map mn_bytes ps) \<and>
     n_blocks_in_use (store w') = n_blocks_in_use (store w) - of_nat (length ps) \<and>
     freed (store w') = freed (store w) \<and> mem_log (store w') = mem_log (store w) \<and>
     (writes_ok w \<longrightarrow> st = status \<and>
        c_out w' = (c_out w)(mem_log (store w) := c_out w (mem_log (store w)) @ concat (map mem_leak_line ps)))"
  using assms
proof (induction ps arbitrary: status w)
  case Nil
  then show ?case by (auto simp: fun_eq_iff)
next
  case (Cons p ps)
  obtain ok v where put: "libc_fput (mem_log (store w)) (mem_leak_line p) w = (ok, v)" by fastforce
  have v: "c_heap v = c_heap w" "store v = store w"
    using put by (auto simp: libc_fput_def split: if_splits)
  let ?x = "v\<lparr>store := (store v)\<lparr>n_bytes_in_use := n_bytes_in_use (store v) - mn_bytes p,
                                  n_blocks_in_use := n_blocks_in_use (store v) - 1\<rparr>\<rparr>"
  let ?y = "?x\<lparr>c_heap := (c_heap w)(mn_addr p := None, mn_self p := None)\<rparr>"
  note sep = node_blocks_distinct [OF Cons.prems(1)]
  then have "mn_addr p \<noteq> mn_self p" by simp
  then have fr: "libc_free (mn_addr p) ?x = Some (?x\<lparr>c_heap := (c_heap w)(mn_addr p := None)\<rparr>)"
    "libc_free (mn_self p) (?x\<lparr>c_heap := (c_heap w)(mn_addr p := None)\<rparr>) = Some ?y"
    using Cons.prems(2,3) v by (auto simp: libc_free_def)
  have "distinct (map mn_addr ps @ map mn_self ps)" "0 \<notin> node_blocks ps"
    using sep Cons.prems(3) by auto
  moreover have "node_blocks ps \<subseteq> dom (c_heap ?y)"
    using sep Cons.prems(2) by auto
  ultimately obtain st w' where IH: "mem_close_in_use ps (if ok then status else 1) ?y = Some (st, w')"
     "c_heap w' = (\<lambda>q. if q \<in> node_blocks ps then None else c_heap ?y q)"
     "n_bytes_in_use (store w') = n_bytes_in_use (store ?y) - sum_list (map mn_bytes ps)"
     "n_blocks_in_use (store w') = n_blocks_in_use (store ?y) - of_nat (length ps)"
     "freed (store w') = freed (store ?y)" "mem_log (store w') = mem_log (store ?y)"
     "writes_ok ?y \<longrightarrow> st = (if ok then status else 1) \<and>
        c_out w' = (c_out ?y)(mem_log (store ?y) := c_out ?y (mem_log (store ?y)) @ concat (map mem_leak_line ps))"
    using Cons.IH [of ?y "if ok then status else 1"] by blast
  have run: "mem_close_in_use (p # ps) status w = Some (st, w')"
    using put fr IH(1) by simp
  have heap: "c_heap w' = (\<lambda>q. if q \<in> node_blocks (p # ps) then None else c_heap w q)"
    using IH(2) by (auto simp: fun_eq_iff)
  have log: "writes_ok w \<longrightarrow> st = status \<and> c_out w' = (c_out w)(mem_log (store w) :=
      c_out w (mem_log (store w)) @ concat (map mem_leak_line (p # ps)))"
    using IH(7) put v by (auto simp: libc_fput_ok)
  show ?case
    using run heap log IH(3-6) v by (intro exI [of _ st] exI [of _ w']) (simp add: algebra_simps)
qed

lemma mem_close_freed_result:
  assumes "distinct (map mn_addr ps @ map mn_self ps)" and "node_blocks ps \<subseteq> dom (c_heap w)"
    and "0 \<notin> node_blocks ps"
  shows "mem_close_freed ps w =
     Some (w\<lparr>c_heap := (\<lambda>p. if p \<in> node_blocks ps then None else c_heap w p)\<rparr>)"
  using assms
proof (induction ps arbitrary: w)
  case Nil
  then show ?case by simp
next
  case (Cons p ps)
  let ?y = "w\<lparr>c_heap := (c_heap w)(mn_addr p := None, mn_self p := None)\<rparr>"
  note sep = node_blocks_distinct [OF Cons.prems(1)]
  then have "mn_addr p \<noteq> mn_self p" by simp
  then have "libc_free (mn_addr p) w = Some (w\<lparr>c_heap := (c_heap w)(mn_addr p := None)\<rparr>)"
    "libc_free (mn_self p) (w\<lparr>c_heap := (c_heap w)(mn_addr p := None)\<rparr>) = Some ?y"
    using Cons.prems(2,3) by (auto simp: libc_free_def)
  moreover have "mem_close_freed ps ?y =
      Some (?y\<lparr>c_heap := (\<lambda>q. if q \<in> node_blocks ps then None else c_heap ?y q)\<rparr>)"
    using sep Cons.prems(2,3) by (intro Cons.IH) auto
  moreover have "(\<lambda>q. if q \<in> node_blocks ps then None else c_heap ?y q) =
      (\<lambda>q. if q \<in> node_blocks (p # ps) then None else c_heap w q)"
    by (auto simp: fun_eq_iff)
  ultimately show ?case by simp
qed

lemma mem_write_report_frame:
  "mem_write_report str ls status w = (st, w') \<Longrightarrow>
   c_heap w' = c_heap w \<and> store w' = store w \<and> same_libc_params w w'"
  by (induction ls arbitrary: status w)
    (auto simp: libc_fput_def same_libc_params_def split: if_splits prod.splits)

lemma mut_mem_close_result:
  assumes wf: "mem_wf w"
  shows "\<exists>st w'. mut_mem_close w = Some (st, w') \<and> c_heap w' = (\<lambda>_. None) \<and>
     (writes_ok w \<and> mem_report (store w) = None \<longrightarrow> st = 0 \<and>
        c_out w' = (c_out w)(mem_log (store w) :=
           c_out w (mem_log (store w)) @ concat (map mem_leak_line (in_use (store w)))))"
proof -
  obtain s0 v where rep: "(case mem_report (store w) of None \<Rightarrow> (0, w)
      | Some str \<Rightarrow> mem_write_report str (mem_report_lines (store w)) 0 w) = (s0, v)"
    by fastforce
  have v: "c_heap v = c_heap w" "store v = store w" and sv: "mem_report (store w) = None \<Longrightarrow> s0 = 0 \<and> v = w"
    using rep by (auto split: option.splits dest: mem_write_report_frame)
  have dis: "distinct (map mn_addr (in_use (store w)) @ map mn_self (in_use (store w)))"
      "distinct (map mn_addr (freed (store w)) @ map mn_self (freed (store w)))"
    and dom: "dom (c_heap w) = node_blocks (in_use (store w)) \<union> node_blocks (freed (store w))"
    and sep: "node_blocks (in_use (store w)) \<inter> node_blocks (freed (store w)) = {}"
    and null: "c_heap w 0 = None"
    and cnt: "n_bytes_in_use (store w) = sum_list (map mn_bytes (in_use (store w)))"
      "n_blocks_in_use (store w) = of_nat (length (in_use (store w)))"
    using wf by (auto simp: mem_wf_def mem_defs node_blocks_def)
  have nz: "0 \<notin> node_blocks (in_use (store w))" "0 \<notin> node_blocks (freed (store w))"
    using dom null by auto
  have sub: "node_blocks (in_use (store w)) \<subseteq> dom (c_heap v)" using dom v by simp
  from mem_close_in_use_result [OF dis(1) sub nz(1), of s0]
  obtain st x where run: "mem_close_in_use (in_use (store w)) s0 v = Some (st, x)"
    and h: "c_heap x = (\<lambda>p. if p \<in> node_blocks (in_use (store w)) then None else c_heap v p)"
    and n: "n_bytes_in_use (store x) = n_bytes_in_use (store v) - sum_list (map mn_bytes (in_use (store w)))"
      "n_blocks_in_use (store x) = n_blocks_in_use (store v) - of_nat (length (in_use (store w)))"
    and fr: "freed (store x) = freed (store v)"
    and lg: "writes_ok v \<longrightarrow> st = s0 \<and> c_out x = (c_out v)(mem_log (store v) :=
        c_out v (mem_log (store v)) @ concat (map mem_leak_line (in_use (store w))))"
    by blast
  have x: "mem_close_in_use (in_use (store v)) s0 v = Some (st, x)"
     "c_heap x = (\<lambda>p. if p \<in> node_blocks (in_use (store w)) then None else c_heap w p)"
     "n_bytes_in_use (store x) = 0" "n_blocks_in_use (store x) = 0"
     "freed (store x) = freed (store w)"
     "writes_ok v \<longrightarrow> st = s0 \<and> c_out x = (c_out v)(mem_log (store w) :=
        c_out v (mem_log (store w)) @ concat (map mem_leak_line (in_use (store w))))"
    using run h [unfolded v(1)] n fr lg v cnt by simp_all
  have "node_blocks (freed (store w)) \<subseteq> dom (c_heap x)"
    using x(2) dom sep by (auto simp: dom_def split: if_splits)
  then have y: "mem_close_freed (freed (store x)) x = Some (x\<lparr>c_heap := (\<lambda>p.
      if p \<in> node_blocks (freed (store w)) then None else c_heap x p)\<rparr>)"
    using mem_close_freed_result [OF dis(2) _ nz(2)] x(5) by simp
  have "(\<lambda>p. if p \<in> node_blocks (freed (store w)) then None else c_heap x p) = (\<lambda>_. None)"
    using x(2) dom by (auto simp: fun_eq_iff)
  with y have "mut_mem_close w = Some (st, x\<lparr>c_heap := (\<lambda>_. None)\<rparr>)"
    using rep x by (simp add: mut_mem_close_def)
  then show ?thesis using sv x(6) by auto
qed

section \<open>Runs of the allocator\<close>

text \<open>Any sequence of calls of the interface, from a freshly initialised store.\<close>

inductive mem_run :: "'a mem_world_scheme \<Rightarrow> 'a mem_world_scheme \<Rightarrow> bool" where
  start: "mem_run w (w\<lparr>store := mut_mem_init\<rparr>)"
| alloc: "mem_run w u \<Longrightarrow> mut_mem__malloc n ln f u = Some (a, v) \<Longrightarrow> mem_run w v"
| resize: "mem_run w u \<Longrightarrow> mut_mem__realloc a n ln f u = Some (b, v) \<Longrightarrow> mem_run w v"
| release: "mem_run w u \<Longrightarrow> mut_mem__free a ln f u = Some v \<Longrightarrow> mem_run w v"
| set_log: "mem_run w u \<Longrightarrow> mut_mem_log l u = (old, v) \<Longrightarrow> mem_run w v"
| set_report: "mem_run w u \<Longrightarrow> mut_mem_report r u = (old, v) \<Longrightarrow> mem_run w v"

lemma mem_wf_init:
  "malloc_fresh w \<Longrightarrow> c_heap w = (\<lambda>_. None) \<Longrightarrow> mem_wf (w\<lparr>store := mut_mem_init\<rparr>)"
  by (simp add: mem_wf_def mem_defs mut_mem_init_def)

lemma mem_run_wf:
  assumes "mem_run w v" and "malloc_fresh w" and "c_heap w = (\<lambda>_. None)"
  shows "mem_wf v"
  using assms
proof (induction rule: mem_run.induct)
  case (start w)
  then show ?case by (intro mem_wf_init)
next
  case (set_log w u l old v)
  then show ?case by (auto simp: mut_mem_log_def)
next
  case (set_report w u r old v)
  then show ?case by (auto simp: mut_mem_report_def)
qed (auto intro: mut_mem__malloc_wf mut_mem__realloc_wf mut_mem__free_wf)

section \<open>What the operations leave unchanged\<close>

text \<open>
  The states of the other components extend \<open>mem_world\<close>; these rules give their frame
  conditions, because an update of the fields named here changes no other field.
\<close>

definition mem_only :: "'a mem_world_scheme \<Rightarrow> 'a mem_world_scheme \<Rightarrow> bool" where
  "mem_only w w' \<longleftrightarrow>
     w' = w\<lparr>c_heap := c_heap w', c_errno := c_errno w', c_out := c_out w', store := store w'\<rparr>"

lemma mem_onlyE:
  assumes "mem_only w w'"
  obtains h e out s where "w' = w\<lparr>c_heap := h, c_errno := e, c_out := out, store := s\<rparr>"
  using assms unfolding mem_only_def by blast

lemma mem_only_update [simp]:
  "mem_only w w"
  "mem_only w (w\<lparr>c_heap := h\<rparr>)"
  "mem_only w (w\<lparr>c_errno := e\<rparr>)"
  "mem_only w (w\<lparr>c_out := out\<rparr>)"
  "mem_only w (w\<lparr>store := s\<rparr>)"
  "mem_only w (w\<lparr>c_heap := h, store := s\<rparr>)"
  by (simp_all add: mem_only_def)

lemma mem_only_trans: "mem_only u v \<Longrightarrow> mem_only v w \<Longrightarrow> mem_only u w"
  by (cases u; cases v; cases w) (simp add: mem_only_def)

lemma mem_only_params: "mem_only w w' \<Longrightarrow> same_libc_params w w'"
  by (cases w; cases w') (simp add: mem_only_def same_libc_params_def)

lemma mem_only_libc [frame]:
  "mem_only w (snd (libc_malloc n w))"
  "libc_free p w = Some w' \<Longrightarrow> mem_only w w'"
  "libc_memset p c n w = Some w' \<Longrightarrow> mem_only w w'"
  "libc_memcpy p q n w = Some w' \<Longrightarrow> mem_only w w'"
  "mem_only w (snd (libc_fput str l w))"
  by (auto simp: libc_malloc_def libc_free_def libc_memset_def libc_memcpy_def libc_fput_def Let_def
      split: if_splits option.splits)

lemma mem_only_malloc [frame]:
  assumes "mut_mem__malloc n ln f w = Some (p, w')"
  shows "mem_only w w'"
proof -
  obtain a u where u: "libc_malloc n w = (a, u)" by fastforce
  obtain b v where v: "libc_malloc sizeof_mut_mem_node u = (b, v)" by fastforce
  have "mem_only w u" "mem_only u v"
    using mem_only_libc(1) [of w n] mem_only_libc(1) [of u sizeof_mut_mem_node] u v by simp_all
  then have "mem_only w v" by (rule mem_only_trans)
  with assms u v \<open>mem_only w u\<close> show ?thesis
    by (auto simp: mut_mem__malloc_def split: if_splits bind_splits
        intro: mem_only_trans [OF _ mem_only_libc(2)] mem_only_trans [OF _ mem_only_update(5)])
qed

lemma mem_only_free [frame]:
  assumes "mut_mem__free a ln f w = Some w'"
  shows "mem_only w w'"
  using assms
  by (auto simp: mut_mem__free_def Let_def libc_memset_def
      split: if_splits bind_splits option.splits)

section \<open>The allocator's contract\<close>

text \<open>
  What the other components rely on: a block that is handed out is not owned already and
  is owned from then on, an owned block can be released once, and both keep the
  invariant. \<open>alloc\<close> has the status in its pointer, as in C.
\<close>

locale allocator =
  fixes alloc :: "'l \<Rightarrow> u32 \<Rightarrow> 's \<Rightarrow> (ptr \<times> 's) option"
    and release :: "'l \<Rightarrow> ptr \<Rightarrow> 's \<Rightarrow> 's option"
    and owned :: "'s \<Rightarrow> ptr set"
    and wf :: "'s \<Rightarrow> bool"
  assumes alloc_returns: "wf s \<Longrightarrow> \<exists>p s'. alloc l n s = Some (p, s')"
    and alloc_wf: "wf s \<Longrightarrow> alloc l n s = Some (p, s') \<Longrightarrow> wf s'"
    and alloc_none: "wf s \<Longrightarrow> alloc l n s = Some (0, s') \<Longrightarrow> owned s' = owned s"
    and alloc_some: "wf s \<Longrightarrow> alloc l n s = Some (p, s') \<Longrightarrow> p \<noteq> 0 \<Longrightarrow>
        p \<notin> owned s \<and> owned s' = insert p (owned s)"
    and release_owned: "wf s \<Longrightarrow> p \<in> owned s \<Longrightarrow>
        \<exists>s'. release l p s = Some s' \<and> wf s' \<and> owned s' = owned s - {p}"
    and release_other: "p \<noteq> 0 \<Longrightarrow> p \<notin> owned s \<Longrightarrow> release l p s = None"
begin

text \<open>The blocks are released one by one, each from its own place in the program.\<close>

primrec release_all :: "('l \<times> ptr) list \<Rightarrow> 's \<Rightarrow> 's option" where
  "release_all [] s = Some s"
| "release_all (p # ps) s = do { s \<leftarrow> release (fst p) (snd p) s; release_all ps s }"

lemma release_all_append: "release_all (ps @ qs) s = release_all ps s \<bind> release_all qs"
  by (induction ps arbitrary: s) simp_all

lemma release_all_append_Cons:
  "release_all (ps @ p # qs) s =
     release_all ps s \<bind> (\<lambda>s. release (fst p) (snd p) s \<bind> release_all qs)"
  by (induction ps arbitrary: s) simp_all

lemma release_all_returns:
  "wf s \<Longrightarrow> distinct (map snd ps) \<Longrightarrow> snd ` set ps \<subseteq> owned s \<Longrightarrow>
   \<exists>s'. release_all ps s = Some s' \<and> wf s' \<and> owned s' = owned s - snd ` set ps"
proof (induction ps arbitrary: s)
  case Nil
  then show ?case by simp
next
  case (Cons p ps)
  then obtain u where u: "release (fst p) (snd p) s = Some u" "wf u" "owned u = owned s - {snd p}"
    using release_owned [of s "snd p" "fst p"] by auto
  have "snd ` set ps \<subseteq> owned u" using Cons.prems u(3) by (force simp: image_iff)
  then obtain s' where "release_all ps u = Some s'" "wf s'" "owned s' = owned u - snd ` set ps"
    using Cons.IH [of u] Cons.prems u(2) by auto
  with u show ?case by auto
qed

lemma alloc_then_release:
  assumes "wf s" and "alloc l n s = Some (p, u)" and "p \<noteq> 0"
  shows "\<exists>s'. release k p u = Some s' \<and> wf s' \<and> owned s' = owned s"
  using alloc_wf [OF assms(1,2)] alloc_some [OF assms] release_owned [of u p k] by auto

lemma double_release:
  assumes "wf s" and "p \<in> owned s" and "p \<noteq> 0" and "release l p s = Some u"
  shows "release k p u = None"
  using release_owned [OF assms(1,2), of l] assms(3,4) release_other by auto

lemma two_allocs_differ:
  assumes "wf s" and "alloc k m s = Some (p, u)" and "p \<noteq> 0" and "alloc l n u = Some (q, v)" and "q \<noteq> 0"
  shows "q \<noteq> p"
  using alloc_some [OF assms(1-3)] alloc_some [OF alloc_wf [OF assms(1,2)] assms(4,5)] by auto

end

lemma mem_in_use_not_null:
  assumes "mem_wf w" and "a \<in> mem_in_use w"
  shows "a \<noteq> 0"
proof -
  have "a \<in> dom (c_heap w)" using assms by (auto simp: mem_wf_def mem_defs mem_in_use_def)
  then show ?thesis using assms(1) by (auto simp: mem_wf_def)
qed

lemma mut_mem__malloc_result:
  assumes wf: "mem_wf w" and run: "mut_mem__malloc n ln f w = Some (p, w')"
  shows "mem_freed w' = mem_freed w \<and>
    (if p = 0 then mem_in_use w' = mem_in_use w
     else p \<notin> mem_in_use w \<union> mem_freed w \<and> mem_in_use w' = insert p (mem_in_use w) \<and>
          (\<exists>bs. c_heap w' p = Some bs \<and> length bs = unat n))"
proof -
  have "malloc_fresh w" using wf by (simp add: mem_wf_def)
  from this run show ?thesis
  proof (cases rule: mut_mem__malloc_cases)
    case (fail e)
    then show ?thesis by (auto simp: mem_in_use_def mem_freed_def)
  next
    case (new node b1 b2)
    have "p \<notin> mem_in_use w \<union> mem_freed w"
    proof
      assume "p \<in> mem_in_use w \<union> mem_freed w"
      then obtain k where "k \<in> set (mem_nodes (store w))" "mn_addr k = p"
        by (auto simp: mem_in_use_def mem_freed_def mem_nodes_def)
      with wf new(4) show False by (auto simp: mem_wf_def)
    qed
    with new show ?thesis by (auto simp: mem_in_use_def mem_freed_def)
  qed
qed

text \<open>The place a call comes from is its line and file.\<close>

definition mem_alloc_at ::
  "u32 \<times> string \<Rightarrow> u32 \<Rightarrow> 'a mem_world_scheme \<Rightarrow> (ptr \<times> 'a mem_world_scheme) option" where
  "mem_alloc_at l n = mut_mem__malloc n (fst l) (snd l)"

definition mem_free_at :: "u32 \<times> string \<Rightarrow> ptr \<Rightarrow> 'a mem_world_scheme \<Rightarrow> 'a mem_world_scheme option" where
  "mem_free_at l a = mut_mem__free a (fst l) (snd l)"

lemma mem_free_at_fold: "mut_mem__free a ln f = mem_free_at (ln, f) a"
  by (simp add: mem_free_at_def fun_eq_iff)

interpretation mut_mem: allocator mem_alloc_at mem_free_at mem_in_use mem_wf
proof (unfold_locales, goal_cases)
  case (1 s l n)
  then show ?case using mut_mem__malloc_returns [of s n] by (auto simp: mem_wf_def returns_eq mem_alloc_at_def)
next
  case (2 s l n p s')
  then show ?case unfolding mem_alloc_at_def by (rule mut_mem__malloc_wf)
next
  case (3 s l n s')
  then show ?case using mut_mem__malloc_result by (fastforce simp: mem_alloc_at_def)
next
  case (4 s l n p s')
  then show ?case using mut_mem__malloc_result [of s n "fst l" "snd l" p s'] by (auto simp: mem_alloc_at_def)
next
  case (5 s p l)
  then show ?case
    using mut_mem__free_result [of s p "fst l" "snd l"] mut_mem__free_wf mem_in_use_not_null [of s p]
    unfolding mem_free_at_def by blast
next
  case (6 p s l)
  then show ?case unfolding mem_free_at_def by (rule mut_mem__free_aborts)
qed

section \<open>Properties\<close>

text \<open>
  C38: Whatever sequence of allocations, reallocations, frees and stream changes is run from
  a fresh store, the store stays well-formed: its blocks are distinct, they are
  exactly the allocated blocks of the C heap, each has the size on its node, and the counters
  of bytes and blocks in use are those of the \<open>in_use\<close> list.
\<close>

theorem mut_mem_runs_well_formed:
  assumes "mem_run w v" and "malloc_fresh w" and "c_heap w = (\<lambda>_. None)"
  shows "mem_wf v"
  using assms by (rule mem_run_wf)

text \<open>A sample state for the witnesses: a heap with a few addresses, nothing fails.\<close>

definition sample_pick :: "(ptr \<Rightarrow> u8 list option) \<Rightarrow> u32 \<Rightarrow> ptr" where
  "sample_pick h n = (case filter (\<lambda>p. h p = None) [0x1000, 0x2000, 0x3000, 0x4000, 0x5000, 0x6000] of
     [] \<Rightarrow> 0 | p # _ \<Rightarrow> p)"

lemma sample_pick_fresh: "sample_pick h n \<noteq> 0 \<Longrightarrow> h (sample_pick h n) = None"
  by (simp add: sample_pick_def split: if_splits)

definition sample_world :: "'a \<Rightarrow> 'a mem_world_scheme" where
  "sample_world x = \<lparr>c_heap = (\<lambda>_. None), c_pick = sample_pick, c_fill = (\<lambda>_ _. 0), c_indet = (\<lambda>_. 0),
     c_errno = 0, c_out = (\<lambda>_. []), c_write_fails = (\<lambda>_ _ _. False), c_fopen_fails = (\<lambda>_. False),
     store = mut_mem_init, \<dots> = x\<rparr>"

definition sample_mem :: mem_world where
  "sample_mem = sample_world ()"

lemma sample_world_simps [simp]:
  "malloc_fresh (sample_world x)"
  "writes_ok (sample_world x)"
  "c_heap (sample_world x) = (\<lambda>_. None)"
  "c_pick (sample_world x) = sample_pick"
  "store (sample_world x) = mut_mem_init"
  by (simp_all add: sample_world_def malloc_fresh_def writes_ok_def sample_pick_fresh)

lemma sample_world_wf [simp]: "mem_wf (sample_world x)"
proof -
  have "(sample_world x)\<lparr>store := mut_mem_init\<rparr> = sample_world x" by (simp add: sample_world_def)
  moreover have "mem_wf ((sample_world x)\<lparr>store := mut_mem_init\<rparr>)" by (rule mem_wf_init) simp_all
  ultimately show ?thesis by (simp only:)
qed

lemma sample_mem_simps [simp]:
  "malloc_fresh sample_mem"
  "writes_ok sample_mem"
  "c_heap sample_mem = (\<lambda>_. None)"
  "c_pick sample_mem = sample_pick"
  "store sample_mem = mut_mem_init"
  by (simp_all add: sample_mem_def)

lemma sample_mem_init: "sample_mem\<lparr>store := mut_mem_init\<rparr> = sample_mem"
  by (simp add: sample_mem_def sample_world_def)

lemma sample_mem_wf: "mem_wf sample_mem"
  using mem_wf_init [of sample_mem] by (simp add: sample_mem_init)

definition sample_mem1 :: mem_world where
  "sample_mem1 = snd (the (mut_mem__malloc 5 10 ''f.c'' sample_mem))"

lemma sample_mem1: "mut_mem__malloc 5 10 ''f.c'' sample_mem = Some (0x1000, sample_mem1)"
  by (simp add: sample_mem1_def mut_mem__malloc_def libc_malloc_def sample_pick_def Let_def)

lemma sample_mem1_wf: "mem_wf sample_mem1"
  by (rule mut_mem__malloc_wf [OF sample_mem_wf sample_mem1])

lemma sample_mem1_in_use: "mem_in_use sample_mem1 = {0x1000}"
  using mut_mem__malloc_result [OF sample_mem_wf sample_mem1] by (simp add: mem_in_use_def mut_mem_init_def)

lemma mut_mem_runs_well_formed_witness: "mem_wf sample_mem1"
  by (rule mut_mem_runs_well_formed [OF mem_run.alloc [OF mem_run.start [of sample_mem, unfolded sample_mem_init]
        sample_mem1]]) simp_all

text \<open>
  Allocation never hands out a block the store has seen before: a successful
  \<open>mut_mem__malloc\<close> returns an address that is neither in use nor among the freed blocks (so a
  stale pointer never aliases a live block), of exactly the size asked for, and it adds just
  that block; a failed one changes neither set.
\<close>

theorem mut_mem_malloc_never_reuses:
  assumes "mem_wf w" and "mut_mem__malloc n ln f w = Some (p, w')"
  shows "mem_freed w' = mem_freed w \<and>
    (if p = 0 then mem_in_use w' = mem_in_use w
     else p \<notin> mem_in_use w \<union> mem_freed w \<and> mem_in_use w' = insert p (mem_in_use w) \<and>
          (\<exists>bs. c_heap w' p = Some bs \<and> length bs = unat n))"
  using assms by (rule mut_mem__malloc_result)

lemma mut_mem_malloc_never_reuses_witness:
  "0x1000 \<notin> mem_in_use sample_mem \<union> mem_freed sample_mem \<and> mem_in_use sample_mem1 = {0x1000}"
  using mut_mem_malloc_never_reuses [OF sample_mem_wf sample_mem1] by (simp add: sample_mem1_in_use)

text \<open>
  Freeing a block in use succeeds, moves it to the freed list and overwrites every byte of
  it with 0xAA, so a later read through a stale pointer is recognisable; it touches no other
  block; and freeing the same address again stops the program.
\<close>

theorem mut_mem_free_poisons_once:
  assumes "mem_wf w" and "a \<in> mem_in_use w"
  shows "\<exists>w' n. mut_mem__free a ln f w = Some w' \<and> mem_in_use w' = mem_in_use w - {a} \<and>
     mem_freed w' = insert a (mem_freed w) \<and> n \<in> set (in_use (store w)) \<and> mn_addr n = a \<and>
     c_heap w' = (c_heap w)(a \<mapsto> replicate (unat (mn_bytes n)) 0xaa) \<and>
     mut_mem__free a ln' f' w' = None"
proof -
  have nz: "a \<noteq> 0" using assms by (rule mem_in_use_not_null)
  obtain w' n where r: "mut_mem__free a ln f w = Some w'" "mem_in_use w' = mem_in_use w - {a}"
    "mem_freed w' = insert a (mem_freed w)" "n \<in> set (in_use (store w))" "mn_addr n = a"
    "c_heap w' = (c_heap w)(a \<mapsto> replicate (unat (mn_bytes n)) 0xaa)"
    using mut_mem__free_result [OF assms nz] by blast
  moreover have "mut_mem__free a ln' f' w' = None"
    using nz r(2) by (intro mut_mem__free_aborts) auto
  ultimately show ?thesis by blast
qed

lemma mut_mem_free_poisons_once_witness:
  "\<exists>w'. mut_mem__free 0x1000 12 ''g.c'' sample_mem1 = Some w' \<and> mut_mem__free 0x1000 13 ''g.c'' w' = None"
  using mut_mem_free_poisons_once [OF sample_mem1_wf, of "0x1000" 12 "''g.c''" 13 "''g.c''"] sample_mem1_in_use by blast

text \<open>
  C39: \<open>mut_mem__realloc\<close> of a block in use keeps the common prefix of the contents in a new block,
  and retires the old block in every case: when the allocation fails it returns 0 although the
  caller's block, bytes unchanged, is no longer in use, unlike the C library's \<open>realloc\<close>.
\<close>

theorem mut_mem_realloc_contents:
  assumes "mem_wf w" and "a \<in> mem_in_use w" and "c_heap w a = Some old"
    and "mut_mem__realloc a n ln f w = Some (b, w')"
  shows "mem_freed w' = insert a (mem_freed w) \<and>
    (if b = 0 then mem_in_use w' = mem_in_use w - {a} \<and> c_heap w' a = Some old
     else b \<noteq> a \<and> b \<notin> mem_in_use w \<and> mem_in_use w' = insert b (mem_in_use w - {a}) \<and>
          (\<exists>new. c_heap w' b = Some new \<and> length new = unat n \<and>
             take (min (length old) (unat n)) new = take (min (length old) (unat n)) old))"
  using mut_mem__realloc_result [OF assms(1,2) mem_in_use_not_null [OF assms(1,2)] assms(3,4)] .

lemma mut_mem_realloc_contents_witness:
  "\<exists>w'. mut_mem__realloc 0x1000 9 20 ''g.c'' sample_mem1 = Some (0x3000, w') \<and>
     mem_in_use w' = {0x3000} \<and> 0x1000 \<in> mem_freed w'"
proof -
  obtain w' where r: "mut_mem__realloc 0x1000 9 20 ''g.c'' sample_mem1 = Some (0x3000, w')"
    by (simp add: sample_mem1_def mut_mem__malloc_def mut_mem__realloc_def libc_malloc_def sample_pick_def
        Let_def mut_mem_init_def libc_memcpy_def libc_memset_def)
  have h: "c_heap sample_mem1 0x1000 = Some (map (c_fill sample_mem 0x1000) [0..<5])"
    by (simp add: sample_mem1_def mut_mem__malloc_def libc_malloc_def sample_pick_def Let_def)
  have "0x1000 \<in> mem_in_use sample_mem1" by (simp add: sample_mem1_in_use)
  from mut_mem_realloc_contents [OF sample_mem1_wf this h r] r show ?thesis
    by (auto simp: sample_mem1_in_use)
qed

text \<open>
  Closing a well-formed store never fails its assertions, frees every block, in use or
  freed, so nothing is left in the C heap, and (when writes succeed and no report was asked
  for) writes exactly one leak line per block still in use, in list order, and returns 0.
\<close>

theorem mut_mem_close_frees_everything:
  assumes "mem_wf w"
  shows "\<exists>st w'. mut_mem_close w = Some (st, w') \<and> c_heap w' = (\<lambda>_. None) \<and>
     (writes_ok w \<and> mem_report (store w) = None \<longrightarrow> st = 0 \<and>
        c_out w' = (c_out w)(mem_log (store w) :=
           c_out w (mem_log (store w)) @ concat (map mem_leak_line (in_use (store w)))))"
  using assms by (rule mut_mem_close_result)

lemma mut_mem_close_frees_everything_witness:
  "\<exists>st w'. mut_mem_close sample_mem1 = Some (st, w') \<and> c_heap w' = (\<lambda>_. None)"
  using mut_mem_close_frees_everything [OF sample_mem1_wf] by blast

end
