(* ===== verification/MutLog.thy ===== *)
theory MutLog
  imports MutMem MutUint64
begin

text \<open>
  The log, src/src/log/tty/mut_log.c. A message is started by one of \<open>mut_log_fatal\<close>,
  \<open>mut_log_error\<close>, \<open>mut_log_warning\<close> and \<open>mut_log_info\<close>, given its arguments by the
  \<open>mut_log_string\<close> group, and ended by \<open>mut_log_end\<close>; the assertions of the code make this a
  protocol of two states. MUT's \<open>printf\<close> calls write to the streams of \<open>MutLibc\<close>.
\<close>

section \<open>State\<close>

record mut_log =
  fatal_error :: bool
  internal_error :: bool
  program_name :: string
  logging :: bool
  sink :: stream

record log_world = mem_world +
  the_log :: mut_log

section \<open>Operations\<close>

definition mut_log_open :: "string \<Rightarrow> 'a log_world_scheme \<Rightarrow> 'a log_world_scheme" where
  "mut_log_open prog w =
     w\<lparr>the_log := \<lparr>fatal_error = False, internal_error = False, program_name = prog,
                    logging = False, sink = Stderr\<rparr>\<rparr>"

definition mut_log_prog_name :: "string \<Rightarrow> 'a log_world_scheme \<Rightarrow> 'a log_world_scheme" where
  "mut_log_prog_name prog w = w\<lparr>the_log := (the_log w)\<lparr>program_name := prog\<rparr>\<rparr>"

text \<open>One \<open>fprintf\<close> whose failure is kept in \<open>internal_error\<close>.\<close>

definition log_print :: "string \<Rightarrow> 'a log_world_scheme \<Rightarrow> 'a log_world_scheme" where
  "log_print str w =
     (let (ok, w) = libc_fput (sink (the_log w)) str w
      in w\<lparr>the_log := (the_log w)\<lparr>internal_error := \<not> ok\<rparr>\<rparr>)"

text \<open>The three preconditions that every function starting a message asserts.\<close>

definition log_idle :: "'a log_world_scheme \<Rightarrow> bool" where
  "log_idle w \<longleftrightarrow> \<not> fatal_error (the_log w) \<and> \<not> logging (the_log w) \<and> \<not> internal_error (the_log w)"

definition mut_log_fatal :: "string \<Rightarrow> u32 \<Rightarrow> 'a log_world_scheme \<Rightarrow> 'a log_world_scheme option" where
  "mut_log_fatal fatal error_code w = do {
     assert_c (\<not> fatal_error (the_log w));
     assert_c (\<not> logging (the_log w));
     assert_c (\<not> internal_error (the_log w));
     let w = w\<lparr>the_log := (the_log w)\<lparr>fatal_error := True, logging := True\<rparr>\<rparr>;
     Some (log_print (program_name (the_log w) @ '' fatal '' @ fmt_d error_code @ '' '' @ fatal) w)
   }"

definition mut_log_mem_full :: "u32 \<Rightarrow> 'a log_world_scheme \<Rightarrow> 'a log_world_scheme option" where
  "mut_log_mem_full error_code w = do {
     assert_c (\<not> fatal_error (the_log w));
     assert_c (\<not> logging (the_log w));
     assert_c (\<not> internal_error (the_log w));
     let w = w\<lparr>the_log := (the_log w)\<lparr>fatal_error := True, logging := True\<rparr>\<rparr>;
     Some (log_print (program_name (the_log w) @ '' fatal '' @ fmt_d error_code @ '' mem.full\<newline>'') w)
   }"

definition mut_log_error :: "string \<Rightarrow> 'a log_world_scheme \<Rightarrow> 'a log_world_scheme option" where
  "mut_log_error err w = do {
     assert_c (\<not> fatal_error (the_log w));
     assert_c (\<not> logging (the_log w));
     assert_c (\<not> internal_error (the_log w));
     let w = w\<lparr>the_log := (the_log w)\<lparr>logging := True\<rparr>\<rparr>;
     Some (log_print (program_name (the_log w) @ '' error '' @ err) w)
   }"

definition mut_log_warning :: "string \<Rightarrow> 'a log_world_scheme \<Rightarrow> 'a log_world_scheme option" where
  "mut_log_warning warning w = do {
     assert_c (\<not> fatal_error (the_log w));
     assert_c (\<not> logging (the_log w));
     assert_c (\<not> internal_error (the_log w));
     let w = w\<lparr>the_log := (the_log w)\<lparr>logging := True\<rparr>\<rparr>;
     Some (log_print (program_name (the_log w) @ '' warning '' @ warning) w)
   }"

definition mut_log_info :: "string \<Rightarrow> 'a log_world_scheme \<Rightarrow> 'a log_world_scheme option" where
  "mut_log_info info w = do {
     assert_c (\<not> fatal_error (the_log w));
     assert_c (\<not> logging (the_log w));
     assert_c (\<not> internal_error (the_log w));
     let w = w\<lparr>the_log := (the_log w)\<lparr>logging := True\<rparr>\<rparr>;
     Some (log_print (program_name (the_log w) @ '' info '' @ info) w)
   }"

text \<open>The functions that add an argument differ only in the conversion.\<close>

definition log_arg :: "string \<Rightarrow> 'a log_world_scheme \<Rightarrow> 'a log_world_scheme option" where
  "log_arg str w = do {
     assert_c (logging (the_log w));
     Some (if \<not> internal_error (the_log w) then log_print str w else w)
   }"

definition mut_log_string :: "string \<Rightarrow> 'a log_world_scheme \<Rightarrow> 'a log_world_scheme option" where
  "mut_log_string arg = log_arg ('' '' @ arg)"

definition mut_log_int :: "u32 \<Rightarrow> 'a log_world_scheme \<Rightarrow> 'a log_world_scheme option" where
  "mut_log_int i = log_arg ('' '' @ fmt_d i)"

definition mut_log_uint :: "u32 \<Rightarrow> 'a log_world_scheme \<Rightarrow> 'a log_world_scheme option" where
  "mut_log_uint i = log_arg ('' '' @ fmt_u i)"

definition mut_log_uint_hex :: "u32 \<Rightarrow> 'a log_world_scheme \<Rightarrow> 'a log_world_scheme option" where
  "mut_log_uint_hex i = log_arg ('' '' @ fmt_X i)"

definition mut_log_long :: "u32 \<Rightarrow> 'a log_world_scheme \<Rightarrow> 'a log_world_scheme option" where
  "mut_log_long i = log_arg ('' '' @ fmt_d i)"

definition mut_log_ulong :: "u32 \<Rightarrow> 'a log_world_scheme \<Rightarrow> 'a log_world_scheme option" where
  "mut_log_ulong i = log_arg ('' '' @ fmt_u i)"

text \<open>\<open>fputc\<close> and \<open>mut_uint64_out\<close> are two writes; the second is tried only after the first.\<close>

definition mut_log_uint64 :: "mut_uint64 \<Rightarrow> 'a log_world_scheme \<Rightarrow> 'a log_world_scheme option" where
  "mut_log_uint64 i w = do {
     assert_c (logging (the_log w));
     if \<not> internal_error (the_log w) then do {
       let (ok, w) = libc_fput (sink (the_log w)) '' '' w;
       (ok, w) \<leftarrow> (if ok then mut_uint64_out (sink (the_log w)) i w else Some (False, w));
       Some (w\<lparr>the_log := (the_log w)\<lparr>internal_error := \<not> ok\<rparr>\<rparr>)
     }
     else Some w
   }"

definition mut_log_end :: "'a log_world_scheme \<Rightarrow> (bool \<times> 'a log_world_scheme) option" where
  "mut_log_end w = do {
     assert_c (logging (the_log w));
     let w = w\<lparr>the_log := (the_log w)\<lparr>logging := False\<rparr>\<rparr>;
     let w = (if \<not> internal_error (the_log w) then log_print ''\<newline>'' w else w);
     Some (\<not> internal_error (the_log w), w)
   }"

definition mut_log_file :: "string \<Rightarrow> 'a log_world_scheme \<Rightarrow> 'a log_world_scheme option" where
  "mut_log_file log_file_name w =
     (case libc_fopen_w log_file_name w of
        (None, w) \<Rightarrow> do {
          w \<leftarrow> mut_log_warning ''io.open'' w;
          w \<leftarrow> mut_log_string log_file_name w;
          (ok, w) \<leftarrow> mut_log_end w;
          Some w
        }
      | (Some s, w) \<Rightarrow> Some (w\<lparr>the_log := (the_log w)\<lparr>sink := s\<rparr>\<rparr>))"

definition mut_log_close :: "'a log_world_scheme \<Rightarrow> bool \<times> 'a log_world_scheme" where
  "mut_log_close w = (internal_error (the_log w), w)"

section \<open>The message grammar\<close>

text \<open>The abstract view: a message is a level, a text and arguments, and it is one line.\<close>

datatype log_level = Fatal u32 | Error | Warning | Info

datatype log_argument =
    LString string | LInt u32 | LUint u32 | LUint64 mut_uint64 | LHex u32 | LLong u32 | LUlong u32

fun log_level_text :: "log_level \<Rightarrow> string" where
  "log_level_text (Fatal e) = ''fatal '' @ fmt_d e"
| "log_level_text Error = ''error''"
| "log_level_text Warning = ''warning''"
| "log_level_text Info = ''info''"

fun log_argument_text :: "log_argument \<Rightarrow> string" where
  "log_argument_text (LString s) = s"
| "log_argument_text (LInt i) = fmt_d i"
| "log_argument_text (LUint i) = fmt_u i"
| "log_argument_text (LUint64 u) = dec_string (u64_val u)"
| "log_argument_text (LHex i) = fmt_X i"
| "log_argument_text (LLong i) = fmt_d i"
| "log_argument_text (LUlong i) = fmt_u i"

definition log_line :: "string \<Rightarrow> log_level \<Rightarrow> string \<Rightarrow> log_argument list \<Rightarrow> string" where
  "log_line prog l msg args =
     prog @ '' '' @ log_level_text l @ '' '' @ msg @
     concat (map (\<lambda>a. '' '' @ log_argument_text a) args) @ ''\<newline>''"

fun log_level_call :: "log_level \<Rightarrow> string \<Rightarrow> 'a log_world_scheme \<Rightarrow> 'a log_world_scheme option" where
  "log_level_call (Fatal e) msg = mut_log_fatal msg e"
| "log_level_call Error msg = mut_log_error msg"
| "log_level_call Warning msg = mut_log_warning msg"
| "log_level_call Info msg = mut_log_info msg"

fun log_argument_call :: "log_argument \<Rightarrow> 'a log_world_scheme \<Rightarrow> 'a log_world_scheme option" where
  "log_argument_call (LString s) = mut_log_string s"
| "log_argument_call (LInt i) = mut_log_int i"
| "log_argument_call (LUint i) = mut_log_uint i"
| "log_argument_call (LUint64 u) = mut_log_uint64 u"
| "log_argument_call (LHex i) = mut_log_uint_hex i"
| "log_argument_call (LLong i) = mut_log_long i"
| "log_argument_call (LUlong i) = mut_log_ulong i"

fun log_arguments :: "log_argument list \<Rightarrow> 'a log_world_scheme \<Rightarrow> 'a log_world_scheme option" where
  "log_arguments [] w = Some w"
| "log_arguments (a # as) w = do { w \<leftarrow> log_argument_call a w; log_arguments as w }"

definition log_message ::
  "log_level \<Rightarrow> string \<Rightarrow> log_argument list \<Rightarrow> 'a log_world_scheme \<Rightarrow> (bool \<times> 'a log_world_scheme) option" where
  "log_message l msg args w = do {
     w \<leftarrow> log_level_call l msg w;
     w \<leftarrow> log_arguments args w;
     mut_log_end w
   }"

definition log_emit :: "string \<Rightarrow> 'a log_world_scheme \<Rightarrow> 'a log_world_scheme" where
  "log_emit str w = w\<lparr>c_out := (c_out w)(sink (the_log w) := c_out w (sink (the_log w)) @ str)\<rparr>"


section \<open>Frames\<close>

text \<open>The log changes these fields, and no other field of a state that extends \<open>log_world\<close>.\<close>

definition io_only :: "'a log_world_scheme \<Rightarrow> 'a log_world_scheme \<Rightarrow> bool" where
  "io_only w w' \<longleftrightarrow> w' = w\<lparr>c_errno := c_errno w', c_out := c_out w', the_log := the_log w'\<rparr>"

lemma io_onlyE:
  assumes "io_only w w'"
  obtains e out l where "w' = w\<lparr>c_errno := e, c_out := out, the_log := l\<rparr>"
  using assms unfolding io_only_def by blast

lemma io_only_trans: "io_only u v \<Longrightarrow> io_only v w \<Longrightarrow> io_only u w"
  by (cases u; cases v; cases w) (simp add: io_only_def)

lemma io_only_update [simp]:
  "io_only w w"
  "io_only w (w\<lparr>the_log := l\<rparr>)"
  "io_only w (w\<lparr>c_out := out, the_log := l\<rparr>)"
  "io_only w (w\<lparr>c_errno := e, the_log := l\<rparr>)"
  by (simp_all add: io_only_def)

lemma io_only_mem:
  "io_only w w' \<Longrightarrow> store w' = store w \<and> c_heap w' = c_heap w \<and> mem_in_use w' = mem_in_use w \<and>
     mem_wf w' = mem_wf w \<and> writes_ok w' = writes_ok w \<and> same_libc_params w w'"
  by (erule io_onlyE) (simp add: mem_wf_def mem_in_use_def malloc_fresh_def writes_ok_def same_libc_params_def)

text \<open>The log and the allocator together.\<close>

definition log_only :: "'a log_world_scheme \<Rightarrow> 'a log_world_scheme \<Rightarrow> bool" where
  "log_only w w' \<longleftrightarrow>
     w' = w\<lparr>c_heap := c_heap w', c_errno := c_errno w', c_out := c_out w', store := store w',
            the_log := the_log w'\<rparr>"

lemma log_onlyE:
  assumes "log_only w w'"
  obtains h e out s l where "w' = w\<lparr>c_heap := h, c_errno := e, c_out := out, store := s, the_log := l\<rparr>"
  using assms unfolding log_only_def by blast

lemma log_only_refl [simp]: "log_only w w"
  by (simp add: log_only_def)

lemma log_only_trans: "log_only u v \<Longrightarrow> log_only v w \<Longrightarrow> log_only u w"
  by (cases u; cases v; cases w) (simp add: log_only_def)

lemma mem_only_log_only: "mem_only w w' \<Longrightarrow> log_only w w'"
  by (cases w; cases w') (simp add: log_only_def mem_only_def)

lemma io_only_log_only: "io_only w w' \<Longrightarrow> log_only w w'"
  by (cases w; cases w') (simp add: log_only_def io_only_def)

lemma log_only_params: "log_only w w' \<Longrightarrow> same_libc_params w w'"
  by (cases w; cases w') (simp add: log_only_def same_libc_params_def)

lemma log_print_only [frame]: "io_only w (log_print str w)"
  by (simp add: log_print_def libc_fput_def)

lemma log_print_set_only [frame]: "io_only w (log_print str (w\<lparr>the_log := l\<rparr>))"
  by (rule io_only_trans [OF io_only_update(2) log_print_only])

lemma log_arg_only [frame]: "log_arg str w = Some w' \<Longrightarrow> io_only w w'"
  by (auto simp: log_arg_def log_print_only split: bind_splits if_splits)

lemma log_level_call_only [frame]: "log_level_call l msg w = Some w' \<Longrightarrow> io_only w w'"
  by (cases l) (auto simp: mut_log_fatal_def mut_log_error_def mut_log_warning_def mut_log_info_def
      log_print_set_only split: bind_splits if_splits)

lemma mut_log_uint64_only: "mut_log_uint64 i w = Some w' \<Longrightarrow> io_only w w'"
  by (auto simp: mut_log_uint64_def libc_fput_def mut_uint64_out_dec io_only_def
      split: bind_splits if_splits)

lemma mut_io_only [frame]:
  "mut_log_fatal s e w = Some w' \<Longrightarrow> io_only w w'"
  "mut_log_mem_full e w = Some w' \<Longrightarrow> io_only w w'"
  "mut_log_error s w = Some w' \<Longrightarrow> io_only w w'"
  "mut_log_warning s w = Some w' \<Longrightarrow> io_only w w'"
  "mut_log_info s w = Some w' \<Longrightarrow> io_only w w'"
  "mut_log_string s w = Some w' \<Longrightarrow> io_only w w'"
  "mut_log_int i w = Some w' \<Longrightarrow> io_only w w'"
  "mut_log_uint i w = Some w' \<Longrightarrow> io_only w w'"
  "mut_log_uint64 u w = Some w' \<Longrightarrow> io_only w w'"
  "mut_log_uint_hex i w = Some w' \<Longrightarrow> io_only w w'"
  "mut_log_long i w = Some w' \<Longrightarrow> io_only w w'"
  "mut_log_ulong i w = Some w' \<Longrightarrow> io_only w w'"
  "mut_log_end w = Some (ok, w') \<Longrightarrow> io_only w w'"
  using log_level_call_only [of "Fatal e" s w w'] log_level_call_only [of Error s w w']
    log_level_call_only [of Warning s w w'] log_level_call_only [of Info s w w'] mut_log_uint64_only [of u w w']
  by (auto simp: mut_log_mem_full_def mut_log_string_def mut_log_int_def mut_log_uint_def mut_log_uint_hex_def
      mut_log_long_def mut_log_ulong_def mut_log_end_def Let_def
      intro: log_arg_only log_print_set_only split: bind_splits if_splits)

section \<open>Messages when no write fails\<close>

definition log_open :: "'a log_world_scheme \<Rightarrow> bool" where
  "log_open w \<longleftrightarrow> logging (the_log w) \<and> \<not> internal_error (the_log w)"

definition log_busy :: "'a log_world_scheme \<Rightarrow> 'a log_world_scheme" where
  "log_busy w = w\<lparr>the_log := (the_log w)\<lparr>logging := True\<rparr>\<rparr>"

definition log_quiet :: "'a log_world_scheme \<Rightarrow> 'a log_world_scheme" where
  "log_quiet w = w\<lparr>the_log := (the_log w)\<lparr>logging := False\<rparr>\<rparr>"

definition log_doom :: "'a log_world_scheme \<Rightarrow> 'a log_world_scheme" where
  "log_doom w = w\<lparr>the_log := (the_log w)\<lparr>fatal_error := True\<rparr>\<rparr>"

lemmas log_state_defs = log_open_def log_busy_def log_quiet_def log_doom_def log_emit_def log_idle_def

lemma log_emit_simps [simp]:
  "log_emit t (log_emit s w) = log_emit (s @ t) w"
  "log_emit [] w = w"
  "the_log (log_emit s w) = the_log w"
  "writes_ok (log_emit s w) = writes_ok w"
  "writes_ok (log_busy w) = writes_ok w"
  "writes_ok (log_quiet w) = writes_ok w"
  "writes_ok (log_doom w) = writes_ok w"
  "log_open (log_emit s w) = log_open w"
  "log_idle (log_emit s w) = log_idle w"
  "log_quiet (log_emit s w) = log_emit s (log_quiet w)"
  "log_doom (log_emit s w) = log_emit s (log_doom w)"
  "log_quiet (log_doom w) = log_doom (log_quiet w)"
  "log_busy (log_doom w) = log_doom (log_busy w)"
  by (simp_all add: log_state_defs writes_ok_def)

lemma log_open_busy [simp]: "log_idle w \<Longrightarrow> log_open (log_busy w)" "log_open (log_doom w) = log_open w"
  by (simp_all add: log_state_defs)

lemma log_quiet_busy [simp]: "log_idle w \<Longrightarrow> log_quiet (log_busy w) = w"
  by (simp add: log_state_defs)

lemma log_print_ok: "writes_ok w \<Longrightarrow> \<not> internal_error (the_log w) \<Longrightarrow> log_print str w = log_emit str w"
  by (simp add: log_print_def libc_fput_ok log_emit_def)

lemma log_start_ok [simp]:
  assumes "log_idle w" and "writes_ok w"
  shows "mut_log_fatal s e w =
      Some (log_emit (program_name (the_log w) @ '' fatal '' @ fmt_d e @ '' '' @ s) (log_doom (log_busy w)))"
    "mut_log_error s w = Some (log_emit (program_name (the_log w) @ '' error '' @ s) (log_busy w))"
    "mut_log_warning s w = Some (log_emit (program_name (the_log w) @ '' warning '' @ s) (log_busy w))"
    "mut_log_info s w = Some (log_emit (program_name (the_log w) @ '' info '' @ s) (log_busy w))"
  using assms
  by (simp_all add: mut_log_fatal_def mut_log_error_def mut_log_warning_def mut_log_info_def log_idle_def
      log_print_def libc_fput_def writes_ok_def log_emit_def log_busy_def log_doom_def)

lemma log_arg_ok: "log_open w \<Longrightarrow> writes_ok w \<Longrightarrow> log_arg s w = Some (log_emit s w)"
  by (simp add: log_arg_def log_open_def log_print_ok)

lemma log_argument_ok [simp]:
  assumes "log_open w" and "writes_ok w"
  shows "mut_log_string s w = Some (log_emit ('' '' @ s) w)"
    "mut_log_int i w = Some (log_emit ('' '' @ fmt_d i) w)"
    "mut_log_uint i w = Some (log_emit ('' '' @ fmt_u i) w)"
    "mut_log_uint_hex i w = Some (log_emit ('' '' @ fmt_X i) w)"
    "mut_log_long i w = Some (log_emit ('' '' @ fmt_d i) w)"
    "mut_log_ulong i w = Some (log_emit ('' '' @ fmt_u i) w)"
    "mut_log_uint64 u w = Some (log_emit ('' '' @ dec_string (u64_val u)) w)"
  using assms
  by (simp_all add: mut_log_string_def mut_log_int_def mut_log_uint_def mut_log_uint_hex_def mut_log_long_def
      mut_log_ulong_def log_arg_ok)
    (simp add: mut_log_uint64_def log_open_def libc_fput_ok mut_uint64_out_dec log_emit_def)

lemma mut_log_end_ok [simp]:
  "log_open w \<Longrightarrow> writes_ok w \<Longrightarrow> mut_log_end w = Some (True, log_emit ''\<newline>'' (log_quiet w))"
  by (simp add: mut_log_end_def log_open_def log_print_def libc_fput_def writes_ok_def log_emit_def log_quiet_def)

lemma log_argument_call_ok:
  "log_open w \<Longrightarrow> writes_ok w \<Longrightarrow>
   log_argument_call a w = Some (log_emit ('' '' @ log_argument_text a) w)"
  by (cases a) simp_all

section \<open>The message interface\<close>

text \<open>
  What MUT relies on when it reports: from an idle log, starting a message, adding arguments
  and ending it writes the texts one after the other and leaves the log idle again.
\<close>

locale message_log =
  fixes start :: "'m \<Rightarrow> 's \<Rightarrow> 's option"
    and arg :: "'a \<Rightarrow> 's \<Rightarrow> 's option"
    and finish :: "'s \<Rightarrow> (bool \<times> 's) option"
    and idle :: "'s \<Rightarrow> bool"
    and opened :: "'s \<Rightarrow> bool"
    and written :: "'s \<Rightarrow> string"
    and start_text :: "'m \<Rightarrow> string"
    and arg_text :: "'a \<Rightarrow> string"
  assumes start_ok: "idle s \<Longrightarrow> \<exists>s'. start m s = Some s' \<and> opened s' \<and> written s' = written s @ start_text m"
    and arg_ok: "opened s \<Longrightarrow> \<exists>s'. arg a s = Some s' \<and> opened s' \<and> written s' = written s @ arg_text a"
    and finish_ok: "opened s \<Longrightarrow> \<exists>s'. finish s = Some (True, s') \<and> idle s' \<and> written s' = written s @ ''\<newline>''"
begin

fun put_args :: "'a list \<Rightarrow> 's \<Rightarrow> 's option" where
  "put_args [] s = Some s"
| "put_args (a # as) s = do { s \<leftarrow> arg a s; put_args as s }"

definition message :: "'m \<Rightarrow> 'a list \<Rightarrow> 's \<Rightarrow> (bool \<times> 's) option" where
  "message m as s = do { s \<leftarrow> start m s; s \<leftarrow> put_args as s; finish s }"

lemma put_args_ok:
  "opened s \<Longrightarrow> \<exists>s'. put_args as s = Some s' \<and> opened s' \<and> written s' = written s @ concat (map arg_text as)"
proof (induction as arbitrary: s)
  case Nil
  then show ?case by simp
next
  case (Cons a as)
  then obtain u where u: "arg a s = Some u" "opened u" "written u = written s @ arg_text a"
    using arg_ok [of s a] by auto
  with Cons.IH [of u] show ?case by auto
qed

lemma message_ok:
  assumes "idle s"
  shows "\<exists>s'. message m as s = Some (True, s') \<and> idle s' \<and>
     written s' = written s @ start_text m @ concat (map arg_text as) @ ''\<newline>''"
proof -
  obtain t where t: "start m s = Some t" "opened t" "written t = written s @ start_text m"
    using start_ok [OF assms] by blast
  obtain u where u: "put_args as t = Some u" "opened u" "written u = written t @ concat (map arg_text as)"
    using put_args_ok [OF t(2)] by blast
  obtain v where "finish u = Some (True, v)" "idle v" "written v = written u @ ''\<newline>''"
    using finish_ok [OF u(2)] by blast
  with t u show ?thesis by (simp add: message_def)
qed

fun messages :: "('m \<times> 'a list) list \<Rightarrow> 's \<Rightarrow> 's option" where
  "messages [] s = Some s"
| "messages ((m, as) # ms) s = do { (ok, s) \<leftarrow> message m as s; messages ms s }"

lemma messages_ok:
  "idle s \<Longrightarrow> \<exists>s'. messages ms s = Some s' \<and> idle s' \<and>
     written s' = written s @ concat (map (\<lambda>(m, as). start_text m @ concat (map arg_text as) @ ''\<newline>'') ms)"
proof (induction ms arbitrary: s)
  case Nil
  then show ?case by simp
next
  case (Cons x ms)
  obtain m as where x: "x = (m, as)" by fastforce
  obtain u where u: "message m as s = Some (True, u)" "idle u"
     "written u = written s @ start_text m @ concat (map arg_text as) @ ''\<newline>''"
    using message_ok [OF Cons.prems] by blast
  with Cons.IH [of u] x show ?case by auto
qed

end

text \<open>
  The levels other than \<open>Fatal\<close>, on the log's own functions. The program name and the sink are
  those of the state, so they are parameters of the interpretation.
\<close>

definition log_usable :: "string \<Rightarrow> stream \<Rightarrow> 'a log_world_scheme \<Rightarrow> bool" where
  "log_usable prog s w \<longleftrightarrow> writes_ok w \<and> program_name (the_log w) = prog \<and> sink (the_log w) = s"

fun log_plain_call :: "(bool \<times> string) \<Rightarrow> 'a log_world_scheme \<Rightarrow> 'a log_world_scheme option" where
  "log_plain_call (warn, msg) w = (if warn then mut_log_warning msg w else mut_log_info msg w)"

interpretation mut_log: message_log log_plain_call log_argument_call mut_log_end
    "\<lambda>w. log_idle w \<and> log_usable prog s w"
    "\<lambda>w. log_open w \<and> \<not> fatal_error (the_log w) \<and> log_usable prog s w"
    "\<lambda>w. c_out w s" "\<lambda>(warn, msg). prog @ (if warn then '' warning '' else '' info '') @ msg"
    "\<lambda>a. '' '' @ log_argument_text a"
  for prog s
proof (unfold_locales, goal_cases)
  case (1 w m)
  then show ?case
    by (cases m) (auto simp: log_usable_def, auto simp: log_state_defs)
next
  case (2 w a)
  then show ?case by (auto simp: log_usable_def log_argument_call_ok, simp add: log_emit_def)
next
  case (3 w)
  then show ?case by (auto simp: log_usable_def, auto simp: log_state_defs writes_ok_def)
qed


section \<open>Properties\<close>

lemma log_level_call_ok:
  assumes "log_idle w" and "writes_ok w"
  shows "\<exists>v. log_level_call l msg w = Some v \<and> log_open v \<and> writes_ok v \<and>
     log_quiet v = log_emit (program_name (the_log w) @ '' '' @ log_level_text l @ '' '' @ msg)
       (if \<exists>e. l = Fatal e then log_doom w else w)"
  using assms by (cases l) simp_all

lemma log_arguments_ok:
  "log_open w \<Longrightarrow> writes_ok w \<Longrightarrow>
   log_arguments as w = Some (log_emit (concat (map (\<lambda>a. '' '' @ log_argument_text a) as)) w)"
  by (induction as arbitrary: w) (simp_all add: log_argument_call_ok)

text \<open>
  A complete message (a start call, any arguments, \<open>mut_log_end\<close>) issued to an idle log
  whose writes succeed appends exactly one line to the sink, the program name, the level, the
  text and the arguments separated by blanks, changes nothing else, and leaves the log idle, or
  marked fatal after a fatal message.
\<close>

theorem mut_log_message_is_one_line:
  assumes "log_idle w" and "writes_ok w"
  shows "log_message l msg args w =
     Some (True, log_emit (log_line (program_name (the_log w)) l msg args)
       (if \<exists>e. l = Fatal e then log_doom w else w))"
proof -
  obtain v where v: "log_level_call l msg w = Some v" "log_open v" "writes_ok v"
     "log_quiet v = log_emit (program_name (the_log w) @ '' '' @ log_level_text l @ '' '' @ msg)
       (if \<exists>e. l = Fatal e then log_doom w else w)"
    using log_level_call_ok [OF assms] by blast
  then show ?thesis
    by (simp add: log_message_def log_arguments_ok log_line_def)
qed

definition sample_log_state :: mut_log where
  "sample_log_state = \<lparr>fatal_error = False, internal_error = False, program_name = ''mut'',
     logging = False, sink = Stderr\<rparr>"

definition sample_log :: log_world where
  "sample_log = sample_world (log_world_ext sample_log_state ())"

lemma sample_log_ok: "log_idle sample_log" "writes_ok sample_log" "program_name (the_log sample_log) = ''mut''"
  by (simp_all add: sample_log_def log_idle_def sample_log_state_def) (simp_all add: sample_world_def)

lemma mut_log_message_is_one_line_witness:
  "log_message Warning ''FUM'' [LHex 255, LString ''main''] sample_log =
     Some (True, log_emit ''mut warning FUM FF main\<newline>'' sample_log)"
  using mut_log_message_is_one_line [OF sample_log_ok(1,2), of Warning "''FUM''" "[LHex 255, LString ''main'']"]
  by (simp add: sample_log_ok log_line_def fmt_X_def hex_string.simps digit_char_def char_of_def bit_simps)

text \<open>
  The assertions of the log are exactly its protocol: a message can be started only while
  none is open and no fatal message or write error came before; an argument can be added and a
  message ended only while one is open. In every other state the call aborts.
\<close>

theorem mut_log_protocol:
  "(log_level_call l msg w = None \<longleftrightarrow> \<not> log_idle w) \<and>
   (log_argument_call a w = None \<longleftrightarrow> \<not> logging (the_log w)) \<and>
   (mut_log_end w = None \<longleftrightarrow> \<not> logging (the_log w))"
proof -
  have "log_level_call l msg w = None \<longleftrightarrow> \<not> log_idle w"
    by (cases l) (auto simp: mut_log_fatal_def mut_log_error_def mut_log_warning_def mut_log_info_def
        log_idle_def bind_assert_c Let_def)
  moreover have "log_argument_call a w = None \<longleftrightarrow> \<not> logging (the_log w)"
    by (cases a) (auto simp: mut_log_string_def mut_log_int_def mut_log_uint_def mut_log_uint_hex_def
        mut_log_long_def mut_log_ulong_def log_arg_def mut_log_uint64_def bind_assert_c Let_def
        mut_uint64_out_dec split: prod.splits)
  moreover have "mut_log_end w = None \<longleftrightarrow> \<not> logging (the_log w)"
    by (auto simp: mut_log_end_def bind_assert_c Let_def)
  ultimately show ?thesis by blast
qed

lemma log_arg_after_error:
  "logging (the_log w) \<Longrightarrow> internal_error (the_log w) \<Longrightarrow> log_argument_call a w = Some w"
  by (cases a) (simp_all add: mut_log_string_def mut_log_int_def mut_log_uint_def mut_log_uint_hex_def
        mut_log_long_def mut_log_ulong_def log_arg_def mut_log_uint64_def)

lemma log_arguments_after_error:
  "logging (the_log w) \<Longrightarrow> internal_error (the_log w) \<Longrightarrow> log_arguments as w = Some w"
  by (induction as) (simp_all add: log_arg_after_error)

text \<open>
  C40: When a write of an open message has failed, the remaining arguments write nothing,
  \<open>mut_log_end\<close> returns 0 and writes nothing, and the error is not cleared: every later
  attempt to start a message fails its assertion, so MUT aborts at the next diagnosis.
\<close>

theorem mut_log_write_error_is_final:
  assumes "logging (the_log w)" and "internal_error (the_log w)"
  shows "\<exists>w'. log_arguments as w = Some w \<and> mut_log_end w = Some (False, w') \<and> c_out w' = c_out w \<and>
     log_level_call l msg w' = None"
proof -
  have "mut_log_end w = Some (False, log_quiet w)"
    using assms by (simp add: mut_log_end_def log_quiet_def)
  moreover have "log_level_call l msg (log_quiet w) = None"
    using assms by (cases l) (auto simp: mut_log_fatal_def mut_log_error_def mut_log_warning_def mut_log_info_def
        log_quiet_def)
  ultimately show ?thesis
    using log_arguments_after_error [OF assms] by (auto simp: log_quiet_def)
qed

definition sample_log_broken :: log_world where
  "sample_log_broken = the (mut_log_info ''x'' (sample_log\<lparr>c_write_fails := \<lambda>_ _ _. True\<rparr>))"

lemma mut_log_write_error_is_final_witness:
  "\<exists>w'. mut_log_end sample_log_broken = Some (False, w') \<and> mut_log_info ''y'' w' = None"
proof -
  have "logging (the_log sample_log_broken)" "internal_error (the_log sample_log_broken)"
    by (simp_all add: sample_log_broken_def sample_log_def sample_log_state_def mut_log_info_def log_print_def
        libc_fput_def sample_world_def)
  from mut_log_write_error_is_final [OF this, of "[]" Info "''y''"] show ?thesis by auto
qed

end
