(* ===== verification/MutSymtab.thy ===== *)
theory MutSymtab
  imports MutLog
begin

text \<open>
  The symbol table, src/src/exec/mut_exec_symtab.c: a linked list of functions ordered by
  start address, each with a linked list of lines ordered by address.

  A name is a \<open>char const *\<close> into a string table that MUT read from the executable: a block of
  the C heap and an offset. A pointer field that was never assigned is \<open>Indeterminate\<close>; using
  it is undefined.
\<close>

section \<open>State\<close>

datatype char_ptr = Indeterminate | Null | At ptr nat

definition string_at :: "'a libc_scheme \<Rightarrow> char_ptr \<Rightarrow> string option" where
  "string_at w p =
     (case p of
        At b off \<Rightarrow>
          (case c_heap w b of
             None \<Rightarrow> None
           | Some bs \<Rightarrow>
               if 0 \<in> set (drop off bs)
               then Some (map (\<lambda>x. char_of (unat x)) (takeWhile (\<lambda>x. x \<noteq> 0) (drop off bs)))
               else None)
      | _ \<Rightarrow> None)"

record mut_exec_symtab_fun_line =
  fl_self :: ptr
  line_addr :: u32
  line_number :: "16 word"

record mut_exec_symtab_fun =
  sf_self :: ptr
  fun_name :: char_ptr
  fun_start_addr :: u32
  fun_file_name :: char_ptr
  fun_lines :: "mut_exec_symtab_fun_line list"

text \<open>\<open>head\<close>, \<open>cache\<close> (the address of a function, or 0) and \<open>end\<close>; \<open>log\<close> is the log of the state.\<close>

record mut_exec_symtab =
  st_head :: "mut_exec_symtab_fun list"
  st_cache :: ptr
  st_end :: u32

record symtab_world = log_world +
  symtab :: mut_exec_symtab

definition sizeof_mut_exec_symtab_fun :: u32 where "sizeof_mut_exec_symtab_fun = 24"
definition sizeof_mut_exec_symtab_fun_line :: u32 where "sizeof_mut_exec_symtab_fun_line = 12"

definition symtab_file :: string where "symtab_file = ''exec/mut_exec_symtab.c''"

section \<open>Operations\<close>

definition mut_exec_symtab_open :: "'a symtab_world_scheme \<Rightarrow> 'a symtab_world_scheme" where
  "mut_exec_symtab_open w = w\<lparr>symtab := \<lparr>st_head = [], st_cache = 0, st_end = 0\<rparr>\<rparr>"

text \<open>The report of a failed allocation, which both constructors make.\<close>

definition symtab_mem_full :: "'a log_world_scheme \<Rightarrow> 'a log_world_scheme option" where
  "symtab_mem_full w = do {
     w \<leftarrow> mut_log_fatal ''mem.full'' (c_errno w) w;
     (ok, w) \<leftarrow> mut_log_end w;
     Some w
   }"

definition mut_exec_symtab_fun_open ::
  "char_ptr \<Rightarrow> u32 \<Rightarrow> 'a symtab_world_scheme \<Rightarrow> (mut_exec_symtab_fun option \<times> 'a symtab_world_scheme) option" where
  "mut_exec_symtab_fun_open name start_addr w = do {
     (nf, w) \<leftarrow> mut_mem__malloc sizeof_mut_exec_symtab_fun 49 symtab_file w;
     if nf = 0 then do { w \<leftarrow> symtab_mem_full w; Some (None, w) }
     else Some (Some \<lparr>sf_self = nf, fun_name = name, fun_start_addr = start_addr,
                      fun_file_name = Indeterminate, fun_lines = []\<rparr>, w)
   }"

text \<open>
  The search for the place of a new function: the functions before it and those from it on,
  or nothing when the address is there already.
\<close>

fun symtab_place ::
  "u32 \<Rightarrow> mut_exec_symtab_fun list \<Rightarrow> (mut_exec_symtab_fun list \<times> mut_exec_symtab_fun list) option" where
  "symtab_place a [] = Some ([], [])"
| "symtab_place a (f # fs) =
     (if a < fun_start_addr f then Some ([], f # fs)
      else if a = fun_start_addr f then None
      else case symtab_place a fs of None \<Rightarrow> None | Some (xs, ys) \<Rightarrow> Some (f # xs, ys))"

definition mut_exec_symtab_add_fun ::
  "char_ptr \<Rightarrow> u32 \<Rightarrow> 'a symtab_world_scheme \<Rightarrow> (bool \<times> 'a symtab_world_scheme) option" where
  "mut_exec_symtab_add_fun n a w =
     (case symtab_place a (st_head (symtab w)) of
        None \<Rightarrow> Some (True, w)
      | Some (before, rest) \<Rightarrow> do {
          (nf, w) \<leftarrow> mut_exec_symtab_fun_open n a w;
          case nf of
            None \<Rightarrow> Some (False, w)
          | Some f \<Rightarrow> Some (True, w\<lparr>symtab := (symtab w)\<lparr>st_head := before @ f # rest\<rparr>\<rparr>)
        })"

definition mut_exec_symtab_fun_line_open ::
  "u32 \<Rightarrow> u32 \<Rightarrow> 'a symtab_world_scheme \<Rightarrow>
   (mut_exec_symtab_fun_line option \<times> 'a symtab_world_scheme) option" where
  "mut_exec_symtab_fun_line_open a l w = do {
     (nfl, w) \<leftarrow> mut_mem__malloc sizeof_mut_exec_symtab_fun_line 91 symtab_file w;
     if nfl = 0 then do { w \<leftarrow> symtab_mem_full w; Some (None, w) }
     else Some (Some \<lparr>fl_self = nfl, line_addr = a, line_number = ucast l\<rparr>, w)
   }"

text \<open>The insertion in \<open>mut_exec_symtab_add_xxx\<close>: after the lines at lower or equal addresses.\<close>

fun symtab_insert_line ::
  "mut_exec_symtab_fun_line \<Rightarrow> mut_exec_symtab_fun_line list \<Rightarrow> mut_exec_symtab_fun_line list" where
  "symtab_insert_line n [] = [n]"
| "symtab_insert_line n (fl # fls) =
     (if line_addr n < line_addr fl then n # fl # fls else fl # symtab_insert_line n fls)"

text \<open>An assignment through a pointer to a function of the list.\<close>

definition symtab_assign ::
  "ptr \<Rightarrow> (mut_exec_symtab_fun \<Rightarrow> mut_exec_symtab_fun) \<Rightarrow> mut_exec_symtab \<Rightarrow> mut_exec_symtab" where
  "symtab_assign p g s = s\<lparr>st_head := map (\<lambda>f. if sf_self f = p then g f else f) (st_head s)\<rparr>"

definition mut_exec_symtab_add_xxx ::
  "u32 \<Rightarrow> u32 \<Rightarrow> 'a symtab_world_scheme \<Rightarrow> (bool \<times> 'a symtab_world_scheme) option" where
  "mut_exec_symtab_add_xxx a l w = do {
     (nfl, w) \<leftarrow> mut_exec_symtab_fun_line_open a l w;
     case nfl of
       None \<Rightarrow> Some (False, w)
     | Some n \<Rightarrow>
         Some (True, w\<lparr>symtab := symtab_assign (st_cache (symtab w))
                         (\<lambda>f. f\<lparr>fun_lines := symtab_insert_line n (fun_lines f)\<rparr>) (symtab w)\<rparr>)
   }"

text \<open>
  The search of \<open>mut_exec_symtab_add_range\<close> and \<open>mut_exec_symtab_lookup_addr\<close>: the first function
  that starts at or below \<open>a\<close> and is the last one or is followed by one above \<open>a\<close>, with its successor.
\<close>

fun symtab_find ::
  "u32 \<Rightarrow> mut_exec_symtab_fun list \<Rightarrow> (mut_exec_symtab_fun \<times> mut_exec_symtab_fun option) option" where
  "symtab_find a [] = None"
| "symtab_find a [f] = (if fun_start_addr f \<le> a then Some (f, None) else None)"
| "symtab_find a (f # g # fs) =
     (if fun_start_addr f \<le> a \<and> a < fun_start_addr g then Some (f, Some g) else symtab_find a (g # fs))"

definition mut_exec_symtab_add_range ::
  "u32 \<Rightarrow> u32 \<Rightarrow> char_ptr \<Rightarrow> 'a symtab_world_scheme \<Rightarrow> (bool \<times> 'a symtab_world_scheme) option" where
  "mut_exec_symtab_add_range a l fn w =
     (case symtab_find a (st_head (symtab w)) of
        Some (f, next) \<Rightarrow>
          let s = (symtab w)\<lparr>st_end := (case next of None \<Rightarrow> st_end (symtab w) | Some g \<Rightarrow> fun_start_addr g),
                             st_cache := sf_self f\<rparr>;
              s = symtab_assign (sf_self f) (\<lambda>f. f\<lparr>fun_file_name := fn\<rparr>) s
          in mut_exec_symtab_add_xxx a l (w\<lparr>symtab := s\<rparr>)
      | None \<Rightarrow> do {
          w \<leftarrow> mut_log_warning ''elf.xxx'' w;
          (ok, w) \<leftarrow> mut_log_end w;
          Some (True, w)
        })"

text \<open>The first line at or above \<open>a\<close>; 0 when there is none.\<close>

fun symtab_line :: "u32 \<Rightarrow> mut_exec_symtab_fun_line list \<Rightarrow> u32" where
  "symtab_line a [] = 0"
| "symtab_line a (fl # fls) = (if a \<le> line_addr fl then ucast (line_number fl) else symtab_line a fls)"

definition mut_exec_symtab_lookup_addr ::
  "mut_exec_symtab \<Rightarrow> u32 \<Rightarrow> (u32 \<times> char_ptr \<times> char_ptr \<times> u32) option" where
  "mut_exec_symtab_lookup_addr s a =
     (case symtab_find a (st_head s) of
        None \<Rightarrow> None
      | Some (f, _) \<Rightarrow> Some (fun_start_addr f, fun_name f, fun_file_name f, symtab_line a (fun_lines f)))"

text \<open>\<open>strcmp\<close> reads the function names, so a name that is no string makes the search undefined.\<close>

fun symtab_lookup_name_in :: "'a libc_scheme \<Rightarrow> mut_exec_symtab_fun list \<Rightarrow> string \<Rightarrow> u32 option" where
  "symtab_lookup_name_in w [] n = Some 0"
| "symtab_lookup_name_in w (f # fs) n = do {
     name \<leftarrow> string_at w (fun_name f);
     if n = name then Some (fun_start_addr f) else symtab_lookup_name_in w fs n
   }"

definition mut_exec_symtab_lookup_name :: "string \<Rightarrow> 'a symtab_world_scheme \<Rightarrow> u32 option" where
  "mut_exec_symtab_lookup_name n w = symtab_lookup_name_in w (st_head (symtab w)) n"

fun symtab_close_lines ::
  "mut_exec_symtab_fun_line list \<Rightarrow> 'a symtab_world_scheme \<Rightarrow> 'a symtab_world_scheme option" where
  "symtab_close_lines [] w = Some w"
| "symtab_close_lines (fl # fls) w = do {
     w \<leftarrow> mut_mem__free (fl_self fl) 210 symtab_file w;
     symtab_close_lines fls w
   }"

fun symtab_close_funs ::
  "mut_exec_symtab_fun list \<Rightarrow> 'a symtab_world_scheme \<Rightarrow> 'a symtab_world_scheme option" where
  "symtab_close_funs [] w = Some w"
| "symtab_close_funs (f # fs) w = do {
     w \<leftarrow> symtab_close_lines (fun_lines f) w;
     w \<leftarrow> mut_mem__free (sf_self f) 213 symtab_file w;
     symtab_close_funs fs w
   }"

text \<open>The list itself keeps its (dangling) pointers, as in C.\<close>

definition mut_exec_symtab_close :: "'a symtab_world_scheme \<Rightarrow> 'a symtab_world_scheme option" where
  "mut_exec_symtab_close w = symtab_close_funs (st_head (symtab w)) w"


section \<open>The order of the table\<close>

definition symtab_sorted :: "mut_exec_symtab \<Rightarrow> bool" where
  "symtab_sorted s \<longleftrightarrow> sorted_wrt (<) (map fun_start_addr (st_head s)) \<and>
     (\<forall>f \<in> set (st_head s). sorted (map line_addr (fun_lines f)))"

lemma symtab_place_Some:
  "symtab_place a fs = Some (xs, ys) \<Longrightarrow> sorted_wrt (<) (map fun_start_addr fs) \<Longrightarrow>
   fs = xs @ ys \<and> (\<forall>x \<in> set xs. fun_start_addr x < a) \<and> (\<forall>y \<in> set ys. a < fun_start_addr y)"
proof (induction a fs arbitrary: xs rule: symtab_place.induct)
  case (1 a)
  then show ?case by simp
next
  case (2 a f fs)
  then show ?case
    by (fastforce split: if_splits option.splits)
qed

lemma symtab_place_None: "symtab_place a fs = None \<Longrightarrow> a \<in> fun_start_addr ` set fs"
  by (induction a fs rule: symtab_place.induct) (auto split: if_splits option.splits)

lemma symtab_insert_line_set: "set (symtab_insert_line n fls) = insert n (set fls)"
  by (induction n fls rule: symtab_insert_line.induct) auto

lemma symtab_insert_line_sorted:
  "sorted (map line_addr fls) \<Longrightarrow> sorted (map line_addr (symtab_insert_line n fls))"
  by (induction n fls rule: symtab_insert_line.induct) (auto simp: symtab_insert_line_set)

lemma symtab_find_Some:
  "symtab_find a fs = Some (f, g) \<Longrightarrow> sorted_wrt (<) (map fun_start_addr fs) \<Longrightarrow>
   f \<in> set fs \<and> fun_start_addr f \<le> a \<and>
   (\<forall>h \<in> set fs. fun_start_addr h \<le> a \<longrightarrow> fun_start_addr h \<le> fun_start_addr f)"
proof (induction a fs rule: symtab_find.induct)
  case (3 a h k fs)
  show ?case
  proof (cases "fun_start_addr h \<le> a \<and> a < fun_start_addr k")
    case True
    with 3 show ?thesis by fastforce
  next
    case False
    with 3 have "f \<in> set (k # fs)" "fun_start_addr f \<le> a"
      "\<forall>x \<in> set (k # fs). fun_start_addr x \<le> a \<longrightarrow> fun_start_addr x \<le> fun_start_addr f" by auto
    moreover have "fun_start_addr h < fun_start_addr f" using 3(3) \<open>f \<in> set (k # fs)\<close> by auto
    ultimately show ?thesis by auto
  qed
qed (auto split: if_splits)

lemma symtab_find_None:
  "symtab_find a fs = None \<Longrightarrow> sorted_wrt (<) (map fun_start_addr fs) \<Longrightarrow> \<forall>h \<in> set fs. a < fun_start_addr h"
proof (induction a fs rule: symtab_find.induct)
  case (3 a h k fs)
  then have "\<forall>x \<in> set (k # fs). a < fun_start_addr x" by (auto split: if_splits)
  with 3 show ?case by (auto split: if_splits)
qed (auto split: if_splits)

text \<open>The line that is reported: the lowest one at or above the address.\<close>

lemma symtab_line_floor:
  assumes "sorted (map line_addr fls)"
  shows "if \<forall>x \<in> set fls. line_addr x < a then symtab_line a fls = 0
    else \<exists>fl \<in> set fls. symtab_line a fls = ucast (line_number fl) \<and> a \<le> line_addr fl \<and>
      (\<forall>x \<in> set fls. a \<le> line_addr x \<longrightarrow> line_addr fl \<le> line_addr x)"
  using assms
proof (induction fls)
  case Nil
  then show ?case by simp
next
  case (Cons fl fls)
  then show ?case by (cases "a \<le> line_addr fl") (auto split: if_splits)
qed

section \<open>The table as a map\<close>

text \<open>The abstract view: start addresses to names. The first entry for an address stays.\<close>

definition symtab_names :: "mut_exec_symtab \<Rightarrow> u32 \<rightharpoonup> char_ptr" where
  "symtab_names s = map_of (map (\<lambda>f. (fun_start_addr f, fun_name f)) (st_head s))"

lemma symtab_names_dom: "dom (symtab_names s) = fun_start_addr ` set (st_head s)"
  by (force simp: symtab_names_def dom_map_of_conv_image_fst)

lemma symtab_mem_full_frame: "symtab_mem_full w = Some w' \<Longrightarrow> io_only w w'"
  by (auto simp: symtab_mem_full_def split: bind_splits dest!: mut_io_only intro: io_only_trans)

lemma io_only_symtab: "io_only w w' \<Longrightarrow> symtab (w' :: 'a symtab_world_scheme) = symtab w"
  by (erule io_onlyE) simp

lemma mem_only_symtab: "mem_only w w' \<Longrightarrow> symtab (w' :: 'a symtab_world_scheme) = symtab w"
  by (erule mem_onlyE) simp

lemma mut_exec_symtab_fun_open_result:
  "mut_exec_symtab_fun_open n a w = Some (nf, w') \<Longrightarrow> symtab w' = symtab w \<and>
   (\<forall>f. nf = Some f \<longrightarrow> fun_name f = n \<and> fun_start_addr f = a \<and> fun_lines f = [])"
  by (auto simp: mut_exec_symtab_fun_open_def split: bind_splits if_splits
      dest!: mem_only_malloc mem_only_symtab symtab_mem_full_frame io_only_symtab)

lemma mut_exec_symtab_add_fun_result:
  assumes "symtab_sorted (symtab w)" and "mut_exec_symtab_add_fun n a w = Some (ok, w')"
  shows "symtab_sorted (symtab w') \<and>
     symtab_names (symtab w') = (if ok \<and> a \<notin> dom (symtab_names (symtab w))
        then (symtab_names (symtab w))(a \<mapsto> n) else symtab_names (symtab w))"
proof (cases "symtab_place a (st_head (symtab w))")
  case None
  then have "a \<in> dom (symtab_names (symtab w))"
    using symtab_place_None by (auto simp: symtab_names_dom)
  with None assms show ?thesis by (auto simp: mut_exec_symtab_add_fun_def)
next
  case (Some p)
  obtain xs ys where p: "p = (xs, ys)" by fastforce
  have d: "st_head (symtab w) = xs @ ys" "\<forall>x \<in> set xs. fun_start_addr x < a"
      "\<forall>y \<in> set ys. a < fun_start_addr y"
    using symtab_place_Some [of a "st_head (symtab w)" xs ys] Some p assms(1)
    by (auto simp: symtab_sorted_def)
  obtain nf v where o: "mut_exec_symtab_fun_open n a w = Some (nf, v)"
    using assms(2) Some p by (auto simp: mut_exec_symtab_add_fun_def split: bind_splits)
  note o' = mut_exec_symtab_fun_open_result [OF o]
  show ?thesis
  proof (cases nf)
    case None
    with assms o o' Some p show ?thesis by (auto simp: mut_exec_symtab_add_fun_def)
  next
    case (Some f)
    with assms(2) o o' \<open>symtab_place a _ = Some p\<close> p have ok: "ok"
      and w': "st_head (symtab w') = xs @ f # ys"
      by (auto simp: mut_exec_symtab_add_fun_def)
    have f: "fun_name f = n" "fun_start_addr f = a" "fun_lines f = []" using o' Some by auto
    have "a \<notin> dom (symtab_names (symtab w))" using d by (auto simp: symtab_names_dom)
    moreover have "symtab_sorted (symtab w')"
      using assms(1) d f w' by (auto simp: symtab_sorted_def sorted_wrt_append)
    moreover have "symtab_names (symtab w') = (symtab_names (symtab w))(a \<mapsto> n)"
    proof
      fix k
      have "map_of (map (\<lambda>f. (fun_start_addr f, fun_name f)) xs) a = None"
        using d(2) by (auto simp: map_of_eq_None_iff)
      then show "symtab_names (symtab w') k = ((symtab_names (symtab w))(a \<mapsto> n)) k"
        using w' d(1) f by (auto simp: symtab_names_def map_add_def split: option.splits)
    qed
    ultimately show ?thesis using ok by simp
  qed
qed

lemma symtab_assign_keys:
  assumes "\<And>f. fun_start_addr (g f) = fun_start_addr f"
  shows "map fun_start_addr (st_head (symtab_assign p g s)) = map fun_start_addr (st_head s)"
  using assms by (simp add: symtab_assign_def)

lemma symtab_assign_names:
  assumes "\<And>f. fun_start_addr (g f) = fun_start_addr f" and "\<And>f. fun_name (g f) = fun_name f"
  shows "symtab_names (symtab_assign p g s) = symtab_names s"
proof -
  have "map (\<lambda>f. (fun_start_addr f, fun_name f)) (st_head (symtab_assign p g s)) =
      map (\<lambda>f. (fun_start_addr f, fun_name f)) (st_head s)"
    using assms by (simp add: symtab_assign_def)
  then show ?thesis by (simp only: symtab_names_def)
qed

lemma symtab_assign_sorted:
  assumes "\<And>f. fun_start_addr (g f) = fun_start_addr f"
    and "\<And>f. sorted (map line_addr (fun_lines f)) \<Longrightarrow> sorted (map line_addr (fun_lines (g f)))"
    and "symtab_sorted s"
  shows "symtab_sorted (symtab_assign p g s)"
  using assms(3) symtab_assign_keys [of g p s, OF assms(1)]
  by (auto simp: symtab_sorted_def) (auto simp: symtab_assign_def assms(2))

lemma symtab_sorted_fields [simp]:
  "symtab_sorted (s\<lparr>st_cache := c\<rparr>) = symtab_sorted s"
  "symtab_sorted (s\<lparr>st_end := e\<rparr>) = symtab_sorted s"
  "symtab_names (s\<lparr>st_cache := c\<rparr>) = symtab_names s"
  "symtab_names (s\<lparr>st_end := e\<rparr>) = symtab_names s"
  by (simp_all add: symtab_sorted_def symtab_names_def)

lemma mut_exec_symtab_add_xxx_cases:
  "mut_exec_symtab_add_xxx a l w = Some (ok, w') \<Longrightarrow>
   symtab w' = symtab w \<or> (\<exists>n. symtab w' = symtab_assign (st_cache (symtab w))
      (\<lambda>f. f\<lparr>fun_lines := symtab_insert_line n (fun_lines f)\<rparr>) (symtab w))"
  by (auto simp: mut_exec_symtab_add_xxx_def mut_exec_symtab_fun_line_open_def split: bind_splits if_splits option.splits
      dest!: mem_only_malloc mem_only_symtab symtab_mem_full_frame io_only_symtab) blast+

lemma mut_exec_symtab_add_xxx_sorted:
  assumes "symtab_sorted (symtab w)" and "mut_exec_symtab_add_xxx a l w = Some (ok, w')"
  shows "symtab_sorted (symtab w') \<and> symtab_names (symtab w') = symtab_names (symtab w)"
  using mut_exec_symtab_add_xxx_cases [OF assms(2)] assms(1)
  by (auto intro!: symtab_assign_sorted symtab_assign_names symtab_insert_line_sorted)

lemma mut_exec_symtab_add_range_sorted:
  assumes "symtab_sorted (symtab w)" and "mut_exec_symtab_add_range a l fn w = Some (ok, w')"
  shows "symtab_sorted (symtab w') \<and> symtab_names (symtab w') = symtab_names (symtab w)"
proof (cases "symtab_find a (st_head (symtab w))")
  case None
  with assms show ?thesis
    by (auto simp: mut_exec_symtab_add_range_def split: bind_splits dest!: mut_io_only io_only_symtab)
next
  case (Some p)
  obtain f g where p: "p = (f, g)" by fastforce
  let ?s = "(symtab w)\<lparr>st_end := (case g of None \<Rightarrow> st_end (symtab w) | Some g \<Rightarrow> fun_start_addr g),
      st_cache := sf_self f\<rparr>"
  let ?t = "symtab_assign (sf_self f) (\<lambda>f. f\<lparr>fun_file_name := fn\<rparr>) ?s"
  have "symtab_sorted ?t" "symtab_names ?t = symtab_names (symtab w)"
    using assms(1) by (auto intro!: symtab_assign_sorted simp: symtab_assign_names)
  moreover have "mut_exec_symtab_add_xxx a l (w\<lparr>symtab := ?t\<rparr>) = Some (ok, w')"
    using assms(2) Some p by (simp add: mut_exec_symtab_add_range_def Let_def)
  ultimately show ?thesis
    using mut_exec_symtab_add_xxx_sorted [of "w\<lparr>symtab := ?t\<rparr>"] by simp
qed

section \<open>Ownership\<close>

text \<open>The blocks of a table, in the order they are released.\<close>

definition symtab_sites :: "mut_exec_symtab \<Rightarrow> ((u32 \<times> string) \<times> ptr) list" where
  "symtab_sites s = concat (map (\<lambda>f. map (\<lambda>fl. ((210, symtab_file), fl_self fl)) (fun_lines f) @
     [((213, symtab_file), sf_self f)]) (st_head s))"

definition symtab_owned :: "'a symtab_world_scheme \<Rightarrow> bool" where
  "symtab_owned w \<longleftrightarrow> distinct (map snd (symtab_sites (symtab w))) \<and>
     snd ` set (symtab_sites (symtab w)) \<subseteq> mem_in_use w"

lemma symtab_close_lines_release:
  "symtab_close_lines fls = mut_mem.release_all (map (\<lambda>fl. ((210, symtab_file), fl_self fl)) fls)"
  by (induction fls) (auto intro!: ext simp: mem_free_at_fold)

lemma symtab_close_funs_release:
  "symtab_close_funs fs = mut_mem.release_all (concat (map (\<lambda>f.
     map (\<lambda>fl. ((210, symtab_file), fl_self fl)) (fun_lines f) @ [((213, symtab_file), sf_self f)]) fs))"
  by (induction fs)
    (auto intro!: ext simp: symtab_close_lines_release mem_free_at_fold mut_mem.release_all_append_Cons)

lemma mut_exec_symtab_close_result:
  assumes "mem_wf w" and "symtab_owned w"
  shows "\<exists>w'. mut_exec_symtab_close w = Some w' \<and> mem_wf w' \<and>
     mem_in_use w' = mem_in_use w - snd ` set (symtab_sites (symtab w))"
  using mut_mem.release_all_returns [of w "symtab_sites (symtab w)"] assms
  by (simp add: mut_exec_symtab_close_def symtab_close_funs_release symtab_sites_def symtab_owned_def)


definition symtab_blocks :: "mut_exec_symtab_fun list \<Rightarrow> ptr list" where
  "symtab_blocks fs = concat (map (\<lambda>f. map fl_self (fun_lines f) @ [sf_self f]) fs)"

lemma symtab_blocks_simps [simp]:
  "symtab_blocks [] = []"
  "symtab_blocks (f # fs) = map fl_self (fun_lines f) @ sf_self f # symtab_blocks fs"
  "symtab_blocks (fs @ gs) = symtab_blocks fs @ symtab_blocks gs"
  by (simp_all add: symtab_blocks_def)

lemma symtab_sites_blocks: "map snd (symtab_sites s) = symtab_blocks (st_head s)"
  by (simp add: symtab_sites_def symtab_blocks_def map_concat comp_def)

lemma symtab_owned_iff:
  "symtab_owned w \<longleftrightarrow> distinct (symtab_blocks (st_head (symtab w))) \<and>
     set (symtab_blocks (st_head (symtab w))) \<subseteq> mem_in_use w"
  by (simp add: symtab_owned_def symtab_sites_blocks flip: list.set_map)

lemma symtab_owned_add:
  assumes "mem_wf w" and "symtab_owned w" and "mut_mem__malloc n ln f w = Some (p, v)" and "p \<noteq> 0"
    and "mem_in_use w' = mem_in_use v"
    and "mset (symtab_blocks (st_head (symtab w'))) = add_mset p (mset (symtab_blocks (st_head (symtab w))))"
  shows "symtab_owned w'"
proof -
  have new: "p \<notin> mem_in_use w" "mem_in_use v = insert p (mem_in_use w)"
    using mut_mem.alloc_some [of w "(ln, f)" n p v] assms(1,3,4) by (auto simp: mem_alloc_at_def)
  then have "p \<notin> set (symtab_blocks (st_head (symtab w)))" using assms(2) by (auto simp: symtab_owned_iff)
  then have "distinct (p # symtab_blocks (st_head (symtab w)))" using assms(2) by (simp add: symtab_owned_iff)
  then have "distinct (symtab_blocks (st_head (symtab w')))"
    using assms(6) mset_eq_imp_distinct_iff [of "p # symtab_blocks (st_head (symtab w))"] by simp
  moreover have "set (symtab_blocks (st_head (symtab w'))) = insert p (set (symtab_blocks (st_head (symtab w))))"
    using assms(6) by (metis set_mset_add_mset_insert set_mset_mset)
  ultimately show ?thesis using assms(2,5) new(2) by (auto simp: symtab_owned_iff)
qed

lemma mset_insert_line:
  "mset (map fl_self (symtab_insert_line n fls)) = add_mset (fl_self n) (mset (map fl_self fls))"
  by (induction n fls rule: symtab_insert_line.induct) auto

lemma symtab_assign_other:
  "p \<notin> sf_self ` set fs \<Longrightarrow> map (\<lambda>f. if sf_self f = p then g f else f) fs = fs"
  by (induction fs) auto

lemma symtab_blocks_insert_line:
  assumes "distinct (symtab_blocks fs)" and "p \<in> sf_self ` set fs"
  shows "mset (symtab_blocks (map (\<lambda>f. if sf_self f = p
      then f\<lparr>fun_lines := symtab_insert_line n (fun_lines f)\<rparr> else f) fs)) =
    add_mset (fl_self n) (mset (symtab_blocks fs))"
  using assms
proof (induction fs)
  case Nil
  then show ?case by simp
next
  case (Cons f fs)
  show ?case
  proof (cases "sf_self f = p")
    case True
    then have "p \<notin> sf_self ` set fs" using Cons.prems by (auto simp: symtab_blocks_def)
    from symtab_assign_other [OF this] True show ?thesis
      by (simp add: mset_insert_line flip: mset_map)
  next
    case False
    then show ?thesis using Cons by auto
  qed
qed

lemma symtab_find_in: "symtab_find a fs = Some (f, g) \<Longrightarrow> f \<in> set fs"
  by (induction a fs rule: symtab_find.induct) (auto split: if_splits)

text \<open>What the operations need and keep.\<close>

definition symtab_ok :: "'a symtab_world_scheme \<Rightarrow> bool" where
  "symtab_ok w \<longleftrightarrow> mem_wf w \<and> symtab_sorted (symtab w) \<and> symtab_owned w"

lemma symtab_mem_full_mem:
  "symtab_mem_full w = Some w' \<Longrightarrow> mem_wf w' = mem_wf w \<and> mem_in_use w' = mem_in_use w"
  using io_only_mem [OF symtab_mem_full_frame] by blast

lemma symtab_owned_cong:
  "mem_in_use w' = mem_in_use w \<Longrightarrow> symtab w' = symtab w \<Longrightarrow> symtab_owned w' = symtab_owned w"
  by (simp add: symtab_owned_def)

lemma mem_wf_symtab [simp]:
  "mem_wf (w\<lparr>symtab := s\<rparr>) = mem_wf w" "mem_in_use (w\<lparr>symtab := s\<rparr>) = mem_in_use w"
  by (simp_all add: mem_wf_def mem_in_use_def malloc_fresh_def)

lemma malloc_failed:
  "mem_wf w \<Longrightarrow> mut_mem__malloc n ln f w = Some (0, v) \<Longrightarrow> mem_wf v \<and> mem_in_use v = mem_in_use w"
  using mut_mem.alloc_none [of w "(ln, f)" n v] mut_mem__malloc_wf [of w n ln f 0 v]
  by (simp add: mem_alloc_at_def)

lemma mut_exec_symtab_add_fun_ok:
  assumes "symtab_ok w" and run: "mut_exec_symtab_add_fun n a w = Some (ok, w')"
  shows "symtab_ok w'"
proof -
  have w: "mem_wf w" "symtab_sorted (symtab w)" "symtab_owned w" using assms(1) by (auto simp: symtab_ok_def)
  have "symtab_sorted (symtab w')" using mut_exec_symtab_add_fun_result [OF w(2) run] by simp
  moreover have "mem_wf w' \<and> symtab_owned w'"
  proof (cases "symtab_place a (st_head (symtab w))")
    case None
    with run w show ?thesis by (simp add: mut_exec_symtab_add_fun_def)
  next
    case (Some pl)
    obtain xs ys where pl: "pl = (xs, ys)" by fastforce
    have d: "st_head (symtab w) = xs @ ys"
      using symtab_place_Some [of a "st_head (symtab w)" xs ys] Some pl w(2) by (auto simp: symtab_sorted_def)
    obtain p v where m: "mut_mem__malloc sizeof_mut_exec_symtab_fun 49 symtab_file w = Some (p, v)"
      using run Some pl by (auto simp: mut_exec_symtab_add_fun_def mut_exec_symtab_fun_open_def split: bind_splits)
    note sv = mem_only_symtab [OF mem_only_malloc [OF m]]
    show ?thesis
    proof (cases "p = 0")
      case True
      with m have "mem_wf v \<and> mem_in_use v = mem_in_use w" using malloc_failed [OF w(1)] by blast
      moreover have "symtab_mem_full v = Some w'"
        using run Some pl m True
        by (auto simp: mut_exec_symtab_add_fun_def mut_exec_symtab_fun_open_def split: bind_splits)
      ultimately show ?thesis
        using symtab_mem_full_mem [of v w'] io_only_symtab [OF symtab_mem_full_frame [of v w']] sv w(3)
        by (simp add: symtab_owned_cong [of w' w])
    next
      case False
      then obtain f where "w' = v\<lparr>symtab := (symtab v)\<lparr>st_head := xs @ f # ys\<rparr>\<rparr>" "sf_self f = p" "fun_lines f = []"
        using run Some pl m by (auto simp: mut_exec_symtab_add_fun_def mut_exec_symtab_fun_open_def)
      with d show ?thesis
        using mut_mem__malloc_wf [OF w(1) m] symtab_owned_add [OF w(1,3) m False, of w'] by simp
    qed
  qed
  ultimately show ?thesis by (simp add: symtab_ok_def)
qed

lemma symtab_blocks_file_name:
  "symtab_blocks (map (\<lambda>f. if sf_self f = p then f\<lparr>fun_file_name := fn\<rparr> else f) fs) = symtab_blocks fs"
  by (induction fs) auto

lemma mut_exec_symtab_add_range_ok:
  assumes "symtab_ok w" and run: "mut_exec_symtab_add_range a l fn w = Some (ok, w')"
  shows "symtab_ok w'"
proof -
  have w: "mem_wf w" "symtab_sorted (symtab w)" "symtab_owned w" using assms(1) by (auto simp: symtab_ok_def)
  have "symtab_sorted (symtab w')" using mut_exec_symtab_add_range_sorted [OF w(2) run] by simp
  moreover have "mem_wf w' \<and> symtab_owned w'"
  proof (cases "symtab_find a (st_head (symtab w))")
    case None
    then have "io_only w w'"
      using run by (auto simp: mut_exec_symtab_add_range_def split: bind_splits dest!: mut_io_only intro: io_only_trans)
    then show ?thesis using io_only_mem [of w w'] io_only_symtab [of w w'] w symtab_owned_cong [of w' w] by simp
  next
    case (Some q)
    obtain f g where q: "q = (f, g)" by fastforce
    define t where "t = symtab_assign (sf_self f) (\<lambda>f. f\<lparr>fun_file_name := fn\<rparr>)
       ((symtab w)\<lparr>st_end := (case g of None \<Rightarrow> st_end (symtab w) | Some g \<Rightarrow> fun_start_addr g), st_cache := sf_self f\<rparr>)"
    let ?u = "w\<lparr>symtab := t\<rparr>"
    have x: "mut_exec_symtab_add_xxx a l ?u = Some (ok, w')"
      using run Some q by (simp add: mut_exec_symtab_add_range_def Let_def t_def)
    have blocks: "symtab_blocks (st_head t) = symtab_blocks (st_head (symtab w))"
      by (simp add: t_def symtab_assign_def symtab_blocks_file_name)
    have u: "mem_wf ?u" "symtab_owned ?u" using w blocks by (simp_all add: symtab_owned_iff)
    have "f \<in> set (st_head (symtab w))" using Some q symtab_find_in by blast
    moreover have "map sf_self (st_head t) = map sf_self (st_head (symtab w))"
      by (simp add: t_def symtab_assign_def)
    ultimately have "sf_self f \<in> sf_self ` set (st_head t)"
      by (metis image_eqI list.set_map)
    moreover have "st_cache t = sf_self f" by (simp add: t_def symtab_assign_def)
    ultimately have mem: "sf_self f \<in> sf_self ` set (st_head t)" "st_cache t = sf_self f" .
    obtain p v where m: "mut_mem__malloc sizeof_mut_exec_symtab_fun_line 91 symtab_file ?u = Some (p, v)"
      using x by (auto simp: mut_exec_symtab_add_xxx_def mut_exec_symtab_fun_line_open_def split: bind_splits)
    have sv: "symtab v = t" using mem_only_symtab [OF mem_only_malloc [OF m]] by simp
    show ?thesis
    proof (cases "p = 0")
      case True
      with m have v: "mem_wf v \<and> mem_in_use v = mem_in_use ?u" using malloc_failed [OF u(1)] by blast
      have "symtab_mem_full v = Some w'"
        using x m True by (auto simp: mut_exec_symtab_add_xxx_def mut_exec_symtab_fun_line_open_def split: bind_splits)
      with v show ?thesis
        using symtab_mem_full_mem [of v w'] io_only_symtab [OF symtab_mem_full_frame [of v w']] sv u(2)
        by (simp add: symtab_owned_cong [of w' ?u])
    next
      case False
      then obtain n where n: "w' = v\<lparr>symtab := symtab_assign (sf_self f)
           (\<lambda>f. f\<lparr>fun_lines := symtab_insert_line n (fun_lines f)\<rparr>) t\<rparr>" "fl_self n = p"
        using x m sv mem(2) by (auto simp: mut_exec_symtab_add_xxx_def mut_exec_symtab_fun_line_open_def)
      then have "mset (symtab_blocks (st_head (symtab w'))) = add_mset p (mset (symtab_blocks (st_head (symtab ?u))))"
        using symtab_blocks_insert_line [of "st_head t" "sf_self f" n] mem u(2)
        by (simp add: symtab_assign_def symtab_owned_iff)
      with n show ?thesis
        using mut_mem__malloc_wf [OF u(1) m] symtab_owned_add [OF u m False, of w'] by simp
    qed
  qed
  ultimately show ?thesis by (simp add: symtab_ok_def)
qed

section \<open>Reachable tables\<close>

inductive symtab_run :: "'a symtab_world_scheme \<Rightarrow> 'a symtab_world_scheme \<Rightarrow> bool" where
  opened: "symtab_run w (mut_exec_symtab_open w)"
| fun_added: "symtab_run w u \<Longrightarrow> mut_exec_symtab_add_fun n a u = Some (ok, v) \<Longrightarrow> symtab_run w v"
| range_added: "symtab_run w u \<Longrightarrow> mut_exec_symtab_add_range a l fn u = Some (ok, v) \<Longrightarrow> symtab_run w v"

lemma symtab_open_ok: "mem_wf w \<Longrightarrow> symtab_ok (mut_exec_symtab_open w)"
  by (simp add: symtab_ok_def mut_exec_symtab_open_def symtab_sorted_def symtab_owned_iff)

lemma symtab_run_ok: "symtab_run w v \<Longrightarrow> mem_wf w \<Longrightarrow> symtab_ok v"
  by (induction rule: symtab_run.induct)
    (auto intro: symtab_open_ok mut_exec_symtab_add_fun_ok mut_exec_symtab_add_range_ok)


section \<open>Properties\<close>

text \<open>
  In every table built by the interface, the functions are in strictly increasing address
  order and the lines of each function in address order, and the table owns its blocks:
  they are distinct and in use, so closing the table releases each of them exactly once.
\<close>

theorem mut_exec_symtab_invariant:
  assumes "symtab_run w v" and "mem_wf w"
  shows "symtab_sorted (symtab v) \<and>
    (\<exists>v'. mut_exec_symtab_close v = Some v' \<and> mem_wf v' \<and>
       mem_in_use v' = mem_in_use v - snd ` set (symtab_sites (symtab v)))"
  using symtab_run_ok [OF assms] mut_exec_symtab_close_result [of v] by (simp add: symtab_ok_def)

definition sample_symtab0 :: symtab_world where
  "sample_symtab0 = sample_world (log_world_ext sample_log_state
     (symtab_world_ext \<lparr>st_head = [], st_cache = 0, st_end = 0\<rparr> ()))"

lemma sample_symtab0_wf: "mem_wf sample_symtab0"
  by (simp add: sample_symtab0_def)

definition sample_symtab1 :: symtab_world where
  "sample_symtab1 = snd (the (mut_exec_symtab_add_fun (At 0x9000 1) 0x8000 (mut_exec_symtab_open sample_symtab0)))"

definition sample_symtab2 :: symtab_world where
  "sample_symtab2 = snd (the (mut_exec_symtab_add_fun (At 0x9000 5) 0x7000 sample_symtab1))"

lemmas sample_symtab_defs = sample_symtab0_def sample_symtab1_def sample_symtab2_def sample_world_def
  mut_exec_symtab_add_fun_def mut_exec_symtab_open_def
  mut_exec_symtab_fun_open_def mut_mem__malloc_def libc_malloc_def sample_pick_def
  sizeof_mut_exec_symtab_fun_def sizeof_mut_mem_node_def Let_def

lemma sample_symtab1:
  "mut_exec_symtab_add_fun (At 0x9000 1) 0x8000 (mut_exec_symtab_open sample_symtab0) = Some (True, sample_symtab1)"
  by (simp add: sample_symtab_defs)

lemma sample_symtab2:
  "mut_exec_symtab_add_fun (At 0x9000 5) 0x7000 sample_symtab1 = Some (True, sample_symtab2)"
  by (simp add: sample_symtab_defs)

lemma sample_symtab2_run: "symtab_run sample_symtab0 sample_symtab2"
  by (rule symtab_run.fun_added [OF symtab_run.fun_added [OF symtab_run.opened sample_symtab1] sample_symtab2])

lemma sample_symtab2_ok: "symtab_sorted (symtab sample_symtab2)"
  using symtab_run_ok [OF sample_symtab2_run sample_symtab0_wf] by (simp add: symtab_ok_def)

lemma sample_symtab2_head: "map fun_start_addr (st_head (symtab sample_symtab2)) = [0x7000, 0x8000]"
  by (simp add: sample_symtab_defs)

lemma mut_exec_symtab_invariant_witness:
  "\<exists>v'. mut_exec_symtab_close sample_symtab2 = Some v' \<and> mem_wf v'"
  using mut_exec_symtab_invariant [OF sample_symtab2_run sample_symtab0_wf] by blast

text \<open>
  C28: \<open>mut_exec_symtab_add_fun\<close> implements insertion into a map from start addresses to names: the
  first name given for an address stays, every other entry is unchanged, and a call that
  reports failure changes nothing.
\<close>

theorem mut_exec_symtab_add_fun_refines_map:
  assumes "symtab_sorted (symtab w)" and "mut_exec_symtab_add_fun n a w = Some (ok, w')"
  shows "symtab_sorted (symtab w') \<and>
     symtab_names (symtab w') = (if ok \<and> a \<notin> dom (symtab_names (symtab w))
        then (symtab_names (symtab w))(a \<mapsto> n) else symtab_names (symtab w))"
  using assms by (rule mut_exec_symtab_add_fun_result)

lemma mut_exec_symtab_add_fun_refines_map_witness:
  "symtab_names (symtab sample_symtab2) = (symtab_names (symtab sample_symtab1))(0x7000 \<mapsto> At 0x9000 5)"
proof -
  have "symtab_sorted (symtab sample_symtab1)"
    using symtab_run_ok [OF symtab_run.fun_added [OF symtab_run.opened sample_symtab1] sample_symtab0_wf]
    by (simp add: symtab_ok_def)
  moreover have "0x7000 \<notin> dom (symtab_names (symtab sample_symtab1))"
    by (simp add: sample_symtab_defs symtab_names_def)
  ultimately show ?thesis
    using mut_exec_symtab_add_fun_refines_map [OF _ sample_symtab2] by simp
qed

text \<open>
  C29: Address lookup in an ordered table finds the function with the greatest start address not
  above the address, and fails exactly when every function starts above it. The line it
  reports is that of the lowest line entry at or above the address, or 0 when there is none.
\<close>

theorem mut_exec_symtab_lookup_addr_greatest:
  assumes "symtab_sorted s"
  shows "case mut_exec_symtab_lookup_addr s a of
      None \<Rightarrow> \<forall>h \<in> set (st_head s). a < fun_start_addr h
    | Some (sa, n, fn, l) \<Rightarrow> \<exists>f \<in> set (st_head s).
        sa = fun_start_addr f \<and> n = fun_name f \<and> fn = fun_file_name f \<and> sa \<le> a \<and>
        (\<forall>h \<in> set (st_head s). fun_start_addr h \<le> a \<longrightarrow> fun_start_addr h \<le> sa) \<and>
        (if \<forall>x \<in> set (fun_lines f). line_addr x < a then l = 0
         else \<exists>fl \<in> set (fun_lines f). l = ucast (line_number fl) \<and> a \<le> line_addr fl \<and>
           (\<forall>x \<in> set (fun_lines f). a \<le> line_addr x \<longrightarrow> line_addr fl \<le> line_addr x))"
proof (cases "symtab_find a (st_head s)")
  case None
  with assms symtab_find_None [of a "st_head s"] show ?thesis
    by (simp add: mut_exec_symtab_lookup_addr_def symtab_sorted_def)
next
  case (Some p)
  obtain f g where p: "p = (f, g)" by fastforce
  have f: "f \<in> set (st_head s)" "fun_start_addr f \<le> a"
     "\<forall>h \<in> set (st_head s). fun_start_addr h \<le> a \<longrightarrow> fun_start_addr h \<le> fun_start_addr f"
    using symtab_find_Some [of a "st_head s" f g] Some p assms by (auto simp: symtab_sorted_def)
  have "sorted (map line_addr (fun_lines f))" using assms f(1) by (simp add: symtab_sorted_def)
  from symtab_line_floor [OF this, of a] f show ?thesis
    unfolding mut_exec_symtab_lookup_addr_def Some p option.case prod.case
    by (intro bexI [of _ f] conjI) simp_all
qed

lemma mut_exec_symtab_lookup_addr_greatest_witness:
  "mut_exec_symtab_lookup_addr (symtab sample_symtab2) 0x7abc = Some (0x7000, At 0x9000 5, Indeterminate, 0) \<and>
   (\<exists>f \<in> set (st_head (symtab sample_symtab2)). fun_start_addr f = 0x7000 \<and> fun_name f = At 0x9000 5)"
proof -
  have l: "mut_exec_symtab_lookup_addr (symtab sample_symtab2) 0x7abc = Some (0x7000, At 0x9000 5, Indeterminate, 0)"
    by (simp add: sample_symtab_defs mut_exec_symtab_lookup_addr_def)
  from mut_exec_symtab_lookup_addr_greatest [OF sample_symtab2_ok, of "0x7abc"]
  have "\<exists>f \<in> set (st_head (symtab sample_symtab2)). fun_start_addr f = 0x7000 \<and> fun_name f = At 0x9000 5"
    unfolding l option.case prod.case by (elim bexE conjE) (rule bexI, simp_all)
  with l show ?thesis by blast
qed

end
