(* ===== verification/MutExec.thy ===== *)
theory MutExec
  imports MutSymtab
begin

text \<open>
  The executable as the rest of MUT sees it: the state \<open>mut_exec\<close> of
  src/src/exec/elf/mut_exec.c and the operations on it once it has been read.
  \<open>has_full_symbols\<close> is assigned only when the file has a \<open>.symtab\<close> section; before that it
  is \<open>None\<close>, and a use of it is undefined.
\<close>

record mut_exec_strings =
  es_data :: ptr
  es_size :: u32

record mut_exec =
  strtab :: mut_exec_strings
  dynstr :: mut_exec_strings
  stabstr :: mut_exec_strings
  has_full_symbols :: "bool option"

record exec_world = symtab_world +
  exec :: mut_exec

definition exec_file :: string where "exec_file = ''exec/elf/mut_exec.c''"

section \<open>Operations\<close>

text \<open>The address and the flags of each function, in the order of the names.\<close>

fun mut_exec_functions_addr :: "string list \<Rightarrow> 'a exec_world_scheme \<Rightarrow> (u32 \<times> bool) list option" where
  "mut_exec_functions_addr [] w = Some []"
| "mut_exec_functions_addr (n # ns) w = do {
     sa \<leftarrow> mut_exec_symtab_lookup_name n w;
     rest \<leftarrow> mut_exec_functions_addr ns w;
     Some ((sa, sa \<noteq> 0) # rest)
   }"

text \<open>The inner option is the status.\<close>

definition mut_exec_addr_name ::
  "u32 \<Rightarrow> 'a exec_world_scheme \<Rightarrow> (u32 \<times> char_ptr \<times> char_ptr \<times> u32) option option" where
  "mut_exec_addr_name a w = do {
     full \<leftarrow> has_full_symbols (exec w);
     if \<not> full then Some None else Some (mut_exec_symtab_lookup_addr (symtab w) a)
   }"

definition mut_exec_has_backtrace_symbols :: "'a exec_world_scheme \<Rightarrow> bool option" where
  "mut_exec_has_backtrace_symbols w = has_full_symbols (exec w)"

definition mut_exec_strtab_close ::
  "mut_exec_strings \<Rightarrow> 'a exec_world_scheme \<Rightarrow> 'a exec_world_scheme option" where
  "mut_exec_strtab_close strs w = mut_mem__free (es_data strs) 254 exec_file w"

definition mut_exec_stabstr_close :: "'a exec_world_scheme \<Rightarrow> 'a exec_world_scheme option" where
  "mut_exec_stabstr_close w = mut_mem__free (es_data (stabstr (exec w))) 467 exec_file w"

definition mut_exec_close :: "'a exec_world_scheme \<Rightarrow> (bool \<times> 'a exec_world_scheme) option" where
  "mut_exec_close w = do {
     w \<leftarrow> (if es_data (stabstr (exec w)) \<noteq> 0 then mut_exec_stabstr_close w else Some w);
     w \<leftarrow> mut_exec_strtab_close (strtab (exec w)) w;
     w \<leftarrow> mut_exec_strtab_close (dynstr (exec w)) w;
     w \<leftarrow> mut_exec_symtab_close w;
     Some (True, w)
   }"

section \<open>Closing\<close>

text \<open>The string tables that exist, and what closing needs: every block is in use, once.\<close>

definition exec_tables :: "mut_exec \<Rightarrow> ptr list" where
  "exec_tables e = filter (\<lambda>p. p \<noteq> 0) [es_data (stabstr e), es_data (strtab e), es_data (dynstr e)]"

definition exec_owned :: "'a exec_world_scheme \<Rightarrow> bool" where
  "exec_owned w \<longleftrightarrow>
     distinct (exec_tables (exec w) @ map snd (symtab_sites (symtab w))) \<and>
     set (exec_tables (exec w)) \<union> snd ` set (symtab_sites (symtab w)) \<subseteq> mem_in_use w"

lemma mem_only_exec:
  "mem_only w w' \<Longrightarrow> exec (w' :: 'a exec_world_scheme) = exec w \<and> symtab w' = symtab w"
  by (erule mem_onlyE) simp

lemma mut_mem__free_null:
  "\<exists>w'. mut_mem__free 0 l f w = Some w' \<and> mem_in_use w' = mem_in_use w \<and> mem_wf w' = mem_wf w"
  by (simp add: mut_mem__free_def Let_def mem_in_use_def mem_wf_def malloc_fresh_def mem_nodes_def mem_blocks_def)

lemma mut_mem__free_if:
  assumes "mem_wf w" and "p = 0 \<or> p \<in> mem_in_use w"
  shows "\<exists>w'. mut_mem__free p l f w = Some w' \<and> mem_wf w' \<and> mem_in_use w' = mem_in_use w - {p}"
proof (cases "p = 0")
  case True
  moreover have "0 \<notin> mem_in_use w" using mem_in_use_not_null [OF assms(1)] by blast
  ultimately show ?thesis using assms(1) mut_mem__free_null [of l f w] by auto
next
  case False
  then show ?thesis
    using assms mut_mem.release_owned [of w p "(l, f)"] by (simp add: mem_free_at_def)
qed

lemma mut_exec_close_result:
  assumes wf: "mem_wf w" and own: "exec_owned w"
  shows "\<exists>w'. mut_exec_close w = Some (True, w') \<and> mem_wf w' \<and>
     mem_in_use w' = mem_in_use w - set (exec_tables (exec w)) - snd ` set (symtab_sites (symtab w))"
proof -
  define a b c where "a = es_data (stabstr (exec w))" and "b = es_data (strtab (exec w))"
    and "c = es_data (dynstr (exec w))"
  note abc = a_def b_def c_def
  have own': "a = 0 \<or> a \<in> mem_in_use w" "b = 0 \<or> b \<in> mem_in_use w \<and> b \<noteq> a"
    "c = 0 \<or> c \<in> mem_in_use w \<and> c \<noteq> a \<and> c \<noteq> b"
    using own unfolding exec_owned_def exec_tables_def abc [symmetric] by (auto split: if_splits)
  have z: "0 \<notin> mem_in_use w" using mem_in_use_not_null [OF wf] by blast
  obtain u where u: "(if a \<noteq> 0 then mut_exec_stabstr_close w else Some w) = Some u" "mem_wf u"
      "mem_in_use u = mem_in_use w - {a}" "mem_only w u"
    using mut_mem__free_if [OF wf own'(1), of 467 exec_file] wf z
    by (cases "a = 0") (auto simp: mut_exec_stabstr_close_def abc dest: mem_only_free)
  have "b = 0 \<or> b \<in> mem_in_use u" using own'(2) u(3) by auto
  then obtain v where v: "mut_mem__free b 254 exec_file u = Some v" "mem_wf v"
      "mem_in_use v = mem_in_use u - {b}"
    using mut_mem__free_if [OF u(2), of b 254 exec_file] by auto
  have "c = 0 \<or> c \<in> mem_in_use v" using own'(3) u(3) v(3) by auto
  then obtain x where x: "mut_mem__free c 254 exec_file v = Some x" "mem_wf x"
      "mem_in_use x = mem_in_use v - {c}"
    using mut_mem__free_if [OF v(2), of c 254 exec_file] by auto
  have st: "symtab x = symtab w" "exec u = exec w" "exec v = exec w"
    using mem_only_exec [OF u(4)] mem_only_exec [OF mem_only_free [OF v(1)]]
      mem_only_exec [OF mem_only_free [OF x(1)]] by auto
  have tables: "set (exec_tables (exec w)) = {a, b, c} - {0}" by (auto simp: exec_tables_def abc)
  have used: "mem_in_use x = mem_in_use w - set (exec_tables (exec w))"
    using u(3) v(3) x(3) z unfolding tables by blast
  have "set (exec_tables (exec w)) \<inter> snd ` set (symtab_sites (symtab w)) = {}"
    using own by (auto simp: exec_owned_def)
  then have "symtab_owned x" using own st used by (auto simp: exec_owned_def symtab_owned_def)
  then obtain y where "mut_exec_symtab_close x = Some y" "mem_wf y"
      "mem_in_use y = mem_in_use x - snd ` set (symtab_sites (symtab w))"
    using mut_exec_symtab_close_result [OF x(2)] st by auto
  then show ?thesis
    using u(1) v(1) x(1) st used unfolding mut_exec_close_def mut_exec_strtab_close_def abc by simp
qed

end
