(* ===== verification/MutBacktrace.thy ===== *)
theory MutBacktrace
  imports MutExec
begin

text \<open>
  Backtraces, src/src/backtrace/fixed/mut_backtrace.c: at most \<open>mut_backtrace_frames_max\<close> return
  addresses, shared by reference counting. The backtraces that exist are a map from their
  addresses; each address is a block of MUT's allocator. \<open>bt->exec\<close> is always MUT's one executable.
\<close>

section \<open>State\<close>

definition mut_backtrace_frames_max :: nat where "mut_backtrace_frames_max = 20"

record mut_backtrace =
  ref_count :: u32
  frames :: "u32 list"

record bt_world = exec_world +
  bts :: "ptr \<Rightarrow> mut_backtrace option"

definition sizeof_mut_backtrace :: u32 where "sizeof_mut_backtrace = 92"

definition backtrace_file :: string where "backtrace_file = ''backtrace/fixed/mut_backtrace.c''"

section \<open>Operations\<close>

definition mut_backtrace_open :: "'a bt_world_scheme \<Rightarrow> (ptr \<times> 'a bt_world_scheme) option" where
  "mut_backtrace_open w = do {
     (bt, w) \<leftarrow> mut_mem__malloc sizeof_mut_backtrace 21 backtrace_file w;
     if bt = 0 then do { w \<leftarrow> mut_log_mem_full (c_errno w) w; Some (0, w) }
     else Some (bt, w\<lparr>bts := (bts w)(bt \<mapsto> \<lparr>ref_count = 1, frames = []\<rparr>)\<rparr>)
   }"

definition mut_backtrace_enter :: "ptr \<Rightarrow> u32 \<Rightarrow> 'a bt_world_scheme \<Rightarrow> (int \<times> 'a bt_world_scheme) option" where
  "mut_backtrace_enter bt ra w = do {
     assert_c (bt \<noteq> 0);
     b \<leftarrow> bts w bt;
     if length (frames b) < mut_backtrace_frames_max
     then Some (1, w\<lparr>bts := (bts w)(bt \<mapsto> b\<lparr>frames := frames b @ [ra]\<rparr>)\<rparr>)
     else Some (-1, w)
   }"

definition mut_backtrace_share :: "ptr \<Rightarrow> 'a bt_world_scheme \<Rightarrow> (ptr \<times> 'a bt_world_scheme) option" where
  "mut_backtrace_share bt w = do {
     assert_c (bt \<noteq> 0);
     b \<leftarrow> bts w bt;
     Some (bt, w\<lparr>bts := (bts w)(bt \<mapsto> b\<lparr>ref_count := ref_count b + 1\<rparr>)\<rparr>)
   }"

text \<open>One frame of the log message. \<open>XXXX\<close> in the source is not defined, so its check is left out.\<close>

definition log_frame :: "u32 \<Rightarrow> 'a bt_world_scheme \<Rightarrow> 'a bt_world_scheme option" where
  "log_frame addr w = do {
     name \<leftarrow> mut_exec_addr_name addr w;
     case name of
       Some (function_addr, n, fn, ln) \<Rightarrow> do {
         n \<leftarrow> string_at w n;
         w \<leftarrow> mut_log_string n w;
         w \<leftarrow> mut_log_uint_hex function_addr w;
         w \<leftarrow> mut_log_uint_hex addr w;
         w \<leftarrow> mut_log_uint (addr - function_addr) w;
         fn \<leftarrow> (if fn = Null then Some ''?'' else string_at w fn);
         w \<leftarrow> mut_log_string fn w;
         mut_log_uint ln w
       }
     | None \<Rightarrow> do {
         w \<leftarrow> mut_log_string ''?'' w;
         mut_log_uint_hex addr w
       }
   }"

fun log_frames :: "u32 list \<Rightarrow> 'a bt_world_scheme \<Rightarrow> 'a bt_world_scheme option" where
  "log_frames [] w = Some w"
| "log_frames (a # as) w = do { w \<leftarrow> log_frame a w; log_frames as w }"

definition mut_log_backtrace :: "ptr \<Rightarrow> 'a bt_world_scheme \<Rightarrow> 'a bt_world_scheme option" where
  "mut_log_backtrace bt w = do {
     assert_c (bt \<noteq> 0);
     b \<leftarrow> bts w bt;
     w \<leftarrow> mut_log_uint (of_nat (length (frames b))) w;
     log_frames (frames b) w
   }"

definition mut_backtrace_close :: "ptr \<Rightarrow> 'a bt_world_scheme \<Rightarrow> 'a bt_world_scheme option" where
  "mut_backtrace_close bt w = do {
     assert_c (bt \<noteq> 0);
     b \<leftarrow> bts w bt;
     assert_c (ref_count b \<noteq> 0);
     let c = ref_count b - 1;
     let w = w\<lparr>bts := (bts w)(bt \<mapsto> b\<lparr>ref_count := c\<rparr>)\<rparr>;
     if c = 0 then do {
       w \<leftarrow> mut_mem__free bt 92 backtrace_file w;
       Some (w\<lparr>bts := (bts w)(bt := None)\<rparr>)
     }
     else Some w
   }"


section \<open>Frames\<close>

lemma bt_world_same:
  "mem_only w w' \<Longrightarrow> bts (w' :: 'a bt_world_scheme) = bts w \<and> exec w' = exec w \<and> symtab w' = symtab w"
  "io_only w w' \<Longrightarrow> bts (w' :: 'a bt_world_scheme) = bts w \<and> exec w' = exec w \<and> symtab w' = symtab w"
  by (erule mem_onlyE, simp) (erule io_onlyE, simp)

lemma mem_bts [simp]:
  "mem_wf (w\<lparr>bts := b\<rparr>) = mem_wf w" "mem_in_use (w\<lparr>bts := b\<rparr>) = mem_in_use w"
  by (simp_all add: mem_wf_def mem_in_use_def malloc_fresh_def)

text \<open>Printing a backtrace only writes to the log.\<close>

lemma log_frame_only: "log_frame a w = Some w' \<Longrightarrow> io_only w w'"
  by (auto simp: log_frame_def split: bind_splits option.splits dest!: mut_io_only) (meson io_only_trans)+

lemma log_frames_only: "log_frames as w = Some w' \<Longrightarrow> io_only w w'"
  by (induction as arbitrary: w) (auto split: bind_splits dest!: log_frame_only intro: io_only_trans)

lemma mut_log_backtrace_only [frame]: "mut_log_backtrace bt w = Some w' \<Longrightarrow> io_only w w'"
  by (auto simp: mut_log_backtrace_def split: bind_splits
      dest!: mut_io_only log_frames_only intro: io_only_trans)

section \<open>The backtraces that exist\<close>

definition bts_ok :: "'a bt_world_scheme \<Rightarrow> bool" where
  "bts_ok w \<longleftrightarrow> mem_wf w \<and> dom (bts w) \<subseteq> mem_in_use w \<and>
     (\<forall>p b. bts w p = Some b \<longrightarrow> length (frames b) \<le> mut_backtrace_frames_max)"

lemma bts_ok_not_null: "bts_ok w \<Longrightarrow> bts w 0 = None"
  using mem_in_use_not_null [of w 0] by (auto simp: bts_ok_def dom_def)

lemma bts_not_null: "bts_ok w \<Longrightarrow> bts w bt = Some b \<Longrightarrow> bt \<noteq> 0"
  using bts_ok_not_null by fastforce

lemma bts_ok_io: "io_only w w' \<Longrightarrow> bts_ok w' = bts_ok w"
  using bt_world_same(2) [of w w'] io_only_mem [of w w'] by (simp add: bts_ok_def)

lemma mut_backtrace_open_result:
  assumes "bts_ok w" and "mut_backtrace_open w = Some (bt, w')"
  shows "bts_ok w' \<and> (if bt = 0 then bts w' = bts w \<and> mem_in_use w' = mem_in_use w
     else bt \<notin> mem_in_use w \<and> mem_in_use w' = insert bt (mem_in_use w) \<and>
          bts w' = (bts w)(bt \<mapsto> \<lparr>ref_count = 1, frames = []\<rparr>))"
proof -
  have wf: "mem_wf w" using assms(1) by (simp add: bts_ok_def)
  obtain p v where m: "mut_mem__malloc sizeof_mut_backtrace 21 backtrace_file w = Some (p, v)"
    using assms(2) by (auto simp: mut_backtrace_open_def split: bind_splits)
  note same = bt_world_same(1) [OF mem_only_malloc [OF m]]
  show ?thesis
  proof (cases "p = 0")
    case True
    with assms(2) m have "mut_log_mem_full (c_errno v) v = Some w'" "bt = 0"
      by (auto simp: mut_backtrace_open_def split: bind_splits)
    then have "io_only v w'" by (intro mut_io_only)
    then show ?thesis
      using malloc_failed [OF wf m [unfolded True]] same bt_world_same(2) [of v w'] io_only_mem [of v w'] assms(1)
        \<open>bt = 0\<close> by (auto simp: bts_ok_def)
  next
    case False
    with assms(2) m have "bt = p" "w' = v\<lparr>bts := (bts v)(p \<mapsto> \<lparr>ref_count = 1, frames = []\<rparr>)\<rparr>"
      by (auto simp: mut_backtrace_open_def)
    with False same assms(1) mut_mem__malloc_wf [OF wf m] mut_mem__malloc_result [OF wf m] show ?thesis
      by (auto simp: bts_ok_def)
  qed
qed

lemma mut_backtrace_enter_result:
  assumes "bts_ok w" and "bts w bt = Some b"
  shows "\<exists>w'. mut_backtrace_enter bt ra w =
      Some (if length (frames b) < mut_backtrace_frames_max then 1 else -1, w') \<and> bts_ok w' \<and>
    w' = w\<lparr>bts := (bts w)(bt \<mapsto> b\<lparr>frames := take mut_backtrace_frames_max (frames b @ [ra])\<rparr>)\<rparr>"
proof -
  have "bt \<noteq> 0" using bts_ok_not_null [OF assms(1)] assms(2) by auto
  moreover have "length (frames b) \<le> mut_backtrace_frames_max" using assms by (auto simp: bts_ok_def)
  moreover have "(bts w)(bt \<mapsto> b) = bts w" using assms(2) by (simp add: fun_upd_idem)
  ultimately show ?thesis
    using assms by (auto simp: mut_backtrace_enter_def bts_ok_def not_less)
qed

lemma mut_backtrace_share_result:
  assumes "bts_ok w" and "bts w bt = Some b"
  shows "\<exists>w'. mut_backtrace_share bt w = Some (bt, w') \<and> bts_ok w' \<and>
    w' = w\<lparr>bts := (bts w)(bt \<mapsto> b\<lparr>ref_count := ref_count b + 1\<rparr>)\<rparr>"
  using assms bts_not_null [OF assms] by (auto simp: mut_backtrace_share_def bts_ok_def)

lemma mut_backtrace_close_result:
  assumes ok: "bts_ok w" and bt: "bts w bt = Some b" and "ref_count b \<noteq> 0"
  shows "\<exists>w'. mut_backtrace_close bt w = Some w' \<and> bts_ok w' \<and>
     (if ref_count b = 1 then bts w' = (bts w)(bt := None) \<and> mem_in_use w' = mem_in_use w - {bt}
      else bts w' = (bts w)(bt \<mapsto> b\<lparr>ref_count := ref_count b - 1\<rparr>) \<and> mem_in_use w' = mem_in_use w)"
proof -
  have nz: "bt \<noteq> 0" using bts_ok_not_null [OF ok] bt by auto
  let ?v = "w\<lparr>bts := (bts w)(bt \<mapsto> b\<lparr>ref_count := ref_count b - 1\<rparr>)\<rparr>"
  have v: "mem_wf ?v" "bt \<in> mem_in_use ?v" using ok bt by (auto simp: bts_ok_def)
  show ?thesis
  proof (cases "ref_count b = 1")
    case False
    then show ?thesis
      using nz bt assms(3) ok by (auto simp: mut_backtrace_close_def Let_def bts_ok_def)
  next
    case True
    obtain u where u: "mut_mem__free bt 92 backtrace_file ?v = Some u" "mem_wf u"
        "mem_in_use u = mem_in_use w - {bt}"
      using mut_mem.release_owned [OF v, of "(92, backtrace_file)"] by (auto simp: mem_free_at_def)
    have "bts u = bts ?v" using bt_world_same(1) [OF mem_only_free [OF u(1)]] by simp
    then show ?thesis
      using u nz bt True ok by (auto simp: mut_backtrace_close_def Let_def bts_ok_def)
  qed
qed

lemma mut_backtrace_close_gone: "bts w bt = None \<Longrightarrow> mut_backtrace_close bt w = None"
  by (auto simp: mut_backtrace_close_def bind_assert_c)

section \<open>Sharing\<close>

text \<open>Closing a backtrace several times, and entering a list of return addresses.\<close>

fun close_times :: "nat \<Rightarrow> ptr \<Rightarrow> 'a bt_world_scheme \<Rightarrow> 'a bt_world_scheme option" where
  "close_times 0 bt w = Some w"
| "close_times (Suc n) bt w = do { w \<leftarrow> mut_backtrace_close bt w; close_times n bt w }"

lemma close_times_partial:
  "bts_ok w \<Longrightarrow> bts w bt = Some b \<Longrightarrow> n < unat (ref_count b) \<Longrightarrow>
   \<exists>w'. close_times n bt w = Some w' \<and> bts_ok w' \<and> mem_in_use w' = mem_in_use w \<and>
     bts w' = (bts w)(bt \<mapsto> b\<lparr>ref_count := ref_count b - of_nat n\<rparr>)"
proof (induction n arbitrary: w b)
  case 0
  then show ?case by (auto simp: fun_upd_idem)
next
  case (Suc n)
  have r: "ref_count b \<noteq> 0" "ref_count b \<noteq> 1" using Suc.prems(3) by (auto simp: unat_eq_0)
  obtain v where v: "mut_backtrace_close bt w = Some v" "bts_ok v" "mem_in_use v = mem_in_use w"
      "bts v = (bts w)(bt \<mapsto> b\<lparr>ref_count := ref_count b - 1\<rparr>)"
    using mut_backtrace_close_result [OF Suc.prems(1,2) r(1)] r(2) by auto
  have "unat (ref_count b - 1) = unat (ref_count b) - 1"
    using r(1) by (simp add: unat_minus_one)
  with Suc.prems(3) have "n < unat (ref_count (b\<lparr>ref_count := ref_count b - 1\<rparr>))" by simp
  from Suc.IH [OF v(2) _ this] v(4) obtain w' where w': "close_times n bt v = Some w'" "bts_ok w'"
      "mem_in_use w' = mem_in_use v" "bts w' = (bts v)(bt \<mapsto> b\<lparr>ref_count := ref_count b - 1 - of_nat n\<rparr>)"
    by fastforce
  have "bts w' = (bts w)(bt \<mapsto> b\<lparr>ref_count := ref_count b - of_nat (Suc n)\<rparr>)"
    unfolding w'(4) v(4) by (simp add: algebra_simps)
  moreover have "close_times (Suc n) bt w = Some w'" using v(1) w'(1) by simp
  moreover have "mem_in_use w' = mem_in_use w" using v(3) w'(3) by simp
  ultimately show ?case using w'(2) by blast
qed

lemma close_times_append: "close_times (m + n) bt w = close_times m bt w \<bind> close_times n bt"
  by (induction m arbitrary: w) (auto intro!: Option.bind_cong)

lemma close_times_all:
  assumes "bts_ok w" and "bts w bt = Some b" and "ref_count b \<noteq> 0"
  shows "\<exists>w'. close_times (unat (ref_count b)) bt w = Some w' \<and> bts_ok w' \<and>
     bts w' = (bts w)(bt := None) \<and> mem_in_use w' = mem_in_use w - {bt}"
proof -
  obtain n where n: "unat (ref_count b) = n + 1" using assms(3) by (metis Suc_eq_plus1 not0_implies_Suc unat_eq_0)
  then obtain v where v: "close_times n bt w = Some v" "bts_ok v" "mem_in_use v = mem_in_use w"
     "bts v = (bts w)(bt \<mapsto> b\<lparr>ref_count := ref_count b - of_nat n\<rparr>)"
    using close_times_partial [OF assms(1,2), of n] by auto
  have "n = unat (ref_count b - 1)" using n assms(3) by (simp add: unat_minus_one)
  then have one: "ref_count b - of_nat n = 1" by simp
  obtain w' where w': "mut_backtrace_close bt v = Some w'" "bts_ok w'" "bts w' = (bts v)(bt := None)"
      "mem_in_use w' = mem_in_use v - {bt}"
    using mut_backtrace_close_result [OF v(2), of bt "b\<lparr>ref_count := 1\<rparr>"] v(4) one by auto
  have "close_times (n + 1) bt w = Some w'"
    using v(1) w'(1) unfolding close_times_append by simp
  moreover have "bts w' = (bts w)(bt := None)" unfolding w'(3) v(4) by simp
  moreover have "mem_in_use w' = mem_in_use w - {bt}" using v(3) w'(4) by simp
  ultimately show ?thesis using n w'(2) by (metis)
qed

fun enter_all :: "ptr \<Rightarrow> u32 list \<Rightarrow> 'a bt_world_scheme \<Rightarrow> 'a bt_world_scheme option" where
  "enter_all bt [] w = Some w"
| "enter_all bt (ra # ras) w = do { (st, w) \<leftarrow> mut_backtrace_enter bt ra w; enter_all bt ras w }"

lemma take_take_append: "length xs \<le> n \<Longrightarrow> take n (take n (xs @ [a]) @ ys) = take n (xs @ a # ys)"
  by (cases "length xs = n") (auto simp: take_Cons' Suc_le_eq)

lemma enter_all_result:
  "bts_ok w \<Longrightarrow> bts w bt = Some b \<Longrightarrow>
   \<exists>w'. enter_all bt ras w = Some w' \<and> bts_ok w' \<and>
     bts w' bt = Some (b\<lparr>frames := take mut_backtrace_frames_max (frames b @ ras)\<rparr>)"
proof (induction ras arbitrary: w b)
  case Nil
  then have "length (frames b) \<le> mut_backtrace_frames_max" by (auto simp: bts_ok_def)
  with Nil show ?case by simp
next
  case (Cons ra ras)
  obtain v st where v: "mut_backtrace_enter bt ra w = Some (st, v)" "bts_ok v"
     "v = w\<lparr>bts := (bts w)(bt \<mapsto> b\<lparr>frames := take mut_backtrace_frames_max (frames b @ [ra])\<rparr>)\<rparr>"
    using mut_backtrace_enter_result [OF Cons.prems, of ra] by blast
  then have "bts v bt = Some (b\<lparr>frames := take mut_backtrace_frames_max (frames b @ [ra])\<rparr>)" by simp
  moreover have "length (frames b) \<le> mut_backtrace_frames_max" using Cons.prems by (auto simp: bts_ok_def)
  ultimately show ?case
    using Cons.IH [OF v(2)] v(1) by (simp add: take_take_append del: take_append)
qed


section \<open>Properties\<close>

text \<open>
  C30: Reference counting of backtraces: a backtrace with count \<open>n\<close> survives any smaller number of
  closes with its frames and its block untouched, the \<open>n\<close>-th close releases exactly its block, and one
  more close stops the program.
\<close>

theorem mut_backtrace_reference_count:
  assumes "bts_ok w" and "bts w bt = Some b" and "ref_count b \<noteq> 0"
  shows "(\<forall>k < unat (ref_count b). \<exists>u. close_times k bt w = Some u \<and> mem_in_use u = mem_in_use w \<and>
       (\<exists>c. bts u bt = Some c \<and> frames c = frames b)) \<and>
    (\<exists>w'. close_times (unat (ref_count b)) bt w = Some w' \<and> bts_ok w' \<and>
       bts w' = (bts w)(bt := None) \<and> mem_in_use w' = mem_in_use w - {bt} \<and>
       mut_backtrace_close bt w' = None)"
proof (intro conjI allI impI)
  fix k
  assume "k < unat (ref_count b)"
  from close_times_partial [OF assms(1,2) this]
  show "\<exists>u. close_times k bt w = Some u \<and> mem_in_use u = mem_in_use w \<and>
       (\<exists>c. bts u bt = Some c \<and> frames c = frames b)" by fastforce
next
  obtain w' where w': "close_times (unat (ref_count b)) bt w = Some w'" "bts_ok w'"
       "bts w' = (bts w)(bt := None)" "mem_in_use w' = mem_in_use w - {bt}"
    using close_times_all [OF assms] by blast
  then have "mut_backtrace_close bt w' = None" by (intro mut_backtrace_close_gone) simp
  with w' show "\<exists>w'. close_times (unat (ref_count b)) bt w = Some w' \<and> bts_ok w' \<and>
       bts w' = (bts w)(bt := None) \<and> mem_in_use w' = mem_in_use w - {bt} \<and>
       mut_backtrace_close bt w' = None" by blast
qed

definition sample_exec :: mut_exec where
  "sample_exec = \<lparr>strtab = \<lparr>es_data = 0, es_size = 0\<rparr>, dynstr = \<lparr>es_data = 0, es_size = 0\<rparr>,
     stabstr = \<lparr>es_data = 0, es_size = 0\<rparr>, has_full_symbols = Some True\<rparr>"

definition sample_bt0 :: bt_world where
  "sample_bt0 = sample_world (log_world_ext sample_log_state
     (symtab_world_ext \<lparr>st_head = [], st_cache = 0, st_end = 0\<rparr>
     (exec_world_ext sample_exec (bt_world_ext Map.empty ()))))"

lemma sample_bt0_ok: "bts_ok sample_bt0"
  by (simp add: bts_ok_def sample_bt0_def) (simp add: sample_world_def)

definition sample_bt1 :: bt_world where
  "sample_bt1 = snd (the (mut_backtrace_open sample_bt0))"

lemma sample_bt1: "mut_backtrace_open sample_bt0 = Some (0x1000, sample_bt1)"
  by (simp add: sample_bt1_def sample_bt0_def mut_backtrace_open_def sample_world_def mut_mem__malloc_def
      libc_malloc_def sample_pick_def sizeof_mut_backtrace_def Let_def)

lemma sample_bt1_ok: "bts_ok sample_bt1" "bts sample_bt1 0x1000 = Some \<lparr>ref_count = 1, frames = []\<rparr>"
  using mut_backtrace_open_result [OF sample_bt0_ok sample_bt1] by auto

lemma mut_backtrace_reference_count_witness:
  "\<exists>w'. close_times 1 0x1000 sample_bt1 = Some w' \<and> mut_backtrace_close 0x1000 w' = None"
  using mut_backtrace_reference_count [OF sample_bt1_ok] by auto

text \<open>
  Entering return addresses keeps the first \<open>mut_backtrace_frames_max\<close> of them in order and drops
  the rest: however long the list is, no frame is ever stored outside the array.
\<close>

theorem mut_backtrace_enter_keeps_first_frames:
  assumes "bts_ok w" and "bts w bt = Some b"
  shows "\<exists>w'. enter_all bt ras w = Some w' \<and> bts_ok w' \<and>
     bts w' bt = Some (b\<lparr>frames := take mut_backtrace_frames_max (frames b @ ras)\<rparr>)"
  using assms by (rule enter_all_result)

lemma mut_backtrace_enter_keeps_first_frames_witness:
  "\<exists>w'. enter_all 0x1000 (map of_nat [0..<30]) sample_bt1 = Some w' \<and>
     (\<exists>b. bts w' 0x1000 = Some b \<and> length (frames b) = 20)"
  using mut_backtrace_enter_keeps_first_frames [OF sample_bt1_ok, of "map of_nat [0..<30]"]
  by (auto simp: mut_backtrace_frames_max_def)

end
