(* ===== verification/MutResources.thy ===== *)
theory MutResources
  imports MutBacktrace MutCounter
begin

text \<open>
  The resource map, src/src/resources/list/mut_resources.c and mut_resources.h, with the part of
  src/src/mut_action.h it uses: an action is known by its identity, as MUT compares
  the pointers to its six actions. A \<open>mut_resource *\<close> is the address of a node; the list of
  nodes is in the order of the \<open>next\<close> fields.
\<close>

section \<open>State\<close>

datatype mut_action_id = Act_malloc | Act_calloc | Act_realloc | Act_free | Act_cfree | Act_usage

text \<open>\<open>size\<close> is indeterminate until the producer is recorded. The two structures are flattened.\<close>

record mut_resource =
  r_self :: ptr
  r_addr :: u32
  r_size :: "u32 option"
  producer_action :: "mut_action_id option"
  producer_backtrace :: ptr
  consumer_action :: "mut_action_id option"
  consumer_backtrace :: ptr

text \<open>The function pointer \<open>delete\<close> has two values; \<open>really_free\<close> says which one it is.\<close>

record mut_resources =
  elems :: "mut_resource list"
  really_free :: bool
  n_active_elems :: u32
  n_consumed_elems :: u32

record res_world = bt_world +
  resources :: mut_resources

record mut_resources_iter =
  iter_elem :: "ptr list"
  iter_all :: bool

definition sizeof_mut_resource :: u32 where "sizeof_mut_resource = 28"

definition resources_file :: string where "resources_file = ''resources/list/mut_resources.c''"

section \<open>Access through a pointer\<close>

fun node_at :: "ptr \<Rightarrow> mut_resource list \<Rightarrow> mut_resource option" where
  "node_at p [] = None"
| "node_at p (r # rs) = (if r_self r = p then Some r else node_at p rs)"

definition res_get :: "ptr \<Rightarrow> 'a res_world_scheme \<Rightarrow> mut_resource option" where
  "res_get p w = node_at p (elems (resources w))"

definition res_set :: "ptr \<Rightarrow> (mut_resource \<Rightarrow> mut_resource) \<Rightarrow> 'a res_world_scheme \<Rightarrow> 'a res_world_scheme option" where
  "res_set p g w = do {
     r \<leftarrow> res_get p w;
     Some (w\<lparr>resources := (resources w)\<lparr>elems :=
       map (\<lambda>r. if r_self r = p then g r else r) (elems (resources w))\<rparr>\<rparr>)
   }"

section \<open>Operations\<close>

definition mut_resource_is_new :: "mut_resource \<Rightarrow> bool" where
  "mut_resource_is_new obj \<longleftrightarrow> producer_backtrace obj = 0"

definition mut_resources_resource_deleted :: "mut_resource \<Rightarrow> bool" where
  "mut_resources_resource_deleted obj \<longleftrightarrow> consumer_action obj \<noteq> None"

definition mut_resource_make_producer ::
  "ptr \<Rightarrow> mut_action_id \<Rightarrow> u32 \<Rightarrow> ptr \<Rightarrow> 'a res_world_scheme \<Rightarrow> 'a res_world_scheme option" where
  "mut_resource_make_producer obj producer obj_size bt =
     res_set obj (\<lambda>r. r\<lparr>producer_action := Some producer, producer_backtrace := bt, r_size := Some obj_size\<rparr>)"

text \<open>The loop that unlinks the first node for an address; running off the list fails its assertion.\<close>

fun unlink_addr :: "u32 \<Rightarrow> mut_resource list \<Rightarrow> (mut_resource \<times> mut_resource list) option" where
  "unlink_addr a [] = None"
| "unlink_addr a (r # rs) =
     (if r_addr r = a then Some (r, rs)
      else case unlink_addr a rs of None \<Rightarrow> None | Some (s, ss) \<Rightarrow> Some (s, r # ss))"

definition close_if :: "ptr \<Rightarrow> 'a bt_world_scheme \<Rightarrow> 'a bt_world_scheme option" where
  "close_if bt w = (if bt \<noteq> 0 then mut_backtrace_close bt w else Some w)"

definition mut_resources_really_delete_resource ::
  "ptr \<Rightarrow> mut_action_id \<Rightarrow> ptr \<Rightarrow> 'a res_world_scheme \<Rightarrow> 'a res_world_scheme option" where
  "mut_resources_really_delete_resource obj consumer bt w = do {
     ob \<leftarrow> res_get obj w;
     let addr = r_addr ob;
     assert_c (consumer_action ob = None);
     assert_c (0 < n_active_elems (resources w));
     (r, rest) \<leftarrow> unlink_addr addr (elems (resources w));
     let w = w\<lparr>resources := (resources w)\<lparr>elems := rest\<rparr>\<rparr>;
     w \<leftarrow> close_if (producer_backtrace r) w;
     w \<leftarrow> mut_mem__free (r_self r) 58 resources_file w;
     Some (w\<lparr>resources := (resources w)\<lparr>n_active_elems := n_active_elems (resources w) - 1\<rparr>\<rparr>)
   }"

definition mut_resources_mark_as_free ::
  "ptr \<Rightarrow> mut_action_id \<Rightarrow> ptr \<Rightarrow> 'a res_world_scheme \<Rightarrow> 'a res_world_scheme option" where
  "mut_resources_mark_as_free obj consumer bt w = do {
     ob \<leftarrow> res_get obj w;
     assert_c (consumer_action ob = None);
     assert_c (0 < n_active_elems (resources w));
     w \<leftarrow> res_set obj (\<lambda>r. r\<lparr>consumer_action := Some consumer\<rparr>) w;
     w \<leftarrow> (if bt \<noteq> 0 then do {
             (b, w) \<leftarrow> mut_backtrace_share bt w;
             res_set obj (\<lambda>r. r\<lparr>consumer_backtrace := b\<rparr>) w
           } else Some w);
     Some (w\<lparr>resources := (resources w)\<lparr>n_active_elems := n_active_elems (resources w) - 1,
                                        n_consumed_elems := n_consumed_elems (resources w) + 1\<rparr>\<rparr>)
   }"

definition mut_resources_delete_resource ::
  "ptr \<Rightarrow> mut_action_id \<Rightarrow> ptr \<Rightarrow> 'a res_world_scheme \<Rightarrow> 'a res_world_scheme option" where
  "mut_resources_delete_resource obj consumer bt w =
     (if really_free (resources w) then mut_resources_really_delete_resource obj consumer bt w
      else mut_resources_mark_as_free obj consumer bt w)"

definition mut_resources_open :: "bool \<Rightarrow> 'a res_world_scheme \<Rightarrow> 'a res_world_scheme" where
  "mut_resources_open rf w =
     w\<lparr>resources := \<lparr>elems = [], really_free = rf, n_active_elems = 0, n_consumed_elems = 0\<rparr>\<rparr>"

fun find_addr :: "u32 \<Rightarrow> mut_resource list \<Rightarrow> ptr" where
  "find_addr a [] = 0"
| "find_addr a (r # rs) = (if r_addr r = a then r_self r else find_addr a rs)"

definition mut_resources_create_resource ::
  "u32 \<Rightarrow> 'a res_world_scheme \<Rightarrow> (ptr \<times> 'a res_world_scheme) option" where
  "mut_resources_create_resource addr w =
     (let r = find_addr addr (elems (resources w))
      in if r \<noteq> 0 then Some (r, w)
         else do {
           (r, w) \<leftarrow> mut_mem__malloc sizeof_mut_resource 101 resources_file w;
           if r = 0 then do { w \<leftarrow> mut_log_mem_full (c_errno w) w; Some (0, w) }
           else Some (r, w\<lparr>resources := (resources w)\<lparr>
                  elems := \<lparr>r_self = r, r_addr = addr, r_size = None,
                            producer_action = None, producer_backtrace = 0,
                            consumer_action = None, consumer_backtrace = 0\<rparr> # elems (resources w),
                  n_active_elems := n_active_elems (resources w) + 1\<rparr>\<rparr>)
         })"

definition mut_resources_lookup :: "u32 \<Rightarrow> 'a res_world_scheme \<Rightarrow> ptr" where
  "mut_resources_lookup addr w = find_addr addr (elems (resources w))"

definition mut_resources_iter_open ::
  "bool \<Rightarrow> 'a res_world_scheme \<Rightarrow> u32 \<times> mut_resources_iter" where
  "mut_resources_iter_open al w =
     (n_active_elems (resources w) + (if al then n_consumed_elems (resources w) else 0),
      \<lparr>iter_elem = map r_self (elems (resources w)), iter_all = al\<rparr>)"

fun iter_next :: "bool \<Rightarrow> ptr list \<Rightarrow> 'a res_world_scheme \<Rightarrow> (ptr \<times> ptr list) option" where
  "iter_next al [] w = Some (0, [])"
| "iter_next al (p # ps) w = do {
     item \<leftarrow> res_get p w;
     if \<not> al \<and> consumer_action item \<noteq> None then iter_next al ps w else Some (p, ps)
   }"

definition mut_resources_iter_read ::
  "mut_resources_iter \<Rightarrow> 'a res_world_scheme \<Rightarrow> (ptr \<times> mut_resources_iter) option" where
  "mut_resources_iter_read iter w = do {
     (item, rest) \<leftarrow> iter_next (iter_all iter) (iter_elem iter) w;
     Some (item, iter\<lparr>iter_elem := rest\<rparr>)
   }"

definition mut_resources_iter_close :: "mut_resources_iter \<Rightarrow> mut_resources_iter" where
  "mut_resources_iter_close iter = iter\<lparr>iter_elem := []\<rparr>"

fun close_nodes :: "mut_resource list \<Rightarrow> 'a res_world_scheme \<Rightarrow> 'a res_world_scheme option" where
  "close_nodes [] w = Some w"
| "close_nodes (r # rs) w = do {
     w \<leftarrow> close_if (producer_backtrace r) w;
     w \<leftarrow> close_if (consumer_backtrace r) w;
     w \<leftarrow> mut_mem__free (r_self r) 179 resources_file w;
     close_nodes rs w
   }"

definition mut_resources_close :: "'a res_world_scheme \<Rightarrow> 'a res_world_scheme option" where
  "mut_resources_close w = close_nodes (elems (resources w)) w"


section \<open>Lists of nodes\<close>

lemma node_at_Some: "node_at p rs = Some r \<Longrightarrow> r \<in> set rs \<and> r_self r = p"
  by (induction rs) (auto split: if_splits)

lemma node_at_None: "node_at p rs = None \<longleftrightarrow> p \<notin> r_self ` set rs"
  by (induction rs) auto

lemma node_at_self: "distinct (map r_self rs) \<Longrightarrow> r \<in> set rs \<Longrightarrow> node_at (r_self r) rs = Some r"
  by (induction rs) auto

lemma unlink_addr_Some:
  "unlink_addr a rs = Some (r, ss) \<Longrightarrow> \<exists>xs ys. rs = xs @ r # ys \<and> ss = xs @ ys \<and> r_addr r = a"
proof (induction rs arbitrary: ss)
  case Nil
  then show ?case by simp
next
  case (Cons x rs)
  show ?case
  proof (cases "r_addr x = a")
    case True
    with Cons.prems show ?thesis by (intro exI [of _ "[]"] exI [of _ ss]) auto
  next
    case False
    with Cons.prems obtain ts where ts: "unlink_addr a rs = Some (r, ts)" "ss = x # ts"
      by (auto split: option.splits)
    from Cons.IH [OF ts(1)] obtain xs ys where "rs = xs @ r # ys" "ts = xs @ ys" "r_addr r = a" by blast
    with ts show ?thesis by (intro exI [of _ "x # xs"] exI [of _ ys]) auto
  qed
qed

lemma unlink_addr_None: "unlink_addr a rs = None \<longleftrightarrow> a \<notin> r_addr ` set rs"
  by (induction rs) (auto split: option.splits)

lemma find_addr_0: "0 \<notin> r_self ` set rs \<Longrightarrow> find_addr a rs = 0 \<longleftrightarrow> a \<notin> r_addr ` set rs"
  by (induction rs) auto

lemma find_addr_found:
  "distinct (map r_addr rs) \<Longrightarrow> r \<in> set rs \<Longrightarrow> find_addr (r_addr r) rs = r_self r"
  by (induction rs) auto

lemma node_split:
  assumes "distinct (map r_self rs)" and "node_at p rs = Some r"
  shows "\<exists>xs ys. rs = xs @ r # ys \<and> r_self r = p \<and>
    (\<forall>g. map (\<lambda>r. if r_self r = p then g r else r) rs = xs @ g r # ys)"
proof -
  have r: "r \<in> set rs" "r_self r = p" using node_at_Some [OF assms(2)] by auto
  then obtain xs ys where s: "rs = xs @ r # ys" by (meson split_list)
  have out: "p \<notin> r_self ` set xs" "p \<notin> r_self ` set ys" using assms(1) s r by auto
  have "map (\<lambda>r. if r_self r = p then g r else r) xs = xs" for g
    using out(1) by (induction xs) auto
  moreover have "map (\<lambda>r. if r_self r = p then g r else r) ys = ys" for g
    using out(2) by (induction ys) auto
  ultimately show ?thesis using s r by auto
qed

section \<open>References to backtraces\<close>

definition uses1 :: "mut_resource \<Rightarrow> ptr \<Rightarrow> nat" where
  "uses1 r p = of_bool (producer_backtrace r = p) + of_bool (consumer_backtrace r = p)"

definition bt_uses :: "mut_resource list \<Rightarrow> ptr \<Rightarrow> nat" where
  "bt_uses rs p = sum_list (map (\<lambda>r. uses1 r p) rs)"

lemma bt_uses_simps [simp]:
  "bt_uses [] p = 0"
  "bt_uses (r # rs) p = uses1 r p + bt_uses rs p"
  "bt_uses (rs @ ss) p = bt_uses rs p + bt_uses ss p"
  by (simp_all add: bt_uses_def)

definition bt_refs :: "'a bt_world_scheme \<Rightarrow> ptr \<Rightarrow> nat" where
  "bt_refs w p = (case bts w p of None \<Rightarrow> 0 | Some b \<Rightarrow> unat (ref_count b))"

text \<open>The blocks in use that are not backtraces.\<close>

definition plain_blocks :: "'a bt_world_scheme \<Rightarrow> ptr set" where
  "plain_blocks w = mem_in_use w - dom (bts w)"

definition refs_ok :: "'a bt_world_scheme \<Rightarrow> bool" where
  "refs_ok w \<longleftrightarrow> bts_ok w \<and> (\<forall>p b. bts w p = Some b \<longrightarrow> ref_count b \<noteq> 0)"

lemma bt_refs_pos: "refs_ok w \<Longrightarrow> 0 < bt_refs w p \<longleftrightarrow> p \<in> dom (bts w)"
  by (auto simp: refs_ok_def bt_refs_def unat_gt_0 split: option.splits)

text \<open>What may change besides the log and the allocator.\<close>

definition bt_only :: "'a bt_world_scheme \<Rightarrow> 'a bt_world_scheme \<Rightarrow> bool" where
  "bt_only w w' \<longleftrightarrow>
     w' = w\<lparr>c_heap := c_heap w', c_errno := c_errno w', c_out := c_out w', store := store w',
            the_log := the_log w', bts := bts w'\<rparr>"

lemma bt_onlyE:
  assumes "bt_only w w'"
  obtains h e out s l b where
    "w' = w\<lparr>c_heap := h, c_errno := e, c_out := out, store := s, the_log := l, bts := b\<rparr>"
  using assms unfolding bt_only_def by blast

lemma bt_only_refl [simp]: "bt_only w w"
  by (simp add: bt_only_def)

lemma bt_only_update [simp]: "bt_only w (w\<lparr>bts := b\<rparr>)"
  by (simp add: bt_only_def)

lemma bt_only_trans: "bt_only u v \<Longrightarrow> bt_only v w \<Longrightarrow> bt_only u w"
  by (cases u; cases v; cases w) (simp add: bt_only_def)

lemma log_only_bt_only: "log_only w (w' :: 'a bt_world_scheme) \<Longrightarrow> bt_only w w'"
  by (cases w; cases w') (simp add: log_only_def bt_only_def)

lemma mem_only_bt_only: "mem_only w (w' :: 'a bt_world_scheme) \<Longrightarrow> bt_only w w'"
  by (rule log_only_bt_only [OF mem_only_log_only])

lemma io_only_bt_only: "io_only w (w' :: 'a bt_world_scheme) \<Longrightarrow> bt_only w w'"
  by (rule log_only_bt_only [OF io_only_log_only])

lemma bt_only_res: "bt_only w w' \<Longrightarrow> resources (w' :: 'a res_world_scheme) = resources w"
  by (erule bt_onlyE) simp

lemma mut_backtrace_open_only [frame]:
  assumes "mut_backtrace_open w = Some (p, w')"
  shows "bt_only w w'"
proof -
  obtain q v where m: "mut_mem__malloc sizeof_mut_backtrace 21 backtrace_file w = Some (q, v)"
    and r: "(if q = 0 then do { w \<leftarrow> mut_log_mem_full (c_errno v) v; Some (0, w) }
      else Some (q, v\<lparr>bts := (bts v)(q \<mapsto> \<lparr>ref_count = 1, frames = []\<rparr>)\<rparr>)) = Some (p, w')"
    using assms by (auto simp: mut_backtrace_open_def split: bind_splits)
  have "bt_only v w'"
    using r by (auto split: if_splits bind_splits dest!: mut_io_only io_only_bt_only)
  with mem_only_bt_only [OF mem_only_malloc [OF m]] show ?thesis by (rule bt_only_trans)
qed

lemma mut_backtrace_close_only [frame]:
  assumes "mut_backtrace_close p w = Some w'"
  shows "bt_only w w'"
proof -
  obtain b where b: "bts w p = Some b" "p \<noteq> 0" "ref_count b \<noteq> 0"
    using assms by (auto simp: mut_backtrace_close_def split: bind_splits)
  let ?v = "w\<lparr>bts := (bts w)(p \<mapsto> b\<lparr>ref_count := ref_count b - 1\<rparr>)\<rparr>"
  have "bt_only ?v w'"
  proof (cases "ref_count b - 1 = 0")
    case True
    with assms b obtain u where "mut_mem__free p 92 backtrace_file ?v = Some u" "w' = u\<lparr>bts := (bts u)(p := None)\<rparr>"
      by (auto simp: mut_backtrace_close_def Let_def split: bind_splits)
    then show ?thesis using bt_only_trans [OF mem_only_bt_only [OF mem_only_free] bt_only_update] by metis
  next
    case False
    with assms b show ?thesis by (simp add: mut_backtrace_close_def Let_def)
  qed
  with bt_only_update show ?thesis by (rule bt_only_trans)
qed

lemma close_if_only [frame]: "close_if p w = Some w' \<Longrightarrow> bt_only w w'"
  by (auto simp: close_if_def intro: mut_backtrace_close_only split: if_splits)

text \<open>Closing a reference.\<close>

lemma close_if_result:
  assumes ok: "refs_ok w" and ref: "bt \<noteq> 0 \<Longrightarrow> 0 < bt_refs w bt"
  shows "\<exists>w'. close_if bt w = Some w' \<and> refs_ok w' \<and> plain_blocks w' = plain_blocks w \<and>
     bt_refs w' = (\<lambda>p. bt_refs w p - of_bool (p = bt)) \<and> bt_only w w'"
proof (cases "bt = 0")
  case True
  have "bts w 0 = None" using ok bts_ok_not_null by (auto simp: refs_ok_def)
  then have "bt_refs w 0 = 0" by (simp add: bt_refs_def)
  with True ok show ?thesis by (auto simp: close_if_def fun_eq_iff)
next
  case False
  then have "bt \<in> dom (bts w)" using ref bt_refs_pos [OF ok] by simp
  then obtain b where b: "bts w bt = Some b" "ref_count b \<noteq> 0"
    using ok by (auto simp: refs_ok_def)
  obtain w' where w': "mut_backtrace_close bt w = Some w'" "bts_ok w'"
     "if ref_count b = 1 then bts w' = (bts w)(bt := None) \<and> mem_in_use w' = mem_in_use w - {bt}
      else bts w' = (bts w)(bt \<mapsto> b\<lparr>ref_count := ref_count b - 1\<rparr>) \<and> mem_in_use w' = mem_in_use w"
    using mut_backtrace_close_result [OF _ b] ok by (auto simp: refs_ok_def)
  have "refs_ok w'" using ok w' by (auto simp: refs_ok_def split: if_splits)
  moreover have "plain_blocks w' = plain_blocks w"
    using w'(3) b(1) by (auto simp: plain_blocks_def split: if_splits)
  moreover have "bt_refs w' p = bt_refs w p - of_bool (p = bt)" for p
    using w'(3) b by (auto simp: bt_refs_def unat_minus_one split: if_splits)
  ultimately show ?thesis
    using w'(1) False mut_backtrace_close_only [OF w'(1)] by (auto simp: close_if_def fun_eq_iff)
qed

section \<open>The invariant\<close>

text \<open>
  \<open>E p\<close> is the number of references to the backtrace \<open>p\<close> that are held outside the map: every
  backtrace is referenced as often as its count says.
\<close>

definition res_inv :: "(ptr \<Rightarrow> nat) \<Rightarrow> 'a res_world_scheme \<Rightarrow> bool" where
  "res_inv E w \<longleftrightarrow>
     refs_ok w \<and>
     distinct (map r_self (elems (resources w))) \<and> distinct (map r_addr (elems (resources w))) \<and>
     r_self ` set (elems (resources w)) \<subseteq> plain_blocks w \<and>
     n_active_elems (resources w) = of_nat (length (filter (\<lambda>r. consumer_action r = None) (elems (resources w)))) \<and>
     n_consumed_elems (resources w) = of_nat (length (filter (\<lambda>r. consumer_action r \<noteq> None) (elems (resources w)))) \<and>
     (\<forall>r \<in> set (elems (resources w)). consumer_action r = None \<longrightarrow> consumer_backtrace r = 0) \<and>
     (\<forall>p. p \<noteq> 0 \<longrightarrow> bt_refs w p = bt_uses (elems (resources w)) p + E p)"

text \<open>The abstract view: addresses to their nodes.\<close>

definition res_entry :: "'a res_world_scheme \<Rightarrow> u32 \<Rightarrow> mut_resource option" where
  "res_entry w a = map_of (map (\<lambda>r. (r_addr r, r)) (elems (resources w))) a"

lemma res_entry_Some: "res_entry w a = Some r \<Longrightarrow> r \<in> set (elems (resources w)) \<and> r_addr r = a"
  by (auto simp: res_entry_def dest!: map_of_SomeD)

lemma res_entry_iff:
  "distinct (map r_addr (elems (resources w))) \<Longrightarrow>
   res_entry w a = Some r \<longleftrightarrow> r \<in> set (elems (resources w)) \<and> r_addr r = a"
  by (auto simp: res_entry_def map_of_eq_Some_iff comp_def)

lemma res_entry_None: "res_entry w a = None \<longleftrightarrow> a \<notin> r_addr ` set (elems (resources w))"
  by (auto simp: res_entry_def map_of_eq_None_iff image_image)

lemma res_inv_not_null: "res_inv E w \<Longrightarrow> 0 \<notin> r_self ` set (elems (resources w))"
  using mem_in_use_not_null [of w 0]
  by (auto simp: res_inv_def refs_ok_def bts_ok_def plain_blocks_def)

lemma length_u32:
  assumes "distinct (xs :: u32 list)"
  shows "length xs \<le> 2 ^ 32"
proof -
  have "length xs = card (set xs)" using assms by (simp add: distinct_card)
  also have "\<dots> \<le> card (UNIV :: u32 set)" by (intro card_mono) auto
  finally show ?thesis by (simp add: card_word)
qed

lemma res_inv_length: "res_inv E w \<Longrightarrow> length (elems (resources w)) < 2 ^ 32"
proof -
  assume inv: "res_inv E w"
  have "distinct (0 # map r_self (elems (resources w)))"
    using inv res_inv_not_null [OF inv] by (auto simp: res_inv_def)
  from length_u32 [OF this] show ?thesis by simp
qed

lemma mut_resources_lookup_spec:
  assumes "res_inv E w"
  shows "mut_resources_lookup a w = (case res_entry w a of None \<Rightarrow> 0 | Some r \<Rightarrow> r_self r)"
proof (cases "res_entry w a")
  case None
  then show ?thesis
    using find_addr_0 [OF res_inv_not_null [OF assms], of a] res_entry_None [of w a]
    by (simp add: mut_resources_lookup_def)
next
  case (Some r)
  have "distinct (map r_addr (elems (resources w)))" using assms by (simp add: res_inv_def)
  from find_addr_found [OF this] res_entry_Some [OF Some] Some show ?thesis
    by (auto simp: mut_resources_lookup_def)
qed

lemma res_get_iff:
  assumes "res_inv E w"
  shows "res_get p w = Some r \<longleftrightarrow> r \<in> set (elems (resources w)) \<and> r_self r = p"
  using assms node_at_self node_at_Some by (fastforce simp: res_get_def res_inv_def)


section \<open>The operations keep the invariant\<close>

lemma res_world_update [simp]:
  "bts_ok (w\<lparr>resources := rs\<rparr>) = bts_ok w"
  "refs_ok (w\<lparr>resources := rs\<rparr>) = refs_ok w"
  "plain_blocks (w\<lparr>resources := rs\<rparr>) = plain_blocks w"
  "bt_refs (w\<lparr>resources := rs\<rparr>) = bt_refs w"
  by (simp_all add: bts_ok_def refs_ok_def plain_blocks_def bt_refs_def fun_eq_iff mem_wf_def mem_in_use_def
      malloc_fresh_def)

lemma refs_io: "io_only w w' \<Longrightarrow>
  refs_ok (w' :: 'a bt_world_scheme) = refs_ok w \<and> plain_blocks w' = plain_blocks w \<and> bt_refs w' = bt_refs w"
  using io_only_mem [of w w'] bt_world_same(2) [of w w'] bts_ok_io [of w w']
  by (auto simp: refs_ok_def plain_blocks_def bt_refs_def)

lemma res_inv_io:
  assumes "io_only w (w' :: 'a res_world_scheme)"
  shows "res_inv E w' = res_inv E w"
  using refs_io [OF assms] bt_only_res [OF io_only_bt_only [OF assms]] by (simp add: res_inv_def)

lemma malloc_refs:
  assumes ok: "refs_ok w" and m: "mut_mem__malloc n ln f w = Some (p, w')"
  shows "refs_ok w' \<and> bt_refs w' = bt_refs w \<and>
    (if p = 0 then plain_blocks w' = plain_blocks w
     else p \<notin> mem_in_use w \<and> plain_blocks w' = insert p (plain_blocks w))"
proof -
  have wf: "mem_wf w" and dom: "dom (bts w) \<subseteq> mem_in_use w" using ok by (auto simp: refs_ok_def bts_ok_def)
  have same: "bts w' = bts w" using bt_world_same(1) [OF mem_only_malloc [OF m]] by simp
  have "mem_wf w'" using mut_mem__malloc_wf [OF wf m] .
  then show ?thesis
    using mut_mem__malloc_result [OF wf m] same dom ok
    by (auto simp: refs_ok_def bts_ok_def bt_refs_def plain_blocks_def split: if_splits)
qed

lemma free_refs:
  assumes ok: "refs_ok w" and p: "p \<in> plain_blocks w"
  shows "\<exists>w'. mut_mem__free p l f w = Some w' \<and> refs_ok w' \<and> bt_refs w' = bt_refs w \<and>
     plain_blocks w' = plain_blocks w - {p} \<and> bt_only w w'"
proof -
  have wf: "mem_wf w" "p \<in> mem_in_use w" using ok p by (auto simp: refs_ok_def bts_ok_def plain_blocks_def)
  obtain w' where w': "mut_mem__free p l f w = Some w'" "mem_wf w'" "mem_in_use w' = mem_in_use w - {p}"
    using mut_mem.release_owned [OF wf, of "(l, f)"] by (auto simp: mem_free_at_def)
  have "bts w' = bts w" using bt_world_same(1) [OF mem_only_free [OF w'(1)]] by simp
  then show ?thesis
    using w' ok p mem_only_bt_only [OF mem_only_free [OF w'(1)]]
    by (auto simp: refs_ok_def bts_ok_def bt_refs_def plain_blocks_def)
qed

lemma mut_resources_open_inv:
  "refs_ok w \<Longrightarrow> (\<And>p. p \<noteq> 0 \<Longrightarrow> bt_refs w p = E p) \<Longrightarrow> res_inv E (mut_resources_open rf w)"
  by (simp add: res_inv_def mut_resources_open_def)

text \<open>The blocks of the other components: neither backtraces nor nodes.\<close>

definition foreign :: "'a res_world_scheme \<Rightarrow> ptr set" where
  "foreign w = plain_blocks w - r_self ` set (elems (resources w))"

text \<open>Creation: an existing node is returned, a new one is put in front.\<close>

definition new_resource :: "ptr \<Rightarrow> u32 \<Rightarrow> mut_resource" where
  "new_resource p a = \<lparr>r_self = p, r_addr = a, r_size = None, producer_action = None, producer_backtrace = 0,
     consumer_action = None, consumer_backtrace = 0\<rparr>"

lemma mut_resources_create_result:
  assumes inv: "res_inv E w" and run: "mut_resources_create_resource a w = Some (p, w')"
  shows "res_inv E w' \<and> bt_refs w' = bt_refs w \<and> really_free (resources w') = really_free (resources w) \<and>
    foreign w' = foreign w \<and>
    (case res_entry w a of
       Some r \<Rightarrow> p = r_self r \<and> w' = w
     | None \<Rightarrow> if p = 0 then resources w' = resources w
               else elems (resources w') = new_resource p a # elems (resources w))"
proof (cases "res_entry w a")
  case (Some r)
  then have "find_addr a (elems (resources w)) = r_self r"
    using mut_resources_lookup_spec [OF inv, of a] by (simp add: mut_resources_lookup_def)
  moreover have "r_self r \<noteq> 0" using res_inv_not_null [OF inv] res_entry_Some [OF Some] by force
  ultimately show ?thesis
    using run inv Some by (simp add: mut_resources_create_resource_def)
next
  case None
  have f: "find_addr a (elems (resources w)) = 0"
    using mut_resources_lookup_spec [OF inv, of a] None by (simp add: mut_resources_lookup_def)
  then obtain q v where m: "mut_mem__malloc sizeof_mut_resource 101 resources_file w = Some (q, v)"
    using run by (auto simp: mut_resources_create_resource_def Let_def split: bind_splits)
  have ok: "refs_ok w" using inv by (simp add: res_inv_def)
  note mr = malloc_refs [OF ok m]
  have same: "resources v = resources w" using bt_only_res [OF mem_only_bt_only [OF mem_only_malloc [OF m]]] .
  show ?thesis
  proof (cases "q = 0")
    case True
    with run f m have "mut_log_mem_full (c_errno v) v = Some w'" and p: "p = 0"
      by (auto simp: mut_resources_create_resource_def Let_def split: bind_splits)
    then have io: "io_only v w'" by (intro mut_io_only)
    have "res_inv E v" using inv mr True same by (simp add: res_inv_def)
    then show ?thesis
      using res_inv_io [OF io] refs_io [OF io] bt_only_res [OF io_only_bt_only [OF io]] mr same None p True
      by (simp add: foreign_def)
  next
    case False
    with run f m have p: "p = q" and w': "w' = v\<lparr>resources := (resources v)\<lparr>
         elems := new_resource q a # elems (resources v),
         n_active_elems := n_active_elems (resources v) + 1\<rparr>\<rparr>"
      by (auto simp: mut_resources_create_resource_def Let_def new_resource_def)
    have fresh: "q \<notin> plain_blocks w" "plain_blocks v = insert q (plain_blocks w)"
      using mr False by (auto simp: plain_blocks_def)
    have "a \<notin> r_addr ` set (elems (resources w))" using None by (simp add: res_entry_None)
    moreover have "q \<notin> r_self ` set (elems (resources w))" using fresh(1) inv by (auto simp: res_inv_def)
    ultimately have "res_inv E w'"
      using inv mr fresh same False unfolding w' by (auto simp: res_inv_def new_resource_def uses1_def)
    moreover have "foreign w' = foreign w" using fresh same by (auto simp: foreign_def w' new_resource_def)
    ultimately show ?thesis using None p w' same mr False by simp
  qed
qed

lemma mut_resources_create_returns:
  assumes "res_inv E w" and "log_idle w"
  shows "\<exists>p w'. mut_resources_create_resource a w = Some (p, w')"
proof -
  have "mem_wf w" using assms(1) by (simp add: res_inv_def refs_ok_def bts_ok_def)
  then obtain p v where m: "mut_mem__malloc sizeof_mut_resource 101 resources_file w = Some (p, v)"
    using mut_mem.alloc_returns [of w "(101, resources_file)" sizeof_mut_resource] by (auto simp: mem_alloc_at_def)
  have "the_log v = the_log w" by (rule mem_onlyE [OF mem_only_malloc [OF m]]) simp
  then have "log_idle v" using assms(2) by (simp add: log_idle_def)
  then have "\<exists>x. mut_log_mem_full (c_errno v) v = Some x"
    by (simp add: mut_log_mem_full_def log_idle_def)
  with m show ?thesis by (auto simp: mut_resources_create_resource_def Let_def)
qed

text \<open>An assignment to a node that keeps its identity.\<close>

lemma res_set_split:
  assumes inv: "res_inv E w" and get: "res_get p w = Some r"
  shows "\<exists>xs ys. elems (resources w) = xs @ r # ys \<and> r_self r = p \<and>
    (\<forall>g. res_set p g w = Some (w\<lparr>resources := (resources w)\<lparr>elems := xs @ g r # ys\<rparr>\<rparr>))"
proof -
  have "distinct (map r_self (elems (resources w)))" using inv by (simp add: res_inv_def)
  from node_split [OF this get [unfolded res_get_def]] get show ?thesis
    unfolding res_set_def by fastforce
qed

lemma mut_resource_make_producer_result:
  assumes inv: "res_inv E w" and get: "res_get p w = Some r" and new: "producer_backtrace r = 0"
    and own: "bt \<noteq> 0 \<Longrightarrow> 0 < E bt"
  shows "\<exists>w'. mut_resource_make_producer p act n bt w = Some w' \<and>
     res_inv (\<lambda>q. E q - of_bool (q = bt \<and> bt \<noteq> 0)) w' \<and> bt_refs w' = bt_refs w \<and>
     res_entry w' = (res_entry w)(r_addr r \<mapsto>
       r\<lparr>producer_action := Some act, producer_backtrace := bt, r_size := Some n\<rparr>) \<and> bts w' = bts w \<and>
     foreign w' = foreign w"
proof -
  let ?g = "\<lambda>r. r\<lparr>producer_action := Some act, producer_backtrace := bt, r_size := Some n\<rparr>"
  obtain xs ys where s: "elems (resources w) = xs @ r # ys" "r_self r = p"
    and set: "res_set p ?g w = Some (w\<lparr>resources := (resources w)\<lparr>elems := xs @ ?g r # ys\<rparr>\<rparr>)"
    using res_set_split [OF inv get] by blast
  let ?w = "w\<lparr>resources := (resources w)\<lparr>elems := xs @ ?g r # ys\<rparr>\<rparr>"
  have refs: "bt_refs w q = bt_uses (xs @ ?g r # ys) q + (E q - of_bool (q = bt \<and> bt \<noteq> 0))" if "q \<noteq> 0" for q
  proof -
    have "bt_refs w q = bt_uses (xs @ r # ys) q + E q" using inv that s(1) by (simp add: res_inv_def)
    then show ?thesis using own that new by (auto simp: uses1_def)
  qed
  have "res_inv (\<lambda>q. E q - of_bool (q = bt \<and> bt \<noteq> 0)) ?w"
    using inv s refs by (simp add: res_inv_def)
  moreover have "res_entry ?w = (res_entry w)(r_addr r \<mapsto> ?g r)"
  proof
    fix a
    have "distinct (map r_addr (xs @ r # ys))" using inv s(1) by (simp add: res_inv_def)
    then have "r_addr r \<notin> r_addr ` set xs" by auto
    then have "map_of (map (\<lambda>r. (r_addr r, r)) xs) (r_addr r) = None"
      by (auto simp: map_of_eq_None_iff)
    then show "res_entry ?w a = ((res_entry w)(r_addr r \<mapsto> ?g r)) a"
      using s(1) by (simp add: res_entry_def map_add_def split: option.splits)
  qed
  moreover have "foreign ?w = foreign w" using s(1) by (simp add: foreign_def)
  ultimately show ?thesis using set by (simp add: mut_resource_make_producer_def)
qed


lemma res_entry_assign:
  assumes "distinct (map r_addr (elems (resources w)))" and "elems (resources w) = xs @ r # ys"
    and "elems (resources w') = xs @ r' # ys" and "r_addr r' = r_addr r"
  shows "res_entry w' = (res_entry w)(r_addr r \<mapsto> r')"
proof
  fix a
  have "r_addr r \<notin> r_addr ` set xs" using assms(1,2) by auto
  then have "map_of (map (\<lambda>r. (r_addr r, r)) xs) (r_addr r) = None"
    by (auto simp: map_of_eq_None_iff)
  then show "res_entry w' a = ((res_entry w)(r_addr r \<mapsto> r')) a"
    using assms(2-4) by (simp add: res_entry_def map_add_def split: option.splits)
qed

lemma res_entry_remove:
  assumes "distinct (map r_addr (elems (resources w)))" and "elems (resources w) = xs @ r # ys"
    and "elems (resources w') = xs @ ys"
  shows "res_entry w' = (res_entry w)(r_addr r := None)"
proof
  fix a
  have "r_addr r \<notin> r_addr ` set (xs @ ys)" using assms(1,2) by auto
  then have "map_of (map (\<lambda>r. (r_addr r, r)) (xs @ ys)) (r_addr r) = None"
    by (auto simp only: map_of_eq_None_iff)  (auto simp: image_image)
  then show "res_entry w' a = ((res_entry w)(r_addr r := None)) a"
    using assms(2,3) by (auto simp: res_entry_def map_add_def split: option.splits)
qed

lemma res_set_exact:
  assumes "elems (resources w) = xs @ r # ys" and "r_self r = p" and "p \<notin> r_self ` set xs" and "p \<notin> r_self ` set ys"
  shows "res_set p g w = Some (w\<lparr>resources := (resources w)\<lparr>elems := xs @ g r # ys\<rparr>\<rparr>)"
proof -
  have "map (\<lambda>r. if r_self r = p then g r else r) xs = xs"
    using assms(3) by (induction xs) auto
  moreover have "map (\<lambda>r. if r_self r = p then g r else r) ys = ys"
    using assms(4) by (induction ys) auto
  moreover have "node_at p (xs @ r # ys) \<noteq> None" using assms(2) by (subst node_at_None) auto
  ultimately show ?thesis using assms(1,2) by (auto simp: res_set_def res_get_def)
qed

lemma res_inv_split:
  assumes inv: "res_inv E w" and get: "res_get p w = Some r"
  obtains xs ys where "elems (resources w) = xs @ r # ys" and "r_self r = p"
    and "p \<notin> r_self ` set xs" and "p \<notin> r_self ` set ys"
    and "r_addr r \<notin> r_addr ` set xs" and "r_addr r \<notin> r_addr ` set ys"
proof -
  have r: "r \<in> set (elems (resources w))" "r_self r = p" using res_get_iff [OF inv] get by auto
  then obtain xs ys where s: "elems (resources w) = xs @ r # ys" by (meson split_list)
  have "distinct (map r_self (xs @ r # ys))" "distinct (map r_addr (xs @ r # ys))"
    using inv s by (simp_all add: res_inv_def)
  with s r show thesis using that by auto
qed

lemma res_inv_active_pos:
  assumes inv: "res_inv E w" and "r \<in> set (elems (resources w))" and "consumer_action r = None"
  shows "0 < n_active_elems (resources w)"
proof -
  let ?n = "length (filter (\<lambda>r. consumer_action r = None) (elems (resources w)))"
  have "r \<in> set (filter (\<lambda>r. consumer_action r = None) (elems (resources w)))" using assms by simp
  then have pos: "0 < ?n" by (metis length_pos_if_in_set)
  have "?n \<le> length (elems (resources w))" by simp
  with res_inv_length [OF inv] have small: "?n < 2 ^ 32" by linarith
  then have "unat (of_nat ?n :: u32) = ?n" by (simp add: unat_of_nat take_bit_nat_eq_self_iff)
  with pos have "(of_nat ?n :: u32) \<noteq> 0" by (metis less_numeral_extra(3) unat_0)
  then show ?thesis using inv by (simp add: res_inv_def word_neq_0_conv)
qed

lemma mut_resources_really_delete_result:
  assumes inv: "res_inv E w" and get: "res_get p w = Some r" and act: "consumer_action r = None"
  shows "\<exists>w'. mut_resources_really_delete_resource p c bt w = Some w' \<and> res_inv E w' \<and>
     res_entry w' = (res_entry w)(r_addr r := None) \<and>
     bt_refs w' = (\<lambda>q. bt_refs w q - of_bool (q = producer_backtrace r)) \<and> foreign w' = foreign w"
proof -
  obtain xs ys where s: "elems (resources w) = xs @ r # ys" "r_self r = p"
    and out: "p \<notin> r_self ` set xs" "p \<notin> r_self ` set ys" "r_addr r \<notin> r_addr ` set xs" "r_addr r \<notin> r_addr ` set ys"
    using res_inv_split [OF inv get] by blast
  have pos: "0 < n_active_elems (resources w)"
    using res_inv_active_pos [OF inv, of r] s act by simp
  have un: "unlink_addr (r_addr r) (xs @ r # ys) = Some (r, xs @ ys)"
    using out(3) by (induction xs) auto
  let ?b = "producer_backtrace r"
  let ?v = "w\<lparr>resources := (resources w)\<lparr>elems := xs @ ys\<rparr>\<rparr>"
  have ok: "refs_ok ?v" using inv by (simp add: res_inv_def)
  have "?b \<noteq> 0 \<Longrightarrow> 0 < bt_refs ?v ?b" using inv s by (simp add: res_inv_def uses1_def)
  from close_if_result [OF ok this] obtain u where u: "close_if ?b ?v = Some u" "refs_ok u"
      "plain_blocks u = plain_blocks w" "bt_refs u = (\<lambda>q. bt_refs w q - of_bool (q = ?b))" "bt_only ?v u"
    by auto
  have "p \<in> plain_blocks u" using u(3) inv s by (auto simp: res_inv_def)
  from free_refs [OF u(2) this] obtain x where x: "mut_mem__free p 58 resources_file u = Some x" "refs_ok x"
      "bt_refs x = bt_refs u" "plain_blocks x = plain_blocks u - {p}" "bt_only u x"
    by blast
  have same: "resources x = resources ?v" using bt_only_res [OF u(5)] bt_only_res [OF x(5)] by simp
  let ?w = "x\<lparr>resources := (resources x)\<lparr>n_active_elems := n_active_elems (resources x) - 1\<rparr>\<rparr>"
  have run: "mut_resources_really_delete_resource p c bt w = Some ?w"
    using get act pos s un u(1) x(1) by (simp add: mut_resources_really_delete_resource_def Let_def)
  have refs: "bt_refs x q = bt_uses (xs @ ys) q + E q" if "q \<noteq> 0" for q
  proof -
    have "bt_refs w q = bt_uses (xs @ r # ys) q + E q" using inv s that by (simp add: res_inv_def)
    moreover have "consumer_backtrace r = 0" using inv s act by (simp add: res_inv_def)
    ultimately show ?thesis using that x(3) u(4) by (simp add: uses1_def)
  qed
  have "r_self ` set (xs @ ys) \<subseteq> plain_blocks x"
  proof -
    have "r_self ` set (xs @ r # ys) \<subseteq> plain_blocks w" using inv s(1) by (simp add: res_inv_def)
    then have "r_self ` set xs \<union> r_self ` set ys \<subseteq> plain_blocks w" by (auto simp: image_Un)
    then show ?thesis using out(1,2) unfolding x(4) u(3) set_append image_Un by blast
  qed
  then have "res_inv E ?w"
    using inv s act same x(2) refs by (simp add: res_inv_def)
  moreover have "res_entry ?w = (res_entry w)(r_addr r := None)"
    using inv s same by (intro res_entry_remove [of w xs r ys]) (simp_all add: res_inv_def)
  moreover have "foreign ?w = foreign w" using s out same by (auto simp: foreign_def x(4) u(3))
  ultimately show ?thesis using run x(3) u(4) by (auto simp: fun_eq_iff)
qed

lemma mut_resources_mark_result:
  assumes inv: "res_inv E w" and get: "res_get p w = Some r" and act: "consumer_action r = None"
    and bt: "bt \<noteq> 0 \<Longrightarrow> bt_refs w bt \<noteq> 0 \<and> bt_refs w bt + 1 < 2 ^ 32"
  shows "\<exists>w'. mut_resources_mark_as_free p c bt w = Some w' \<and> res_inv E w' \<and>
     res_entry w' = (res_entry w)(r_addr r \<mapsto> r\<lparr>consumer_action := Some c, consumer_backtrace := bt\<rparr>) \<and>
     bt_refs w' = (\<lambda>q. bt_refs w q + of_bool (q = bt \<and> bt \<noteq> 0)) \<and> foreign w' = foreign w"
proof -
  obtain xs ys where s: "elems (resources w) = xs @ r # ys" "r_self r = p"
    and out: "p \<notin> r_self ` set xs" "p \<notin> r_self ` set ys"
    using res_inv_split [OF inv get] by metis
  have pos: "0 < n_active_elems (resources w)" and cb: "consumer_backtrace r = 0"
    using res_inv_active_pos [OF inv, of r] inv s act by (simp_all add: res_inv_def)
  define r1 where "r1 = r\<lparr>consumer_action := Some c\<rparr>"
  define r2 where "r2 = r\<lparr>consumer_action := Some c, consumer_backtrace := bt\<rparr>"
  define v where "v = w\<lparr>resources := (resources w)\<lparr>elems := xs @ r1 # ys\<rparr>\<rparr>"
  have set1: "res_set p (\<lambda>r. r\<lparr>consumer_action := Some c\<rparr>) w = Some v"
    using res_set_exact [OF s out] by (simp add: v_def r1_def)
  have ok: "refs_ok v" "bt_refs v = bt_refs w" "plain_blocks v = plain_blocks w"
    using inv by (simp_all add: res_inv_def v_def)
  have "\<exists>x. (if bt \<noteq> 0 then do {
             (b, w) \<leftarrow> mut_backtrace_share bt v;
             res_set p (\<lambda>r. r\<lparr>consumer_backtrace := b\<rparr>) w
           } else Some v) = Some x \<and> refs_ok x \<and> plain_blocks x = plain_blocks w \<and>
         bt_refs x = (\<lambda>q. bt_refs w q + of_bool (q = bt \<and> bt \<noteq> 0)) \<and>
         resources x = (resources w)\<lparr>elems := xs @ r2 # ys\<rparr>"
  proof (cases "bt = 0")
    case True
    then have "r2 = r1" using cb by (simp add: r1_def r2_def)
    with True ok show ?thesis by (simp add: v_def)
  next
    case False
    moreover have "bts v = bts w" by (simp add: v_def)
    ultimately obtain b where b: "bts v bt = Some b" "unat (ref_count b) + 1 < 2 ^ 32"
      using bt by (auto simp: bt_refs_def split: option.splits)
    have inc: "unat (ref_count b + 1) = unat (ref_count b) + 1"
      using b(2) by (simp add: unat_word_ariths)
    obtain u where u: "mut_backtrace_share bt v = Some (bt, u)" "bts_ok u"
        "u = v\<lparr>bts := (bts v)(bt \<mapsto> b\<lparr>ref_count := ref_count b + 1\<rparr>)\<rparr>"
      using mut_backtrace_share_result [OF _ b(1)] ok(1) by (auto simp: refs_ok_def)
    have "elems (resources u) = xs @ r1 # ys" "r_self r1 = p" using s(2) by (simp_all add: u(3) v_def r1_def)
    from res_set_exact [OF this out, of "\<lambda>r. r\<lparr>consumer_backtrace := bt\<rparr>"]
    have set2: "res_set p (\<lambda>r. r\<lparr>consumer_backtrace := bt\<rparr>) u =
        Some (u\<lparr>resources := (resources u)\<lparr>elems := xs @ r2 # ys\<rparr>\<rparr>)" by (simp add: r1_def r2_def)
    have "refs_ok u" using ok(1) u(2) inc by (auto simp: u(3) refs_ok_def)
    moreover have "plain_blocks u = plain_blocks w" using ok(3) b(1) by (auto simp: u(3) plain_blocks_def)
    moreover have "bt_refs u q = bt_refs w q + of_bool (q = bt \<and> bt \<noteq> 0)" for q
    proof -
      have "bt_refs u q = bt_refs v q + of_bool (q = bt)" using b(1) inc by (simp add: u(3) bt_refs_def)
      then show ?thesis using False ok(2) by simp
    qed
    ultimately show ?thesis using False u(1) set2 by (auto simp: fun_eq_iff, simp add: u(3) v_def)
  qed
  then obtain x where x: "(if bt \<noteq> 0 then do {
             (b, w) \<leftarrow> mut_backtrace_share bt v;
             res_set p (\<lambda>r. r\<lparr>consumer_backtrace := b\<rparr>) w
           } else Some v) = Some x" "refs_ok x" "plain_blocks x = plain_blocks w"
         "bt_refs x = (\<lambda>q. bt_refs w q + of_bool (q = bt \<and> bt \<noteq> 0))"
         "resources x = (resources w)\<lparr>elems := xs @ r2 # ys\<rparr>" by blast
  let ?w = "x\<lparr>resources := (resources x)\<lparr>n_active_elems := n_active_elems (resources x) - 1,
                                        n_consumed_elems := n_consumed_elems (resources x) + 1\<rparr>\<rparr>"
  have run: "mut_resources_mark_as_free p c bt w = Some ?w"
    using get act pos set1 x(1) by (simp add: mut_resources_mark_as_free_def)
  have r2: "r_self r2 = r_self r" "r_addr r2 = r_addr r" "consumer_action r2 = Some c"
     "\<And>q. q \<noteq> 0 \<Longrightarrow> uses1 r2 q = uses1 r q + of_bool (q = bt \<and> bt \<noteq> 0)"
    using cb by (auto simp: r2_def uses1_def)
  have "res_inv E ?w"
    using inv s act x r2 by (simp add: res_inv_def)
  moreover have "res_entry ?w = (res_entry w)(r_addr r \<mapsto> r2)"
    using inv s x(5) r2(2) by (intro res_entry_assign [of w xs r ys]) (simp_all add: res_inv_def)
  moreover have "foreign ?w = foreign w" using s r2(1) x(3,5) by (simp add: foreign_def)
  ultimately show ?thesis using run x(4) by (auto simp: r2_def fun_eq_iff)
qed


section \<open>Iteration\<close>

lemma iter_next_shorter: "iter_next al ps w = Some (p, rest) \<Longrightarrow> p \<noteq> 0 \<Longrightarrow> length rest < length ps"
proof (induction al ps w rule: iter_next.induct)
  case (1 al w)
  then show ?case by simp
next
  case (2 al q ps w)
  obtain item where item: "res_get q w = Some item" using 2(2) by (auto split: bind_splits)
  show ?case
  proof (cases "\<not> al \<and> consumer_action item \<noteq> None")
    case True
    then have "length rest < length ps" using 2 item by auto
    then show ?thesis by simp
  next
    case False
    then show ?thesis using 2(2) item by auto
  qed
qed

text \<open>
  The loop of the clients: \<open>while ((r = mut_resources_iter_read(&iter)) != 0) body(r)\<close>. Every
  read shortens what is left, so it ends.
\<close>

function iter_loop ::
  "(ptr \<Rightarrow> 'a res_world_scheme \<Rightarrow> 'a res_world_scheme option) \<Rightarrow> mut_resources_iter \<Rightarrow>
   'a res_world_scheme \<Rightarrow> 'a res_world_scheme option" where
  "iter_loop body iter w = do {
     (r, iter') \<leftarrow> mut_resources_iter_read iter w;
     if r = 0 then Some w
     else do { w' \<leftarrow> body r w; iter_loop body iter' w' }
   }"
  by pat_completeness auto
termination
proof (relation "measure (\<lambda>(body, iter, w). length (iter_elem iter))", goal_cases)
  case 1
  show ?case by simp
next
  case (2 body iter w x r iter' w')
  then show ?case
    using iter_next_shorter [of "iter_all iter" "iter_elem iter" w r]
    by (auto simp: mut_resources_iter_read_def split: bind_splits)
qed

declare iter_loop.simps [simp del]

primrec each :: "('p \<Rightarrow> 'w \<Rightarrow> 'w option) \<Rightarrow> 'p list \<Rightarrow> 'w \<Rightarrow> 'w option" where
  "each f [] w = Some w"
| "each f (p # ps) w = do { w \<leftarrow> f p w; each f ps w }"

definition visited :: "bool \<Rightarrow> mut_resource list \<Rightarrow> ptr list" where
  "visited al rs = map r_self (filter (\<lambda>r. al \<or> consumer_action r = None) rs)"

lemma iter_next_spec:
  assumes "set rs \<subseteq> set (elems (resources w))" and "distinct (map r_self (elems (resources w)))"
  shows "(visited al rs = [] \<longrightarrow> iter_next al (map r_self rs) w = Some (0, [])) \<and>
    (\<forall>p ps. visited al rs = p # ps \<longrightarrow> (\<exists>ss. set ss \<subseteq> set rs \<and> visited al ss = ps \<and>
       iter_next al (map r_self rs) w = Some (p, map r_self ss)))"
  using assms
proof (induction rs)
  case Nil
  then show ?case by (simp add: visited_def)
next
  case (Cons r rs)
  have get: "res_get (r_self r) w = Some r"
    using Cons.prems node_at_self by (simp add: res_get_def)
  show ?case
  proof (cases "al \<or> consumer_action r = None")
    case True
    then have "iter_next al (map r_self (r # rs)) w = Some (r_self r, map r_self rs)"
      using get by auto
    with True show ?thesis by (auto simp: visited_def)
  next
    case False
    then have "iter_next al (map r_self (r # rs)) w = iter_next al (map r_self rs) w"
      and "visited al (r # rs) = visited al rs"
      using get by (auto simp: visited_def)
    moreover have "set rs \<subseteq> set (elems (resources w))" using Cons.prems by simp
    ultimately show ?thesis
      using Cons.IH [OF _ Cons.prems(2)] by (metis (no_types, lifting) set_subset_Cons subset_trans)
  qed
qed

lemma iter_loop_each:
  assumes body: "\<And>p u v. body p u = Some v \<Longrightarrow> resources v = resources u"
    and sub: "set rs \<subseteq> set (elems (resources w))"
    and d: "distinct (map r_self (elems (resources w)))" and z: "0 \<notin> r_self ` set (elems (resources w))"
  shows "iter_loop body \<lparr>iter_elem = map r_self rs, iter_all = al\<rparr> w = each body (visited al rs) w"
  using sub d z
proof (induction "visited al rs" arbitrary: rs w)
  case Nil
  then show ?case
    using iter_next_spec [OF Nil.prems(1,2), of al]
    by (simp add: iter_loop.simps [of body _ w] mut_resources_iter_read_def)
next
  case (Cons p ps)
  obtain ss where ss: "set ss \<subseteq> set rs" "visited al ss = ps"
      "iter_next al (map r_self rs) w = Some (p, map r_self ss)"
    using iter_next_spec [OF Cons.prems(1,2), of al] Cons.hyps(2) by metis
  have "p \<in> set (visited al rs)" using Cons.hyps(2) [symmetric] by simp
  then have p: "p \<noteq> 0" using Cons.prems(1,3) by (auto simp: visited_def)
  show ?case
  proof (cases "body p w")
    case None
    then show ?thesis
      using ss(3) p Cons.hyps(2) [symmetric]
      by (simp add: iter_loop.simps [of body _ w] mut_resources_iter_read_def)
  next
    case (Some v)
    then have "resources v = resources w" using body by blast
    then have "iter_loop body \<lparr>iter_elem = map r_self ss, iter_all = al\<rparr> v = each body ps v"
      using Cons.hyps(1) [of ss v] ss(1,2) Cons.prems by (metis subset_trans)
    then show ?thesis
      using ss(3) p Cons.hyps(2) [symmetric] Some
      by (simp add: iter_loop.simps [of body _ w] mut_resources_iter_read_def)
  qed
qed

text \<open>The loop over the whole map, and the count that opening the iteration announces.\<close>

lemma iter_loop_open:
  assumes "res_inv E w" and "\<And>p u v. body p u = Some v \<Longrightarrow> resources v = resources u"
  shows "iter_loop body (snd (mut_resources_iter_open al w)) w = each body (visited al (elems (resources w))) w \<and>
    fst (mut_resources_iter_open al w) = of_nat (length (visited al (elems (resources w))))"
proof -
  have d: "distinct (map r_self (elems (resources w)))" using assms(1) by (simp add: res_inv_def)
  have "length (filter (\<lambda>r. consumer_action r = None) rs) + length (filter (\<lambda>r. consumer_action r \<noteq> None) rs) =
      length rs" for rs :: "mut_resource list"
    by (rule sum_length_filter_compl)
  from this [of "elems (resources w)", symmetric]
  have "fst (mut_resources_iter_open al w) = of_nat (length (visited al (elems (resources w))))"
    using assms(1) by (cases al) (simp_all add: mut_resources_iter_open_def visited_def res_inv_def flip: of_nat_add)
  then show ?thesis
    using iter_loop_each [of body "elems (resources w)" w al, OF assms(2) _ d res_inv_not_null [OF assms(1)]]
    by (simp add: mut_resources_iter_open_def)
qed

section \<open>Closing\<close>

lemma close_nodes_result:
  assumes "refs_ok w" and "distinct (map r_self rs)" and "r_self ` set rs \<subseteq> plain_blocks w"
    and "\<And>p. p \<noteq> 0 \<Longrightarrow> bt_refs w p = bt_uses rs p + F p"
  shows "\<exists>w'. close_nodes rs w = Some w' \<and> refs_ok w' \<and> (\<forall>p. p \<noteq> 0 \<longrightarrow> bt_refs w' p = F p) \<and>
    plain_blocks w' = plain_blocks w - r_self ` set rs \<and> bt_only w w'"
  using assms
proof (induction rs arbitrary: w)
  case Nil
  then show ?case by simp
next
  case (Cons r rs)
  let ?p = "producer_backtrace r" and ?c = "consumer_backtrace r"
  have "?p \<noteq> 0 \<Longrightarrow> 0 < bt_refs w ?p" using Cons.prems(4) [of ?p] by (simp add: uses1_def)
  from close_if_result [OF Cons.prems(1) this] obtain u where u: "close_if ?p w = Some u" "refs_ok u"
      "plain_blocks u = plain_blocks w" "bt_refs u = (\<lambda>q. bt_refs w q - of_bool (q = ?p))" "bt_only w u" by blast
  have "?c \<noteq> 0 \<Longrightarrow> 0 < bt_refs u ?c" using Cons.prems(4) [of ?c] by (simp add: uses1_def u(4))
  from close_if_result [OF u(2) this] obtain v where v: "close_if ?c u = Some v" "refs_ok v"
      "plain_blocks v = plain_blocks u" "bt_refs v = (\<lambda>q. bt_refs u q - of_bool (q = ?c))" "bt_only u v" by blast
  have "r_self r \<in> plain_blocks v" using Cons.prems(3) u(3) v(3) by simp
  from free_refs [OF v(2) this] obtain x where x: "mut_mem__free (r_self r) 179 resources_file v = Some x" "refs_ok x"
      "bt_refs x = bt_refs v" "plain_blocks x = plain_blocks v - {r_self r}" "bt_only v x" by blast
  have "bt_refs x p = bt_uses rs p + F p" if "p \<noteq> 0" for p
    using Cons.prems(4) [OF that] by (simp add: x(3) v(4) u(4) uses1_def)
  moreover have "r_self ` set rs \<subseteq> plain_blocks x" using Cons.prems(2,3) by (simp add: x(4) u(3) v(3) subset_Diff_insert)
  moreover have "distinct (map r_self rs)" using Cons.prems(2) by simp
  ultimately obtain w' where w': "close_nodes rs x = Some w'" "refs_ok w'" "\<forall>p. p \<noteq> 0 \<longrightarrow> bt_refs w' p = F p"
      "plain_blocks w' = plain_blocks x - r_self ` set rs" "bt_only x w'"
    using Cons.IH [OF x(2)] by blast
  have "bt_only w w'" using u(5) v(5) x(5) w'(5) by (meson bt_only_trans)
  moreover have "plain_blocks w' = plain_blocks w - r_self ` set (r # rs)"
    unfolding w'(4) x(4) v(3) u(3) by auto
  ultimately show ?case using u(1) v(1) x(1) w' by simp
qed

lemma mut_resources_close_result:
  assumes "res_inv E w"
  shows "\<exists>w'. mut_resources_close w = Some w' \<and> refs_ok w' \<and> (\<forall>p. p \<noteq> 0 \<longrightarrow> bt_refs w' p = E p) \<and>
    plain_blocks w' = plain_blocks w - r_self ` set (elems (resources w)) \<and> bt_only w w'"
  using close_nodes_result [of w "elems (resources w)" E] assms
  by (simp add: mut_resources_close_def res_inv_def)


section \<open>The map interface\<close>

text \<open>
  What the core of MUT relies on: an address has one entry, creating it again changes nothing,
  a new one leaves the others alone, and consuming an entry affects only its address.
\<close>

locale resource_table =
  fixes entry :: "'s \<Rightarrow> 'k \<Rightarrow> 'v option"
    and create :: "'k \<Rightarrow> 's \<Rightarrow> ('r \<times> 's) option"
    and created :: "'r \<Rightarrow> bool"
    and consume :: "'k \<Rightarrow> 's \<Rightarrow> 's option"
    and live :: "'v \<Rightarrow> bool"
    and inv :: "'s \<Rightarrow> bool"
  assumes create_inv: "inv s \<Longrightarrow> create k s = Some (r, s') \<Longrightarrow> inv s'"
    and create_old: "inv s \<Longrightarrow> entry s k = Some v \<Longrightarrow> create k s = Some (r, s') \<Longrightarrow> created r \<and> s' = s"
    and create_new: "inv s \<Longrightarrow> entry s k = None \<Longrightarrow> create k s = Some (r, s') \<Longrightarrow> created r \<Longrightarrow>
        \<exists>v. live v \<and> entry s' = (entry s)(k \<mapsto> v)"
    and create_fail: "inv s \<Longrightarrow> create k s = Some (r, s') \<Longrightarrow> \<not> created r \<Longrightarrow> entry s' = entry s"
    and consume_live: "inv s \<Longrightarrow> entry s k = Some v \<Longrightarrow> live v \<Longrightarrow>
        \<exists>s'. consume k s = Some s' \<and> inv s' \<and> (\<forall>j. j \<noteq> k \<longrightarrow> entry s' j = entry s j) \<and>
          (\<forall>v'. entry s' k = Some v' \<longrightarrow> \<not> live v')"
begin

lemma create_dom:
  assumes "inv s" and "create k s = Some (r, s')" and "created r"
  shows "dom (entry s') = insert k (dom (entry s))"
proof (cases "entry s k")
  case None
  from create_new [OF assms(1) None assms(2,3)] show ?thesis by auto
next
  case (Some v)
  from create_old [OF assms(1) Some assms(2)] Some show ?thesis by auto
qed

lemma create_other: "inv s \<Longrightarrow> create k s = Some (r, s') \<Longrightarrow> j \<noteq> k \<Longrightarrow> entry s' j = entry s j"
  using create_old [of s k _ r s'] create_new [of s k r s'] create_fail [of s k r s']
  by (cases "entry s k"; cases "created r") auto

lemma create_twice:
  assumes "inv s" and "create k s = Some (r, s')" and "created r" and "create k s' = Some (r', s'')"
  shows "s'' = s'"
proof -
  have "k \<in> dom (entry s')" using create_dom [OF assms(1-3)] by simp
  then obtain v where "entry s' k = Some v" by auto
  with create_old [OF create_inv [OF assms(1,2)] this assms(4)] show ?thesis by simp
qed

lemma create_then_consume:
  assumes "inv s" and "entry s k = None" and "create k s = Some (r, s')" and "created r"
  shows "\<exists>s''. consume k s' = Some s'' \<and> inv s'' \<and> (\<forall>j. j \<noteq> k \<longrightarrow> entry s'' j = entry s j)"
proof -
  obtain v where v: "live v" "entry s' = (entry s)(k \<mapsto> v)" using create_new [OF assms] by blast
  then have "entry s' k = Some v" by simp
  from consume_live [OF create_inv [OF assms(1,3)] this v(1)] v(2) show ?thesis by auto
qed

end

text \<open>Consumption by address, without a backtrace, as the core does it when backtraces are off.\<close>

definition consume_addr :: "mut_action_id \<Rightarrow> u32 \<Rightarrow> 'a res_world_scheme \<Rightarrow> 'a res_world_scheme option" where
  "consume_addr c a w = mut_resources_delete_resource (mut_resources_lookup a w) c 0 w"

lemma mut_resources_delete_result:
  assumes inv: "res_inv E w" and get: "res_get p w = Some r" and act: "consumer_action r = None"
    and bt: "bt \<noteq> 0 \<Longrightarrow> bt_refs w bt \<noteq> 0 \<and> bt_refs w bt + 1 < 2 ^ 32"
  shows "\<exists>w'. mut_resources_delete_resource p c bt w = Some w' \<and> res_inv E w' \<and>
     res_entry w' = (if really_free (resources w) then (res_entry w)(r_addr r := None)
       else (res_entry w)(r_addr r \<mapsto> r\<lparr>consumer_action := Some c, consumer_backtrace := bt\<rparr>)) \<and>
     foreign w' = foreign w"
  using mut_resources_really_delete_result [OF inv get act, of c bt]
    mut_resources_mark_result [OF inv get act bt, of c]
  by (auto simp: mut_resources_delete_resource_def)

text \<open>A node that is gone or consumed cannot be consumed.\<close>

lemma delete_resource_None:
  assumes "\<And>v. res_get p w = Some v \<Longrightarrow> consumer_action v \<noteq> None"
  shows "mut_resources_delete_resource p c bt w = None"
proof (cases "res_get p w")
  case None
  then show ?thesis
    by (simp add: mut_resources_delete_resource_def mut_resources_really_delete_resource_def
        mut_resources_mark_as_free_def)
next
  case (Some v)
  with assms have "assert_c (consumer_action v = None) = None" by (simp add: assert_c_def)
  with Some show ?thesis
    by (simp add: mut_resources_delete_resource_def mut_resources_really_delete_resource_def
        mut_resources_mark_as_free_def Let_def)
qed

lemma mut_resources_delete_again:
  assumes inv: "res_inv E w" and get: "res_get p w = Some r" and inv': "res_inv E' w'"
    and entry: "res_entry w' = (if b then (res_entry w)(r_addr r := None)
       else (res_entry w)(r_addr r \<mapsto> r\<lparr>consumer_action := Some c, consumer_backtrace := bt\<rparr>))"
  shows "mut_resources_delete_resource p c' bt' w' = None"
proof (rule delete_resource_None)
  fix v
  assume "res_get p w' = Some v"
  then have v: "v \<in> set (elems (resources w'))" "r_self v = p" using res_get_iff [OF inv'] by auto
  have r: "r \<in> set (elems (resources w))" "r_self r = p" using res_get_iff [OF inv] get by auto
  have ev: "res_entry w' (r_addr v) = Some v" using v inv' by (simp add: res_entry_iff res_inv_def)
  show "consumer_action v \<noteq> None"
  proof (cases "r_addr v = r_addr r")
    case True
    with ev entry have "v = r\<lparr>consumer_action := Some c, consumer_backtrace := bt\<rparr>" by (auto split: if_splits)
    then show ?thesis by simp
  next
    case False
    then have "res_entry w (r_addr v) = Some v" using ev entry by (simp split: if_splits)
    then have "v \<in> set (elems (resources w))" by (auto dest: res_entry_Some)
    moreover have "distinct (map r_self (elems (resources w)))" using inv by (simp add: res_inv_def)
    ultimately have "v = r" using r v(2) by (auto simp: distinct_map inj_on_def)
    with False show ?thesis by simp
  qed
qed

interpretation mut_resources: resource_table res_entry mut_resources_create_resource "\<lambda>p. p \<noteq> 0"
    "consume_addr c" "\<lambda>r. consumer_action r = None" "res_inv E"
  for c E
proof (unfold_locales, goal_cases)
  case (1 s k r s')
  then show ?case using mut_resources_create_result by blast
next
  case (2 s k v r s')
  then have "r = r_self v" "s' = s" using mut_resources_create_result [OF 2(1,3)] by auto
  moreover have "r_self v \<noteq> 0" using res_inv_not_null [OF 2(1)] res_entry_Some [OF 2(2)] by force
  ultimately show ?case by simp
next
  case (3 s k r s')
  then have "elems (resources s') = new_resource r k # elems (resources s)"
    using mut_resources_create_result [OF 3(1,3)] by simp
  then have "res_entry s' = (res_entry s)(k \<mapsto> new_resource r k)"
    by (auto simp: res_entry_def new_resource_def fun_eq_iff)
  moreover have "consumer_action (new_resource r k) = None" by (simp add: new_resource_def)
  ultimately show ?case by blast
next
  case (4 s k r s')
  then have r: "r = 0" and "res_entry s k = None \<or> res_entry s k \<noteq> None" by auto
  show ?case
  proof (cases "res_entry s k")
    case None
    then have "resources s' = resources s" using mut_resources_create_result [OF 4(1,2)] r by simp
    then show ?thesis by (simp add: res_entry_def fun_eq_iff)
  next
    case (Some v)
    then show ?thesis using mut_resources_create_result [OF 4(1,2)] by simp
  qed
next
  case (5 s k v)
  have v: "v \<in> set (elems (resources s))" "r_addr v = k" using res_entry_Some [OF 5(2)] by auto
  have p: "mut_resources_lookup k s = r_self v" using mut_resources_lookup_spec [OF 5(1), of k] 5(2) by simp
  have "res_get (r_self v) s = Some v" using res_get_iff [OF 5(1)] v by blast
  from mut_resources_delete_result [OF 5(1) this 5(3), of 0 c] v(2) show ?case
    by (auto simp: consume_addr_def p split: if_splits)
qed

section \<open>Properties\<close>

text \<open>
  C13: Creating a resource keeps the invariant of the map (one node per address, counters equal to
  the numbers of nodes, every backtrace referenced as often as its count says). For an address
  that is present the existing node is returned and nothing changes; otherwise the new node is put in
  front, marked as new, and an allocation failure leaves the map as it was.
\<close>

theorem mut_resources_create_resource_correct:
  assumes "res_inv E w" and "mut_resources_create_resource a w = Some (p, w')"
  shows "res_inv E w' \<and>
    (case res_entry w a of
       Some r \<Rightarrow> p = r_self r \<and> w' = w
     | None \<Rightarrow> if p = 0 then resources w' = resources w
               else elems (resources w') = new_resource p a # elems (resources w) \<and>
                    mut_resource_is_new (new_resource p a) \<and> mut_resources_lookup a w' = p)"
proof -
  note r = mut_resources_create_result [OF assms]
  have "mut_resources_lookup a w' = p" if "elems (resources w') = new_resource p a # elems (resources w)"
    using that by (simp add: mut_resources_lookup_def new_resource_def)
  with r show ?thesis by (auto simp: mut_resource_is_new_def new_resource_def split: option.splits)
qed

definition sample_res0 :: res_world where
  "sample_res0 = sample_world (log_world_ext sample_log_state
     (symtab_world_ext \<lparr>st_head = [], st_cache = 0, st_end = 0\<rparr>
     (exec_world_ext sample_exec (bt_world_ext Map.empty (res_world_ext
        \<lparr>elems = [], really_free = False, n_active_elems = 0, n_consumed_elems = 0\<rparr> ())))))"

lemma sample_res0_inv: "res_inv (\<lambda>_. 0) sample_res0"
  by (simp add: res_inv_def refs_ok_def bts_ok_def bt_refs_def sample_res0_def) (simp add: sample_world_def)

definition sample_res1 :: res_world where
  "sample_res1 = snd (the (mut_resources_create_resource 0x80 sample_res0))"

lemma sample_res1: "mut_resources_create_resource 0x80 sample_res0 = Some (0x1000, sample_res1)"
  by (simp add: sample_res1_def sample_res0_def mut_resources_create_resource_def sample_world_def
      mut_mem__malloc_def libc_malloc_def sample_pick_def Let_def)

lemma mut_resources_create_resource_correct_witness:
  "res_inv (\<lambda>_. 0) sample_res1 \<and> mut_resources_lookup 0x80 sample_res1 = 0x1000"
proof -
  have "res_entry sample_res0 0x80 = None"
    by (simp add: res_entry_def sample_res0_def) (simp add: sample_world_def)
  then show ?thesis
    using mut_resources_create_resource_correct [OF sample_res0_inv sample_res1] by simp
qed

lemma sample_res1_facts:
  "res_inv (\<lambda>_. 0) sample_res1" "elems (resources sample_res1) = [new_resource 0x1000 0x80]"
  "really_free (resources sample_res1) = False"
proof -
  have e: "res_entry sample_res0 0x80 = None" "elems (resources sample_res0) = []"
      "really_free (resources sample_res0) = False"
    by (simp_all add: res_entry_def sample_res0_def) (simp_all add: sample_world_def)
  then show "res_inv (\<lambda>_. 0) sample_res1" "elems (resources sample_res1) = [new_resource 0x1000 0x80]"
      "really_free (resources sample_res1) = False"
    using mut_resources_create_result [OF sample_res0_inv sample_res1] by simp_all
qed

text \<open>
  C12: Consuming a live resource never fails: when memory is really freed the entry of its address
  disappears and its producer's backtrace loses one reference, otherwise the entry is marked with
  its consumer and shares the consumer's backtrace. No other address is affected and the
  invariant is kept. Consuming it a second time fails the assertion of the code.
\<close>

theorem mut_resources_delete_resource_correct:
  assumes "res_inv E w" and "res_get p w = Some r" and "consumer_action r = None"
    and "bt \<noteq> 0 \<Longrightarrow> bt_refs w bt \<noteq> 0 \<and> bt_refs w bt + 1 < 2 ^ 32"
  shows "\<exists>w'. mut_resources_delete_resource p c bt w = Some w' \<and> res_inv E w' \<and>
     res_entry w' = (if really_free (resources w) then (res_entry w)(r_addr r := None)
       else (res_entry w)(r_addr r \<mapsto> r\<lparr>consumer_action := Some c, consumer_backtrace := bt\<rparr>)) \<and>
     mut_resources_delete_resource p c' bt' w' = None"
proof -
  obtain w' where w': "mut_resources_delete_resource p c bt w = Some w'" "res_inv E w'"
     "res_entry w' = (if really_free (resources w) then (res_entry w)(r_addr r := None)
       else (res_entry w)(r_addr r \<mapsto> r\<lparr>consumer_action := Some c, consumer_backtrace := bt\<rparr>))"
    using mut_resources_delete_result [OF assms] by blast
  with mut_resources_delete_again [OF assms(1,2) w'(2,3)] show ?thesis by blast
qed

lemma mut_resources_delete_resource_correct_witness:
  "\<exists>w'. mut_resources_delete_resource 0x1000 Act_free 0 sample_res1 = Some w' \<and>
     res_entry w' 0x80 = Some ((new_resource 0x1000 0x80)\<lparr>consumer_action := Some Act_free\<rparr>)"
proof -
  have "res_get 0x1000 sample_res1 = Some (new_resource 0x1000 0x80)"
    by (simp add: res_get_def sample_res1_facts new_resource_def)
  from mut_resources_delete_resource_correct [OF sample_res1_facts(1) this, of 0 Act_free Act_free 0]
  show ?thesis by (auto simp: new_resource_def sample_res1_facts)
qed

text \<open>
  C16: Iterating over the map runs the body exactly once for each node that is to be visited (the
  live ones, or all), in list order, and the number announced when the iteration is opened is
  the number of nodes visited.
\<close>

theorem mut_resources_iteration_complete:
  assumes "res_inv E w" and "\<And>p u v. body p u = Some v \<Longrightarrow> resources v = resources u"
  shows "iter_loop body (snd (mut_resources_iter_open al w)) w = each body (visited al (elems (resources w))) w \<and>
    fst (mut_resources_iter_open al w) = of_nat (length (visited al (elems (resources w))))"
  using assms by (rule iter_loop_open)

lemma mut_resources_iteration_complete_witness:
  "iter_loop (\<lambda>p w. mut_log_uint p w) (snd (mut_resources_iter_open False sample_res1)) sample_res1 =
     each (\<lambda>p w. mut_log_uint p w) [0x1000] sample_res1"
proof -
  have body: "mut_log_uint p u = Some v \<Longrightarrow> resources v = resources u" for p and u v :: res_world
    using bt_only_res [OF io_only_bt_only [OF mut_io_only(8)]] by blast
  show ?thesis
    using mut_resources_iteration_complete [OF sample_res1_facts(1), of "\<lambda>p w. mut_log_uint p w" False] body
    by (simp add: sample_res1_facts visited_def new_resource_def)
qed

text \<open>
  C15: Closing the map never fails: it releases every node, drops every reference the map holds, and
  leaves exactly the references held elsewhere; blocks of other components are untouched.
\<close>

theorem mut_resources_close_releases_all:
  assumes "res_inv E w"
  shows "\<exists>w'. mut_resources_close w = Some w' \<and> refs_ok w' \<and> (\<forall>p. p \<noteq> 0 \<longrightarrow> bt_refs w' p = E p) \<and>
    plain_blocks w' = plain_blocks w - r_self ` set (elems (resources w))"
  using mut_resources_close_result [OF assms] by blast

lemma mut_resources_close_releases_all_witness:
  "\<exists>w'. mut_resources_close sample_res1 = Some w' \<and> plain_blocks w' = plain_blocks sample_res1 - {0x1000}"
  using mut_resources_close_releases_all [OF sample_res1_facts(1)]
  by (auto simp: sample_res1_facts new_resource_def)

end
