(* ===== verification/MutTrace.thy ===== *)
theory MutTrace
  imports MutResources
begin

text \<open>
  The traced process as \<open>ptrace\<close> shows it, and the wrappers of src/src/proc/ptrace/mut_trace.c
  and arch/x86/os/linux/mut_trace_arch.c.

  The child is its registers, its memory in bytes (little endian) and the rest of its state, on
  which nothing is assumed. What the operating system does with it is a parameter, the record
  \<open>os\<close>: continuing with a signal, waiting, killing, forking. A \<open>ptrace\<close> request fails with \<open>EIO\<close>
  for memory that is not mapped and for a register that does not exist.
\<close>

section \<open>Words in byte memory\<close>

type_synonym bytes = "u32 \<Rightarrow> u8 option"

definition word_of_bytes :: "u8 \<Rightarrow> u8 \<Rightarrow> u8 \<Rightarrow> u8 \<Rightarrow> u32" where
  "word_of_bytes b0 b1 b2 b3 =
     ucast b0 OR push_bit 8 (ucast b1) OR push_bit 16 (ucast b2) OR push_bit 24 (ucast b3)"

definition byte_of_word :: "nat \<Rightarrow> u32 \<Rightarrow> u8" where
  "byte_of_word i v = ucast (drop_bit (8 * i) v)"

definition read_word :: "bytes \<Rightarrow> u32 \<Rightarrow> u32 option" where
  "read_word m a = do {
     b0 \<leftarrow> m a;
     b1 \<leftarrow> m (a + 1);
     b2 \<leftarrow> m (a + 2);
     b3 \<leftarrow> m (a + 3);
     Some (word_of_bytes b0 b1 b2 b3)
   }"

definition put_word :: "u32 \<Rightarrow> u32 \<Rightarrow> bytes \<Rightarrow> bytes" where
  "put_word a v m = m(a \<mapsto> byte_of_word 0 v, a + 1 \<mapsto> byte_of_word 1 v,
                      a + 2 \<mapsto> byte_of_word 2 v, a + 3 \<mapsto> byte_of_word 3 v)"

definition write_word :: "u32 \<Rightarrow> u32 \<Rightarrow> bytes \<Rightarrow> bytes option" where
  "write_word a v m = (if read_word m a = None then None else Some (put_word a v m))"

section \<open>The child and the operating system\<close>

record 'p child =
  regs :: "u32 \<Rightarrow> u32 option"
  cmem :: bytes
  prog :: 'p

datatype wait_result = Wait_failed u32 | Wait_status u32

record 'p os =
  os_continue :: "'p child \<Rightarrow> u32 \<Rightarrow> 'p child option"
  os_wait :: "'p child \<Rightarrow> wait_result \<times> 'p child"
  os_kill :: "'p child \<Rightarrow> 'p child option"
  os_fork :: "string list \<Rightarrow> (u32 \<times> 'p child) option"
  os_traceme_fails :: bool
  os_execv_fails :: bool
  os_peek_clears_errno :: bool

datatype mut_process_status = Status_running | Status_stopped | Status_exited

text \<open>\<open>mut_process\<close>: \<open>trace\<close> holds the same process identifier; \<open>log\<close> is the log of the state.\<close>

record mut_process =
  p_child :: u32
  p_status :: mut_process_status
  p_pc :: u32

record 'p proc_world = res_world +
  process :: mut_process
  child :: "'p child"
  os :: "'p os"

definition ESRCH :: u32 where "ESRCH = 3"
definition EAGAIN :: u32 where "EAGAIN = 11"

section \<open>The wrappers\<close>

definition mut_trace_trace_me :: "('p, 'a) proc_world_scheme \<Rightarrow> (bool \<times> ('p, 'a) proc_world_scheme) option" where
  "mut_trace_trace_me w =
     (if os_traceme_fails (os w) then do {
        let w = w\<lparr>c_errno := EIO\<rparr>;
        w \<leftarrow> mut_log_fatal ''ptrace.traceme'' (c_errno w) w;
        (ok, w) \<leftarrow> mut_log_end w;
        Some (False, w)
      }
      else Some (True, w))"

text \<open>
  A read request. Failure sets \<open>errno\<close>. The value of a successful one may be -1, and whether
  success clears \<open>errno\<close> depends on the system.
\<close>

definition ptrace_peek :: "u32 option \<Rightarrow> ('p, 'a) proc_world_scheme \<Rightarrow> u32 \<times> ('p, 'a) proc_world_scheme" where
  "ptrace_peek v w =
     (case v of
        None \<Rightarrow> (-1, w\<lparr>c_errno := EIO\<rparr>)
      | Some d \<Rightarrow> (d, if os_peek_clears_errno (os w) then w\<lparr>c_errno := 0\<rparr> else w))"

definition trace_failure ::
  "string \<Rightarrow> ('p, 'a) proc_world_scheme \<Rightarrow> (('p, 'a) proc_world_scheme \<Rightarrow> ('p, 'a) proc_world_scheme option) \<Rightarrow>
   ('p, 'a) proc_world_scheme option" where
  "trace_failure msg w arg = do {
     w \<leftarrow> mut_log_fatal msg (c_errno w) w;
     w \<leftarrow> arg w;
     (ok, w) \<leftarrow> mut_log_end w;
     Some w
   }"

definition mut_trace_read_text ::
  "u32 \<Rightarrow> ('p, 'a) proc_world_scheme \<Rightarrow> (u32 option \<times> ('p, 'a) proc_world_scheme) option" where
  "mut_trace_read_text addr w =
     (let (d, w) = ptrace_peek (read_word (cmem (child w)) addr) w
      in if d = -1 \<and> c_errno w \<noteq> 0
         then do { w \<leftarrow> trace_failure ''ptrace.peek.text'' w (mut_log_uint_hex addr); Some (None, w) }
         else Some (Some d, w))"

definition mut_trace_read_data ::
  "u32 \<Rightarrow> ('p, 'a) proc_world_scheme \<Rightarrow> (u32 option \<times> ('p, 'a) proc_world_scheme) option" where
  "mut_trace_read_data addr w =
     (let (d, w) = ptrace_peek (read_word (cmem (child w)) addr) w
      in if d = -1 \<and> c_errno w \<noteq> 0
         then do { w \<leftarrow> trace_failure ''ptrace.peek.data'' w (mut_log_uint_hex addr); Some (None, w) }
         else Some (Some d, w))"

text \<open>The result of a write request is -1 exactly when it fails, and then \<open>errno\<close> is set.\<close>

definition mut_trace_write_text ::
  "u32 \<Rightarrow> u32 \<Rightarrow> ('p, 'a) proc_world_scheme \<Rightarrow> (bool \<times> ('p, 'a) proc_world_scheme) option" where
  "mut_trace_write_text addr value w =
     (case write_word addr value (cmem (child w)) of
        None \<Rightarrow> do {
          w \<leftarrow> trace_failure ''ptrace.poke.text'' (w\<lparr>c_errno := EIO\<rparr>) (mut_log_uint_hex addr);
          Some (False, w)
        }
      | Some m \<Rightarrow> Some (True, w\<lparr>child := (child w)\<lparr>cmem := m\<rparr>\<rparr>))"

definition mut_trace_write_data ::
  "u32 \<Rightarrow> u32 \<Rightarrow> ('p, 'a) proc_world_scheme \<Rightarrow> (bool \<times> ('p, 'a) proc_world_scheme) option" where
  "mut_trace_write_data addr value w =
     (case write_word addr value (cmem (child w)) of
        None \<Rightarrow> do {
          w \<leftarrow> trace_failure ''ptrace.poke.data'' (w\<lparr>c_errno := EIO\<rparr>) (mut_log_uint_hex addr);
          Some (False, w)
        }
      | Some m \<Rightarrow> Some (True, w\<lparr>child := (child w)\<lparr>cmem := m\<rparr>\<rparr>))"

definition mut_trace_read_reg ::
  "u32 \<Rightarrow> ('p, 'a) proc_world_scheme \<Rightarrow> (u32 option \<times> ('p, 'a) proc_world_scheme) option" where
  "mut_trace_read_reg reg w =
     (let (v, w) = ptrace_peek (regs (child w) reg) w
      in if v = -1 \<and> c_errno w \<noteq> 0
         then do { w \<leftarrow> trace_failure ''ptrace.peek.user'' w (mut_log_uint reg); Some (None, w) }
         else Some (Some v, w))"

definition mut_trace_write_reg ::
  "u32 \<Rightarrow> u32 \<Rightarrow> ('p, 'a) proc_world_scheme \<Rightarrow> (bool \<times> ('p, 'a) proc_world_scheme) option" where
  "mut_trace_write_reg reg value w =
     (if regs (child w) reg = None
      then do {
        w \<leftarrow> trace_failure ''ptrace.poke.reg'' (w\<lparr>c_errno := EIO\<rparr>) (mut_log_uint reg);
        Some (False, w)
      }
      else Some (True, w\<lparr>child := (child w)\<lparr>regs := (regs (child w))(reg \<mapsto> value)\<rparr>\<rparr>))"

definition mut_trace_continue ::
  "u32 \<Rightarrow> ('p, 'a) proc_world_scheme \<Rightarrow> (bool \<times> ('p, 'a) proc_world_scheme) option" where
  "mut_trace_continue signal_number w =
     (case os_continue (os w) (child w) signal_number of
        None \<Rightarrow> do {
          w \<leftarrow> trace_failure ''ptrace.cont'' (w\<lparr>c_errno := ESRCH\<rparr>) (mut_log_uint signal_number);
          Some (False, w)
        }
      | Some c \<Rightarrow> Some (True, w\<lparr>child := c\<rparr>))"

definition mut_trace_kill :: "('p, 'a) proc_world_scheme \<Rightarrow> ('p, 'a) proc_world_scheme option" where
  "mut_trace_kill w =
     (case os_kill (os w) (child w) of
        None \<Rightarrow> do {
          w \<leftarrow> mut_log_info ''ptrace.kill'' (w\<lparr>c_errno := ESRCH\<rparr>);
          w \<leftarrow> mut_log_uint (p_child (process w)) w;
          (ok, w) \<leftarrow> mut_log_end w;
          Some w
        }
      | Some c \<Rightarrow> Some (w\<lparr>child := c\<rparr>))"

definition mut_trace_open :: "u32 \<Rightarrow> ('p, 'a) proc_world_scheme \<Rightarrow> ('p, 'a) proc_world_scheme" where
  "mut_trace_open pid w = w\<lparr>process := (process w)\<lparr>p_child := pid\<rparr>\<rparr>"

definition mut_trace_close :: "('p, 'a) proc_world_scheme \<Rightarrow> ('p, 'a) proc_world_scheme" where
  "mut_trace_close w = w"


section \<open>Words and bytes\<close>

lemma bit_byte_of_word: "bit (byte_of_word i v) n \<longleftrightarrow> n < 8 \<and> bit v (8 * i + n)"
  by (auto simp: byte_of_word_def bit_simps)

lemma bit_word_of_bytes:
  "bit (word_of_bytes b0 b1 b2 b3) n \<longleftrightarrow>
     (if n < 8 then bit b0 n else if n < 16 then bit b1 (n - 8)
      else if n < 24 then bit b2 (n - 16) else n < 32 \<and> bit b3 (n - 24))"
  using bit_imp_le_length [of b0 n] bit_imp_le_length [of b1 "n - 8"] bit_imp_le_length [of b2 "n - 16"]
    bit_imp_le_length [of b3 "n - 24"]
  by (auto simp: word_of_bytes_def bit_simps)

lemma word_of_byte_of_word [simp]:
  "word_of_bytes (byte_of_word 0 v) (byte_of_word (Suc 0) v) (byte_of_word 2 v) (byte_of_word 3 v) = v"
  by (rule bit_word_eqI) (auto simp: bit_word_of_bytes bit_byte_of_word)

lemma byte_of_word_of_bytes [simp]:
  "byte_of_word 0 (word_of_bytes b0 b1 b2 b3) = b0"
  "byte_of_word (Suc 0) (word_of_bytes b0 b1 b2 b3) = b1"
  "byte_of_word 2 (word_of_bytes b0 b1 b2 b3) = b2"
  "byte_of_word 3 (word_of_bytes b0 b1 b2 b3) = b3"
  by (rule bit_word_eqI; auto simp: bit_word_of_bytes bit_byte_of_word)+

definition word_addrs :: "u32 \<Rightarrow> u32 set" where
  "word_addrs a = {a, a + 1, a + 2, a + 3}"

lemma read_word_Some:
  "read_word m a = Some v \<longleftrightarrow>
     m a = Some (byte_of_word 0 v) \<and> m (a + 1) = Some (byte_of_word 1 v) \<and>
     m (a + 2) = Some (byte_of_word 2 v) \<and> m (a + 3) = Some (byte_of_word 3 v)"
  by (auto simp: read_word_def split: bind_splits)

lemma read_word_None: "read_word m a = None \<longleftrightarrow> \<not> word_addrs a \<subseteq> dom m"
  by (auto simp: read_word_def word_addrs_def split: bind_splits)

lemma read_word_cong:
  "(\<And>x. x \<in> word_addrs a \<Longrightarrow> m x = m' x) \<Longrightarrow> read_word m a = read_word m' a"
  by (simp add: read_word_def word_addrs_def)

lemma put_word_other: "x \<notin> word_addrs a \<Longrightarrow> put_word a v m x = m x"
  by (simp add: put_word_def word_addrs_def)

lemma put_word_bytes:
  "put_word a v m a = Some (byte_of_word 0 v)"
  "put_word a v m (a + 1) = Some (byte_of_word 1 v)"
  "put_word a v m (a + 2) = Some (byte_of_word 2 v)"
  "put_word a v m (a + 3) = Some (byte_of_word 3 v)"
  by (simp_all add: put_word_def)

lemma read_put_word [simp]: "read_word (put_word a v m) a = Some v"
  by (simp add: read_word_Some put_word_bytes)

lemma read_put_word_other:
  "word_addrs a \<inter> word_addrs b = {} \<Longrightarrow> read_word (put_word a v m) b = read_word m b"
  by (intro read_word_cong put_word_other) auto

lemma put_word_dom: "word_addrs a \<subseteq> dom m \<Longrightarrow> dom (put_word a v m) = dom m"
  by (auto simp: put_word_def word_addrs_def)

lemma put_put_word [simp]: "put_word a v (put_word a u m) = put_word a v m"
proof
  fix x
  show "put_word a v (put_word a u m) x = put_word a v m x"
    by (cases "x \<in> word_addrs a") (auto simp: word_addrs_def put_word_other put_word_bytes)
qed

lemma put_word_same: "read_word m a = Some v \<Longrightarrow> put_word a v m = m"
proof
  fix x
  assume "read_word m a = Some v"
  then show "put_word a v m x = m x"
    by (cases "x \<in> word_addrs a") (auto simp: read_word_Some word_addrs_def put_word_other put_word_bytes)
qed

lemma put_word_commute:
  "word_addrs a \<inter> word_addrs b = {} \<Longrightarrow> put_word a u (put_word b v m) = put_word b v (put_word a u m)"
proof
  fix x
  assume d: "word_addrs a \<inter> word_addrs b = {}"
  show "put_word a u (put_word b v m) x = put_word b v (put_word a u m) x"
  proof (cases "x \<in> word_addrs a")
    case True
    then have "x \<notin> word_addrs b" using d by auto
    then have "put_word b v (put_word a u m) x = put_word a u m x" by (rule put_word_other)
    with True show ?thesis by (auto simp: word_addrs_def put_word_bytes)
  next
    case False
    then show ?thesis
      by (cases "x \<in> word_addrs b") (auto simp: word_addrs_def put_word_bytes put_word_other)
  qed
qed

section \<open>Patchable memory\<close>

text \<open>
  What the breakpoint machinery needs of a memory: a cell that can be read can be written, it
  then reads as written, separate cells do not interfere, and writing back restores the state.
\<close>

locale patchable =
  fixes rd :: "'a \<Rightarrow> 's \<Rightarrow> 'v option"
    and wr :: "'a \<Rightarrow> 'v \<Rightarrow> 's \<Rightarrow> 's option"
    and apart :: "'a \<Rightarrow> 'a \<Rightarrow> bool"
  assumes wr_ok: "rd a s = Some v \<Longrightarrow> \<exists>s'. wr a x s = Some s'"
    and rd_same: "wr a x s = Some s' \<Longrightarrow> rd a s' = Some x"
    and rd_apart: "apart a b \<Longrightarrow> wr a x s = Some s' \<Longrightarrow> rd b s' = rd b s"
    and undo: "rd a s = Some v \<Longrightarrow> wr a x s = Some s' \<Longrightarrow> wr a v s' = Some s"
    and commute: "apart a b \<Longrightarrow> wr a x s = Some u \<Longrightarrow> wr b y u = Some t \<Longrightarrow>
        \<exists>u'. wr b y s = Some u' \<and> wr a x u' = Some t"
    and apart_sym: "apart a b \<Longrightarrow> apart b a"
begin

text \<open>Patching the cells of a list with \<open>x\<close>, remembering what was there, and undoing it in the same order.\<close>

primrec patch :: "'v \<Rightarrow> 'a list \<Rightarrow> 's \<Rightarrow> ('v list \<times> 's) option" where
  "patch x [] s = Some ([], s)"
| "patch x (a # as) s = do {
     v \<leftarrow> rd a s;
     s \<leftarrow> wr a x s;
     (vs, s) \<leftarrow> patch x as s;
     Some (v # vs, s)
   }"

primrec unpatch :: "('a \<times> 'v) list \<Rightarrow> 's \<Rightarrow> 's option" where
  "unpatch [] s = Some s"
| "unpatch (av # avs) s = do { s \<leftarrow> wr (fst av) (snd av) s; unpatch avs s }"

lemma patch_apart:
  "\<forall>b \<in> set as. apart a b \<Longrightarrow> patch x as s = Some (vs, s') \<Longrightarrow> wr a y s = Some t \<Longrightarrow>
   \<exists>t'. patch x as t = Some (vs, t') \<and> wr a y s' = Some t'"
proof (induction as arbitrary: s t vs)
  case Nil
  then show ?case by simp
next
  case (Cons b as)
  then obtain v u ws where p: "rd b s = Some v" "wr b x s = Some u" "patch x as u = Some (ws, s')" "vs = v # ws"
    by (auto split: bind_splits)
  have ab: "apart a b" "apart b a" using Cons.prems(1) apart_sym by auto
  have rb: "rd b t = Some v" using rd_apart [OF ab(1) Cons.prems(3)] p(1) by simp
  obtain t1 where t1: "wr b x t = Some t1" using wr_ok [OF rb] by blast
  from commute [OF ab(1) Cons.prems(3) t1] obtain u' where "wr b x s = Some u'" "wr a y u' = Some t1" by blast
  then have "wr a y u = Some t1" using p(2) by simp
  from Cons.IH [OF _ p(3) this] Cons.prems(1) obtain t' where "patch x as t1 = Some (ws, t')" "wr a y s' = Some t'"
    by auto
  with rb t1 p(4) show ?case by auto
qed

text \<open>Removing the patches in the order they were made restores the memory.\<close>

lemma unpatch_patch:
  "sorted_wrt apart as \<Longrightarrow> patch x as s = Some (vs, s') \<Longrightarrow>
   length vs = length as \<and> unpatch (zip as vs) s' = Some s"
proof (induction as arbitrary: s vs s')
  case Nil
  then show ?case by simp
next
  case (Cons a as)
  then obtain v u ws where p: "rd a s = Some v" "wr a x s = Some u" "patch x as u = Some (ws, s')" "vs = v # ws"
    by (auto split: bind_splits)
  have ap: "\<forall>b \<in> set as. apart a b" "sorted_wrt apart as" using Cons.prems(1) by auto
  have "wr a v u = Some s" using undo [OF p(1,2)] .
  from patch_apart [OF ap(1) p(3) this] obtain t' where t': "patch x as s = Some (ws, t')" "wr a v s' = Some t'" by blast
  from Cons.IH [OF ap(2) t'(1)] t'(2) p(4) show ?case by simp
qed

lemma patch_reads:
  "sorted_wrt apart as \<Longrightarrow> patch x as s = Some (vs, s') \<Longrightarrow> a \<in> set as \<Longrightarrow> rd a s' = Some x"
proof (induction as arbitrary: s vs)
  case Nil
  then show ?case by simp
next
  case (Cons b as)
  then obtain v u ws where p: "rd b s = Some v" "wr b x s = Some u" "patch x as u = Some (ws, s')"
    by (auto split: bind_splits)
  show ?case
  proof (cases "a \<in> set as")
    case True
    then show ?thesis using Cons p(3) by auto
  next
    case False
    then have "a = b" using Cons.prems(3) by simp
    have "rd b s' = rd b u" if "\<forall>c \<in> set as. apart b c" for b
      using that p(3)
    proof (induction as arbitrary: u ws)
      case Nil
      then show ?case by simp
    next
      case (Cons c as)
      then obtain y z zs where q: "rd c u = Some y" "wr c x u = Some z" "patch x as z = Some (zs, s')"
        by (auto split: bind_splits)
      have "apart c b" using Cons.prems(1) apart_sym by auto
      with rd_apart [OF this q(2)] Cons.IH [OF _ q(3)] Cons.prems(1) show ?case by simp
    qed
    with Cons.prems(1) rd_same [OF p(2)] \<open>a = b\<close> show ?thesis by auto
  qed
qed

end

definition words_apart :: "u32 \<Rightarrow> u32 \<Rightarrow> bool" where
  "words_apart a b \<longleftrightarrow> word_addrs a \<inter> word_addrs b = {}"

interpretation child_memory: patchable "\<lambda>a m. read_word m a" write_word words_apart
proof (unfold_locales, goal_cases)
  case (1 a s v x)
  then show ?case by (simp add: write_word_def)
next
  case (2 a x s s')
  then show ?case by (auto simp: write_word_def split: if_splits)
next
  case (3 a b x s s')
  then show ?case by (auto simp: write_word_def words_apart_def read_put_word_other split: if_splits)
next
  case (4 a s v x s')
  then show ?case by (auto simp: write_word_def put_word_same split: if_splits)
next
  case (5 a b x s u y t)
  then show ?case
    by (auto simp: write_word_def words_apart_def read_put_word_other put_word_commute Int_commute split: if_splits)
next
  case (6 a b)
  then show ?case by (auto simp: words_apart_def)
qed

end
