(* ===== verification/MutProcess.thy ===== *)
theory MutProcess
  imports MutTrace
begin

text \<open>
  The process abstraction, src/src/proc/ptrace/mut_process.c, with the x86 part of
  src/src/proc/ptrace/arch/x86/mut_process_arch.c and the constants of src/src/arch/x86.
\<close>

section \<open>Constants\<close>

definition mut_arg_size :: u32 where "mut_arg_size = 4"
definition mut_instr_bp :: u32 where "mut_instr_bp = 0xcc"
definition mut_pc_adjust :: "u32 \<Rightarrow> u32" where "mut_pc_adjust pc = pc - 1"

text \<open>The register numbers of Linux's \<open>sys/reg.h\<close>.\<close>

definition mut_process_arch_regs_ebp :: u32 where "mut_process_arch_regs_ebp = 5"
definition mut_process_arch_regs_eax :: u32 where "mut_process_arch_regs_eax = 6"
definition mut_process_arch_regs_eip :: u32 where "mut_process_arch_regs_eip = 12"
definition mut_process_arch_regs_esp :: u32 where "mut_process_arch_regs_esp = 15"

text \<open>The status macros of \<open>sys/wait.h\<close>.\<close>

definition WTERMSIG :: "u32 \<Rightarrow> u32" where "WTERMSIG s = s AND 0x7f"
definition WEXITSTATUS :: "u32 \<Rightarrow> u32" where "WEXITSTATUS s = drop_bit 8 (s AND 0xff00)"
definition WSTOPSIG :: "u32 \<Rightarrow> u32" where "WSTOPSIG s = WEXITSTATUS s"
definition WIFEXITED :: "u32 \<Rightarrow> bool" where "WIFEXITED s \<longleftrightarrow> WTERMSIG s = 0"
definition WIFSTOPPED :: "u32 \<Rightarrow> bool" where "WIFSTOPPED s \<longleftrightarrow> s AND 0xff = 0x7f"
definition WIFSIGNALED :: "u32 \<Rightarrow> bool" where "WIFSIGNALED s \<longleftrightarrow> WTERMSIG s \<noteq> 0 \<and> WTERMSIG s \<noteq> 0x7f"
definition SIGTRAP :: u32 where "SIGTRAP = 5"

definition p_stopped :: "('p, 'a) proc_world_scheme \<Rightarrow> bool" where
  "p_stopped w \<longleftrightarrow> p_status (process w) = Status_stopped"

definition set_status :: "mut_process_status \<Rightarrow> ('p, 'a) proc_world_scheme \<Rightarrow> ('p, 'a) proc_world_scheme" where
  "set_status st w = w\<lparr>process := (process w)\<lparr>p_status := st\<rparr>\<rparr>"

definition set_pc :: "u32 \<Rightarrow> ('p, 'a) proc_world_scheme \<Rightarrow> ('p, 'a) proc_world_scheme" where
  "set_pc pc w = w\<lparr>process := (process w)\<lparr>p_pc := pc\<rparr>\<rparr>"

section \<open>The architecture: x86\<close>

definition mut_process_read_pc ::
  "('p, 'a) proc_world_scheme \<Rightarrow> (u32 option \<times> ('p, 'a) proc_world_scheme) option" where
  "mut_process_read_pc w = do {
     assert_c (p_stopped w);
     mut_trace_read_reg mut_process_arch_regs_eip w
   }"

definition mut_process_write_pc ::
  "u32 \<Rightarrow> ('p, 'a) proc_world_scheme \<Rightarrow> (bool \<times> ('p, 'a) proc_world_scheme) option" where
  "mut_process_write_pc pc w = do {
     assert_c (p_stopped w);
     mut_trace_write_reg mut_process_arch_regs_eip pc w
   }"

definition mut_process_read_arg ::
  "u32 \<Rightarrow> ('p, 'a) proc_world_scheme \<Rightarrow> (u32 option \<times> ('p, 'a) proc_world_scheme) option" where
  "mut_process_read_arg n w = do {
     assert_c (p_stopped w);
     (esp, w) \<leftarrow> mut_trace_read_reg mut_process_arch_regs_esp w;
     case esp of
       None \<Rightarrow> Some (None, w)
     | Some esp \<Rightarrow> mut_trace_read_data (esp + mut_arg_size + n * mut_arg_size) w
   }"

definition mut_process_write_arg ::
  "u32 \<Rightarrow> u32 \<Rightarrow> ('p, 'a) proc_world_scheme \<Rightarrow> (bool \<times> ('p, 'a) proc_world_scheme) option" where
  "mut_process_write_arg n arg w = do {
     assert_c (p_stopped w);
     (esp, w) \<leftarrow> mut_trace_read_reg mut_process_arch_regs_esp w;
     case esp of
       None \<Rightarrow> Some (False, w)
     | Some esp \<Rightarrow> mut_trace_write_data (esp + mut_arg_size + n * mut_arg_size) arg w
   }"

definition mut_process_function_return_addr ::
  "('p, 'a) proc_world_scheme \<Rightarrow> (u32 option \<times> ('p, 'a) proc_world_scheme) option" where
  "mut_process_function_return_addr w = do {
     assert_c (p_stopped w);
     (esp, w) \<leftarrow> mut_trace_read_reg mut_process_arch_regs_esp w;
     case esp of
       None \<Rightarrow> Some (None, w)
     | Some esp \<Rightarrow> mut_trace_read_data esp w
   }"

definition mut_process_read_result ::
  "('p, 'a) proc_world_scheme \<Rightarrow> (u32 option \<times> ('p, 'a) proc_world_scheme) option" where
  "mut_process_read_result w = do {
     assert_c (p_stopped w);
     mut_trace_read_reg mut_process_arch_regs_eax w
   }"

definition mut_process_write_result ::
  "u32 \<Rightarrow> ('p, 'a) proc_world_scheme \<Rightarrow> (bool \<times> ('p, 'a) proc_world_scheme) option" where
  "mut_process_write_result result w = do {
     assert_c (p_stopped w);
     mut_trace_write_reg mut_process_arch_regs_eax result w
   }"

text \<open>
  The frame walk: \<open>base\<close> grows with every frame, so the loop ends. \<open>mut_backtrace_enter\<close> returns
  1 or -1, so the test for 0 is the last branch.
\<close>

function backtrace_walk ::
  "ptr \<Rightarrow> u32 \<Rightarrow> u32 \<Rightarrow> ('p, 'a) proc_world_scheme \<Rightarrow> (bool \<times> ('p, 'a) proc_world_scheme) option" where
  "backtrace_walk bt ebp base w =
     (if ebp \<noteq> 0 \<and> base < ebp then do {
        (ra, w1) \<leftarrow> mut_trace_read_data (ebp + mut_arg_size) w;
        case ra of
          None \<Rightarrow> Some (False, w1)
        | Some return_addr \<Rightarrow>
            if return_addr = 0 then Some (True, w1)
            else do {
              (status, w2) \<leftarrow> mut_backtrace_enter bt (return_addr - 5) w1;
              if status < 0 then Some (True, w2)
              else if status = 0 then Some (False, w2)
              else do {
                (next, w3) \<leftarrow> mut_trace_read_data ebp w2;
                case next of
                  None \<Rightarrow> Some (False, w3)
                | Some ebp' \<Rightarrow> backtrace_walk bt ebp' ebp w3
              }
            }
      }
      else Some (True, w))"
  by pat_completeness auto
termination
proof (relation "measure (\<lambda>(bt, ebp, base, w). 2 ^ 32 - unat base)", goal_cases)
  case 1
  show ?case by simp
next
  case (2 bt ebp base)
  then show ?case using unat_u32_less [of ebp] by (simp add: word_less_nat_alt diff_less_mono2)
qed

declare backtrace_walk.simps [simp del]

definition mut_process_function_backtrace ::
  "ptr \<Rightarrow> ('p, 'a) proc_world_scheme \<Rightarrow> (bool \<times> ('p, 'a) proc_world_scheme) option" where
  "mut_process_function_backtrace bt w = do {
     (esp, w) \<leftarrow> mut_trace_read_reg mut_process_arch_regs_esp w;
     case esp of
       None \<Rightarrow> Some (False, w)
     | Some esp \<Rightarrow> do {
         (ra, w) \<leftarrow> mut_trace_read_data esp w;
         case ra of
           None \<Rightarrow> Some (False, w)
         | Some return_addr \<Rightarrow> do {
             (status, w) \<leftarrow> mut_backtrace_enter bt (return_addr - 5) w;
             if status < 0 then Some (True, w)
             else if status = 0 then Some (False, w)
             else do {
               (ebp, w) \<leftarrow> mut_trace_read_reg mut_process_arch_regs_ebp w;
               case ebp of
                 None \<Rightarrow> Some (False, w)
               | Some ebp \<Rightarrow> backtrace_walk bt ebp esp w
             }
           }
       }
   }"

definition mut_process_skip_to ::
  "u32 \<Rightarrow> ('p, 'a) proc_world_scheme \<Rightarrow> (bool \<times> ('p, 'a) proc_world_scheme) option" where
  "mut_process_skip_to pc w = do {
     assert_c (p_stopped w);
     let w = set_pc pc w;
     (esp, w) \<leftarrow> mut_trace_read_reg mut_process_arch_regs_esp w;
     case esp of
       None \<Rightarrow> Some (False, w)
     | Some esp \<Rightarrow> do {
         (ok, w) \<leftarrow> mut_trace_write_reg mut_process_arch_regs_esp (esp + mut_arg_size) w;
         if \<not> ok then Some (False, w) else Some (True, w)
       }
   }"

section \<open>Life of a process\<close>

text \<open>What the forked child does before it becomes the target, in its own copy of the state.\<close>

datatype child_fate = Execs | Exits u32

definition EXIT_FAILURE :: u32 where "EXIT_FAILURE = 1"

definition mut_process_open_child ::
  "string list \<Rightarrow> ('p, 'a) proc_world_scheme \<Rightarrow> (child_fate \<times> ('p, 'a) proc_world_scheme) option" where
  "mut_process_open_child argv w = do {
     (ok, w) \<leftarrow> mut_trace_trace_me w;
     if \<not> ok then Some (Exits EXIT_FAILURE, w)
     else if \<not> os_execv_fails (os w) then Some (Execs, w)
     else do {
       w \<leftarrow> mut_log_fatal ''execv'' ENOENT (w\<lparr>c_errno := ENOENT\<rparr>);
       w \<leftarrow> mut_log_string (hd argv) w;
       (ok, w) \<leftarrow> mut_log_end w;
       Some (Exits EXIT_FAILURE, w)
     }
   }"

text \<open>The parent's side. After a failed \<open>waitpid\<close> the variable \<open>status\<close> is indeterminate.\<close>

definition mut_process_open ::
  "string list \<Rightarrow> ('p, 'a) proc_world_scheme \<Rightarrow> (bool \<times> ('p, 'a) proc_world_scheme) option" where
  "mut_process_open argv w =
     (case os_fork (os w) argv of
        None \<Rightarrow> do {
          w \<leftarrow> mut_log_fatal ''fork'' EAGAIN (w\<lparr>c_errno := EAGAIN\<rparr>);
          w \<leftarrow> mut_log_string (hd argv) w;
          (ok, w) \<leftarrow> mut_log_end w;
          Some (False, w)
        }
      | Some (pid, c) \<Rightarrow> do {
          let w = set_status Status_running w;
          let w = mut_trace_open pid (w\<lparr>child := c\<rparr>);
          let (r, c) = os_wait (os w) (child w);
          let w = w\<lparr>child := c\<rparr>;
          case r of
            Wait_failed e \<Rightarrow> do {
              w \<leftarrow> mut_log_fatal ''waitpid'' e (w\<lparr>c_errno := e\<rparr>);
              w \<leftarrow> mut_log_uint (p_child (process w)) w;
              w \<leftarrow> mut_log_uint_hex (c_indet w [4]) w;
              (ok, w) \<leftarrow> mut_log_end w;
              Some (False, w)
            }
          | Wait_status status \<Rightarrow>
              if WIFEXITED status then do {
                w \<leftarrow> mut_log_fatal ''process.exit'' 0 (set_status Status_exited w);
                (ok, w) \<leftarrow> mut_log_end w;
                Some (False, w)
              }
              else if WIFSIGNALED status then do {
                w \<leftarrow> mut_log_fatal ''process.signal'' 0 w;
                (ok, w) \<leftarrow> mut_log_end w;
                Some (False, w)
              }
              else if WIFSTOPPED status then do {
                (pc, w) \<leftarrow> mut_process_read_pc (set_status Status_stopped w);
                case pc of
                  None \<Rightarrow> Some (False, w)
                | Some pc \<Rightarrow> Some (True, set_pc pc w)
              }
              else do {
                w \<leftarrow> mut_log_fatal ''process.unkown'' 0 w;
                (ok, w) \<leftarrow> mut_log_end w;
                Some (False, w)
              }
        })"

text \<open>
  One round of the loop of \<open>mut_process_wait\<close>: a result to return (\<open>Inl\<close>), or the value of the
  variable \<open>status\<close> with which control goes back to the label \<open>loop\<close> (\<open>Inr\<close>). The result of
  \<open>mut_process_read_pc\<close> is 0 or 1, so the branch for a negative one is never taken.
\<close>

definition wait_round ::
  "u32 \<Rightarrow> ('p, 'a) proc_world_scheme \<Rightarrow> (((int \<times> u32 option) + u32) \<times> ('p, 'a) proc_world_scheme) option" where
  "wait_round st w =
     (let (r, c) = os_wait (os w) (child w);
          w = w\<lparr>child := c\<rparr>
      in case r of
           Wait_failed e \<Rightarrow> do {
             w \<leftarrow> mut_log_fatal ''waitpid'' e (w\<lparr>c_errno := e\<rparr>);
             w \<leftarrow> mut_log_int st w;
             (ok, w) \<leftarrow> mut_log_end w;
             Some (Inl (0, None), w)
           }
         | Wait_status status \<Rightarrow>
             if WIFEXITED status then do {
               w \<leftarrow> mut_log_info ''process.exited'' w;
               w \<leftarrow> mut_log_int (WEXITSTATUS status) w;
               (ok, w) \<leftarrow> mut_log_end w;
               Some (Inl (-1, None), set_status Status_exited w)
             }
             else if WIFSIGNALED status then do {
               w \<leftarrow> mut_log_info ''process.signaled'' w;
               w \<leftarrow> mut_log_int (WTERMSIG status) w;
               (ok, w) \<leftarrow> mut_log_end w;
               Some (Inl (-1, None), set_status Status_exited w)
             }
             else if WIFSTOPPED status then
               (if WSTOPSIG status = SIGTRAP then do {
                  (pc, w) \<leftarrow> mut_process_read_pc (set_status Status_stopped w);
                  case pc of
                    None \<Rightarrow> Some (Inl (0, None), w)
                  | Some pc \<Rightarrow> Some (Inl (1, Some (mut_pc_adjust pc)), set_pc (mut_pc_adjust pc) w)
                }
                else do {
                  (ok, w) \<leftarrow> mut_trace_continue (WSTOPSIG status) w;
                  if \<not> ok then Some (Inl (0, None), w) else Some (Inr status, w)
                })
             else do {
               w \<leftarrow> mut_log_info ''process.unknown'' w;
               w \<leftarrow> mut_log_uint_hex status w;
               (ok, w) \<leftarrow> mut_log_end w;
               (ok, w) \<leftarrow> mut_trace_continue 0 w;
               if \<not> ok then Some (Inl (0, None), w) else Some (Inr status, w)
             })"

text \<open>The loop. A child that goes on stopping for other signals keeps it running: no result.\<close>

partial_function (option) wait_loop ::
  "u32 \<Rightarrow> ('p, 'a) proc_world_scheme \<Rightarrow> ((int \<times> u32 option) \<times> ('p, 'a) proc_world_scheme) option" where
  "wait_loop st w = do {
     (r, w) \<leftarrow> wait_round st w;
     case r of
       Inl result \<Rightarrow> Some (result, w)
     | Inr st \<Rightarrow> wait_loop st w
   }"

definition mut_process_wait ::
  "('p, 'a) proc_world_scheme \<Rightarrow> ((int \<times> u32 option) \<times> ('p, 'a) proc_world_scheme) option" where
  "mut_process_wait w = do {
     assert_c (p_status (process w) = Status_running);
     wait_loop (c_indet w [5]) w
   }"

definition mut_process_breakpoint ::
  "u32 \<Rightarrow> ('p, 'a) proc_world_scheme \<Rightarrow> (u32 option \<times> ('p, 'a) proc_world_scheme) option" where
  "mut_process_breakpoint pc w = do {
     assert_c (p_stopped w);
     (instr, w) \<leftarrow> mut_trace_read_text pc w;
     case instr of
       None \<Rightarrow> Some (None, w)
     | Some instr \<Rightarrow> do {
         (ok, w) \<leftarrow> mut_trace_write_text pc mut_instr_bp w;
         Some (if ok then Some instr else None, w)
       }
   }"

definition mut_process_restore ::
  "u32 \<Rightarrow> u32 \<Rightarrow> ('p, 'a) proc_world_scheme \<Rightarrow> (bool \<times> ('p, 'a) proc_world_scheme) option" where
  "mut_process_restore pc instr w = do {
     assert_c (p_stopped w);
     mut_trace_write_text pc instr w
   }"

definition mut_process_resume ::
  "('p, 'a) proc_world_scheme \<Rightarrow> (bool \<times> ('p, 'a) proc_world_scheme) option" where
  "mut_process_resume w = do {
     assert_c (p_stopped w);
     (ok, w) \<leftarrow> mut_process_write_pc (p_pc (process w)) w;
     if \<not> ok then Some (False, w)
     else do {
       (ok, w) \<leftarrow> mut_trace_continue 0 w;
       if \<not> ok then Some (False, w) else Some (True, set_status Status_running w)
     }
   }"

text \<open>\<open>mut_exec_addr_aligned(addr, sizeof(mut_reg))\<close>\<close>

definition addr_aligned :: "u32 \<Rightarrow> bool" where
  "addr_aligned a \<longleftrightarrow> a AND 3 = 0"

definition mut_process_read_word ::
  "u32 \<Rightarrow> ('p, 'a) proc_world_scheme \<Rightarrow> (u32 option \<times> ('p, 'a) proc_world_scheme) option" where
  "mut_process_read_word addr w = do {
     assert_c (p_stopped w);
     assert_c (addr_aligned addr);
     mut_trace_read_data addr w
   }"

definition mut_process_write_word ::
  "u32 \<Rightarrow> u32 \<Rightarrow> ('p, 'a) proc_world_scheme \<Rightarrow> (bool \<times> ('p, 'a) proc_world_scheme) option" where
  "mut_process_write_word addr n w = do {
     assert_c (p_stopped w);
     assert_c (addr_aligned addr);
     mut_trace_write_data addr n w
   }"

section \<open>Copying and filling\<close>

definition mut_process_byte_mask :: "nat \<Rightarrow> u32" where
  "mut_process_byte_mask nbytes = push_bit ((4 - nbytes) * 8) 1 - 1"

text \<open>The words, then the rest; the loops return the addresses they have reached.\<close>

fun memcpy_words ::
  "nat \<Rightarrow> u32 \<Rightarrow> u32 \<Rightarrow> ('p, 'a) proc_world_scheme \<Rightarrow> ((u32 \<times> u32) option \<times> ('p, 'a) proc_world_scheme) option" where
  "memcpy_words 0 dest src w = Some (Some (dest, src), w)"
| "memcpy_words (Suc nwords) dest src w = do {
     (data, w) \<leftarrow> mut_trace_read_data src w;
     case data of
       None \<Rightarrow> Some (None, w)
     | Some data \<Rightarrow> do {
         (ok, w) \<leftarrow> mut_trace_write_data dest data w;
         if \<not> ok then Some (None, w) else memcpy_words nwords (dest + 4) (src + 4) w
       }
   }"

definition mut_process_memcpy ::
  "u32 \<Rightarrow> u32 \<Rightarrow> u32 \<Rightarrow> ('p, 'a) proc_world_scheme \<Rightarrow> (bool \<times> ('p, 'a) proc_world_scheme) option" where
  "mut_process_memcpy dest src n w = do {
     let nwords = unat n div 4;
     let nbytes = unat n mod 4;
     assert_c (p_stopped w);
     assert_c (addr_aligned dest);
     assert_c (addr_aligned src);
     (r, w) \<leftarrow> memcpy_words nwords dest src w;
     case r of
       None \<Rightarrow> Some (False, w)
     | Some (dest, src) \<Rightarrow>
         if nbytes \<noteq> 0 then do {
           (orig, w) \<leftarrow> mut_trace_read_data dest w;
           case orig of
             None \<Rightarrow> Some (False, w)
           | Some orig \<Rightarrow> do {
               (data, w) \<leftarrow> mut_trace_read_data src w;
               case data of
                 None \<Rightarrow> Some (False, w)
               | Some data \<Rightarrow> do {
                   (ok, w) \<leftarrow> mut_trace_write_data dest (data OR (orig AND mut_process_byte_mask nbytes)) w;
                   if \<not> ok then Some (False, w) else Some (True, w)
                 }
             }
         }
         else Some (True, w)
   }"

fun memset_words ::
  "nat \<Rightarrow> u32 \<Rightarrow> u32 \<Rightarrow> ('p, 'a) proc_world_scheme \<Rightarrow> (u32 option \<times> ('p, 'a) proc_world_scheme) option" where
  "memset_words 0 addr pattern w = Some (Some addr, w)"
| "memset_words (Suc nwords) addr pattern w = do {
     (ok, w) \<leftarrow> mut_trace_write_data addr pattern w;
     if \<not> ok then Some (None, w) else memset_words nwords (addr + 4) pattern w
   }"

definition mut_process_memset ::
  "u32 \<Rightarrow> u32 \<Rightarrow> u32 \<Rightarrow> ('p, 'a) proc_world_scheme \<Rightarrow> (bool \<times> ('p, 'a) proc_world_scheme) option" where
  "mut_process_memset addr c n w = do {
     let nwords = unat n div 4;
     let nbytes = unat n mod 4;
     let pattern = c OR push_bit 8 c OR push_bit 16 c OR push_bit 24 c;
     assert_c (p_stopped w);
     assert_c (addr_aligned addr);
     (r, w) \<leftarrow> memset_words nwords addr pattern w;
     case r of
       None \<Rightarrow> Some (False, w)
     | Some addr \<Rightarrow>
         if nbytes \<noteq> 0 then do {
           (orig, w) \<leftarrow> mut_trace_read_data addr w;
           case orig of
             None \<Rightarrow> Some (False, w)
           | Some orig \<Rightarrow> do {
               (ok, w) \<leftarrow> mut_trace_write_data addr (pattern OR (orig AND mut_process_byte_mask nbytes)) w;
               if \<not> ok then Some (False, w) else Some (True, w)
             }
         }
         else Some (True, w)
   }"

definition mut_process_close :: "('p, 'a) proc_world_scheme \<Rightarrow> ('p, 'a) proc_world_scheme option" where
  "mut_process_close w = do {
     assert_c (p_status (process w) \<noteq> Status_running);
     w \<leftarrow> (if p_status (process w) \<noteq> Status_exited then mut_trace_kill w else Some w);
     Some (mut_trace_close w)
   }"


section \<open>Frames\<close>

text \<open>What the tracing operations change.\<close>

definition tr_only :: "('p, 'a) proc_world_scheme \<Rightarrow> ('p, 'a) proc_world_scheme \<Rightarrow> bool" where
  "tr_only w w' \<longleftrightarrow>
     w' = w\<lparr>c_errno := c_errno w', c_out := c_out w', the_log := the_log w', process := process w', child := child w'\<rparr>"

lemma tr_onlyE:
  assumes "tr_only w w'"
  obtains e out l p c where "w' = w\<lparr>c_errno := e, c_out := out, the_log := l, process := p, child := c\<rparr>"
  using assms unfolding tr_only_def by blast

lemma tr_only_trans: "tr_only u v \<Longrightarrow> tr_only v w \<Longrightarrow> tr_only u w"
  by (cases u; cases v; cases w) (simp add: tr_only_def)

lemma tr_only_update [simp]:
  "tr_only w w"
  "tr_only w (w\<lparr>c_errno := e\<rparr>)"
  "tr_only w (w\<lparr>process := p\<rparr>)"
  "tr_only w (w\<lparr>child := c\<rparr>)"
  "tr_only w (set_status st w)"
  "tr_only w (set_pc pc w)"
  "tr_only w (mut_trace_open pid w)"
  by (simp_all add: tr_only_def set_status_def set_pc_def mut_trace_open_def)

lemma io_only_tr_only: "io_only w (w' :: ('p, 'a) proc_world_scheme) \<Longrightarrow> tr_only w w'"
  by (cases w; cases w') (simp add: io_only_def tr_only_def)

lemma tr_only_same:
  assumes "tr_only w (w' :: ('p, 'a) proc_world_scheme)"
  shows "resources w' = resources w" "bts w' = bts w" "exec w' = exec w" "symtab w' = symtab w"
    "store w' = store w" "c_heap w' = c_heap w" "os w' = os w" "refs_ok w' = refs_ok w"
    "plain_blocks w' = plain_blocks w" "bt_refs w' = bt_refs w" "res_inv E w' = res_inv E w"
    "bts_ok w' = bts_ok w" "mem_wf w' = mem_wf w" "mem_in_use w' = mem_in_use w" "writes_ok w' = writes_ok w"
proof -
  obtain e out l p c where w': "w' = w\<lparr>c_errno := e, c_out := out, the_log := l, process := p, child := c\<rparr>"
    using assms by (rule tr_onlyE)
  show "resources w' = resources w" "bts w' = bts w" "exec w' = exec w" "symtab w' = symtab w"
    "store w' = store w" "c_heap w' = c_heap w" "os w' = os w" by (simp_all add: w')
  show m: "mem_wf w' = mem_wf w" "mem_in_use w' = mem_in_use w" "writes_ok w' = writes_ok w"
    by (simp_all add: w' mem_wf_def mem_in_use_def malloc_fresh_def writes_ok_def)
  show b: "bts_ok w' = bts_ok w" unfolding bts_ok_def m by (simp add: w')
  show r: "refs_ok w' = refs_ok w" unfolding refs_ok_def b by (simp add: w')
  show p: "plain_blocks w' = plain_blocks w" unfolding plain_blocks_def m by (simp add: w')
  show f: "bt_refs w' = bt_refs w" by (rule ext) (simp add: bt_refs_def w')
  show "res_inv E w' = res_inv E w" unfolding res_inv_def r p f by (simp add: w')
qed

lemma tr_only_transp [simp, intro]: "transp tr_only"
  by (rule transpI) (rule tr_only_trans)

lemma tr_only_step:
  "tr_only w v \<Longrightarrow> tr_only w (v\<lparr>c_errno := e\<rparr>)"
  "tr_only w v \<Longrightarrow> tr_only w (v\<lparr>process := p\<rparr>)"
  "tr_only w v \<Longrightarrow> tr_only w (v\<lparr>child := c\<rparr>)"
  "tr_only w v \<Longrightarrow> tr_only w (set_status st v)"
  "tr_only w v \<Longrightarrow> tr_only w (set_pc pc v)"
  "tr_only w v \<Longrightarrow> tr_only w (mut_trace_open pid v)"
  by (auto intro: tr_only_trans)

lemma tr_log:
  assumes "\<And>v w'. op v = Some w' \<Longrightarrow> io_only v w'" and "tr_only w v"
  shows "within0 tr_only w (op v)"
  using assms io_only_tr_only tr_only_trans by (fastforce simp: within0_def)

lemma tr_logs:
  "tr_only w v \<Longrightarrow> within0 tr_only w (mut_log_fatal s e v)"
  "tr_only w v \<Longrightarrow> within0 tr_only w (mut_log_mem_full e v)"
  "tr_only w v \<Longrightarrow> within0 tr_only w (mut_log_error s v)"
  "tr_only w v \<Longrightarrow> within0 tr_only w (mut_log_warning s v)"
  "tr_only w v \<Longrightarrow> within0 tr_only w (mut_log_info s v)"
  "tr_only w v \<Longrightarrow> within0 tr_only w (mut_log_string s v)"
  "tr_only w v \<Longrightarrow> within0 tr_only w (mut_log_int i v)"
  "tr_only w v \<Longrightarrow> within0 tr_only w (mut_log_uint i v)"
  "tr_only w v \<Longrightarrow> within0 tr_only w (mut_log_uint64 u v)"
  "tr_only w v \<Longrightarrow> within0 tr_only w (mut_log_uint_hex i v)"
  "tr_only w v \<Longrightarrow> within0 tr_only w (mut_log_long i v)"
  "tr_only w v \<Longrightarrow> within0 tr_only w (mut_log_ulong i v)"
  by (rule tr_log, erule mut_io_only, assumption)+

lemma tr_log_end: "tr_only w v \<Longrightarrow> within tr_only w (mut_log_end v)"
  using mut_io_only(13) io_only_tr_only tr_only_trans by (fastforce simp: within_def)

lemmas tr_intros = within_intros within_prod within0_prod within_pure_intros tr_only_transp tr_only_update(1) tr_only_step tr_logs tr_log_end

lemma tr_failure [intro]:
  "tr_only w v \<Longrightarrow> within0 tr_only w (trace_failure msg v (mut_log_uint_hex a))"
  "tr_only w v \<Longrightarrow> within0 tr_only w (trace_failure msg v (mut_log_uint a))"
  unfolding trace_failure_def by (intro tr_intros; assumption)+

lemma ptrace_peek_only: "tr_only w v \<Longrightarrow> tr_only w (snd (ptrace_peek x v))"
  by (auto simp: ptrace_peek_def split: option.splits intro: tr_only_step)

lemma tr_peek:
  assumes "tr_only w v" and "\<And>d u. tr_only w u \<Longrightarrow> within tr_only w (f d u)"
  shows "within tr_only w (case ptrace_peek x v of (d, u) \<Rightarrow> f d u)"
  using assms ptrace_peek_only [of w v x] by (simp split: prod.split) (metis snd_conv)

lemma tr_trace:
  "tr_only w v \<Longrightarrow> within tr_only w (mut_trace_read_text addr v)"
  "tr_only w v \<Longrightarrow> within tr_only w (mut_trace_read_data addr v)"
  "tr_only w v \<Longrightarrow> within tr_only w (mut_trace_read_reg reg v)"
  "tr_only w v \<Longrightarrow> within tr_only w (mut_trace_write_text addr d v)"
  "tr_only w v \<Longrightarrow> within tr_only w (mut_trace_write_data addr d v)"
  "tr_only w v \<Longrightarrow> within tr_only w (mut_trace_write_reg reg d v)"
  "tr_only w v \<Longrightarrow> within tr_only w (mut_trace_continue sig v)"
  unfolding mut_trace_read_text_def mut_trace_read_data_def mut_trace_read_reg_def mut_trace_write_text_def
    mut_trace_write_data_def mut_trace_write_reg_def mut_trace_continue_def Let_def
  by (intro tr_peek tr_failure tr_intros; assumption)+


lemma within_wait_result:
  "(\<And>e. within R w (f e)) \<Longrightarrow> (\<And>s. within R w (g s)) \<Longrightarrow>
   within R w (case r of Wait_failed e \<Rightarrow> f e | Wait_status s \<Rightarrow> g s)"
  by (simp split: wait_result.split)

lemma tr_kill: "tr_only w v \<Longrightarrow> within0 tr_only w (mut_trace_kill v)"
  unfolding mut_trace_kill_def by (intro tr_intros; assumption)

lemma tr_arch:
  "tr_only w v \<Longrightarrow> within tr_only w (mut_process_read_pc v)"
  "tr_only w v \<Longrightarrow> within tr_only w (mut_process_write_pc pc v)"
  "tr_only w v \<Longrightarrow> within tr_only w (mut_process_read_arg n v)"
  "tr_only w v \<Longrightarrow> within tr_only w (mut_process_write_arg n a v)"
  "tr_only w v \<Longrightarrow> within tr_only w (mut_process_function_return_addr v)"
  "tr_only w v \<Longrightarrow> within tr_only w (mut_process_read_result v)"
  "tr_only w v \<Longrightarrow> within tr_only w (mut_process_write_result a v)"
  "tr_only w v \<Longrightarrow> within tr_only w (mut_process_skip_to pc v)"
  unfolding mut_process_read_pc_def mut_process_write_pc_def mut_process_read_arg_def mut_process_write_arg_def
    mut_process_function_return_addr_def mut_process_read_result_def mut_process_write_result_def
    mut_process_skip_to_def Let_def
  by (intro tr_trace tr_intros; assumption)+

lemma tr_wait_round: "within tr_only w (wait_round st w)"
  unfolding wait_round_def Let_def
  by (intro within_wait_result tr_arch tr_trace tr_intros)

lemma tr_wait_loop:
  fixes w :: "('p, 'a) proc_world_scheme"
  shows "wait_loop st w = Some r \<Longrightarrow> tr_only w (snd r)"
proof (erule wait_loop.raw_induct [where P = "\<lambda>st w r. tr_only w (snd r)", rotated])
  fix rec :: "u32 \<Rightarrow> ('p, 'a) proc_world_scheme \<Rightarrow> ((int \<times> u32 option) \<times> ('p, 'a) proc_world_scheme) option"
    and st w r
  assume IH: "\<And>st w r. rec st w = Some r \<Longrightarrow> tr_only w (snd r)"
    and "do { (r, w) \<leftarrow> wait_round st w; case r of Inl result \<Rightarrow> Some (result, w) | Inr st \<Rightarrow> rec st w } = Some r"
  then obtain x v where x: "wait_round st w = Some (x, v)"
    and r: "(case x of Inl result \<Rightarrow> Some (result, v) | Inr st \<Rightarrow> rec st v) = Some r"
    by (auto split: bind_splits)
  have "tr_only w v" using withinD [OF tr_wait_round x] .
  with r IH [of _ v r] show "tr_only w (snd r)"
    by (cases x) (auto intro: tr_only_trans)
qed

lemma tr_wait: "tr_only w v \<Longrightarrow> within tr_only w (mut_process_wait v)"
  using tr_wait_loop [of _ v]
  by (fastforce simp: mut_process_wait_def within_def bind_assert_c intro: tr_only_trans split: if_splits)

lemma tr_process:
  "tr_only w v \<Longrightarrow> within tr_only w (mut_process_breakpoint pc v)"
  "tr_only w v \<Longrightarrow> within tr_only w (mut_process_restore pc i v)"
  "tr_only w v \<Longrightarrow> within tr_only w (mut_process_resume v)"
  "tr_only w v \<Longrightarrow> within tr_only w (mut_process_read_word a v)"
  "tr_only w v \<Longrightarrow> within tr_only w (mut_process_write_word a n v)"
  unfolding mut_process_breakpoint_def mut_process_restore_def mut_process_resume_def
    mut_process_read_word_def mut_process_write_word_def
  by (intro tr_arch tr_trace tr_intros; assumption)+

lemma tr_memcpy_words: "tr_only w v \<Longrightarrow> within tr_only w (memcpy_words n d s v)"
proof (induction n arbitrary: w d s v)
  case 0
  then show ?case by (simp add: within_Some)
next
  case (Suc n)
  show ?case unfolding memcpy_words.simps
    by (intro Suc tr_trace tr_intros)
qed

lemma tr_memset_words: "tr_only w v \<Longrightarrow> within tr_only w (memset_words n a pat v)"
proof (induction n arbitrary: w a v)
  case 0
  then show ?case by (simp add: within_Some)
next
  case (Suc n)
  show ?case unfolding memset_words.simps
    by (intro Suc tr_trace tr_intros)
qed

lemma tr_mem:
  "tr_only w v \<Longrightarrow> within tr_only w (mut_process_memcpy d s n v)"
  "tr_only w v \<Longrightarrow> within tr_only w (mut_process_memset a c n v)"
  unfolding mut_process_memcpy_def mut_process_memset_def Let_def
  by (intro tr_memcpy_words tr_memset_words tr_trace tr_intros; assumption)+

lemma tr_close: "tr_only w v \<Longrightarrow> within0 tr_only w (mut_process_close v)"
  unfolding mut_process_close_def mut_trace_close_def
  by (intro tr_kill tr_intros; assumption)


section \<open>Successful requests\<close>

text \<open>The requests on a system whose successful reads clear \<open>errno\<close>.\<close>

definition clean :: "('p, 'a) proc_world_scheme \<Rightarrow> bool" where
  "clean w \<longleftrightarrow> os_peek_clears_errno (os w)"

lemma clean_tr [simp]: "tr_only w w' \<Longrightarrow> clean w' = clean w"
  by (simp add: clean_def tr_only_same(7))

lemma clean_update [simp]:
  "clean (w\<lparr>c_errno := e\<rparr>) = clean w"
  "clean (w\<lparr>child := c\<rparr>) = clean w"
  "clean (w\<lparr>process := p\<rparr>) = clean w"
  "clean (set_status st w) = clean w"
  "clean (set_pc pc w) = clean w"
  by (simp_all add: clean_def set_status_def set_pc_def)

lemma trace_read_ok:
  assumes "clean w" and "read_word (cmem (child w)) a = Some d"
  shows "mut_trace_read_data a w = Some (Some d, w\<lparr>c_errno := 0\<rparr>)"
    and "mut_trace_read_text a w = Some (Some d, w\<lparr>c_errno := 0\<rparr>)"
  using assms by (simp_all add: mut_trace_read_data_def mut_trace_read_text_def ptrace_peek_def clean_def)

lemma trace_read_reg_ok:
  "clean w \<Longrightarrow> regs (child w) r = Some d \<Longrightarrow> mut_trace_read_reg r w = Some (Some d, w\<lparr>c_errno := 0\<rparr>)"
  by (simp add: mut_trace_read_reg_def ptrace_peek_def clean_def)

lemma trace_write_ok:
  assumes "read_word (cmem (child w)) a = Some d"
  shows "mut_trace_write_data a v w = Some (True, w\<lparr>child := (child w)\<lparr>cmem := put_word a v (cmem (child w))\<rparr>\<rparr>)"
    and "mut_trace_write_text a v w = Some (True, w\<lparr>child := (child w)\<lparr>cmem := put_word a v (cmem (child w))\<rparr>\<rparr>)"
  using assms by (simp_all add: mut_trace_write_data_def mut_trace_write_text_def write_word_def)

lemma trace_write_reg_ok:
  "regs (child w) r = Some d \<Longrightarrow>
   mut_trace_write_reg r v w = Some (True, w\<lparr>child := (child w)\<lparr>regs := (regs (child w))(r \<mapsto> v)\<rparr>\<rparr>)"
  by (simp add: mut_trace_write_reg_def)

section \<open>Waiting\<close>

lemma WIFSTOPPED_TERMSIG: "WIFSTOPPED s \<Longrightarrow> WTERMSIG s = 0x7f"
proof -
  assume "WIFSTOPPED s"
  then have "(s AND 0xff) AND 0x7f = 0x7f AND (0x7f :: u32)" by (simp add: WIFSTOPPED_def)
  then show ?thesis by (simp add: WTERMSIG_def and.assoc)
qed

lemma WIFSTOPPED_cases: "WIFSTOPPED s \<Longrightarrow> \<not> WIFEXITED s \<and> \<not> WIFSIGNALED s"
  by (simp add: WIFEXITED_def WIFSIGNALED_def WIFSTOPPED_TERMSIG)

text \<open>The child stops for the signals of a list, which are passed on to it, and then waiting gives \<open>r\<close>.\<close>

inductive signals_then :: "'p os \<Rightarrow> 'p child \<Rightarrow> u32 list \<Rightarrow> wait_result \<Rightarrow> 'p child \<Rightarrow> bool" for sys where
  now: "os_wait sys c = (r, c') \<Longrightarrow> signals_then sys c [] r c'"
| signal: "os_wait sys c = (Wait_status s, c1) \<Longrightarrow> WIFSTOPPED s \<Longrightarrow> WSTOPSIG s \<noteq> SIGTRAP \<Longrightarrow>
    os_continue sys c1 (WSTOPSIG s) = Some c2 \<Longrightarrow> signals_then sys c2 sigs r c' \<Longrightarrow>
    signals_then sys c (WSTOPSIG s # sigs) r c'"

inductive_cases signals_then_NilE: "signals_then sys c [] r c'"
inductive_cases signals_then_ConsE: "signals_then sys c (s # sigs) r c'"

lemma wait_loop_signals:
  assumes "signals_then (os w) (child w) sigs r c'"
  shows "\<exists>c st'. os_wait (os w) c = (r, c') \<and> wait_loop st w = wait_loop st' (w\<lparr>child := c\<rparr>)"
  using assms
proof (induction sigs arbitrary: w st)
  case Nil
  then have "os_wait (os w) (child w) = (r, c')" by (rule signals_then_NilE)
  moreover have "w\<lparr>child := child w\<rparr> = w" by simp
  ultimately show ?case by metis
next
  case (Cons sg sigs)
  from Cons.prems obtain s c1 c2 where s: "os_wait (os w) (child w) = (Wait_status s, c1)" "WIFSTOPPED s"
      "WSTOPSIG s \<noteq> SIGTRAP" "os_continue (os w) c1 (WSTOPSIG s) = Some c2" "signals_then (os w) c2 sigs r c'"
    by (rule signals_then_ConsE) blast
  have "wait_round st w = Some (Inr s, w\<lparr>child := c2\<rparr>)"
    using s WIFSTOPPED_cases [OF s(2)] by (simp add: wait_round_def mut_trace_continue_def)
  then have "wait_loop st w = wait_loop s (w\<lparr>child := c2\<rparr>)"
    by (simp add: wait_loop.simps [of st w])
  moreover from Cons.IH [of "w\<lparr>child := c2\<rparr>" s] s(5) obtain c st' where
    "os_wait (os w) c = (r, c')" "wait_loop s (w\<lparr>child := c2\<rparr>) = wait_loop st' (w\<lparr>child := c\<rparr>)" by auto
  ultimately show ?case by metis
qed

lemma mut_process_wait_trap:
  assumes "signals_then (os w) (child w) sigs (Wait_status s) c" and "WIFSTOPPED s" and "WSTOPSIG s = SIGTRAP"
    and "regs c mut_process_arch_regs_eip = Some pc" and "clean w" and "p_status (process w) = Status_running"
  shows "mut_process_wait w = Some ((1, Some (pc - 1)),
    set_pc (pc - 1) (set_status Status_stopped (w\<lparr>child := c, c_errno := 0\<rparr>)))"
proof -
  from wait_loop_signals [OF assms(1)] obtain c0 st' where c0: "os_wait (os w) c0 = (Wait_status s, c)"
    "wait_loop (c_indet w [5]) w = wait_loop st' (w\<lparr>child := c0\<rparr>)" by metis
  have "wait_round st' (w\<lparr>child := c0\<rparr>) = Some (Inl (1, Some (pc - 1)),
      set_pc (pc - 1) (set_status Status_stopped (w\<lparr>child := c, c_errno := 0\<rparr>)))"
    using c0(1) assms(2-5) WIFSTOPPED_cases [OF assms(2)]
    by (simp add: wait_round_def mut_process_read_pc_def p_stopped_def set_status_def trace_read_reg_ok
        mut_pc_adjust_def set_pc_def clean_def)
  then show ?thesis
    using c0(2) assms(6) by (simp add: mut_process_wait_def wait_loop.simps [of st'])
qed

lemma mut_process_wait_exit:
  assumes "signals_then (os w) (child w) sigs (Wait_status s) c" and "WIFEXITED s \<or> WIFSIGNALED s"
    and "p_status (process w) = Status_running" and "log_idle w" and "writes_ok w"
  shows "mut_process_wait w = Some ((-1, None), set_status Status_exited (log_emit
     (if WIFEXITED s then log_line (program_name (the_log w)) Info ''process.exited'' [LInt (WEXITSTATUS s)]
      else log_line (program_name (the_log w)) Info ''process.signaled'' [LInt (WTERMSIG s)]) (w\<lparr>child := c\<rparr>)))"
proof -
  from wait_loop_signals [OF assms(1)] obtain c0 st' where c0: "os_wait (os w) c0 = (Wait_status s, c)"
    "wait_loop (c_indet w [5]) w = wait_loop st' (w\<lparr>child := c0\<rparr>)" by metis
  have "log_idle (w\<lparr>child := c\<rparr>)" "writes_ok (w\<lparr>child := c\<rparr>)" using assms(4,5) by (simp_all add: log_idle_def writes_ok_def)
  then have "wait_round st' (w\<lparr>child := c0\<rparr>) = Some (Inl (-1, None), set_status Status_exited (log_emit
     (if WIFEXITED s then log_line (program_name (the_log w)) Info ''process.exited'' [LInt (WEXITSTATUS s)]
      else log_line (program_name (the_log w)) Info ''process.signaled'' [LInt (WTERMSIG s)]) (w\<lparr>child := c\<rparr>)))"
    using c0(1) assms(2) by (cases "WIFEXITED s") (simp_all add: wait_round_def log_line_def Let_def)
  then show ?thesis
    using c0(2) assms(3) by (simp add: mut_process_wait_def wait_loop.simps [of st'])
qed


section \<open>Requests on a stopped process\<close>

definition set_mem :: "bytes \<Rightarrow> ('p, 'a) proc_world_scheme \<Rightarrow> ('p, 'a) proc_world_scheme" where
  "set_mem m w = w\<lparr>child := (child w)\<lparr>cmem := m\<rparr>\<rparr>"

definition set_reg :: "u32 \<Rightarrow> u32 \<Rightarrow> ('p, 'a) proc_world_scheme \<Rightarrow> ('p, 'a) proc_world_scheme" where
  "set_reg r v w = w\<lparr>child := (child w)\<lparr>regs := (regs (child w))(r \<mapsto> v)\<rparr>\<rparr>"

text \<open>What the requests read of a state.\<close>

lemma set_simps [simp]:
  "cmem (child (set_mem m w)) = m" "regs (child (set_mem m w)) = regs (child w)"
  "cmem (child (set_reg r v w)) = cmem (child w)" "regs (child (set_reg r v w)) = (regs (child w))(r \<mapsto> v)"
  "p_stopped (set_mem m w) = p_stopped w" "p_stopped (set_reg r v w) = p_stopped w"
  "p_stopped (set_pc pc w) = p_stopped w" "p_stopped (w\<lparr>c_errno := e\<rparr>) = p_stopped w"
  "clean (set_mem m w) = clean w" "clean (set_reg r v w) = clean w"
  "child (set_pc pc w) = child w" "process (set_mem m w) = process w" "process (set_reg r v w) = process w"
  "p_pc (process (set_pc pc w)) = pc"
  "bts (set_mem m w) = bts w"
  by (simp_all add: set_mem_def set_reg_def p_stopped_def set_pc_def clean_def)

lemmas trace_ok = trace_read_ok trace_read_reg_ok trace_write_ok [folded set_mem_def] trace_write_reg_ok [folded set_reg_def]

lemma set_mem_same: "set_mem (cmem (child w)) w = w"
  by (simp add: set_mem_def)

lemma breakpoint_ok:
  assumes "clean w" and "p_stopped w" and "read_word (cmem (child w)) pc = Some i"
  shows "mut_process_breakpoint pc w =
    Some (Some i, set_mem (put_word pc mut_instr_bp (cmem (child w))) (w\<lparr>c_errno := 0\<rparr>))"
  using assms by (simp add: mut_process_breakpoint_def trace_ok)

lemma restore_ok:
  assumes "p_stopped w" and "read_word (cmem (child w)) pc = Some x"
  shows "mut_process_restore pc i w = Some (True, set_mem (put_word pc i (cmem (child w))) w)"
  using assms by (simp add: mut_process_restore_def trace_ok)

section \<open>Copying and filling: the effect\<close>

text \<open>The \<open>n\<close> bytes from an address on.\<close>

definition span :: "u32 \<Rightarrow> nat \<Rightarrow> u32 set" where
  "span a n = (\<lambda>i. a + of_nat i) ` {..<n}"

lemma less_4: "(i :: nat) < 4 \<longleftrightarrow> i = 0 \<or> i = 1 \<or> i = 2 \<or> i = 3"
  by auto

lemma span_4: "span a 4 = word_addrs a"
proof -
  have "{..<4} = {0, 1, 2, 3 :: nat}" by auto
  then show ?thesis by (simp add: span_def word_addrs_def)
qed

lemma span_add: "span a (m + n) = span a m \<union> span (a + of_nat m) n"
proof -
  have "{..<m + n} = {..<m} \<union> (\<lambda>i. m + i) ` {..<n}"
  proof -
    have "x \<in> (+) m ` {..<n}" if "x < m + n" "\<not> x < m" for x
      by (rule image_eqI [where x = "x - m"]) (use that in auto)
    then show ?thesis by auto
  qed
  then show ?thesis by (auto simp: span_def image_Un image_image add.assoc)
qed

lemma span_Suc: "span a (4 * Suc n) = word_addrs a \<union> span (a + 4) (4 * n)"
  using span_add [of a 4 "4 * n"] by (simp add: span_4)

lemma span_mono: "m \<le> n \<Longrightarrow> span a m \<subseteq> span a n"
  by (auto simp: span_def)

lemma span_word: "i < n \<Longrightarrow> a + of_nat i \<in> span a n"
  by (simp add: span_def)

lemma span_inj: "n \<le> 2 ^ 32 \<Longrightarrow> i < n \<Longrightarrow> j < n \<Longrightarrow> a + of_nat i = a + (of_nat j :: u32) \<longleftrightarrow> i = j"
  by (simp add: word_of_nat_eq_iff take_bit_nat_eq_self)

text \<open>\<open>copied\<close>: \<open>m'\<close> is \<open>m\<close> with the bytes of \<open>f\<close> in the span.\<close>

definition filled :: "u32 \<Rightarrow> nat \<Rightarrow> (nat \<Rightarrow> u8 option) \<Rightarrow> bytes \<Rightarrow> bytes \<Rightarrow> bool" where
  "filled a n f m m' \<longleftrightarrow> (\<forall>i < n. m' (a + of_nat i) = f i) \<and> (\<forall>x. x \<notin> span a n \<longrightarrow> m' x = m x)"

lemma filled_0 [simp]: "filled a 0 f m m' \<longleftrightarrow> m' = m"
  by (auto simp: filled_def span_def)

lemma filled_add:
  assumes "filled a k f m m'" and "filled (a + of_nat k) n g m' m''" and "k + n \<le> 2 ^ 32"
  shows "filled a (k + n) (\<lambda>i. if i < k then f i else g (i - k)) m m''"
proof -
  have "m'' (a + of_nat i) = f i" if "i < k" for i
  proof -
    have "a + of_nat i \<notin> span (a + of_nat k) n"
    proof
      assume "a + of_nat i \<in> span (a + of_nat k) n"
      then obtain j where "j < n" "a + of_nat i = a + of_nat (k + j)" by (auto simp: span_def algebra_simps)
      with assms(3) that span_inj [of "k + n" i "k + j" a] show False by simp
    qed
    with assms(1,2) that show ?thesis by (simp add: filled_def)
  qed
  moreover have "m'' (a + of_nat i) = g (i - k)" if "\<not> i < k" "i < k + n" for i
  proof -
    have "a + of_nat i = a + of_nat k + of_nat (i - k)" using that by (simp add: of_nat_diff)
    then show ?thesis using assms(2) that unfolding filled_def by (metis less_diff_conv2 not_less add.commute)
  qed
  moreover have "m'' x = m x" if "x \<notin> span a (k + n)" for x
    using that assms(1,2) by (simp add: filled_def span_add)
  ultimately show ?thesis by (auto simp: filled_def)
qed

lemma filled_put_word: "filled a 4 (\<lambda>i. Some (byte_of_word i v)) m (put_word a v m)"
  by (auto simp: filled_def less_4 put_word_bytes [simplified] span_4 put_word_other)

lemma filled_step:
  assumes "filled (a + 4) (4 * n) g (put_word a v m) m'" and "4 * Suc n \<le> 2 ^ 32"
  shows "filled a (4 * Suc n) (\<lambda>i. if i < 4 then Some (byte_of_word i v) else g (i - 4)) m m'"
  using filled_add [OF filled_put_word, where n = "4 * n"] assms by simp

lemma filled_cong: "filled a n f m m' \<Longrightarrow> (\<And>i. i < n \<Longrightarrow> f i = g i) \<Longrightarrow> filled a n g m m'"
  by (simp add: filled_def)

lemma set_mem_twice [simp]: "set_mem m' (set_mem m w) = set_mem m' w"
  by (simp add: set_mem_def)

lemma readable: "span a 4 \<subseteq> dom m \<Longrightarrow> \<exists>v. read_word m a = Some v"
  using read_word_None [of m a] by (auto simp: span_4)

lemma memset_words_ok:
  "span a (4 * n) \<subseteq> dom (cmem (child w)) \<Longrightarrow> 4 * n \<le> 2 ^ 32 \<Longrightarrow>
   \<exists>m. memset_words n a pat w = Some (Some (a + of_nat (4 * n)), set_mem m w) \<and>
     dom m = dom (cmem (child w)) \<and>
     filled a (4 * n) (\<lambda>i. Some (byte_of_word (i mod 4) pat)) (cmem (child w)) m"
proof (induction n arbitrary: a w)
  case 0
  then show ?case by (auto simp: set_mem_same intro!: exI [of _ "cmem (child w)"])
next
  case (Suc n)
  let ?m = "put_word a pat (cmem (child w))"
  have sub: "span a 4 \<subseteq> dom (cmem (child w))" "span (a + 4) (4 * n) \<subseteq> dom (cmem (child w))"
    using Suc.prems(1) unfolding span_Suc span_4 by auto
  obtain v where "read_word (cmem (child w)) a = Some v" using readable [OF sub(1)] by blast
  then have 1: "mut_trace_write_data a pat w = Some (True, set_mem ?m w)" by (rule trace_ok)
  have dom: "dom ?m = dom (cmem (child w))" using sub(1) by (simp add: put_word_dom span_4)
  obtain m where m: "memset_words n (a + 4) pat (set_mem ?m w) = Some (Some (a + 4 + of_nat (4 * n)), set_mem m (set_mem ?m w))"
     "dom m = dom ?m" "filled (a + 4) (4 * n) (\<lambda>i. Some (byte_of_word (i mod 4) pat)) ?m m"
    using Suc.IH [of "a + 4" "set_mem ?m w"] sub(2) dom Suc.prems(2) by auto
  have "filled a (4 * Suc n) (\<lambda>i. Some (byte_of_word (i mod 4) pat)) (cmem (child w)) m"
    by (rule filled_cong [OF filled_step [OF m(3) Suc.prems(2)]]) (simp add: mod_if)
  then show ?case using 1 m(1,2) dom by (auto simp: algebra_simps)
qed

lemma memcpy_words_ok:
  "clean w \<Longrightarrow> span d (4 * n) \<subseteq> dom (cmem (child w)) \<Longrightarrow> span s (4 * n) \<subseteq> dom (cmem (child w)) \<Longrightarrow>
   span d (4 * n) \<inter> span s (4 * n) = {} \<Longrightarrow> 4 * n \<le> 2 ^ 32 \<Longrightarrow>
   \<exists>m e. memcpy_words n d s w =
       Some (Some (d + of_nat (4 * n), s + of_nat (4 * n)), set_mem m (w\<lparr>c_errno := e\<rparr>)) \<and>
     dom m = dom (cmem (child w)) \<and>
     filled d (4 * n) (\<lambda>i. cmem (child w) (s + of_nat i)) (cmem (child w)) m"
proof (induction n arbitrary: d s w)
  case 0
  have "set_mem (cmem (child w)) (w\<lparr>c_errno := c_errno w\<rparr>) = w" by (simp add: set_mem_same)
  then show ?case by (intro exI [of _ "cmem (child w)"] exI [of _ "c_errno w"]) simp
next
  case (Suc n)
  let ?old = "cmem (child w)"
  have sub: "span d 4 \<subseteq> dom ?old" "span (d + 4) (4 * n) \<subseteq> dom ?old" "span s 4 \<subseteq> dom ?old"
      "span (s + 4) (4 * n) \<subseteq> dom ?old" "word_addrs d \<inter> span (s + 4) (4 * n) = {}"
      "span (d + 4) (4 * n) \<inter> span (s + 4) (4 * n) = {}"
    using Suc.prems(2-4) unfolding span_Suc span_4 by auto
  obtain v u where v: "read_word ?old s = Some v" and u: "read_word ?old d = Some u"
    using readable sub(1,3) by blast
  let ?m = "put_word d v ?old"
  let ?w = "set_mem ?m (w\<lparr>c_errno := 0\<rparr>)"
  have step: "mut_trace_read_data s w = Some (Some v, w\<lparr>c_errno := 0\<rparr>)"
    "mut_trace_write_data d v (w\<lparr>c_errno := 0\<rparr>) = Some (True, ?w)"
    using Suc.prems(1) v u by (simp_all add: trace_ok)
  have dom: "dom ?m = dom ?old" using sub(1) by (simp add: put_word_dom span_4)
  have prem: "clean ?w" "span (d + 4) (4 * n) \<subseteq> dom (cmem (child ?w))" "span (s + 4) (4 * n) \<subseteq> dom (cmem (child ?w))"
      "span (d + 4) (4 * n) \<inter> span (s + 4) (4 * n) = {}" "4 * n \<le> 2 ^ 32"
    using Suc.prems(1,5) sub(2,4,6) by (simp_all add: dom)
  obtain m e where m: "memcpy_words n (d + 4) (s + 4) ?w =
       Some (Some (d + 4 + of_nat (4 * n), s + 4 + of_nat (4 * n)), set_mem m (?w\<lparr>c_errno := e\<rparr>))"
     "dom m = dom ?m" "filled (d + 4) (4 * n) (\<lambda>i. ?m (s + 4 + of_nat i)) ?m m"
    using Suc.IH [OF prem] unfolding set_simps by blast
  have "filled d (4 * Suc n) (\<lambda>i. ?old (s + of_nat i)) ?old m"
  proof (rule filled_cong [OF filled_step [OF m(3) Suc.prems(5)]])
    fix i
    assume i: "i < 4 * Suc n"
    show "(if i < 4 then Some (byte_of_word i v) else ?m (s + 4 + of_nat (i - 4))) = ?old (s + of_nat i)"
    proof (cases "i < 4")
      case True
      with v show ?thesis by (auto simp: less_4 read_word_Some)
    next
      case False
      then have eq: "s + 4 + of_nat (i - 4) = s + of_nat i" by (simp add: of_nat_diff)
      have "s + 4 + of_nat (i - 4) \<in> span (s + 4) (4 * n)" using i False by (intro span_word) simp
      then have "s + of_nat i \<notin> word_addrs d" unfolding eq using sub(5) by blast
      with eq show ?thesis using False by (simp add: put_word_other)
    qed
  qed
  moreover have "set_mem m (?w\<lparr>c_errno := e\<rparr>) = set_mem m (w\<lparr>c_errno := e\<rparr>)" by (simp add: set_mem_def)
  ultimately show ?case using step m(1,2) dom by (auto simp: algebra_simps)
qed

lemma bit_byte_mask: "0 < r \<Longrightarrow> bit (mut_process_byte_mask r) n \<longleftrightarrow> n < 8 * (4 - r)"
  by (auto simp: mut_process_byte_mask_def push_bit_of_1 bit_mask_iff simp flip: mask_eq_exp_minus_1)

lemma byte_of_tail:
  "0 < r \<Longrightarrow> j < 4 \<Longrightarrow> byte_of_word j (d OR (u AND mut_process_byte_mask r)) =
     byte_of_word j d OR (if j < 4 - r then byte_of_word j u else 0)"
  by (rule bit_word_eqI) (auto simp: bit_byte_of_word bit_simps bit_byte_mask)

lemma byte_of_pattern:
  fixes b :: u8
  assumes "j < 4"
  shows "byte_of_word j (ucast b OR push_bit 8 (ucast b) OR push_bit 16 (ucast b) OR push_bit 24 (ucast b)) = b"
  using byte_of_word_of_bytes [of b b b b] assms
  by (auto simp: less_4 simp flip: word_of_bytes_def)

text \<open>The tail of \<open>mut_process_memcpy\<close> and \<open>mut_process_memset\<close>: one word, partly kept.\<close>

lemma filled_tail:
  assumes "read_word m t = Some u" and "0 < r"
  shows "filled t 4 (\<lambda>j. Some (byte_of_word j d OR (if j < 4 - r then byte_of_word j u else 0))) m
    (put_word t (d OR (u AND mut_process_byte_mask r)) m)"
  by (rule filled_cong [OF filled_put_word]) (simp add: byte_of_tail assms(2))

section \<open>The calling convention\<close>

lemma read_pc_arg_ok:
  assumes "clean w" and "p_stopped w" and "regs (child w) mut_process_arch_regs_esp = Some sp"
  shows "read_word (cmem (child w)) sp = Some ra \<Longrightarrow>
      mut_process_function_return_addr w = Some (Some ra, w\<lparr>c_errno := 0\<rparr>)"
    and "read_word (cmem (child w)) (sp + 4 + n * 4) = Some x \<Longrightarrow>
      mut_process_read_arg n w = Some (Some x, w\<lparr>c_errno := 0\<rparr>)"
    and "read_word (cmem (child w)) (sp + 4 + n * 4) = Some x \<Longrightarrow>
      mut_process_write_arg n y w =
        Some (True, set_mem (put_word (sp + 4 + n * 4) y (cmem (child w))) (w\<lparr>c_errno := 0\<rparr>))"
    and "mut_process_skip_to pc w =
        Some (True, set_reg mut_process_arch_regs_esp (sp + 4) ((set_pc pc w)\<lparr>c_errno := 0\<rparr>))"
  using assms
  by (simp_all add: mut_process_function_return_addr_def mut_process_read_arg_def mut_process_write_arg_def
      mut_process_skip_to_def trace_ok mut_arg_size_def Let_def set_pc_def p_stopped_def clean_def)

section \<open>Walking the stack\<close>

text \<open>The return addresses of a chain of frames: the frame pointers grow, and the chain ends at a pointer that
  does not or at a return address of 0. Each is reported as the address of its call instruction.\<close>

inductive frame_chain :: "bytes \<Rightarrow> u32 \<Rightarrow> u32 \<Rightarrow> u32 list \<Rightarrow> bool" for mem where
  last_frame: "\<not> (ebp \<noteq> 0 \<and> base < ebp) \<Longrightarrow> frame_chain mem ebp base []"
| no_caller: "ebp \<noteq> 0 \<Longrightarrow> base < ebp \<Longrightarrow> read_word mem (ebp + 4) = Some 0 \<Longrightarrow> frame_chain mem ebp base []"
| frame: "ebp \<noteq> 0 \<Longrightarrow> base < ebp \<Longrightarrow> read_word mem (ebp + 4) = Some ra \<Longrightarrow> ra \<noteq> 0 \<Longrightarrow>
    read_word mem ebp = Some up \<Longrightarrow> frame_chain mem up ebp ras \<Longrightarrow> frame_chain mem ebp base ((ra - 5) # ras)"

text \<open>What walking changes: the frames of one backtrace.\<close>

definition set_frames :: "ptr \<Rightarrow> mut_backtrace \<Rightarrow> u32 list \<Rightarrow> ('p, 'a) proc_world_scheme \<Rightarrow> ('p, 'a) proc_world_scheme" where
  "set_frames bt b fs w = w\<lparr>c_errno := 0, bts := (bts w)(bt \<mapsto> b\<lparr>frames := fs\<rparr>)\<rparr>"

lemma set_frames_simps [simp]:
  "child (set_frames bt b fs w) = child w" "process (set_frames bt b fs w) = process w"
  "clean (set_frames bt b fs w) = clean w" "bts (set_frames bt b fs w) = (bts w)(bt \<mapsto> b\<lparr>frames := fs\<rparr>)"
  "set_frames bt b' fs (set_frames bt b gs w) = set_frames bt b' fs w"
  "(set_frames bt b fs w)\<lparr>c_errno := 0\<rparr> = set_frames bt b fs w"
  "set_frames bt b fs (w\<lparr>c_errno := e\<rparr>) = set_frames bt b fs w"
  "set_frames bt (b\<lparr>frames := gs\<rparr>) fs w = set_frames bt b fs w"
  by (simp_all add: set_frames_def clean_def)

lemma enter_set_frames:
  assumes "bts w bt = Some b" and "bt \<noteq> 0"
  shows "length (frames b) < mut_backtrace_frames_max \<Longrightarrow>
      mut_backtrace_enter bt ra (w\<lparr>c_errno := 0\<rparr>) = Some (1, set_frames bt b (frames b @ [ra]) w)"
    and "\<not> length (frames b) < mut_backtrace_frames_max \<Longrightarrow>
      mut_backtrace_enter bt ra (w\<lparr>c_errno := 0\<rparr>) = Some (-1, w\<lparr>c_errno := 0\<rparr>)"
  using assms by (simp_all add: mut_backtrace_enter_def set_frames_def)

lemma backtrace_walk_chain:
  "frame_chain mem ebp base ras \<Longrightarrow> mem = cmem (child w) \<Longrightarrow> clean w \<Longrightarrow> bts w bt = Some b \<Longrightarrow> bt \<noteq> 0 \<Longrightarrow>
   length (frames b) \<le> mut_backtrace_frames_max \<Longrightarrow> c_errno w = 0 \<Longrightarrow>
   backtrace_walk bt ebp base w = Some (True, set_frames bt b (take mut_backtrace_frames_max (frames b @ ras)) w)"
proof (induction arbitrary: w b rule: frame_chain.induct)
  case (last_frame ebp base)
  then have "set_frames bt b (frames b) w = w" by (simp add: set_frames_def fun_upd_idem)
  with last_frame show ?case by (auto simp: backtrace_walk.simps [of bt ebp base])
next
  case (no_caller ebp base)
  then have "set_frames bt b (frames b) w = w" by (simp add: set_frames_def fun_upd_idem)
  moreover have "w\<lparr>c_errno := 0\<rparr> = w" using no_caller by simp
  ultimately show ?case
    using no_caller by (simp add: backtrace_walk.simps [of bt ebp base] trace_ok mut_arg_size_def)
next
  case (frame ebp base ra up ras)
  have idem: "w\<lparr>c_errno := 0\<rparr> = w" using frame.prems by simp
  show ?case
  proof (cases "length (frames b) < mut_backtrace_frames_max")
    case True
    let ?v = "set_frames bt b (frames b @ [ra - 5]) w"
    have "c_errno ?v = 0" by (simp add: set_frames_def)
    then have "backtrace_walk bt up ebp ?v = Some (True, set_frames bt (b\<lparr>frames := frames b @ [ra - 5]\<rparr>)
        (take mut_backtrace_frames_max ((frames b @ [ra - 5]) @ ras)) ?v)"
      using frame.IH [of ?v "b\<lparr>frames := frames b @ [ra - 5]\<rparr>"] True frame.prems by simp
    then show ?thesis
      using frame.hyps(1-5) frame.prems(1,2) enter_set_frames(1) [OF frame.prems(3,4) True]
      by (simp add: backtrace_walk.simps [of bt ebp base] trace_ok mut_arg_size_def idem del: take_append)
  next
    case False
    with frame.prems have "length (frames b) = mut_backtrace_frames_max" by simp
    then have "set_frames bt b (take mut_backtrace_frames_max (frames b @ ras')) w = w" for ras'
      using frame.prems by (simp add: set_frames_def fun_upd_idem)
    then show ?thesis
      using frame.hyps(1-5) frame.prems(1,2) enter_set_frames(2) [OF frame.prems(3,4) False]
      by (simp add: backtrace_walk.simps [of bt ebp base] trace_ok mut_arg_size_def idem)
  qed
qed

section \<open>A sample process\<close>

text \<open>A stopped child that has called a function: the call is at 0x40, in a function called at 0x80.\<close>

definition sample_cmem :: bytes where
  "sample_cmem = put_word 0x100 0x45 (put_word 0x114 0x85 (\<lambda>_. Some 0))"

definition sample_child :: "unit child" where
  "sample_child = \<lparr>regs = [mut_process_arch_regs_esp \<mapsto> 0x100, mut_process_arch_regs_ebp \<mapsto> 0x110,
       mut_process_arch_regs_eip \<mapsto> 0x1001, mut_process_arch_regs_eax \<mapsto> 0],
     cmem = sample_cmem, prog = ()\<rparr>"

definition sample_os :: "unit os" where
  "sample_os = \<lparr>os_continue = (\<lambda>c sig. Some c), os_wait = (\<lambda>c. (Wait_status 0x57f, c)), os_kill = Some,
     os_fork = (\<lambda>_. Some (7, sample_child)), os_traceme_fails = False, os_execv_fails = False,
     os_peek_clears_errno = True\<rparr>"

definition sample_proc :: "(unit, unit) proc_world_scheme" where
  "sample_proc = sample_world (log_world_ext sample_log_state
     (symtab_world_ext \<lparr>st_head = [], st_cache = 0, st_end = 0\<rparr>
     (exec_world_ext sample_exec (bt_world_ext [0x2000 \<mapsto> \<lparr>ref_count = 1, frames = []\<rparr>] (res_world_ext
        \<lparr>elems = [], really_free = False, n_active_elems = 0, n_consumed_elems = 0\<rparr>
        (proc_world_ext \<lparr>p_child = 7, p_status = Status_stopped, p_pc = 0x1000\<rparr> sample_child sample_os ()))))))"

lemma sample_proc [simp]:
  "clean sample_proc" "p_stopped sample_proc" "dom (cmem (child sample_proc)) = UNIV"
  "os sample_proc = sample_os" "bts sample_proc = [0x2000 \<mapsto> \<lparr>ref_count = 1, frames = []\<rparr>]"
  "child sample_proc = sample_child"
  by (simp_all add: clean_def sample_proc_def sample_os_def p_stopped_def sample_child_def sample_cmem_def put_word_def)
    (simp_all add: sample_world_def sample_child_def sample_cmem_def sample_os_def put_word_def)

lemma sample_cmem [simp]:
  "cmem sample_child = sample_cmem" "dom sample_cmem = UNIV"
  "read_word sample_cmem 0x100 = Some 0x45" "read_word sample_cmem 0x114 = Some 0x85"
  "read_word sample_cmem 0x110 = Some 0" "read_word sample_cmem 0x1000 = Some 0"
  by (simp_all add: sample_child_def sample_cmem_def put_word_def read_word_def word_of_bytes_def byte_of_word_def)

lemma sample_regs [simp]:
  "regs sample_child mut_process_arch_regs_esp = Some 0x100" "regs sample_child mut_process_arch_regs_ebp = Some 0x110"
  "regs sample_child mut_process_arch_regs_eip = Some 0x1001" "regs sample_child mut_process_arch_regs_eax = Some 0"
  by (simp_all add: sample_child_def mut_process_arch_regs_esp_def mut_process_arch_regs_ebp_def
      mut_process_arch_regs_eip_def mut_process_arch_regs_eax_def)

section \<open>Properties\<close>

text \<open>
  C25: \<open>mut_process_memset\<close> with a byte, on memory that is mapped: the whole words of the block are
  filled with the byte. When the size is not a multiple of four the word after them is written too,
  and there it is the last \<open>n mod 4\<close> bytes of the word that are set, while its first bytes keep their
  old bits beneath the byte; nothing else changes.
\<close>

theorem mut_process_memset_effect:
  fixes w :: "('p, 'a) proc_world_scheme" and b :: u8
  assumes "clean w" and "p_stopped w" and "addr_aligned a" and k: "k = unat n div 4" and r: "r = unat n mod 4"
    and "len = (if r = 0 then 4 * k else 4 * k + 4)"
    and "span a len \<subseteq> dom (cmem (child w))"
  shows "\<exists>m e. mut_process_memset a (ucast b) n w = Some (True, set_mem m (w\<lparr>c_errno := e\<rparr>)) \<and>
    filled a len (\<lambda>i. if i < 4 * k then Some b
        else if i < 4 * k + (4 - r) then map_option (\<lambda>old. b OR old) (cmem (child w) (a + of_nat i))
        else Some b) (cmem (child w)) m"
proof -
  let ?old = "cmem (child w)" and ?pat = "ucast b OR push_bit 8 (ucast b) OR push_bit 16 (ucast b) OR push_bit 24 (ucast b) :: u32"
  have lt: "unat n < 2 ^ 32" using unat_u32_less by simp
  have len: "len \<le> 2 ^ 32" "4 * k \<le> len"
  proof -
    have "unat n = 4 * k + r" "r < 4" unfolding k r by simp_all
    then have "4 * k + r < 4 * 1073741824" using lt by simp
    then have "k < 1073741824" by linarith
    then show "len \<le> 2 ^ 32" "4 * k \<le> len" using assms(6) by simp_all
  qed
  have sub: "span a (4 * k) \<subseteq> dom ?old" using assms(7) span_mono [OF len(2)] by blast
  have "4 * k \<le> 2 ^ 32" using len by simp
  from memset_words_ok [OF sub this] obtain m where m: "memset_words k a ?pat w = Some (Some (a + of_nat (4 * k)), set_mem m w)"
    "dom m = dom ?old" "filled a (4 * k) (\<lambda>i. Some (byte_of_word (i mod 4) ?pat)) ?old m" by blast
  have filled: "filled a (4 * k) (\<lambda>i. Some b) ?old m"
    by (rule filled_cong [OF m(3)]) (simp add: byte_of_pattern)
  show ?thesis
  proof (cases "r = 0")
    case True
    have "mut_process_memset a (ucast b) n w = Some (True, set_mem m (w\<lparr>c_errno := c_errno w\<rparr>))"
      using True assms(2,3) m(1) by (simp add: mut_process_memset_def Let_def flip: k r)
    moreover have "filled a len (\<lambda>i. if i < 4 * k then Some b
        else if i < 4 * k + (4 - r) then map_option (\<lambda>old. b OR old) (?old (a + of_nat i)) else Some b) ?old m"
      using True assms(6) by (simp add: filled_cong [OF filled])
    ultimately show ?thesis by blast
  next
    case False
    let ?t = "a + of_nat (4 * k)"
    have "span ?t 4 \<subseteq> dom ?old" using assms(6,7) False by (simp add: span_add)
    then obtain u where u: "read_word m ?t = Some u" using readable m(2) by metis
    let ?m = "put_word ?t (?pat OR (u AND mut_process_byte_mask r)) m"
    have "mut_process_memset a (ucast b) n w = Some (True, set_mem ?m (w\<lparr>c_errno := 0\<rparr>))"
      using False assms(1-3) m(1) u by (simp add: mut_process_memset_def Let_def trace_ok set_mem_def clean_def flip: k r)
    moreover have "filled a (4 * k + 4) (\<lambda>i. if i < 4 * k then Some b
        else if i < 4 * k + (4 - r) then map_option (\<lambda>old. b OR old) (?old (a + of_nat i)) else Some b) ?old ?m"
    proof (rule filled_cong)
      show "filled a (4 * k + 4) (\<lambda>i. if i < 4 * k then Some b
          else Some (byte_of_word (i - 4 * k) ?pat OR (if i - 4 * k < 4 - r then byte_of_word (i - 4 * k) u else 0))) ?old ?m"
        by (rule filled_add [OF filled filled_tail [OF u]]) (use False len assms(6) in auto)
    next
      fix i
      assume i: "i < 4 * k + 4"
      show "(if i < 4 * k then Some b
          else Some (byte_of_word (i - 4 * k) ?pat OR (if i - 4 * k < 4 - r then byte_of_word (i - 4 * k) u else 0))) =
         (if i < 4 * k then Some b
          else if i < 4 * k + (4 - r) then map_option (\<lambda>old. b OR old) (?old (a + of_nat i)) else Some b)"
      proof (cases "i < 4 * k")
        case False
        then obtain j where j: "i = 4 * k + j" "j < 4" using i by (metis add_less_cancel_left le_Suc_ex not_less)
        have "m (?t + of_nat j) = Some (byte_of_word j u)"
          using u j(2) by (auto simp: less_4 read_word_Some)
        moreover have "?t + of_nat j \<notin> span a (4 * k)"
          using span_inj [of "4 * k + 4" "4 * k + j" _ a] j(2) len(1) assms(6) \<open>r \<noteq> 0\<close>
          by (fastforce simp: span_def algebra_simps)
        ultimately have "?old (?t + of_nat j) = Some (byte_of_word j u)" using filled by (simp add: filled_def)
        moreover have "?t + of_nat j = a + of_nat i" by (simp add: j(1))
        ultimately show ?thesis using j by (simp add: byte_of_pattern add.assoc)
      qed simp
    qed
    ultimately show ?thesis using False assms(6) by auto
  qed
qed

lemma mut_process_memset_effect_witness:
  "\<exists>m e. mut_process_memset 0x1000 (ucast (0 :: u8)) 6 sample_proc = Some (True, set_mem m (sample_proc\<lparr>c_errno := e\<rparr>)) \<and>
    m 0x1000 = Some 0"
proof -
  have p: "addr_aligned 0x1000" "1 = unat (6 :: u32) div 4" "2 = unat (6 :: u32) mod 4"
    "8 = (if (2 :: nat) = 0 then 4 * 1 else 4 * 1 + 4 :: nat)" "span 0x1000 8 \<subseteq> dom (cmem (child sample_proc))"
    by (simp_all add: addr_aligned_def)
  from mut_process_memset_effect [OF sample_proc(1,2) p, of 0] obtain m e where
    m: "mut_process_memset 0x1000 (ucast (0 :: u8)) 6 sample_proc = Some (True, set_mem m (sample_proc\<lparr>c_errno := e\<rparr>))"
    and f: "filled 0x1000 8 (\<lambda>i. if i < 4 * 1 then Some 0 else if i < 4 * 1 + (4 - 2)
        then map_option (\<lambda>old. 0 OR old) (cmem (child sample_proc) (0x1000 + of_nat i)) else Some 0)
      (cmem (child sample_proc)) m" by blast
  from f have "m (0x1000 + of_nat 0) = Some 0" unfolding filled_def by fastforce
  with m show ?thesis by auto
qed

text \<open>
  \<open>mut_process_memcpy\<close> of a whole number of words between two blocks of mapped memory that do not
  overlap copies exactly the block, byte for byte, and changes nothing else.
\<close>

theorem mut_process_memcpy_copies:
  fixes w :: "('p, 'a) proc_world_scheme"
  assumes "clean w" and "p_stopped w" and "addr_aligned d" and "addr_aligned s" and "unat n mod 4 = 0"
    and "span d (unat n) \<subseteq> dom (cmem (child w))" and "span s (unat n) \<subseteq> dom (cmem (child w))"
    and "span d (unat n) \<inter> span s (unat n) = {}"
  shows "\<exists>m e. mut_process_memcpy d s n w = Some (True, set_mem m (w\<lparr>c_errno := e\<rparr>)) \<and>
    (\<forall>i < unat n. m (d + of_nat i) = cmem (child w) (s + of_nat i)) \<and>
    (\<forall>x. x \<notin> span d (unat n) \<longrightarrow> m x = cmem (child w) x)"
proof -
  have n: "4 * (unat n div 4) = unat n" using assms(5) by auto
  have "unat n \<le> 2 ^ 32" using unat_u32_less [of n] by simp
  with memcpy_words_ok [OF assms(1), of d "unat n div 4" s] assms(6-8) obtain m e where
    "memcpy_words (unat n div 4) d s w = Some (Some (d + n, s + n), set_mem m (w\<lparr>c_errno := e\<rparr>))"
    "filled d (unat n) (\<lambda>i. cmem (child w) (s + of_nat i)) (cmem (child w)) m" unfolding n by auto
  then have "mut_process_memcpy d s n w = Some (True, set_mem m (w\<lparr>c_errno := e\<rparr>))" and
    "(\<forall>i < unat n. m (d + of_nat i) = cmem (child w) (s + of_nat i)) \<and>
     (\<forall>x. x \<notin> span d (unat n) \<longrightarrow> m x = cmem (child w) x)"
    using assms(2-5) by (simp_all add: mut_process_memcpy_def filled_def)
  then show ?thesis by blast
qed

lemma mut_process_memcpy_copies_witness:
  "\<exists>m e. mut_process_memcpy 0x1000 0x100 8 sample_proc = Some (True, set_mem m (sample_proc\<lparr>c_errno := e\<rparr>)) \<and>
    m 0x1000 = Some 0x45"
proof -
  have eight: "{..<8 :: nat} = {0, 1, 2, 3, 4, 5, 6, 7}" by auto
  have "span 0x1000 8 \<inter> span 0x100 8 = {}" unfolding span_def eight by simp
  with mut_process_memcpy_copies [of sample_proc "0x1000" "0x100" 8] obtain m e where
    m: "mut_process_memcpy 0x1000 0x100 8 sample_proc = Some (True, set_mem m (sample_proc\<lparr>c_errno := e\<rparr>))"
    "\<forall>i < 8. m (0x1000 + of_nat i) = cmem (child sample_proc) (0x100 + of_nat i)"
    by (auto simp: addr_aligned_def)
  from m(2) [THEN spec, of 0] have "m 0x1000 = Some 0x45"
    by (simp add: sample_cmem_def put_word_def byte_of_word_def)
  with m(1) show ?thesis by blast
qed

text \<open>
  A breakpoint can be undone: \<open>mut_process_breakpoint\<close> hands back the word it replaces and leaves
  every other word alone, and \<open>mut_process_restore\<close> with that word gives the child back as it was.
\<close>

theorem mut_process_breakpoint_restore:
  assumes "clean w" and "p_stopped w" and "read_word (cmem (child w)) pc = Some i"
  shows "\<exists>w1 w2. mut_process_breakpoint pc w = Some (Some i, w1) \<and>
    read_word (cmem (child w1)) pc = Some mut_instr_bp \<and>
    (\<forall>a. words_apart pc a \<longrightarrow> read_word (cmem (child w1)) a = read_word (cmem (child w)) a) \<and>
    mut_process_restore pc i w1 = Some (True, w2) \<and> w2 = w\<lparr>c_errno := 0\<rparr>"
proof -
  let ?w = "set_mem (put_word pc mut_instr_bp (cmem (child w))) (w\<lparr>c_errno := 0\<rparr>)"
  have "put_word pc i (cmem (child w)) = cmem (child w)" using assms(3) by (rule put_word_same)
  then have "mut_process_restore pc i ?w = Some (True, w\<lparr>c_errno := 0\<rparr>)"
    using assms(2) set_mem_same [of "w\<lparr>c_errno := 0\<rparr>"] by (simp add: restore_ok)
  with breakpoint_ok [OF assms] show ?thesis by (auto simp: read_put_word_other words_apart_def)
qed

lemma mut_process_breakpoint_restore_witness:
  "\<exists>w1. mut_process_breakpoint 0x100 sample_proc = Some (Some 0x45, w1) \<and>
    read_word (cmem (child w1)) 0x100 = Some 0xcc"
  using mut_process_breakpoint_restore [of sample_proc "0x100" "0x45"] by (auto simp: mut_instr_bp_def)

text \<open>
  C22: Waiting. The signals that stop the child on the way are passed on to it; when it stops with a
  trap, the process is stopped one byte before the program counter, on the breakpoint; when it ends,
  one line with its exit status or its signal is logged and the process has exited.
\<close>

theorem mut_process_wait_outcome:
  assumes "signals_then (os w) (child w) sigs (Wait_status s) c" and "p_status (process w) = Status_running"
    and "clean w" and "log_idle w" and "writes_ok w"
  shows "(WIFSTOPPED s \<and> WSTOPSIG s = SIGTRAP \<and> regs c mut_process_arch_regs_eip = Some pc \<longrightarrow>
      mut_process_wait w = Some ((1, Some (pc - 1)),
        set_pc (pc - 1) (set_status Status_stopped (w\<lparr>child := c, c_errno := 0\<rparr>)))) \<and>
    (WIFEXITED s \<longrightarrow> mut_process_wait w = Some ((-1, None), set_status Status_exited (log_emit
        (log_line (program_name (the_log w)) Info ''process.exited'' [LInt (WEXITSTATUS s)]) (w\<lparr>child := c\<rparr>)))) \<and>
    (WIFSIGNALED s \<longrightarrow> mut_process_wait w = Some ((-1, None), set_status Status_exited (log_emit
        (log_line (program_name (the_log w)) Info ''process.signaled'' [LInt (WTERMSIG s)]) (w\<lparr>child := c\<rparr>))))"
proof -
  have "\<not> WIFEXITED s" if "WIFSIGNALED s" using that by (simp add: WIFEXITED_def WIFSIGNALED_def)
  then show ?thesis
    using mut_process_wait_trap [OF assms(1)] mut_process_wait_exit [OF assms(1) _ assms(2,4,5)] assms(2,3)
    by (intro conjI impI) simp_all
qed

lemma mut_process_wait_outcome_witness:
  "\<exists>w'. mut_process_wait (set_status Status_running sample_proc) = Some ((1, Some 0x1000), w')"
proof -
  let ?w = "set_status Status_running sample_proc"
  have "signals_then (os ?w) (child ?w) [] (Wait_status 0x57f) sample_child"
    by (intro signals_then.now) (simp add: set_status_def sample_os_def)
  moreover have "log_idle ?w" "writes_ok ?w"
    by (simp_all add: set_status_def log_idle_def writes_ok_def sample_proc_def sample_world_def sample_log_state_def)
  ultimately show ?thesis
    using mut_process_wait_outcome [of ?w "[]" "0x57f" sample_child "0x1001"]
    by (simp add: WIFSTOPPED_def WSTOPSIG_def WEXITSTATUS_def SIGTRAP_def set_status_def)
qed

text \<open>
  C24: The backtrace of a call is the address of the call followed by the calls of the frame-pointer
  chain, in order, cut off at the capacity of the backtrace; nothing else of the state changes.
\<close>

theorem mut_process_function_backtrace_frames:
  assumes "clean w" and "regs (child w) mut_process_arch_regs_esp = Some sp"
    and "read_word (cmem (child w)) sp = Some ra" and "regs (child w) mut_process_arch_regs_ebp = Some fp"
    and "frame_chain (cmem (child w)) fp sp ras"
    and "bts w bt = Some b" and "bt \<noteq> 0" and "length (frames b) \<le> mut_backtrace_frames_max"
  shows "mut_process_function_backtrace bt w =
    Some (True, set_frames bt b (take mut_backtrace_frames_max (frames b @ (ra - 5) # ras)) w)"
proof -
  have c: "clean (w\<lparr>c_errno := 0\<rparr>)" using assms(1) by simp
  show ?thesis
  proof (cases "length (frames b) < mut_backtrace_frames_max")
    case True
    let ?b = "b\<lparr>frames := frames b @ [ra - 5]\<rparr>" and ?v = "set_frames bt b (frames b @ [ra - 5]) w"
    have "c_errno ?v = 0" by (simp add: set_frames_def)
    then have "backtrace_walk bt fp sp ?v =
        Some (True, set_frames bt ?b (take mut_backtrace_frames_max (frames ?b @ ras)) ?v)"
      using assms True by (intro backtrace_walk_chain) auto
    then show ?thesis
      using assms enter_set_frames(1) [OF assms(6,7) True]
      by (simp add: mut_process_function_backtrace_def trace_ok del: take_append)
  next
    case False
    then have "set_frames bt b (take mut_backtrace_frames_max (frames b @ (ra - 5) # ras)) w = w\<lparr>c_errno := 0\<rparr>"
      using assms(6,8) by (simp add: set_frames_def fun_upd_idem)
    then show ?thesis
      using assms c enter_set_frames(2) [OF assms(6,7) False]
      by (simp add: mut_process_function_backtrace_def trace_ok clean_def)
  qed
qed

lemma mut_process_function_backtrace_frames_witness:
  "\<exists>w'. mut_process_function_backtrace 0x2000 sample_proc = Some (True, w') \<and>
    bts w' 0x2000 = Some \<lparr>ref_count = 1, frames = [0x40, 0x80]\<rparr>"
proof -
  have "frame_chain sample_cmem 0x110 0x100 [0x85 - 5]"
    by (rule frame_chain.frame [where up = 0]) (auto intro: frame_chain.last_frame)
  then show ?thesis
    using mut_process_function_backtrace_frames [of sample_proc "0x100" "0x45" "0x110" "[0x80]" "0x2000" "\<lparr>ref_count = 1, frames = []\<rparr>"]
    by (simp add: mut_backtrace_frames_max_def)
qed

text \<open>
  C23: Stepping over a call: reading the return address of the function that has just been entered,
  skipping to it, writing a result and resuming continues the child exactly as if the function had
  returned that result (program counter, stack pointer and result register), with its memory as it was.
\<close>

theorem mut_process_skip_to_returns_from_call:
  assumes "clean w" and "p_stopped w" and "regs (child w) mut_process_arch_regs_esp = Some sp"
    and "read_word (cmem (child w)) sp = Some ra" and "regs (child w) mut_process_arch_regs_eax = Some x"
    and "regs (child w) mut_process_arch_regs_eip = Some y"
    and "os_continue (os w) ((child w)\<lparr>regs := (regs (child w))(mut_process_arch_regs_esp \<mapsto> sp + 4,
        mut_process_arch_regs_eax \<mapsto> r, mut_process_arch_regs_eip \<mapsto> ra)\<rparr>) 0 = Some c"
  shows "\<exists>w1 w2 w3 w4. mut_process_function_return_addr w = Some (Some ra, w1) \<and>
    mut_process_skip_to ra w1 = Some (True, w2) \<and> mut_process_write_result r w2 = Some (True, w3) \<and>
    mut_process_resume w3 = Some (True, w4) \<and> child w4 = c \<and> p_status (process w4) = Status_running"
proof -
  let ?w1 = "w\<lparr>c_errno := 0\<rparr>"
  let ?w2 = "set_reg mut_process_arch_regs_esp (sp + 4) ((set_pc ra ?w1)\<lparr>c_errno := 0\<rparr>)"
  let ?w3 = "set_reg mut_process_arch_regs_eax r ?w2"
  have 1: "mut_process_function_return_addr w = Some (Some ra, ?w1)"
    using assms by (simp add: read_pc_arg_ok)
  have 2: "mut_process_skip_to ra ?w1 = Some (True, ?w2)"
    using assms by (intro read_pc_arg_ok) simp_all
  have 3: "mut_process_write_result r ?w2 = Some (True, ?w3)"
    using assms by (simp add: mut_process_write_result_def trace_ok mut_process_arch_regs_esp_def mut_process_arch_regs_eax_def)
  have 4: "\<exists>w4. mut_process_resume ?w3 = Some (True, w4) \<and> child w4 = c \<and> p_status (process w4) = Status_running"
    using assms
    by (simp add: mut_process_resume_def mut_process_write_pc_def mut_trace_write_reg_def mut_trace_continue_def
        p_stopped_def set_reg_def set_pc_def set_status_def mut_process_arch_regs_esp_def
        mut_process_arch_regs_eax_def mut_process_arch_regs_eip_def)
  show ?thesis using 1 2 3 4 by blast
qed

lemma mut_process_skip_to_returns_from_call_witness:
  "\<exists>w1 w2 w3 w4. mut_process_function_return_addr sample_proc = Some (Some 0x45, w1) \<and>
    mut_process_skip_to 0x45 w1 = Some (True, w2) \<and> mut_process_write_result 9 w2 = Some (True, w3) \<and>
    mut_process_resume w3 = Some (True, w4) \<and> p_status (process w4) = Status_running"
  using mut_process_skip_to_returns_from_call [of sample_proc "0x100" "0x45" 0 "0x1001" 9] by (auto simp: sample_os_def)

end
