(* ===== verification/MutCore.thy ===== *)
theory MutCore
  imports MutProcess
begin

text \<open>
  The core of MUT, src/src/mut.c with mut.h and mut_action.h, first part: its state, the map from
  addresses to actions, running one call of the target, reports and statistics.

  The six actions are the fields of \<open>m->actions\<close>; an action pointer is the identity of one of them,
  and the list from \<open>actions.root\<close> along \<open>next\<close> is the list \<open>a_root\<close>. The executable, the process, the
  resources and the log of \<open>struct mut\<close> are those of the state below.
\<close>

section \<open>State\<close>

datatype mut_action_type =
  Type_malloc | Type_calloc | Type_realloc | Type_consumer | Type_usage

record mut_action =
  a_addr :: u32
  a_instr :: u32
  a_type :: mut_action_type
  a_name :: string
  a_hits :: mut_counter

record mut_stat =
  space :: mut_counter
  count :: mut_counter

record mut_stats =
  st_now :: mut_stat
  st_total :: mut_stat
  st_max_space :: mut_stat
  st_max_count :: mut_stat

record 'p mut_world = "'p proc_world" +
  actions :: "mut_action_id \<Rightarrow> mut_action"
  a_root :: "mut_action_id list"
  m_flags :: u32
  stats :: mut_stats

definition mut_control_trace :: u32 where "mut_control_trace = 1"
definition mut_control_backtrace :: u32 where "mut_control_backtrace = 2"
definition mut_control_free :: u32 where "mut_control_free = 4"
definition mut_control_stats :: u32 where "mut_control_stats = 8"
definition mut_control_zero :: u32 where "mut_control_zero = 16"
definition mut_control_usage :: u32 where "mut_control_usage = 32"
definition mut_control_check :: u32 where "mut_control_check = 64"

text \<open>\<open>m->flags & c\<close>\<close>

definition ctl :: "u32 \<Rightarrow> ('p, 'a) mut_world_scheme \<Rightarrow> bool" where
  "ctl c w \<longleftrightarrow> m_flags w AND c \<noteq> 0"

definition set_action :: "mut_action_id \<Rightarrow> (mut_action \<Rightarrow> mut_action) \<Rightarrow> ('p, 'a) mut_world_scheme \<Rightarrow> ('p, 'a) mut_world_scheme" where
  "set_action a g w = w\<lparr>actions := (actions w)(a := g (actions w a))\<rparr>"

definition action_name :: "mut_action_id \<Rightarrow> ('p, 'a) mut_world_scheme \<Rightarrow> string" where
  "action_name a w = a_name (actions w a)"

text \<open>
  \<open>if (!f(&x)) goto h; k\<close>, for a function with an output and for one with a status only.
\<close>

definition try_c :: "('x option \<times> 'w) option \<Rightarrow> ('w \<Rightarrow> (bool \<times> 'w) option) \<Rightarrow>
    ('x \<Rightarrow> 'w \<Rightarrow> (bool \<times> 'w) option) \<Rightarrow> (bool \<times> 'w) option" where
  "try_c m h k = do { (r, w) \<leftarrow> m; case r of None \<Rightarrow> h w | Some x \<Rightarrow> k x w }"

definition try_ok :: "(bool \<times> 'w) option \<Rightarrow> ('w \<Rightarrow> (bool \<times> 'w) option) \<Rightarrow>
    ('w \<Rightarrow> (bool \<times> 'w) option) \<Rightarrow> (bool \<times> 'w) option" where
  "try_ok m h k = do { (ok, w) \<leftarrow> m; if ok then k w else h w }"

definition fail_c :: "'w \<Rightarrow> (bool \<times> 'w) option" where
  "fail_c w = Some (False, w)"

text \<open>\<open>if (c) f\<close> for a function without a result, and \<open>(void)mut_log_end(log)\<close>.\<close>

definition when_c :: "bool \<Rightarrow> ('w \<Rightarrow> 'w option) \<Rightarrow> 'w \<Rightarrow> 'w option" where
  "when_c c f w = (if c then f w else Some w)"

definition end_log :: "('p, 'a) mut_world_scheme \<Rightarrow> ('p, 'a) mut_world_scheme option" where
  "end_log w = do { (ok, w) \<leftarrow> mut_log_end w; Some w }"

section \<open>The action map\<close>

definition mut_actions_enter ::
  "mut_action_id \<Rightarrow> ('p, 'a) mut_world_scheme \<Rightarrow> mut_action_id \<times> ('p, 'a) mut_world_scheme" where
  "mut_actions_enter action w =
     (case find (\<lambda>a. a_addr (actions w a) = a_addr (actions w action)) (a_root w) of
        Some a \<Rightarrow> (a, w)
      | None \<Rightarrow> (action, w\<lparr>a_root := action # a_root w\<rparr>))"

definition mut_actions_lookup :: "u32 \<Rightarrow> ('p, 'a) mut_world_scheme \<Rightarrow> mut_action_id option" where
  "mut_actions_lookup action_addr w = find (\<lambda>a. a_addr (actions w a) = action_addr) (a_root w)"

text \<open>
  A function of the symbol table is its address and its flags. The pointers \<open>name\<close> of two
  different actions differ, so comparing them compares the actions.
\<close>

definition mut_manage_action ::
  "mut_action_id \<Rightarrow> u32 \<times> bool \<Rightarrow> ('p, 'a) mut_world_scheme \<Rightarrow> (bool \<times> ('p, 'a) mut_world_scheme) option" where
  "mut_manage_action a f w =
     (let w = set_action a (\<lambda>x. x\<lparr>a_hits := mut_counter_from_uint 0\<rparr>) w in
      if \<not> snd f then Some (True, w)
      else
        let w = set_action a (\<lambda>x. x\<lparr>a_addr := fst f\<rparr>) w;
            (oa, w) = mut_actions_enter a w
        in if oa \<noteq> a then do {
             w \<leftarrow> mut_log_info ''duplicate.addr'' w;
             w \<leftarrow> mut_log_string (action_name a w) w;
             w \<leftarrow> mut_log_string (action_name oa w) w;
             w \<leftarrow> mut_log_uint_hex (a_addr (actions w a)) w;
             w \<leftarrow> end_log w;
             Some (True, w)
           }
           else try_c (mut_process_breakpoint (a_addr (actions w a)) w) fail_c
             (\<lambda>instr w. Some (True, set_action a (\<lambda>x. x\<lparr>a_instr := instr\<rparr>) w)))"

definition name_action :: "mut_action_id \<Rightarrow> string \<Rightarrow> ('p, 'a) mut_world_scheme \<Rightarrow> ('p, 'a) mut_world_scheme" where
  "name_action a n = set_action a (\<lambda>x. x\<lparr>a_name := n\<rparr>)"

definition type_action :: "mut_action_id \<Rightarrow> mut_action_type \<Rightarrow> ('p, 'a) mut_world_scheme \<Rightarrow> ('p, 'a) mut_world_scheme" where
  "type_action a t = set_action a (\<lambda>x. x\<lparr>a_type := t\<rparr>)"

definition mut_manage_actions ::
  "string option \<Rightarrow> ('p, 'a) mut_world_scheme \<Rightarrow> (bool \<times> ('p, 'a) mut_world_scheme) option" where
  "mut_manage_actions usage_function w = do {
     let w = name_action Act_malloc ''malloc'' w;
     let w = name_action Act_calloc ''calloc'' w;
     let w = name_action Act_realloc ''realloc'' w;
     let w = name_action Act_free ''free'' w;
     let w = name_action Act_cfree ''cfree'' w;
     let w = (case usage_function of None \<Rightarrow> w | Some u \<Rightarrow> name_action Act_usage u w);
     function \<leftarrow> mut_exec_functions_addr ([''malloc'', ''calloc'', ''realloc'', ''free'', ''cfree''] @
        (case usage_function of None \<Rightarrow> [] | Some u \<Rightarrow> [u])) w;
     try_ok (mut_manage_action Act_malloc (function ! 0) (type_action Act_malloc Type_malloc w)) fail_c (\<lambda>w.
     try_ok (mut_manage_action Act_calloc (function ! 1) (type_action Act_calloc Type_calloc w)) fail_c (\<lambda>w.
     try_ok (mut_manage_action Act_realloc (function ! 2) (type_action Act_realloc Type_realloc w)) fail_c (\<lambda>w.
     try_ok (mut_manage_action Act_free (function ! 3) (type_action Act_free Type_consumer w)) fail_c (\<lambda>w.
     try_ok (mut_manage_action Act_cfree (function ! 4) (type_action Act_cfree Type_consumer w)) fail_c (\<lambda>w.
     if usage_function = None then Some (True, w)
     else try_ok (mut_manage_action Act_usage (function ! 5) (type_action Act_usage Type_usage w)) fail_c (\<lambda>w.
       Some (True, w)))))))
   }"

text \<open>The loops that take the breakpoints of the actions out and put them back in.\<close>

fun restore_actions ::
  "mut_action_id list \<Rightarrow> ('p, 'a) mut_world_scheme \<Rightarrow> (bool \<times> ('p, 'a) mut_world_scheme) option" where
  "restore_actions [] w = Some (True, w)"
| "restore_actions (a # as) w =
     try_ok (mut_process_restore (a_addr (actions w a)) (a_instr (actions w a)) w) fail_c (restore_actions as)"

definition mut_remove_action_breakpoints ::
  "('p, 'a) mut_world_scheme \<Rightarrow> (bool \<times> ('p, 'a) mut_world_scheme) option" where
  "mut_remove_action_breakpoints w = restore_actions (a_root w) w"

fun break_actions ::
  "mut_action_id list \<Rightarrow> ('p, 'a) mut_world_scheme \<Rightarrow> (bool \<times> ('p, 'a) mut_world_scheme) option" where
  "break_actions [] w = Some (True, w)"
| "break_actions (a # as) w =
     try_c (mut_process_breakpoint (a_addr (actions w a)) w) fail_c
       (\<lambda>instr w. break_actions as (set_action a (\<lambda>x. x\<lparr>a_instr := instr\<rparr>) w))"

definition mut_install_action_breakpoints ::
  "('p, 'a) mut_world_scheme \<Rightarrow> (bool \<times> ('p, 'a) mut_world_scheme) option" where
  "mut_install_action_breakpoints w = break_actions (a_root w) w"

section \<open>Running the call of an action\<close>

definition mut_do_action ::
  "u32 \<Rightarrow> mut_action_id \<Rightarrow> ('p, 'a) mut_world_scheme \<Rightarrow> (bool \<times> ('p, 'a) mut_world_scheme) option" where
  "mut_do_action return_addr action w =
     try_c (mut_process_breakpoint return_addr w) fail_c (\<lambda>return_instr w.
     try_ok (mut_process_resume w) fail_c (\<lambda>w. do {
       ((status, pc), w) \<leftarrow> mut_process_wait w;
       if status \<le> 0 then Some (False, w)
       else do {
         return_pc \<leftarrow> pc;
         if return_pc \<noteq> return_addr then do {
           w \<leftarrow> mut_log_fatal ''action.addr'' 0 w;
           w \<leftarrow> mut_log_string (action_name action w) w;
           w \<leftarrow> mut_log_uint_hex return_pc w;
           w \<leftarrow> mut_log_uint_hex return_addr w;
           w \<leftarrow> end_log w;
           Some (False, w)
         }
         else mut_process_restore return_addr return_instr w
       }
     }))"

section \<open>Safety zones\<close>

definition mut_zone_size :: u32 where "mut_zone_size = 4"
definition mut_zone_value :: u32 where "mut_zone_value = 0xDEADBEEF"

definition mut_round_up :: "u32 \<Rightarrow> u32" where
  "mut_round_up sz = ((sz + mut_zone_size - 1) AND NOT (mut_zone_size - 1)) + 2 * mut_zone_size"

text \<open>The address that the program gets, when the zones are in place.\<close>

definition mut_install_check_zones ::
  "u32 \<Rightarrow> u32 \<Rightarrow> ('p, 'a) mut_world_scheme \<Rightarrow> (u32 option \<times> ('p, 'a) mut_world_scheme) option" where
  "mut_install_check_zones obj_addr sz w = do {
     let pre_zone_addr = obj_addr;
     let post_zone_addr = obj_addr + sz - mut_zone_size;
     let obj_addr = obj_addr + mut_zone_size;
     (ok, w) \<leftarrow> mut_process_write_word pre_zone_addr mut_zone_value w;
     if \<not> ok then Some (None, w)
     else do {
       (ok, w) \<leftarrow> mut_process_write_word post_zone_addr mut_zone_value w;
       if \<not> ok then Some (None, w)
       else do {
         (ok, w) \<leftarrow> mut_process_write_result obj_addr w;
         Some (if ok then Some obj_addr else None, w)
       }
     }
   }"

section \<open>Reports and statistics\<close>

text \<open>The optional part of a message: a backtrace, when they are requested.\<close>

definition log_bt :: "ptr \<Rightarrow> ('p, 'a) mut_world_scheme \<Rightarrow> ('p, 'a) mut_world_scheme option" where
  "log_bt bt w = when_c (ctl mut_control_backtrace w) (mut_log_backtrace bt) w"

definition mut_resource_producer_name :: "mut_resource \<Rightarrow> ('p, 'a) mut_world_scheme \<Rightarrow> string option" where
  "mut_resource_producer_name r w = map_option (\<lambda>a. action_name a w) (producer_action r)"

definition mut_resource_consumer_name :: "mut_resource \<Rightarrow> ('p, 'a) mut_world_scheme \<Rightarrow> string option" where
  "mut_resource_consumer_name r w = map_option (\<lambda>a. action_name a w) (consumer_action r)"

definition report_resource :: "ptr \<Rightarrow> ('p, 'a) mut_world_scheme \<Rightarrow> ('p, 'a) mut_world_scheme option" where
  "report_resource p w = do {
     r \<leftarrow> res_get p w;
     name \<leftarrow> mut_resource_producer_name r w;
     w \<leftarrow> mut_log_string name w;
     w \<leftarrow> mut_log_uint_hex (r_addr r) w;
     sz \<leftarrow> r_size r;
     w \<leftarrow> mut_log_ulong sz w;
     log_bt (producer_backtrace r) w
   }"

definition mut_report_usage :: "('p, 'a) mut_world_scheme \<Rightarrow> ('p, 'a) mut_world_scheme option" where
  "mut_report_usage w = do {
     w \<leftarrow> mut_log_info ''mem.usage'' w;
     let (n_obj, iter) = mut_resources_iter_open False w;
     w \<leftarrow> mut_log_ulong n_obj w;
     w \<leftarrow> iter_loop report_resource iter w;
     end_log w
   }"

definition usage_if :: "('p, 'a) mut_world_scheme \<Rightarrow> ('p, 'a) mut_world_scheme option" where
  "usage_if w = when_c (ctl mut_control_usage w) mut_report_usage w"

text \<open>The statistics are a value of their own, so that the update can be read as one.\<close>

definition collect_stats :: "'b libc_scheme \<Rightarrow> u32 \<Rightarrow> mut_stats \<Rightarrow> mut_stats" where
  "collect_stats w sz s =
     (let now = \<lparr>space = mut_counter_inc w (space (st_now s)) sz, count = mut_counter_inc w (count (st_now s)) 1\<rparr>;
          total = \<lparr>space = mut_counter_inc w (space (st_total s)) sz, count = mut_counter_inc w (count (st_total s)) 1\<rparr>;
          max_space = (if mut_counter_lt (space (st_max_space s)) (space now) then now else st_max_space s);
          max_count = (if mut_counter_lt (count (st_max_count s)) (count now) then now else st_max_count s)
      in \<lparr>st_now = now, st_total = total, st_max_space = max_space, st_max_count = max_count\<rparr>)"

definition mut_collect_producer_stats ::
  "u32 \<Rightarrow> ('p, 'a) mut_world_scheme \<Rightarrow> ('p, 'a) mut_world_scheme" where
  "mut_collect_producer_stats sz w = w\<lparr>stats := collect_stats w sz (stats w)\<rparr>"

definition collect_if :: "u32 \<Rightarrow> ('p, 'a) mut_world_scheme \<Rightarrow> ('p, 'a) mut_world_scheme" where
  "collect_if sz w = (if ctl mut_control_stats w then mut_collect_producer_stats sz w else w)"

text \<open>\<open>action->hits = mut_counter_inc(action->hits, 1)\<close>, when statistics are requested.\<close>

definition hit :: "mut_action_id \<Rightarrow> ('p, 'a) mut_world_scheme \<Rightarrow> ('p, 'a) mut_world_scheme" where
  "hit a w = (if ctl mut_control_stats w
     then set_action a (\<lambda>x. x\<lparr>a_hits := mut_counter_inc w (a_hits x) 1\<rparr>) w else w)"

text \<open>The two decrements when an object of \<open>sz\<close> bytes goes.\<close>

definition release_stats :: "u32 \<Rightarrow> ('p, 'a) mut_world_scheme \<Rightarrow> ('p, 'a) mut_world_scheme option" where
  "release_stats sz w = do {
     s \<leftarrow> mut_counter_dec w (space (st_now (stats w))) sz;
     c \<leftarrow> mut_counter_dec w (count (st_now (stats w))) 1;
     Some (w\<lparr>stats := (stats w)\<lparr>st_now := \<lparr>space = s, count = c\<rparr>\<rparr>\<rparr>)
   }"

section \<open>Backtraces of a call\<close>

definition drop_bt :: "ptr \<Rightarrow> ('p, 'a) mut_world_scheme \<Rightarrow> ('p, 'a) mut_world_scheme option" where
  "drop_bt bt w = when_c (ctl mut_control_backtrace w) (mut_backtrace_close bt) w"

text \<open>The label \<open>free_backtrace\<close> of the actions.\<close>

definition free_backtrace :: "ptr \<Rightarrow> ('p, 'a) mut_world_scheme \<Rightarrow> (bool \<times> ('p, 'a) mut_world_scheme) option" where
  "free_backtrace bt w = do { w \<leftarrow> drop_bt bt w; Some (False, w) }"

definition mut_produce_backtrace ::
  "('p, 'a) mut_world_scheme \<Rightarrow> (ptr option \<times> ('p, 'a) mut_world_scheme) option" where
  "mut_produce_backtrace w =
     (if ctl mut_control_backtrace w then do {
        (bt, w) \<leftarrow> mut_backtrace_open w;
        if bt = 0 then Some (None, w)
        else do {
          (ok, w) \<leftarrow> mut_process_function_backtrace bt w;
          if \<not> ok then do { w \<leftarrow> mut_backtrace_close bt w; Some (None, w) }
          else Some (Some bt, w)
        }
      }
      else Some (Some 0, w))"

section \<open>Frames\<close>

lemma tr_log_backtrace: "tr_only w v \<Longrightarrow> within0 tr_only w (mut_log_backtrace bt v)"
  by (rule tr_log) (rule mut_log_backtrace_only)

lemma within_when: "transp R \<Longrightarrow> (c \<Longrightarrow> within0 R w (f v)) \<Longrightarrow> R w v \<Longrightarrow> within0 R w (when_c c f v)"
  by (simp add: when_c_def within0_def)

lemma within_try:
  "transp R \<Longrightarrow> within R w m \<Longrightarrow> (\<And>v. within R v (h v)) \<Longrightarrow> (\<And>v. within R v (g v)) \<Longrightarrow> within R w (try_ok m h g)"
  "transp R \<Longrightarrow> within R w m' \<Longrightarrow> (\<And>v. within R v (h v)) \<Longrightarrow> (\<And>x v. within R v (k x v)) \<Longrightarrow>
   within R w (try_c m' h k)"
  unfolding try_ok_def try_c_def
  by (intro within_bind within_prod within_if; assumption)
    (intro within_bind within_prod within_option; assumption)

lemma within_prod1: "(\<And>a b. within R w (f a b v)) \<Longrightarrow> within R w ((case p of (a, b) \<Rightarrow> f a b) v)"
  by (simp split: prod.split)

lemma within_fail: "R w v \<Longrightarrow> within R w (fail_c v)"
  by (simp add: fail_c_def within_def)

lemma tr_end_log: "tr_only w v \<Longrightarrow> within0 tr_only w (end_log v)"
  unfolding end_log_def by (intro tr_intros; assumption)

lemma tr_log_bt: "tr_only w v \<Longrightarrow> within0 tr_only w (log_bt bt v)"
  unfolding log_bt_def by (intro within_when tr_log_backtrace tr_only_transp; assumption)

lemmas core_intros = within_prod1 within_pure [where ?'x = mut_resource] within0_pure [where ?'x = mut_resource] tr_end_log tr_log_bt within_when within_try within_fail tr_mem tr_wait tr_process tr_arch tr_intros

lemma tr_do_action: "tr_only w v \<Longrightarrow> within tr_only w (mut_do_action ra a v)"
  unfolding mut_do_action_def by (intro core_intros; assumption)

lemma tr_install_zones: "tr_only w v \<Longrightarrow> within tr_only w (mut_install_check_zones a n v)"
  unfolding mut_install_check_zones_def Let_def by (intro core_intros; assumption)

lemma tr_iter_loop:
  fixes w :: "('p, 'a) proc_world_scheme"
  assumes body: "\<And>p v. tr_only w v \<Longrightarrow> within0 tr_only w (body p v)"
  shows "tr_only w v \<Longrightarrow> within0 tr_only w (iter_loop body iter v)"
  using body
proof (induction body iter v rule: iter_loop.induct)
  case (1 body iter v)
  show ?case
  proof (rule within0I)
    fix w'
    assume run: "iter_loop body iter v = Some w'"
    obtain r iter' where it: "mut_resources_iter_read iter v = Some (r, iter')"
      using run by (subst (asm) iter_loop.simps) (auto split: bind_splits)
    show "tr_only w w'"
    proof (cases "r = 0")
      case True
      with run it 1(2) show ?thesis by (simp add: iter_loop.simps [of body iter v])
    next
      case False
      with run it obtain u where u: "body r v = Some u" "iter_loop body iter' u = Some w'"
        by (auto simp: iter_loop.simps [of body iter v] split: bind_splits)
      have "tr_only w u" using within0D [OF 1(3) [OF 1(2)] u(1)] .
      from within0D [OF 1(1) [OF it refl False u(1) this 1(3)] u(2)] show ?thesis by blast
    qed
  qed
qed

lemma tr_report_resource: "tr_only w v \<Longrightarrow> within0 tr_only w (report_resource p v)"
  unfolding report_resource_def by (intro core_intros; assumption)

lemma tr_report: "tr_only w v \<Longrightarrow> within0 tr_only w (mut_report_usage v)"
  unfolding mut_report_usage_def Let_def
  by (intro tr_iter_loop tr_report_resource within0_prod core_intros; assumption)

lemma tr_usage_if: "tr_only w v \<Longrightarrow> within0 tr_only w (usage_if v)"
  unfolding usage_if_def by (intro tr_report core_intros; assumption)

section \<open>The invariant of a run\<close>

text \<open>What no action changes: the flags, the blocks of the other components, the executable, the action map.\<close>

definition kept :: "('p, 'a) mut_world_scheme \<Rightarrow>
    u32 \<times> ptr set \<times> mut_exec \<times> mut_exec_symtab \<times> mut_action_id list \<times> (mut_action_id \<Rightarrow> u32 \<times> mut_action_type)" where
  "kept w = (m_flags w, foreign w, exec w, symtab w, a_root w, \<lambda>a. (a_addr (actions w a), a_type (actions w a)))"

text \<open>The resources with \<open>E\<close> references to backtraces held outside the map, and what is kept.\<close>

definition core_inv where
  "core_inv K E w \<longleftrightarrow> res_inv E w \<and> kept w = K"

definition kctl where
  "kctl K c \<longleftrightarrow> fst K AND (c :: u32) \<noteq> 0"

lemma core_inv_ctl: "core_inv K E w \<Longrightarrow> ctl c w = kctl K c"
  by (auto simp: core_inv_def kctl_def ctl_def kept_def)

lemma tr_only_more:
  assumes "tr_only w (w' :: ('p, 'a) mut_world_scheme)"
  shows "kept w' = kept w" "actions w' = actions w" "stats w' = stats w"
proof -
  obtain e out l p c where w': "w' = w\<lparr>c_errno := e, c_out := out, the_log := l, process := p, child := c\<rparr>"
    using assms by (rule tr_onlyE)
  show "kept w' = kept w" using tr_only_same [OF assms] by (simp add: kept_def foreign_def) (simp add: w')
  show "actions w' = actions w" "stats w' = stats w" by (simp_all add: w')
qed

lemma core_inv_tr: "tr_only w w' \<Longrightarrow> core_inv K E w' = core_inv K E w"
  by (simp add: core_inv_def tr_only_more tr_only_same(11))

text \<open>One more reference to \<open>bt\<close>; \<open>owned\<close>: an action holds the reference to its backtrace, if there is one.\<close>

definition own :: "ptr \<Rightarrow> (ptr \<Rightarrow> nat) \<Rightarrow> ptr \<Rightarrow> nat" where
  "own bt E = (\<lambda>p. E p + of_bool (p = bt \<and> bt \<noteq> 0))"

definition owned where
  "owned K E bt w \<longleftrightarrow> core_inv K (own bt E) w \<and> (bt \<noteq> 0 \<longleftrightarrow> kctl K mut_control_backtrace)"

definition fresh_bt :: "ptr \<Rightarrow> ('p, 'a) mut_world_scheme \<Rightarrow> bool" where
  "fresh_bt bt w \<longleftrightarrow> (bt \<noteq> 0 \<longrightarrow> bt_refs w bt = 1)"

lemma owned_tr: "tr_only w w' \<Longrightarrow> owned K E bt w' = owned K E bt w"
  by (simp add: owned_def core_inv_tr)

lemma fresh_bt_tr: "tr_only w w' \<Longrightarrow> fresh_bt bt w' = fresh_bt bt w"
  by (simp add: fresh_bt_def tr_only_same(10))

text \<open>Changes of the fields that the invariant does not mention.\<close>

lemma core_inv_update [simp]:
  "core_inv K E (w\<lparr>stats := s\<rparr>) = core_inv K E w"
  "core_inv K E (set_action a (\<lambda>x. x\<lparr>a_hits := c x\<rparr>) w) = core_inv K E w"
  "core_inv K E (set_action a (\<lambda>x. x\<lparr>a_instr := i\<rparr>) w) = core_inv K E w"
proof -
  have r: "res_inv E (w\<lparr>stats := s\<rparr>) = res_inv E w" "foreign (w\<lparr>stats := s\<rparr>) = foreign w"
    "res_inv E (w\<lparr>actions := f\<rparr>) = res_inv E w" "foreign (w\<lparr>actions := f\<rparr>) = foreign w" for f
    by (simp_all add: res_inv_def refs_ok_def bts_ok_def mem_wf_def mem_in_use_def malloc_fresh_def plain_blocks_def
        bt_refs_def foreign_def)
  have same: "(\<lambda>x. if x = a then (a_addr (actions w a), a_type (actions w a)) else (a_addr (actions w x), a_type (actions w x))) =
      (\<lambda>x. (a_addr (actions w x), a_type (actions w x)))" by auto
  show "core_inv K E (w\<lparr>stats := s\<rparr>) = core_inv K E w"
    "core_inv K E (set_action a (\<lambda>x. x\<lparr>a_hits := c x\<rparr>) w) = core_inv K E w"
    "core_inv K E (set_action a (\<lambda>x. x\<lparr>a_instr := i\<rparr>) w) = core_inv K E w"
    by (simp_all add: core_inv_def kept_def r set_action_def if_distrib same cong: if_cong)
qed

section \<open>Backtraces of a call: the references\<close>

text \<open>Walking the stack changes the frames of backtraces, not their counts.\<close>

definition walk_only :: "('p, 'a) proc_world_scheme \<Rightarrow> ('p, 'a) proc_world_scheme \<Rightarrow> bool" where
  "walk_only w w' \<longleftrightarrow>
     w' = w\<lparr>c_errno := c_errno w', c_out := c_out w', the_log := the_log w', process := process w',
            child := child w', bts := bts w'\<rparr> \<and>
     (\<forall>p. map_option ref_count (bts w' p) = map_option ref_count (bts w p)) \<and> (bts_ok w \<longrightarrow> bts_ok w')"

lemma walk_only_transp: "transp (walk_only :: ('a, 'b) proc_world_scheme \<Rightarrow> _)"
proof (rule transpI)
  fix u v w :: "('a, 'b) proc_world_scheme"
  assume "walk_only u v" and "walk_only v w"
  then show "walk_only u w" by (cases u; cases v; cases w) (simp add: walk_only_def)
qed

lemma tr_only_walk:
  assumes "tr_only w (w' :: ('p, 'a) proc_world_scheme)"
  shows "walk_only w w'"
proof -
  have "bts w' = bts w" "bts_ok w' = bts_ok w" using tr_only_same [OF assms] by simp_all
  moreover obtain e out l p c where "w' = w\<lparr>c_errno := e, c_out := out, the_log := l, process := p, child := c\<rparr>"
    using assms by (rule tr_onlyE)
  ultimately show ?thesis by (simp add: walk_only_def)
qed

lemma walk_enter: "within walk_only w (mut_backtrace_enter bt ra w)"
proof (rule withinI)
  fix r w'
  assume "mut_backtrace_enter bt ra w = Some (r, w')"
  then obtain b where b: "bts w bt = Some b" and w': "w' = w \<or>
      length (frames b) < mut_backtrace_frames_max \<and> w' = w\<lparr>bts := (bts w)(bt \<mapsto> b\<lparr>frames := frames b @ [ra]\<rparr>)\<rparr>"
    by (auto simp: mut_backtrace_enter_def split: bind_splits if_splits)
  have "bts_ok w \<longrightarrow> bt \<in> mem_in_use w" using b by (auto simp: bts_ok_def)
  with b w' show "walk_only w w'" by (auto simp: walk_only_def bts_ok_def dom_def subset_eq split: if_splits)
qed

lemma within_mono: "within R w m \<Longrightarrow> (\<And>v. R w v \<Longrightarrow> S w v) \<Longrightarrow> within S w m"
  by (simp add: within_def)

lemma walk_trace:
  "within walk_only w (mut_trace_read_data a w)" "within walk_only w (mut_trace_read_reg r w)"
  by (rule within_mono [OF tr_trace(2) [OF tr_only_update(1)]], erule tr_only_walk)
    (rule within_mono [OF tr_trace(3) [OF tr_only_update(1)]], erule tr_only_walk)

lemma walk_refl: "walk_only w w"
  by (simp add: walk_only_def)

lemmas walk_intros = within_prod within_pure_intros walk_only_transp walk_enter walk_trace walk_refl within_None within_Some
  within_if within_option within_bind

lemma within_bind_eq:
  "transp R \<Longrightarrow> within R w m \<Longrightarrow> (\<And>r v. m = Some (r, v) \<Longrightarrow> within R v (g r v)) \<Longrightarrow> within R w (m \<bind> (\<lambda>(r, v). g r v))"
  by (cases m) (fastforce simp: within_def dest: transpD)+

lemma within_option_eq:
  "within R w a \<Longrightarrow> (\<And>x. m = Some x \<Longrightarrow> within R w (f x)) \<Longrightarrow> within R w (case m of None \<Rightarrow> a | Some x \<Rightarrow> f x)"
  by (simp split: option.split)

lemma walk_stack: "within walk_only w (backtrace_walk bt ebp base w)"
proof (induction bt ebp base w rule: backtrace_walk.induct)
  case (1 bt ebp base w)
  show ?case
    by (subst backtrace_walk.simps)
      (intro within_bind_eq within_option_eq within_if walk_only_transp walk_enter walk_trace walk_refl within_Some;
       rule 1 [OF _ _ refl _ _ _ refl _ _ _ refl]; assumption)
qed

lemma walk_backtrace: "within walk_only w (mut_process_function_backtrace bt w)"
  unfolding mut_process_function_backtrace_def by (intro walk_stack walk_intros)

lemma walk_same:
  assumes "walk_only w (w' :: ('p, 'a) mut_world_scheme)" and "refs_ok w"
  shows "refs_ok w'" "bt_refs w' = bt_refs w" "plain_blocks w' = plain_blocks w"
    "resources w' = resources w" "kept w' = kept w"
proof -
  have w': "w' = w\<lparr>c_errno := c_errno w', c_out := c_out w', the_log := the_log w', process := process w',
            child := child w', bts := bts w'\<rparr>"
    and count: "map_option ref_count (bts w' p) = map_option ref_count (bts w p)" for p
    using assms(1) by (simp_all add: walk_only_def)
  have ok: "bts_ok w'" using assms by (simp add: walk_only_def refs_ok_def)
  have dom: "dom (bts w') = dom (bts w)"
    using count by (metis (no_types, lifting) domIff map_option_is_None subsetI subset_antisym)
  show "refs_ok w'"
    unfolding refs_ok_def
  proof (intro conjI ok allI impI)
    fix p b
    assume "bts w' p = Some b"
    then obtain b0 where "bts w p = Some b0" "ref_count b0 = ref_count b" using count [of p] by (cases "bts w p") auto
    then show "ref_count b \<noteq> 0" using assms(2) by (auto simp: refs_ok_def)
  qed
  show r: "bt_refs w' = bt_refs w"
  proof
    fix p
    show "bt_refs w' p = bt_refs w p"
      using count [of p] by (cases "bts w p"; cases "bts w' p") (simp_all add: bt_refs_def)
  qed
  have "mem_in_use w' = mem_in_use w" by (subst w') (simp add: mem_in_use_def)
  then show p: "plain_blocks w' = plain_blocks w" by (simp add: plain_blocks_def dom)
  show res: "resources w' = resources w" by (subst w') simp
  have "foreign w' = foreign w" by (simp add: foreign_def p res)
  moreover have "m_flags w' = m_flags w" "exec w' = exec w" "symtab w' = symtab w" "a_root w' = a_root w"
    "actions w' = actions w" by (subst w', simp)+
  ultimately show "kept w' = kept w" by (simp add: kept_def)
qed

lemma core_inv_walk:
  assumes "walk_only w w'" and "core_inv K E w"
  shows "core_inv K E w'" and "bt_refs w' = bt_refs w"
proof -
  have ok: "refs_ok w" using assms(2) by (simp add: core_inv_def res_inv_def)
  note same = walk_same [OF assms(1) ok]
  show "core_inv K E w'" using assms(2) same by (simp add: core_inv_def res_inv_def)
  show "bt_refs w' = bt_refs w" by (rule same)
qed

text \<open>What an operation on backtraces or resources leaves alone of what is kept.\<close>

lemma bt_only_kept:
  assumes "bt_only w (w' :: ('p, 'a) mut_world_scheme)" and "foreign w' = foreign w"
  shows "kept w' = kept w"
proof -
  obtain h e out s l b where "w' = w\<lparr>c_heap := h, c_errno := e, c_out := out, store := s, the_log := l, bts := b\<rparr>"
    using assms(1) by (rule bt_onlyE)
  with assms(2) show ?thesis by (simp add: kept_def)
qed

lemma core_inv_close:
  assumes "core_inv K (own bt E) w" and "bt \<noteq> 0"
  shows "\<exists>w'. mut_backtrace_close bt w = Some w' \<and> core_inv K E w'"
proof -
  have inv: "res_inv (own bt E) w" and ok: "refs_ok w" using assms(1) by (auto simp: core_inv_def res_inv_def)
  have refs: "bt_refs w p = bt_uses (elems (resources w)) p + own bt E p" if "p \<noteq> 0" for p
    using inv that by (simp add: res_inv_def)
  have "0 < bt_refs w bt" using refs [OF assms(2)] assms(2) by (simp add: own_def)
  from close_if_result [OF ok, of bt] this obtain w' where w': "close_if bt w = Some w'" "refs_ok w'"
      "plain_blocks w' = plain_blocks w" "bt_refs w' = (\<lambda>p. bt_refs w p - of_bool (p = bt))" "bt_only w w'" by blast
  have same: "resources w' = resources w" using bt_only_res [OF w'(5)] .
  have "bt_refs w' p = bt_uses (elems (resources w)) p + E p" if "p \<noteq> 0" for p
    using refs [OF that] assms(2) by (simp add: w'(4) own_def)
  then have "res_inv E w'" using inv w'(2,3) same by (simp add: res_inv_def)
  moreover have "kept w' = kept w" by (rule bt_only_kept [OF w'(5)]) (simp add: foreign_def w'(3) same)
  ultimately show ?thesis using w'(1) assms by (auto simp: close_if_def core_inv_def)
qed

lemma drop_bt_result:
  assumes "owned K E bt w"
  shows "\<exists>w'. drop_bt bt w = Some w' \<and> core_inv K E w'"
proof (cases "bt = 0")
  case True
  then have "core_inv K E w" "\<not> ctl mut_control_backtrace w"
    using assms core_inv_ctl [of K "own bt E" w] by (auto simp: owned_def own_def)
  then show ?thesis by (simp add: drop_bt_def when_c_def)
next
  case False
  then have "ctl mut_control_backtrace w" using assms core_inv_ctl [of K "own bt E" w] by (auto simp: owned_def)
  with core_inv_close [of K bt E w] False assms show ?thesis by (simp add: drop_bt_def when_c_def owned_def)
qed

lemma free_backtrace_result:
  assumes "owned K E bt w"
  shows "\<exists>w'. free_backtrace bt w = Some (False, w') \<and> core_inv K E w'"
  using drop_bt_result [OF assms] by (auto simp: free_backtrace_def)

lemma produce_backtrace_result:
  assumes inv: "core_inv K E w" and run: "mut_produce_backtrace w = Some (r, w')"
  shows "case r of None \<Rightarrow> core_inv K E w' | Some bt \<Rightarrow> owned K E bt w' \<and> fresh_bt bt w'"
proof (cases "ctl mut_control_backtrace w")
  case False
  then show ?thesis
    using run inv core_inv_ctl [OF inv] by (auto simp: mut_produce_backtrace_def owned_def own_def fresh_bt_def)
next
  case True
  then obtain bt v where o: "mut_backtrace_open w = Some (bt, v)" using run by (auto simp: mut_produce_backtrace_def split: bind_splits)
  have ri: "res_inv E w" and ok: "refs_ok w" "bts_ok w" using inv by (auto simp: core_inv_def res_inv_def refs_ok_def)
  have same: "resources v = resources w" using bt_only_res [OF mut_backtrace_open_only [OF o]] .
  note m = mut_backtrace_open_result [OF ok(2) o]
  show ?thesis
  proof (cases "bt = 0")
    case True
    with m have b: "bts v = bts w" "mem_in_use v = mem_in_use w" "bts_ok v" by auto
    then have r: "refs_ok v" "bt_refs v = bt_refs w" "plain_blocks v = plain_blocks w"
      using ok by (auto simp: refs_ok_def bt_refs_def plain_blocks_def fun_eq_iff)
    have "kept v = kept w" by (rule bt_only_kept [OF mut_backtrace_open_only [OF o]]) (simp add: foreign_def r same)
    then have "core_inv K E v" using inv r same by (simp add: core_inv_def res_inv_def)
    then show ?thesis using run \<open>ctl mut_control_backtrace w\<close> o True by (simp add: mut_produce_backtrace_def)
  next
    case False
    with m have b: "bt \<notin> mem_in_use w" "mem_in_use v = insert bt (mem_in_use w)" "bts_ok v"
      "bts v = (bts w)(bt \<mapsto> \<lparr>ref_count = 1, frames = []\<rparr>)" by auto
    have none: "bts w bt = None" using b(1) ok(2) by (auto simp: bts_ok_def)
    have "plain_blocks v = plain_blocks w" using b(1) unfolding plain_blocks_def b(2,4) by auto
    then have r: "refs_ok v" "bt_refs v = (\<lambda>p. bt_refs w p + of_bool (p = bt))" "plain_blocks v = plain_blocks w"
      using ok b(3,4) none by (auto simp: refs_ok_def bt_refs_def fun_eq_iff)
    have "kept v = kept w" by (rule bt_only_kept [OF mut_backtrace_open_only [OF o]]) (simp add: foreign_def r same)
    then have cv: "core_inv K (own bt E) v" using inv r(1,3) same False
      by (simp add: core_inv_def res_inv_def r(2) own_def)
    have one: "bt_refs v bt = 1" using none by (simp add: r(2)) (simp add: bt_refs_def)
    obtain ok' u where f: "mut_process_function_backtrace bt v = Some (ok', u)"
      using run \<open>ctl mut_control_backtrace w\<close> o False by (auto simp: mut_produce_backtrace_def split: bind_splits)
    note u = core_inv_walk [OF withinD [OF walk_backtrace f] cv]
    have kc: "kctl K mut_control_backtrace" using \<open>ctl mut_control_backtrace w\<close> core_inv_ctl [OF inv] by simp
    show ?thesis
    proof (cases ok')
      case True
      then show ?thesis using run \<open>ctl mut_control_backtrace w\<close> o False f u one kc
        by (auto simp: mut_produce_backtrace_def owned_def fresh_bt_def)
    next
      case no: False
      from core_inv_close [OF u(1) False] obtain x where "mut_backtrace_close bt u = Some x" "core_inv K E x" by blast
      then show ?thesis using run \<open>ctl mut_control_backtrace w\<close> o False f no
        by (auto simp: mut_produce_backtrace_def)
    qed
  qed
qed

section \<open>Operations on resources\<close>

definition res_only :: "'a res_world_scheme \<Rightarrow> 'a res_world_scheme \<Rightarrow> bool" where
  "res_only w w' \<longleftrightarrow>
     w' = w\<lparr>c_heap := c_heap w', c_errno := c_errno w', c_out := c_out w', store := store w',
            the_log := the_log w', bts := bts w', resources := resources w'\<rparr>"

lemma res_only_transp: "transp (res_only :: 'a res_world_scheme \<Rightarrow> _)"
proof (rule transpI)
  fix u v w :: "'a res_world_scheme"
  assume "res_only u v" and "res_only v w"
  then show "res_only u w" by (cases u; cases v; cases w) (simp add: res_only_def)
qed

lemma res_only_update:
  "res_only w w" "res_only w (w\<lparr>resources := r\<rparr>)" "res_only w (w\<lparr>bts := b\<rparr>)"
  by (simp_all add: res_only_def)

lemma bt_only_res_only: "bt_only w (w' :: 'a res_world_scheme) \<Longrightarrow> res_only w w'"
  by (erule bt_onlyE) (simp add: res_only_def)

lemma res_only_step:
  "res_only w v \<Longrightarrow> res_only w (v\<lparr>resources := r\<rparr>)" "res_only w v \<Longrightarrow> res_only w (v\<lparr>bts := b\<rparr>)"
  using transpD [OF res_only_transp] res_only_update by blast+

lemma within_after: "transp R \<Longrightarrow> R w v \<Longrightarrow> within R v m \<Longrightarrow> within R w m"
  by (auto simp: within_def dest: transpD)

lemma within0_after: "transp R \<Longrightarrow> R w v \<Longrightarrow> within0 R v m \<Longrightarrow> within0 R w m"
  by (auto simp: within0_def dest: transpD)

lemma res_only_base:
  "within res_only w (mut_mem__malloc n l f w)" "within0 res_only w (mut_mem__free p l f w)"
  "within0 res_only w (mut_log_mem_full e w)" "within0 res_only w (close_if bt w)"
  "within res_only w (mut_backtrace_share bt w)" "within0 res_only w (res_set p g w)"
  using mem_only_bt_only [OF mem_only_malloc] mem_only_bt_only [OF mem_only_free] io_only_bt_only [OF mut_io_only(2)]
    close_if_only [of bt w]
  by (auto simp: within_def within0_def res_set_def mut_backtrace_share_def res_only_update
      intro!: bt_only_res_only split: bind_splits)

lemmas res_only_ops = res_only_base(1,5) [THEN within_after [OF res_only_transp, rotated]]
  res_only_base(2,3,4,6) [THEN within0_after [OF res_only_transp, rotated]]

lemmas res_only_intros = res_only_ops res_only_update(1) res_only_step res_only_transp within0_prod within_pure_intros within_intros
  within_pure [where ?'x = mut_resource] within0_pure [where ?'x = mut_resource]
  within0_pure [where ?'x = "mut_resource \<times> mut_resource list"]

lemma res_only_create: "within res_only w (mut_resources_create_resource a w)"
  unfolding mut_resources_create_resource_def Let_def by (intro res_only_intros)

lemma res_only_delete: "within0 res_only w (mut_resources_delete_resource p c bt w)"
  unfolding mut_resources_delete_resource_def mut_resources_really_delete_resource_def
    mut_resources_mark_as_free_def Let_def
  by (intro res_only_intros)

lemma res_only_kept:
  assumes "res_only w (w' :: ('p, 'a) mut_world_scheme)" and "foreign w' = foreign w"
  shows "kept w' = kept w"
proof -
  have w': "w' = w\<lparr>c_heap := c_heap w', c_errno := c_errno w', c_out := c_out w', store := store w',
            the_log := the_log w', bts := bts w', resources := resources w'\<rparr>"
    using assms(1) by (simp add: res_only_def)
  have "m_flags w' = m_flags w" "exec w' = exec w" "symtab w' = symtab w" "a_root w' = a_root w" "actions w' = actions w"
    by (subst w', simp)+
  then show ?thesis using assms(2) by (simp add: kept_def)
qed

lemma core_create:
  assumes "core_inv K E w" and "mut_resources_create_resource a w = Some (p, w')"
  shows "core_inv K E w'" and "bt_refs w' = bt_refs w"
proof -
  have "res_inv E w" using assms(1) by (simp add: core_inv_def)
  note r = mut_resources_create_result [OF this assms(2)]
  then have "kept w' = kept w" by (intro res_only_kept [OF withinD [OF res_only_create assms(2)]]) simp
  with r assms(1) show "core_inv K E w'" "bt_refs w' = bt_refs w" by (simp_all add: core_inv_def)
qed

lemma core_delete:
  assumes own: "owned K E bt w" and fresh: "fresh_bt bt w" and run: "mut_resources_delete_resource p c bt w = Some w'"
  shows "owned K E bt w'"
proof -
  obtain r where r: "res_get p w = Some r" "consumer_action r = None"
    using delete_resource_None [of p w c bt] run by fastforce
  have inv: "res_inv (own bt E) w" using own by (simp add: owned_def core_inv_def)
  from mut_resources_delete_result [OF inv r, of bt c] fresh run
  have res: "res_inv (own bt E) w'" "foreign w' = foreign w" by (auto simp: fresh_bt_def)
  have "kept w' = kept w" using res_only_kept [OF within0D [OF res_only_delete run] res(2)] .
  with res own show ?thesis by (simp add: owned_def core_inv_def)
qed

lemma core_make_producer:
  assumes own: "owned K E bt w" and get: "res_get p w = Some r" and new: "mut_resource_is_new r"
    and run: "mut_resource_make_producer p act n bt w = Some w'"
  shows "core_inv K E w'"
proof -
  have inv: "res_inv (own bt E) w" using own by (simp add: owned_def core_inv_def)
  have new': "producer_backtrace r = 0" using new by (simp add: mut_resource_is_new_def)
  have "bt \<noteq> 0 \<Longrightarrow> 0 < own bt E bt" by (simp add: own_def)
  from mut_resource_make_producer_result [OF inv get new' this, of act n] run
  have res: "res_inv (\<lambda>q. own bt E q - of_bool (q = bt \<and> bt \<noteq> 0)) w'" "foreign w' = foreign w" by auto
  have "(\<lambda>q. own bt E q - of_bool (q = bt \<and> bt \<noteq> 0)) = E" by (simp add: own_def)
  moreover have "kept w' = kept w"
    using res_only_kept [OF within0D [OF res_only_base(6)] res(2)] run by (simp add: mut_resource_make_producer_def)
  ultimately show ?thesis using res own by (simp add: owned_def core_inv_def)
qed

section \<open>Counting\<close>

lemma bt_refs_update [simp]:
  "bt_refs (w\<lparr>stats := s\<rparr>) = bt_refs w" "bt_refs (set_action a g w) = bt_refs w"
  by (simp_all add: bt_refs_def fun_eq_iff set_action_def)

lemma counting [simp]:
  "core_inv K E (collect_if n w) = core_inv K E w" "core_inv K E (hit a w) = core_inv K E w"
  "bt_refs (collect_if n w) = bt_refs w" "bt_refs (hit a w) = bt_refs w"
  by (simp_all add: collect_if_def mut_collect_producer_stats_def hit_def)

lemma counting_owned [simp]:
  "owned K E bt (collect_if n w) = owned K E bt w" "owned K E bt (hit a w) = owned K E bt w"
  "fresh_bt bt (collect_if n w) = fresh_bt bt w" "fresh_bt bt (hit a w) = fresh_bt bt w"
  by (simp_all add: owned_def fresh_bt_def)

lemma release_stats_inv:
  "release_stats n w = Some w' \<Longrightarrow> core_inv K E w' = core_inv K E w"
  "release_stats n w = Some w' \<Longrightarrow> bt_refs w' = bt_refs w"
  by (auto simp: release_stats_def split: bind_splits)

section \<open>Serving a call\<close>

text \<open>
  The state while a call is served: the invariant, and the backtrace \<open>B\<close>, if any, that nobody else
  refers to. \<open>served K E m\<close>: if the computation \<open>m\<close> of an action returns, the invariant holds; after
  a failure some references to backtraces may be left over.
\<close>

definition cinv where
  "cinv K E B w \<longleftrightarrow> core_inv K E w \<and> fresh_bt B w"

definition bt_flag where
  "bt_flag K bt \<longleftrightarrow> (bt \<noteq> (0 :: ptr) \<longleftrightarrow> kctl K mut_control_backtrace)"

definition served where
  "served K E m \<longleftrightarrow> (\<forall>ok w'. m = Some (ok, w') \<longrightarrow> (if ok then core_inv K E w' else \<exists>E'. core_inv K E' w'))"

lemma fresh_bt_0 [simp]: "fresh_bt 0 w"
  by (simp add: fresh_bt_def)

lemma cinv_tr: "tr_only w w' \<Longrightarrow> cinv K E B w' = cinv K E B w"
  by (simp add: cinv_def core_inv_tr fresh_bt_tr)

lemma cinv_0: "cinv K E B w \<Longrightarrow> cinv K E 0 w" "cinv K E 0 w = core_inv K E w"
  by (simp_all add: cinv_def fresh_bt_def)

lemma cinv_counting [simp]:
  "cinv K E B (collect_if n w) = cinv K E B w" "cinv K E B (hit a w) = cinv K E B w"
  by (simp_all add: cinv_def)

lemma cinv_owned: "bt_flag K bt \<Longrightarrow> cinv K (own bt E) B w \<Longrightarrow> owned K E bt w"
  by (simp add: owned_def cinv_def bt_flag_def)

lemma served_None: "served K E None"
  by (simp add: served_def)

lemma served_tr: "within tr_only w m \<Longrightarrow> cinv K E B w \<Longrightarrow> served K E m"
  unfolding served_def within_def using core_inv_tr by (metis (full_types) cinv_def)

text \<open>The rules follow the syntax of the actions.\<close>

lemma served_try_c:
  assumes "within tr_only w m" and "cinv K E' B w"
    and "\<And>v. cinv K E' B v \<Longrightarrow> served K E (h v)" and "\<And>x v. cinv K E' B v \<Longrightarrow> served K E (k x v)"
  shows "served K E (try_c m h k)"
proof (cases m)
  case (Some rv)
  then have "cinv K E' B (snd rv)" using assms(1,2) by (cases rv) (auto simp: within_def cinv_tr)
  with Some assms(3,4) show ?thesis by (cases rv; cases "fst rv") (auto simp: try_c_def)
qed (simp add: try_c_def served_None)

lemma served_try_ok:
  assumes "within tr_only w m" and "cinv K E' B w"
    and "\<And>v. cinv K E' B v \<Longrightarrow> served K E (h v)" and "\<And>v. cinv K E' B v \<Longrightarrow> served K E (k v)"
  shows "served K E (try_ok m h k)"
proof (cases m)
  case (Some rv)
  then have "cinv K E' B (snd rv)" using assms(1,2) by (cases rv) (auto simp: within_def cinv_tr)
  with Some assms(3,4) show ?thesis by (cases rv; cases "fst rv") (auto simp: try_ok_def)
qed (simp add: try_ok_def served_None)

lemma served_log:
  assumes "within0 tr_only w m" and "cinv K E' B w" and "\<And>v. cinv K E' B v \<Longrightarrow> served K E (f v)"
  shows "served K E (m \<bind> f)"
  using assms by (cases m) (auto simp: within0_def cinv_tr served_None)

lemma served_pure: fixes m :: "'x option" shows "(\<And>x. m = Some x \<Longrightarrow> served K E (f x)) \<Longrightarrow> served K E (m \<bind> f)"
  by (cases m) (simp_all add: served_None)

lemma served_if: "(c \<Longrightarrow> served K E a) \<Longrightarrow> (\<not> c \<Longrightarrow> served K E b) \<Longrightarrow> served K E (if c then a else b)"
  by simp

lemma served_end:
  "cinv K E B w \<Longrightarrow> served K E (Some (True, w))"
  "cinv K E' B w \<Longrightarrow> served K E (Some (False, w))"
  "cinv K E' B w \<Longrightarrow> served K E (fail_c w)"
  by (auto simp: served_def fail_c_def cinv_def)

lemma served_free_backtrace: "bt_flag K bt \<Longrightarrow> cinv K (own bt E') B w \<Longrightarrow> served K E (free_backtrace bt w)"
  using free_backtrace_result [OF cinv_owned] by (fastforce simp: served_def)

lemma served_drop:
  "bt_flag K bt \<Longrightarrow> cinv K (own bt E') B w \<Longrightarrow> (\<And>v. cinv K E' 0 v \<Longrightarrow> served K E (f v)) \<Longrightarrow>
   served K E (drop_bt bt w \<bind> f)"
  using drop_bt_result [OF cinv_owned] by (fastforce simp: cinv_0)

lemma served_produce:
  assumes "cinv K E' B w"
    and "\<And>bt v. bt_flag K bt \<Longrightarrow> cinv K (own bt E') bt v \<Longrightarrow> served K E (k bt v)"
  shows "served K E (try_c (mut_produce_backtrace w) fail_c k)"
proof (cases "mut_produce_backtrace w")
  case (Some rv)
  moreover obtain r v where rv: "rv = (r, v)" by (cases rv)
  ultimately have "case r of None \<Rightarrow> core_inv K E' v | Some bt \<Rightarrow> owned K E' bt v \<and> fresh_bt bt v"
    using produce_backtrace_result [of K E' w r v] assms(1) by (simp add: cinv_def)
  moreover have "served K E (fail_c v)" if "core_inv K E' v" using that served_end(3) [of K E' 0 v E] by (simp add: cinv_0)
  ultimately show ?thesis
    using assms(2) Some rv by (cases r) (auto simp: try_c_def cinv_def owned_def bt_flag_def)
qed (simp add: try_c_def served_None)

text \<open>The operations on resources.\<close>

lemma served_create:
  assumes "cinv K E' B w" and "\<And>p v. cinv K E' B v \<Longrightarrow> served K E (f p v)"
  shows "served K E (mut_resources_create_resource a w \<bind> (\<lambda>(p, v). f p v))"
proof (cases "mut_resources_create_resource a w")
  case (Some pv)
  moreover obtain p v where "pv = (p, v)" by (cases pv)
  ultimately have "cinv K E' B v" using core_create [of K E' w a p v] assms(1) by (simp add: cinv_def fresh_bt_def)
  with assms(2) Some \<open>pv = (p, v)\<close> show ?thesis by simp
qed (simp add: served_None)

lemma served_make_producer:
  assumes "res_get p w = Some r" and "mut_resource_is_new r" and "bt_flag K bt" and "cinv K (own bt E') B w"
    and "\<And>v. cinv K E' 0 v \<Longrightarrow> served K E (f v)"
  shows "served K E (mut_resource_make_producer p act n bt w \<bind> f)"
  using assms(5) core_make_producer [OF cinv_owned [OF assms(3,4)] assms(1,2)]
  by (cases "mut_resource_make_producer p act n bt w") (auto simp: served_None cinv_0)

lemma served_delete:
  assumes "bt_flag K bt" and "cinv K (own bt E') bt w" and "\<And>v. cinv K (own bt E') 0 v \<Longrightarrow> served K E (f v)"
  shows "served K E (mut_resources_delete_resource p c bt w \<bind> f)"
  using assms(3) core_delete [OF cinv_owned [OF assms(1,2)], of p c] assms(2)
  by (cases "mut_resources_delete_resource p c bt w") (auto simp: served_None cinv_0 cinv_def owned_def)

lemma served_release:
  assumes "cinv K E' B w" and "\<And>v. cinv K E' B v \<Longrightarrow> served K E (f v)"
  shows "served K E (when_c c (release_stats n) w \<bind> f)"
    and "served K E (when_c c (\<lambda>w. do { sz \<leftarrow> r_size r; release_stats sz w }) w \<bind> f)"
proof -
  have *: "served K E (when_c c (release_stats n) w \<bind> f)" for n
    using assms release_stats_inv [of n w]
    by (cases "release_stats n w") (auto simp: when_c_def served_None cinv_def fresh_bt_def)
  show "served K E (when_c c (release_stats n) w \<bind> f)" by (rule *)
  show "served K E (when_c c (\<lambda>w. do { sz \<leftarrow> r_size r; release_stats sz w }) w \<bind> f)"
    using *  by (cases "r_size r") (auto simp: when_c_def served_None intro: assms)
qed

lemma cinv_counted: "cinv K E B w \<Longrightarrow> cinv K E B (collect_if n w)" "cinv K E B w \<Longrightarrow> cinv K E B (hit a w)"
  by simp_all

lemmas served_pures = served_pure [where ?'x = unit] served_pure [where ?'x = u32] served_pure [where ?'x = string]
  served_pure [where ?'x = mut_resource]

lemmas served_rules = served_end served_free_backtrace served_produce served_create served_delete served_release
  served_drop cinv_counted served_pures served_try_c served_try_ok served_log served_if

text \<open>
  The same for an action as a function of the state: \<open>serves K E' B E f\<close> says that \<open>f\<close>, started with
  the references \<open>E'\<close> and the fresh backtrace \<open>B\<close>, serves and leaves \<open>E\<close>.
\<close>

definition serves where
  "serves K E' B E f \<longleftrightarrow> (\<forall>w. cinv K E' B w \<longrightarrow> served K E (f w))"

lemma servesI: "(\<And>w. cinv K E' B w \<Longrightarrow> served K E (f w)) \<Longrightarrow> serves K E' B E f"
  by (simp add: serves_def)

lemma servesD: "serves K E' B E f \<Longrightarrow> cinv K E' B w \<Longrightarrow> served K E (f w)"
  by (simp add: serves_def)

lemma serves_try_c:
  assumes "\<And>w. within tr_only w (m w)" and "serves K E' B E h" and "\<And>x. serves K E' B E (k x)"
  shows "serves K E' B E (\<lambda>w. try_c (m w) h k)"
  by (rule servesI, rule served_try_c; (assumption | rule assms | erule assms(2,3) [THEN servesD]))

lemma serves_try_ok:
  assumes "\<And>w. within tr_only w (m w)" and "serves K E' B E h" and "serves K E' B E k"
  shows "serves K E' B E (\<lambda>w. try_ok (m w) h k)"
  by (rule servesI, rule served_try_ok; (assumption | rule assms | erule assms(2,3) [THEN servesD]))

lemma serves_log:
  assumes "\<And>w. within0 tr_only w (m w)" and "serves K E' B E f"
  shows "serves K E' B E (\<lambda>w. m w \<bind> f)"
  by (rule servesI, rule served_log; (assumption | rule assms | erule assms(2) [THEN servesD]))

lemma serves_if:
  "serves K E' B E f \<Longrightarrow> serves K E' B E g \<Longrightarrow> serves K E' B E (\<lambda>w. if c w then f w else g w)"
  by (simp add: serves_def)

lemma serves_let:
  "serves K E' B E f \<Longrightarrow> serves K E' B E (\<lambda>w. let w = hit a w in f w)"
  "serves K E' B E f \<Longrightarrow> serves K E' B E (\<lambda>w. let w = collect_if n w in f w)"
  by (simp_all add: serves_def)

lemma serves_end:
  "serves K E B E (\<lambda>w. Some (True, w))" "serves K E' B E (\<lambda>w. Some (False, w))" "serves K E' B E fail_c"
  by (auto intro!: servesI served_end)

lemma serves_free_backtrace: "bt_flag K bt \<Longrightarrow> serves K (own bt E') B E (free_backtrace bt)"
  by (rule servesI) (rule served_free_backtrace)

lemma serves_produce:
  assumes "\<And>bt. bt_flag K bt \<Longrightarrow> serves K (own bt E') bt E (k bt)"
  shows "serves K E' B E (\<lambda>w. try_c (mut_produce_backtrace w) fail_c k)"
  by (rule servesI, rule served_produce, assumption) (erule servesD [OF assms])

lemma serves_drop:
  assumes "bt_flag K bt" and "serves K E' 0 E f"
  shows "serves K (own bt E') B E (\<lambda>w. drop_bt bt w \<bind> f)"
  by (rule servesI, rule served_drop [OF assms(1)], assumption) (erule servesD [OF assms(2)])

lemma serves_delete:
  assumes "bt_flag K bt" and "serves K (own bt E') 0 E f"
  shows "serves K (own bt E') bt E (\<lambda>w. mut_resources_delete_resource p c bt w \<bind> f)"
  by (rule servesI, rule served_delete [OF assms(1)], assumption) (erule servesD [OF assms(2)])

lemma serves_create:
  assumes "\<And>p. serves K E' B E (f p)"
  shows "serves K E' B E (\<lambda>w. mut_resources_create_resource a w \<bind> (\<lambda>(p, v). f p v))"
  by (rule servesI, rule served_create, assumption) (erule servesD [OF assms])

lemma serves_pure:
  fixes m :: "_ \<Rightarrow> 'x option"
  assumes "\<And>x. serves K E' B E (f x)"
  shows "serves K E' B E (\<lambda>w. m w \<bind> (\<lambda>x. f x w))"
  by (rule servesI, rule served_pure) (erule servesD [OF assms])

lemma serves_release:
  assumes "serves K E' B E f"
  shows "serves K E' B E (\<lambda>w. when_c (c w) (release_stats n) w \<bind> f)"
    and "serves K E' B E (\<lambda>w. when_c (c w) (\<lambda>w. do { sz \<leftarrow> r_size r; release_stats sz w }) w \<bind> f)"
  by (rule servesI, rule served_release, assumption, erule servesD [OF assms])+

lemma serves_lookup:
  assumes "\<And>p. serves K E' B E (f p)"
  shows "serves K E' B E (\<lambda>w. let p = mut_resources_lookup a w in f p w)"
  by (rule servesI) (simp add: servesD [OF assms])

lemma serves_tr: "(\<And>w. within tr_only w (m w)) \<Longrightarrow> serves K E B E m"
  by (rule servesI) (rule served_tr)

lemma serves_hit: "serves K E' B E f \<Longrightarrow> serves K E' B E (\<lambda>w. f (hit a w))"
  by (simp add: serves_def)

lemma serves_ctl:
  fixes f g :: "('a, 'b) mut_world_scheme \<Rightarrow> _"
  assumes "kctl K c \<Longrightarrow> serves K E' B E f" and "\<not> kctl K c \<Longrightarrow> serves K E' B E g"
  shows "serves K E' B E (\<lambda>w. if ctl c w then f w else g w)"
proof (rule servesI)
  fix w :: "('a, 'b) mut_world_scheme"
  assume inv: "cinv K E' B w"
  then have "ctl c w = kctl K c" using core_inv_ctl [of K E' w c] by (simp add: cinv_def)
  with inv show "served K E (if ctl c w then f w else g w)" using assms by (simp add: serves_def)
qed

text \<open>The code tests that a node is new before it makes it a producer's.\<close>

lemma serves_new:
  fixes f :: "('a, 'b) mut_world_scheme \<Rightarrow> _"
  assumes "bt_flag K bt" and "serves K E' 0 E f"
  shows "serves K (own bt E') B E (\<lambda>w. res_get p w \<bind> (\<lambda>r. assert_c (mut_resource_is_new r) \<bind>
           (\<lambda>_. mut_resource_make_producer p act n bt w \<bind> f)))"
proof (rule servesI, rule served_pure, rule served_pure)
  fix w :: "('a, 'b) mut_world_scheme" and r u
  assume "cinv K (own bt E') B w" and "res_get p w = Some r" and "assert_c (mut_resource_is_new r) = Some u"
  then show "served K E (mut_resource_make_producer p act n bt w \<bind> f)"
    by (intro served_make_producer [OF _ _ assms(1)] servesD [OF assms(2)]) (auto simp: assert_c_def split: if_splits)
qed

lemma two_sets:
  assumes inv: "res_inv E w" and get: "res_get p w = Some r" and new: "mut_resource_is_new r"
    and bt: "c \<or> bt = 0"
  shows "res_set p (\<lambda>r. r\<lparr>producer_action := Some act, r_size := Some n\<rparr>) w \<bind>
           when_c c (res_set p (\<lambda>r. r\<lparr>producer_backtrace := bt\<rparr>)) =
         mut_resource_make_producer p act n bt (w :: ('p, 'a) mut_world_scheme)"
proof -
  have r: "r \<in> set (elems (resources w))" "r_self r = p"
    using get node_at_Some by (auto simp: res_get_def)
  have only: "x = r" if "x \<in> set (elems (resources w))" "r_self x = p" for x
    using inv that r by (auto simp: res_inv_def distinct_map dest: inj_onD)
  have get': "node_at p (map (\<lambda>x. if r_self x = p then x\<lparr>producer_action := Some act, r_size := Some n\<rparr> else x)
      (elems (resources w))) \<noteq> None"
    using r by (subst node_at_None) (auto simp: image_Un image_image)
  have "producer_backtrace x = 0" if "x \<in> set (elems (resources w))" "r_self x = p" for x
    using only [OF that] new by (simp add: mut_resource_is_new_def)
  with get get' bt show ?thesis
    by (auto simp: mut_resource_make_producer_def res_set_def when_c_def res_get_def)
qed

lemma res_get_collect [simp]: "res_get p (collect_if n w) = res_get p w"
  by (simp add: collect_if_def mut_collect_producer_stats_def res_get_def)

lemma serves_two_sets:
  fixes f :: "('a, 'b) mut_world_scheme \<Rightarrow> _"
  assumes "bt_flag K bt" and "serves K E' 0 E f"
  shows "serves K (own bt E') B E (\<lambda>w. res_get p w \<bind> (\<lambda>r. assert_c (mut_resource_is_new r) \<bind> (\<lambda>_.
           let w = collect_if m w in
           res_set p (\<lambda>r. r\<lparr>producer_action := Some act, r_size := Some n\<rparr>) w \<bind> (\<lambda>w.
           when_c (ctl mut_control_backtrace w) (res_set p (\<lambda>r. r\<lparr>producer_backtrace := bt\<rparr>)) w \<bind> f))))"
    (is "serves K _ B E ?f")
proof (rule servesI)
  fix w :: "('a, 'b) mut_world_scheme"
  assume inv: "cinv K (own bt E') B w"
  let ?w = "collect_if m w"
  let ?set = "res_set p (\<lambda>r. r\<lparr>producer_action := Some act, r_size := Some n\<rparr>)"
  have inv': "cinv K (own bt E') B ?w" using inv by simp
  then have res: "res_inv (own bt E') ?w" and kept: "kept ?w = K"
    and bt: "kctl K mut_control_backtrace \<or> bt = 0"
    using assms(1) by (auto simp: cinv_def core_inv_def bt_flag_def)
  show "served K E (?f w)"
  proof (cases "res_get p w")
    case (Some r)
    show ?thesis
    proof (cases "mut_resource_is_new r")
      case True
      have ctl: "ctl mut_control_backtrace v = kctl K mut_control_backtrace" if "?set ?w = Some v" for v
      proof -
        have "m_flags v = m_flags ?w" using that by (auto simp: res_set_def split: bind_splits)
        moreover have "m_flags ?w = fst K" using kept by (auto simp: kept_def)
        ultimately show ?thesis by (simp add: ctl_def kctl_def)
      qed
      have "?f w = mut_resource_make_producer p act n bt ?w \<bind> f"
        using Some True two_sets [OF res _ True bt, where act = act and n = n, symmetric] ctl
        by (cases "?set ?w") (simp_all add: bind_assert_c Let_def)
      moreover have "served K E (mut_resource_make_producer p act n bt ?w \<bind> f)"
        by (rule served_make_producer [OF _ True assms(1) inv']) (simp_all add: Some servesD [OF assms(2)])
      ultimately show ?thesis by simp
    qed (simp add: Some bind_assert_c served_None)
  qed (simp add: served_None)
qed

lemma serves_let_counted:
  "serves K E' B E f \<Longrightarrow> serves K E' B E (\<lambda>w. let w = collect_if n (hit a w) in f w)"
  by (simp add: serves_def)

lemma serves_let_val: "serves K E' B E (f c) \<Longrightarrow> serves K E' B E (\<lambda>w. let x = c in f x w)"
  by simp

lemmas serves_pures = serves_pure [where ?'x = mut_resource] serves_pure [where ?'x = u32] serves_pure [where ?'x = unit]

lemma tr_refl: "tr_only w w" by (rule tr_only_update)

lemmas serves_rules = serves_end serves_free_backtrace serves_produce serves_create serves_delete serves_release
  serves_drop serves_try_c serves_try_ok serves_let serves_if serves_log

end
