(* ===== verification/MutProducer.thy ===== *)
theory MutProducer
  imports MutCore
begin

text \<open>
  The core of MUT, second part: the calls that produce objects, \<open>malloc\<close> and \<open>calloc\<close>. The
  parameter \<open>pc\<close> of the C functions is not used.
\<close>

section \<open>malloc\<close>

definition mut_malloc_failure :: "u32 \<Rightarrow> ptr \<Rightarrow> ('p, 'a) mut_world_scheme \<Rightarrow> ('p, 'a) mut_world_scheme option" where
  "mut_malloc_failure sz bt w = do {
     w \<leftarrow> when_c (ctl mut_control_trace w) (\<lambda>w. do {
       w \<leftarrow> mut_log_info ''trace'' w;
       w \<leftarrow> mut_log_string (action_name Act_malloc w) w;
       w \<leftarrow> mut_log_uint sz w;
       w \<leftarrow> mut_log_uint_hex 0 w;
       w \<leftarrow> log_bt bt w;
       end_log w
     }) w;
     w \<leftarrow> mut_log_warning ''MR0'' w;
     w \<leftarrow> mut_log_string (action_name Act_malloc w) w;
     w \<leftarrow> mut_log_uint sz w;
     w \<leftarrow> log_bt bt w;
     w \<leftarrow> end_log w;
     drop_bt bt w
   }"

definition mut_malloc_success ::
  "u32 \<Rightarrow> u32 \<Rightarrow> ptr \<Rightarrow> ('p, 'a) mut_world_scheme \<Rightarrow> (bool \<times> ('p, 'a) mut_world_scheme) option" where
  "mut_malloc_success sz obj_addr bt w = do {
     assert_c (ctl mut_control_backtrace w \<or> bt = 0);
     let w = collect_if sz w;
     (obj, w) \<leftarrow> mut_resources_create_resource obj_addr w;
     if obj = 0 then Some (False, w)
     else do {
       r \<leftarrow> res_get obj w;
       if \<not> mut_resource_is_new r then do {
         w \<leftarrow> mut_log_error ''MMM'' w;
         w \<leftarrow> mut_log_string (action_name Act_malloc w) w;
         name \<leftarrow> mut_resource_producer_name r w;
         w \<leftarrow> mut_log_string name w;
         w \<leftarrow> mut_log_uint_hex obj_addr w;
         w \<leftarrow> end_log w;
         Some (False, w)
       }
       else do {
         w \<leftarrow> mut_resource_make_producer obj Act_malloc sz bt w;
         w \<leftarrow> when_c (ctl mut_control_trace w) (\<lambda>w. do {
           w \<leftarrow> mut_log_info ''trace'' w;
           w \<leftarrow> mut_log_string (action_name Act_malloc w) w;
           w \<leftarrow> mut_log_uint sz w;
           w \<leftarrow> mut_log_uint_hex obj_addr w;
           w \<leftarrow> log_bt bt w;
           end_log w
         }) w;
         w \<leftarrow> usage_if w;
         Some (True, w)
       }
     }
   }"

definition mut_do_malloc ::
  "mut_action_id \<Rightarrow> ('p, 'a) mut_world_scheme \<Rightarrow> (bool \<times> ('p, 'a) mut_world_scheme) option" where
  "mut_do_malloc malloc w =
     try_c (mut_process_read_arg 0 w) fail_c (\<lambda>sz w.
     try_c (mut_produce_backtrace w) fail_c (\<lambda>bt w.
     try_c (mut_process_function_return_addr w) (free_backtrace bt) (\<lambda>return_addr w.
     try_ok (if ctl mut_control_check w then mut_process_write_arg 0 (mut_round_up sz) w else Some (True, w))
       (free_backtrace bt) (\<lambda>w.
     try_ok (mut_do_action return_addr malloc w) (free_backtrace bt) (\<lambda>w.
     try_c (mut_process_read_result w) (free_backtrace bt) (\<lambda>obj_addr w.
     let w = hit malloc w in
     if obj_addr = 0 then do { w \<leftarrow> mut_malloc_failure sz bt w; Some (True, w) }
     else try_c (if ctl mut_control_check w then mut_install_check_zones obj_addr (mut_round_up sz) w
                 else Some (Some obj_addr, w)) (free_backtrace bt) (\<lambda>obj_addr w.
     mut_malloc_success sz obj_addr bt w)))))))"

section \<open>calloc\<close>

definition mut_calloc_failure ::
  "u32 \<Rightarrow> u32 \<Rightarrow> ptr \<Rightarrow> ('p, 'a) mut_world_scheme \<Rightarrow> ('p, 'a) mut_world_scheme option" where
  "mut_calloc_failure nelems elem_size bt w = do {
     w \<leftarrow> when_c (ctl mut_control_trace w) (\<lambda>w. do {
       w \<leftarrow> mut_log_info ''trace'' w;
       w \<leftarrow> mut_log_string (action_name Act_calloc w) w;
       w \<leftarrow> mut_log_uint nelems w;
       w \<leftarrow> mut_log_uint elem_size w;
       w \<leftarrow> mut_log_uint_hex 0 w;
       w \<leftarrow> log_bt bt w;
       end_log w
     }) w;
     w \<leftarrow> mut_log_warning ''CR0'' w;
     w \<leftarrow> mut_log_string (action_name Act_calloc w) w;
     w \<leftarrow> mut_log_uint nelems w;
     w \<leftarrow> mut_log_uint elem_size w;
     w \<leftarrow> log_bt bt w;
     w \<leftarrow> end_log w;
     drop_bt bt w
   }"

definition mut_calloc_success ::
  "u32 \<Rightarrow> u32 \<Rightarrow> u32 \<Rightarrow> ptr \<Rightarrow> ('p, 'a) mut_world_scheme \<Rightarrow> (bool \<times> ('p, 'a) mut_world_scheme) option" where
  "mut_calloc_success n_elems elem_size obj_addr bt w = do {
     let sz = n_elems * elem_size;
     let w = collect_if sz w;
     (obj, w) \<leftarrow> mut_resources_create_resource obj_addr w;
     if obj = 0 then Some (False, w)
     else do {
       r \<leftarrow> res_get obj w;
       if \<not> mut_resource_is_new r then do {
         w \<leftarrow> mut_log_error ''CMM'' w;
         w \<leftarrow> mut_log_string (action_name Act_calloc w) w;
         name \<leftarrow> mut_resource_producer_name r w;
         w \<leftarrow> mut_log_string name w;
         w \<leftarrow> mut_log_uint_hex obj_addr w;
         w \<leftarrow> end_log w;
         Some (False, w)
       }
       else do {
         w \<leftarrow> mut_resource_make_producer obj Act_calloc sz bt w;
         w \<leftarrow> when_c (ctl mut_control_trace w) (\<lambda>w. do {
           w \<leftarrow> mut_log_info ''trace'' w;
           w \<leftarrow> mut_log_string (action_name Act_calloc w) w;
           w \<leftarrow> mut_log_uint n_elems w;
           w \<leftarrow> mut_log_uint elem_size w;
           w \<leftarrow> mut_log_uint_hex obj_addr w;
           w \<leftarrow> log_bt bt w;
           end_log w
         }) w;
         w \<leftarrow> usage_if w;
         Some (True, w)
       }
     }
   }"

definition calloc_zones :: "u32 \<Rightarrow> u32" where
  "calloc_zones total_size = total_size div mut_zone_size + 1 + 2"

definition mut_do_calloc ::
  "mut_action_id \<Rightarrow> ('p, 'a) mut_world_scheme \<Rightarrow> (bool \<times> ('p, 'a) mut_world_scheme) option" where
  "mut_do_calloc calloc w =
     try_c (mut_process_read_arg 0 w) fail_c (\<lambda>n_elems w.
     try_c (mut_process_read_arg 1 w) fail_c (\<lambda>elem_size w.
     try_c (mut_produce_backtrace w) fail_c (\<lambda>bt w.
     try_c (mut_process_function_return_addr w) (free_backtrace bt) (\<lambda>return_addr w.
     let n_zones = calloc_zones (n_elems * elem_size) in
     try_ok (if ctl mut_control_check w
             then try_ok (mut_process_write_arg 0 n_zones w) fail_c (mut_process_write_arg 1 mut_zone_size)
             else Some (True, w)) (free_backtrace bt) (\<lambda>w.
     try_ok (mut_do_action return_addr calloc w) (free_backtrace bt) (\<lambda>w.
     try_c (mut_process_read_result w) (free_backtrace bt) (\<lambda>obj_addr w.
     let w = hit calloc w in
     if obj_addr = 0 then do { w \<leftarrow> mut_calloc_failure n_elems elem_size bt w; Some (True, w) }
     else try_c (if ctl mut_control_check w then mut_install_check_zones obj_addr (n_zones * mut_zone_size) w
                 else Some (Some obj_addr, w)) (free_backtrace bt) (\<lambda>obj_addr w.
     mut_calloc_success n_elems elem_size obj_addr bt w))))))))"

section \<open>The invariant\<close>

lemma malloc_failure_serves:
  "bt_flag K bt \<Longrightarrow> serves K E 0 E' f \<Longrightarrow> serves K (own bt E) B E' (\<lambda>w. mut_malloc_failure n bt w \<bind> f)"
  unfolding mut_malloc_failure_def Option.bind_assoc
  by (intro serves_pures serves_rules; (assumption | (intro core_intros tr_refl; assumption)))

lemma calloc_failure_serves:
  "bt_flag K bt \<Longrightarrow> serves K E 0 E' f \<Longrightarrow> serves K (own bt E) B E' (\<lambda>w. mut_calloc_failure n sz bt w \<bind> f)"
  unfolding mut_calloc_failure_def Option.bind_assoc
  by (intro serves_pures serves_rules; (assumption | (intro core_intros tr_refl; assumption)))

lemma malloc_success_served:
  "bt_flag K bt \<Longrightarrow> cinv K (own bt E) B w \<Longrightarrow> served K E (mut_malloc_success sz a bt w)"
  unfolding mut_malloc_success_def Let_def
  by (intro served_make_producer served_rules tr_usage_if core_intros; (assumption | simp)?)

lemma calloc_success_served:
  "bt_flag K bt \<Longrightarrow> cinv K (own bt E) B w \<Longrightarrow> served K E (mut_calloc_success n sz a bt w)"
  unfolding mut_calloc_success_def Let_def
  by (intro served_make_producer served_rules tr_usage_if core_intros; (assumption | simp)?)

lemmas producer_serves = malloc_failure_serves calloc_failure_serves
  servesI [OF malloc_success_served] servesI [OF calloc_success_served]

lemma mut_do_malloc_serves: "serves K E B E (mut_do_malloc a)"
  unfolding mut_do_malloc_def
  by (intro producer_serves serves_rules; (assumption | (intro tr_do_action tr_install_zones core_intros tr_refl; assumption)))

lemma mut_do_calloc_serves: "serves K E B E (mut_do_calloc a)"
  unfolding mut_do_calloc_def Let_def [where s = "calloc_zones _"]
  by (intro producer_serves serves_rules; (assumption | (intro tr_do_action tr_install_zones core_intros tr_refl; assumption)))
end
