(* ===== verification/MutConsumer.thy ===== *)
theory MutConsumer
  imports MutProducer
begin

text \<open>
  The core of MUT, third part: the calls that consume objects, \<open>free\<close> and \<open>cfree\<close>, the checks of
  the safety zones, and the error messages about objects.
\<close>

section \<open>Error messages\<close>

definition mut_log_fum ::
  "u32 \<Rightarrow> mut_action_id \<Rightarrow> ptr \<Rightarrow> ('p, 'a) mut_world_scheme \<Rightarrow> ('p, 'a) mut_world_scheme option" where
  "mut_log_fum obj_addr consumer bt w = do {
     w \<leftarrow> mut_log_error ''FUM'' w;
     w \<leftarrow> mut_log_string (action_name consumer w) w;
     w \<leftarrow> mut_log_uint_hex obj_addr w;
     w \<leftarrow> log_bt bt w;
     end_log w
   }"

definition mut_log_ffm ::
  "u32 \<Rightarrow> mut_action_id \<Rightarrow> ptr \<Rightarrow> ptr \<Rightarrow> ('p, 'a) mut_world_scheme \<Rightarrow> ('p, 'a) mut_world_scheme option" where
  "mut_log_ffm obj_addr consumer obj bt w = do {
     assert_c (\<not> ctl mut_control_free w);
     r \<leftarrow> res_get obj w;
     assert_c (mut_resources_resource_deleted r);
     w \<leftarrow> mut_log_error ''FFM'' w;
     w \<leftarrow> mut_log_string (action_name consumer w) w;
     w \<leftarrow> mut_log_uint_hex obj_addr w;
     w \<leftarrow> log_bt bt w;
     name \<leftarrow> mut_resource_consumer_name r w;
     w \<leftarrow> mut_log_string name w;
     w \<leftarrow> log_bt (consumer_backtrace r) w;
     end_log w
   }"

definition mut_log_wum ::
  "u32 \<Rightarrow> u32 \<Rightarrow> u32 \<Rightarrow> mut_action_id \<Rightarrow> ptr \<Rightarrow> ptr \<Rightarrow> ('p, 'a) mut_world_scheme \<Rightarrow> ('p, 'a) mut_world_scheme option" where
  "mut_log_wum obj_addr zone_addr zone_value consumer obj bt w = do {
     assert_c (ctl mut_control_check w);
     w \<leftarrow> mut_log_error ''WUM'' w;
     w \<leftarrow> mut_log_string (action_name consumer w) w;
     w \<leftarrow> mut_log_uint_hex obj_addr w;
     r \<leftarrow> res_get obj w;
     sz \<leftarrow> r_size r;
     w \<leftarrow> mut_log_ulong sz w;
     w \<leftarrow> mut_log_uint_hex zone_addr w;
     w \<leftarrow> mut_log_uint_hex zone_value w;
     w \<leftarrow> log_bt bt w;
     name \<leftarrow> mut_resource_producer_name r w;
     w \<leftarrow> mut_log_string name w;
     w \<leftarrow> log_bt (producer_backtrace r) w;
     end_log w
   }"

section \<open>Checking the zones\<close>

definition mut_zone_check ::
  "u32 \<Rightarrow> ptr \<Rightarrow> mut_action_id \<Rightarrow> ptr \<Rightarrow> ('p, 'a) mut_world_scheme \<Rightarrow> (bool \<times> ('p, 'a) mut_world_scheme) option" where
  "mut_zone_check obj_addr obj consumer bt w = do {
     r \<leftarrow> res_get obj w;
     sz \<leftarrow> r_size r;
     let true_size = mut_round_up sz;
     let pre_zone_addr = obj_addr - mut_zone_size;
     let post_zone_addr = pre_zone_addr + true_size - mut_zone_size;
     try_c (mut_process_read_word pre_zone_addr w) fail_c (\<lambda>zone_value w.
     if zone_value \<noteq> mut_zone_value
     then do { w \<leftarrow> mut_log_wum obj_addr pre_zone_addr zone_value consumer obj bt w; Some (False, w) }
     else try_c (mut_process_read_word post_zone_addr w) fail_c (\<lambda>zone_value w.
     if zone_value \<noteq> mut_zone_value
     then do { w \<leftarrow> mut_log_wum obj_addr post_zone_addr zone_value consumer obj bt w; Some (False, w) }
     else Some (True, w)))
   }"

section \<open>free and cfree\<close>

text \<open>\<open>(m->flags & mut_control_free) ? mut_do_action(...) : mut_process_skip_to(...)\<close>\<close>

definition do_or_skip ::
  "u32 \<Rightarrow> mut_action_id \<Rightarrow> ('p, 'a) mut_world_scheme \<Rightarrow> (bool \<times> ('p, 'a) mut_world_scheme) option" where
  "do_or_skip return_addr consumer w =
     (if ctl mut_control_free w then mut_do_action return_addr consumer w
      else mut_process_skip_to return_addr w)"

text \<open>The label \<open>.free.addr.alloc.avail\<close> of the description: an object that is still there.\<close>

definition consume_object ::
  "u32 \<Rightarrow> u32 \<Rightarrow> mut_action_id \<Rightarrow> ptr \<Rightarrow> ptr \<Rightarrow> ('p, 'a) mut_world_scheme \<Rightarrow> (bool \<times> ('p, 'a) mut_world_scheme) option" where
  "consume_object obj_addr return_addr consumer obj bt w = do {
     r \<leftarrow> res_get obj w;
     w \<leftarrow> when_c (ctl mut_control_stats w) (\<lambda>w. do { sz \<leftarrow> r_size r; release_stats sz w }) w;
     try_ok (if ctl mut_control_check w then mut_zone_check obj_addr obj consumer bt w else Some (True, w))
       (free_backtrace bt) (\<lambda>w.
     try_ok (if ctl mut_control_zero w then do { sz \<leftarrow> r_size r; mut_process_memset obj_addr 0 sz w }
             else Some (True, w)) (free_backtrace bt) (\<lambda>w. do {
       w \<leftarrow> mut_resources_delete_resource obj consumer bt w;
       w \<leftarrow> drop_bt bt w;
       w \<leftarrow> usage_if w;
       do_or_skip return_addr consumer w
     }))
   }"

definition mut_do_consumer ::
  "mut_action_id \<Rightarrow> ('p, 'a) mut_world_scheme \<Rightarrow> (bool \<times> ('p, 'a) mut_world_scheme) option" where
  "mut_do_consumer consumer w =
     try_c (mut_process_read_arg 0 (hit consumer w)) fail_c (\<lambda>obj_addr w.
     try_c (mut_process_function_return_addr w) fail_c (\<lambda>return_addr w.
     try_c (mut_produce_backtrace w) fail_c (\<lambda>bt w.
     if obj_addr = 0 then do {
       w \<leftarrow> when_c (ctl mut_control_trace w) (\<lambda>w. do {
         w \<leftarrow> mut_log_info ''trace'' w;
         w \<leftarrow> mut_log_string (action_name consumer w) w;
         w \<leftarrow> mut_log_uint_hex obj_addr w;
         end_log w
       }) w;
       w \<leftarrow> drop_bt bt w;
       mut_do_action return_addr consumer w
     }
     else
       let obj = mut_resources_lookup obj_addr w in
       if obj = 0 then do {
         w \<leftarrow> when_c (ctl mut_control_trace w) (\<lambda>w. do {
           w \<leftarrow> mut_log_info ''trace'' w;
           w \<leftarrow> mut_log_string (action_name consumer w) w;
           w \<leftarrow> mut_log_uint_hex obj_addr w;
           w \<leftarrow> mut_log_int 0 w;
           end_log w
         }) w;
         w \<leftarrow> mut_log_fum obj_addr consumer bt w;
         w \<leftarrow> drop_bt bt w;
         do_or_skip return_addr consumer w
       }
       else do {
         r \<leftarrow> res_get obj w;
         w \<leftarrow> when_c (ctl mut_control_trace w) (\<lambda>w. do {
           w \<leftarrow> mut_log_info ''trace'' w;
           w \<leftarrow> mut_log_string (action_name consumer w) w;
           w \<leftarrow> mut_log_uint_hex obj_addr w;
           sz \<leftarrow> r_size r;
           w \<leftarrow> mut_log_ulong sz w;
           end_log w
         }) w;
         if mut_resources_resource_deleted r then do {
           w \<leftarrow> mut_log_ffm obj_addr consumer obj bt w;
           w \<leftarrow> drop_bt bt w;
           do_or_skip return_addr consumer w
         }
         else consume_object obj_addr return_addr consumer obj bt w
       })))"

section \<open>The invariant\<close>

lemma tr_log_fum: "tr_only w v \<Longrightarrow> within0 tr_only w (mut_log_fum a c bt v)"
  unfolding mut_log_fum_def by (intro core_intros; assumption)

lemma tr_log_ffm: "tr_only w v \<Longrightarrow> within0 tr_only w (mut_log_ffm a c p bt v)"
  unfolding mut_log_ffm_def by (intro core_intros; assumption)

lemma tr_log_wum: "tr_only w v \<Longrightarrow> within0 tr_only w (mut_log_wum a z x c p bt v)"
  unfolding mut_log_wum_def by (intro core_intros; assumption)

lemma tr_zone_check: "tr_only w v \<Longrightarrow> within tr_only w (mut_zone_check a p c bt v)"
  unfolding mut_zone_check_def Let_def by (intro tr_log_wum core_intros tr_refl; assumption)

lemma tr_do_or_skip: "tr_only w v \<Longrightarrow> within tr_only w (do_or_skip ra c v)"
  unfolding do_or_skip_def by (intro tr_do_action core_intros; assumption)

lemmas consumer_intros = tr_usage_if tr_log_fum tr_log_ffm tr_zone_check tr_do_or_skip tr_do_action tr_install_zones
  core_intros tr_refl

lemmas action_serves = serves_tr [OF tr_do_or_skip [OF tr_refl]] serves_tr [OF tr_do_action [OF tr_refl]]

lemma consume_object_serves: "bt_flag K bt \<Longrightarrow> serves K (own bt E) bt E (consume_object a ra c p bt)"
  unfolding consume_object_def
  by (intro action_serves serves_pures serves_rules; (assumption | (intro consumer_intros; assumption)))

lemma mut_do_consumer_serves: "serves K E B E (mut_do_consumer a)"
  unfolding mut_do_consumer_def
  by (rule serves_hit)
    (intro consume_object_serves action_serves serves_lookup serves_pures serves_rules;
     (assumption | (intro consumer_intros; assumption)))

end
