(* ===== verification/MutRealloc.thy ===== *)
theory MutRealloc
  imports MutConsumer
begin

text \<open>
  The core of MUT, fourth part: \<open>realloc\<close>, which is a producer, a consumer or both, in the four
  ways of src/src/mut.c: for a null pointer, for an object with and without really freeing
  memory, and for an address that is not an object.
\<close>

definition mut_realloc_failure ::
  "u32 \<Rightarrow> u32 \<Rightarrow> u32 \<Rightarrow> ptr \<Rightarrow> ('p, 'a) mut_world_scheme \<Rightarrow> ('p, 'a) mut_world_scheme option" where
  "mut_realloc_failure new_size old_addr old_size bt w = do {
     assert_c (ctl mut_control_backtrace w \<or> bt = 0);
     w \<leftarrow> when_c (ctl mut_control_trace w) (\<lambda>w. do {
       w \<leftarrow> mut_log_info ''trace'' w;
       w \<leftarrow> mut_log_string (action_name Act_realloc w) w;
       w \<leftarrow> mut_log_uint_hex old_addr w;
       w \<leftarrow> mut_log_uint old_size w;
       w \<leftarrow> mut_log_uint new_size w;
       w \<leftarrow> mut_log_uint_hex 0 w;
       w \<leftarrow> log_bt bt w;
       end_log w
     }) w;
     w \<leftarrow> mut_log_warning ''RR0'' w;
     w \<leftarrow> mut_log_string (action_name Act_realloc w) w;
     w \<leftarrow> mut_log_uint_hex old_addr w;
     w \<leftarrow> mut_log_uint old_size w;
     w \<leftarrow> mut_log_uint new_size w;
     w \<leftarrow> log_bt bt w;
     w \<leftarrow> end_log w;
     drop_bt bt w
   }"

text \<open>The trace message of a \<open>realloc\<close> that has succeeded.\<close>

definition realloc_trace ::
  "u32 \<Rightarrow> u32 \<Rightarrow> u32 \<Rightarrow> u32 \<Rightarrow> ptr \<Rightarrow> ('p, 'a) mut_world_scheme \<Rightarrow> ('p, 'a) mut_world_scheme option" where
  "realloc_trace old_addr old_size new_size new_addr bt w =
     when_c (ctl mut_control_trace w) (\<lambda>w. do {
       w \<leftarrow> mut_log_info ''trace'' w;
       w \<leftarrow> mut_log_string (action_name Act_realloc w) w;
       w \<leftarrow> mut_log_uint_hex old_addr w;
       w \<leftarrow> mut_log_ulong old_size w;
       w \<leftarrow> mut_log_ulong new_size w;
       w \<leftarrow> mut_log_uint_hex new_addr w;
       w \<leftarrow> log_bt bt w;
       end_log w
     }) w"

definition mut_realloc_malloc ::
  "u32 \<Rightarrow> ptr \<Rightarrow> ('p, 'a) mut_world_scheme \<Rightarrow> (bool \<times> ('p, 'a) mut_world_scheme) option" where
  "mut_realloc_malloc obj_size bt w = do {
     assert_c (ctl mut_control_backtrace w \<or> bt = 0);
     try_c (mut_process_read_result w) (free_backtrace bt) (\<lambda>obj_addr w.
     let w = hit Act_realloc w in
     if obj_addr = 0 then do { w \<leftarrow> mut_realloc_failure obj_size 0 0 bt w; Some (False, w) }
     else try_c (if ctl mut_control_check w then mut_install_check_zones obj_addr (mut_round_up obj_size) w
                 else Some (Some obj_addr, w)) (free_backtrace bt) (\<lambda>obj_addr w. do {
       (obj, w) \<leftarrow> mut_resources_create_resource obj_addr w;
       if obj = 0 then free_backtrace bt w
       else do {
         r \<leftarrow> res_get obj w;
         assert_c (mut_resource_is_new r);
         let w = collect_if obj_size w;
         w \<leftarrow> res_set obj (\<lambda>r. r\<lparr>producer_action := Some Act_realloc, r_size := Some obj_size\<rparr>) w;
         w \<leftarrow> when_c (ctl mut_control_backtrace w) (res_set obj (\<lambda>r. r\<lparr>producer_backtrace := bt\<rparr>)) w;
         w \<leftarrow> realloc_trace 0 0 obj_size obj_addr bt w;
         w \<leftarrow> usage_if w;
         Some (True, w)
       }
     }))
   }"

definition mut_realloc_realloc ::
  "ptr \<Rightarrow> u32 \<Rightarrow> ptr \<Rightarrow> ('p, 'a) mut_world_scheme \<Rightarrow> (bool \<times> ('p, 'a) mut_world_scheme) option" where
  "mut_realloc_realloc obj new_obj_size bt w = do {
     assert_c (ctl mut_control_free w);
     assert_c (ctl mut_control_backtrace w \<or> bt = 0);
     try_c (mut_process_read_result w) fail_c (\<lambda>new_obj_addr w. do {
       let w = hit Act_realloc w;
       r \<leftarrow> res_get obj w;
       old_obj_size \<leftarrow> r_size r;
       let old_obj_addr = r_addr r;
       if new_obj_addr = 0
       then do { w \<leftarrow> mut_realloc_failure new_obj_size old_obj_addr old_obj_size bt w; Some (False, w) }
       else do {
         w \<leftarrow> when_c (ctl mut_control_stats w) (release_stats old_obj_size) w;
         try_ok (if old_obj_addr = new_obj_addr
                 then do { assert_c (\<not> mut_resources_resource_deleted r); Some (True, w) }
                 else try_ok (if ctl mut_control_zero w then mut_process_memset old_obj_addr 0 old_obj_size w
                              else Some (True, w)) fail_c
                        (\<lambda>w. do { w \<leftarrow> res_set obj (\<lambda>r. r\<lparr>r_addr := new_obj_addr\<rparr>) w; Some (True, w) }))
           fail_c (\<lambda>w. do {
           let w = collect_if new_obj_size w;
           w \<leftarrow> res_set obj (\<lambda>r. r\<lparr>producer_action := Some Act_realloc, r_size := Some new_obj_size,
                                       consumer_action := None\<rparr>) w;
           w \<leftarrow> when_c (ctl mut_control_backtrace w) (\<lambda>w. do {
             r \<leftarrow> res_get obj w;
             w \<leftarrow> when_c (consumer_backtrace r \<noteq> 0) (mut_backtrace_close (consumer_backtrace r)) w;
             w \<leftarrow> res_set obj (\<lambda>r. r\<lparr>consumer_backtrace := 0\<rparr>) w;
             w \<leftarrow> mut_backtrace_close (producer_backtrace r) w;
             res_set obj (\<lambda>r. r\<lparr>producer_backtrace := bt\<rparr>) w
           }) w;
           w \<leftarrow> realloc_trace old_obj_addr old_obj_size new_obj_size new_obj_addr bt w;
           w \<leftarrow> usage_if w;
           Some (True, w)
         })
       }
     })
   }"

text \<open>The code under \<open>XXX\<close>, which is not defined, is left out.\<close>

definition mut_realloc_realloc_no_free ::
  "ptr \<Rightarrow> u32 \<Rightarrow> ptr \<Rightarrow> ('p, 'a) mut_world_scheme \<Rightarrow> (bool \<times> ('p, 'a) mut_world_scheme) option" where
  "mut_realloc_realloc_no_free old_obj new_size bt w = do {
     r \<leftarrow> res_get old_obj w;
     old_obj_size \<leftarrow> r_size r;
     let old_obj_addr = r_addr r;
     assert_c (ctl mut_control_backtrace w \<or> bt = 0);
     try_c (mut_process_read_result w) (free_backtrace bt) (\<lambda>obj_addr w. do {
       assert_c (old_obj_addr \<noteq> obj_addr);
       if obj_addr = 0
       then do { w \<leftarrow> mut_realloc_failure new_size old_obj_addr old_obj_size bt w; Some (False, w) }
       else do {
         w \<leftarrow> when_c (ctl mut_control_stats w) (release_stats old_obj_size) w;
         w \<leftarrow> mut_resources_delete_resource old_obj Act_realloc bt w;
         (obj, w) \<leftarrow> mut_resources_create_resource obj_addr w;
         if obj = 0 then free_backtrace bt w
         else do {
           r \<leftarrow> res_get obj w;
           assert_c (mut_resource_is_new r);
           w \<leftarrow> mut_resource_make_producer obj Act_realloc new_size bt w;
           let sz = (if old_obj_size < new_size then old_obj_size else new_size);
           try_ok (mut_process_memcpy obj_addr old_obj_addr sz w) fail_c (\<lambda>w.
           try_ok (if ctl mut_control_zero w then mut_process_memset old_obj_addr 0 old_obj_size w
                   else Some (True, w)) fail_c (\<lambda>w. do {
             let w = collect_if new_size (hit Act_realloc w);
             w \<leftarrow> realloc_trace old_obj_addr old_obj_size new_size obj_addr bt w;
             w \<leftarrow> usage_if w;
             Some (True, w)
           }))
         }
       }
     })
   }"

definition mut_realloc_malloc_no_free ::
  "u32 \<Rightarrow> ptr \<Rightarrow> ('p, 'a) mut_world_scheme \<Rightarrow> (bool \<times> ('p, 'a) mut_world_scheme) option" where
  "mut_realloc_malloc_no_free new_size bt w = do {
     assert_c (ctl mut_control_backtrace w \<or> bt = 0);
     try_c (mut_process_read_result w) (free_backtrace bt) (\<lambda>obj_addr w.
     if obj_addr = 0 then do { w \<leftarrow> mut_realloc_failure new_size 0 0 bt w; Some (False, w) }
     else try_c (if ctl mut_control_check w then mut_install_check_zones obj_addr (mut_round_up new_size) w
                 else Some (Some obj_addr, w)) (free_backtrace bt) (\<lambda>obj_addr w. do {
       (obj, w) \<leftarrow> mut_resources_create_resource obj_addr w;
       if obj = 0 then free_backtrace bt w
       else do {
         r \<leftarrow> res_get obj w;
         assert_c (mut_resource_is_new r);
         w \<leftarrow> mut_resource_make_producer obj Act_realloc new_size bt w;
         let w = collect_if new_size (hit Act_realloc w);
         w \<leftarrow> realloc_trace 0 0 new_size obj_addr bt w;
         Some (True, w)
       }
     }))
   }"

definition mut_realloc_fum_trace ::
  "string \<Rightarrow> u32 \<Rightarrow> u32 \<Rightarrow> ('p, 'a) mut_world_scheme \<Rightarrow> ('p, 'a) mut_world_scheme option" where
  "mut_realloc_fum_trace realloc_name obj_addr new_size w = do {
     w \<leftarrow> mut_log_info ''trace'' w;
     w \<leftarrow> mut_log_string realloc_name w;
     w \<leftarrow> mut_log_uint_hex obj_addr w;
     w \<leftarrow> mut_log_uint new_size w;
     w \<leftarrow> mut_log_int 0 w;
     end_log w
   }"

text \<open>The argument with the size is rounded up when zones are requested.\<close>

definition write_size ::
  "u32 \<Rightarrow> ('p, 'a) mut_world_scheme \<Rightarrow> (bool \<times> ('p, 'a) mut_world_scheme) option" where
  "write_size new_size w =
     (if ctl mut_control_check w then mut_process_write_arg 1 (mut_round_up new_size) w else Some (True, w))"

definition mut_do_realloc ::
  "mut_action_id \<Rightarrow> ('p, 'a) mut_world_scheme \<Rightarrow> (bool \<times> ('p, 'a) mut_world_scheme) option" where
  "mut_do_realloc realloc w =
     try_c (mut_process_read_arg 0 w) fail_c (\<lambda>obj_addr w.
     try_c (mut_process_read_arg 1 w) fail_c (\<lambda>new_size w.
     try_c (mut_process_function_return_addr w) fail_c (\<lambda>return_addr w.
     try_c (mut_produce_backtrace w) fail_c (\<lambda>bt w.
     if obj_addr = 0 then
       try_ok (write_size new_size w) (free_backtrace bt) (\<lambda>w.
       try_ok (mut_do_action return_addr realloc w) (free_backtrace bt) (\<lambda>w.
       mut_realloc_malloc new_size bt w))
     else
       let obj = mut_resources_lookup obj_addr w in
       if obj = 0 then do {
         let w = hit realloc w;
         w \<leftarrow> mut_log_fum obj_addr realloc bt w;
         if ctl mut_control_free w then do {
           w \<leftarrow> when_c (ctl mut_control_trace w)
                  (mut_realloc_fum_trace (action_name realloc w) obj_addr new_size) w;
           w \<leftarrow> drop_bt bt w;
           mut_do_action return_addr realloc w
         }
         else
           try_ok (mut_process_write_arg 0 0 w) (free_backtrace bt) (\<lambda>w.
           try_ok (write_size new_size w) (free_backtrace bt) (\<lambda>w.
           try_ok (mut_do_action return_addr realloc w) (free_backtrace bt) (\<lambda>w.
           mut_realloc_malloc_no_free new_size bt w)))
       }
       else do {
         r \<leftarrow> res_get obj w;
         w \<leftarrow> when_c (mut_resources_resource_deleted r) (mut_log_ffm obj_addr realloc obj bt) w;
         try_ok (if \<not> ctl mut_control_free w then mut_process_write_arg 0 0 w else Some (True, w))
           (free_backtrace bt) (\<lambda>w.
         try_ok (write_size new_size w) (free_backtrace bt) (\<lambda>w.
         try_ok (mut_do_action return_addr realloc w) (free_backtrace bt) (\<lambda>w.
         if ctl mut_control_free w then mut_realloc_realloc obj new_size bt w
         else mut_realloc_realloc_no_free obj new_size bt w)))
       }))))"

section \<open>The invariant\<close>

text \<open>
  In the mode that really frees memory the target's \<open>realloc\<close> may return an address that is in use as
  far as MUT knows; the invariant is that of the mode that keeps freed objects.
\<close>

lemma realloc_failure_serves:
  "bt_flag K bt \<Longrightarrow> serves K E 0 E' f \<Longrightarrow>
   serves K (own bt E) B E' (\<lambda>w. mut_realloc_failure n a sz bt w \<bind> f)"
  unfolding mut_realloc_failure_def Option.bind_assoc
  by (intro serves_pures serves_rules; (assumption | (intro core_intros tr_refl; assumption)))

lemma tr_realloc_trace: "tr_only w v \<Longrightarrow> within0 tr_only w (realloc_trace a n n' a' bt v)"
  unfolding realloc_trace_def by (intro core_intros; assumption)

lemma tr_fum_trace: "tr_only w v \<Longrightarrow> within0 tr_only w (mut_realloc_fum_trace s a n v)"
  unfolding mut_realloc_fum_trace_def by (intro core_intros; assumption)

lemma tr_write_size: "tr_only w v \<Longrightarrow> within tr_only w (write_size n v)"
  unfolding write_size_def by (intro core_intros; assumption)

lemmas realloc_intros = tr_realloc_trace tr_fum_trace tr_write_size consumer_intros

lemma free_backtrace_serves0: "bt_flag K bt \<Longrightarrow> serves K (own bt E') 0 E (free_backtrace bt)"
  by (rule serves_free_backtrace)

lemma realloc_malloc_serves: "bt_flag K bt \<Longrightarrow> serves K (own bt E) B E (mut_realloc_malloc n bt)"
  unfolding mut_realloc_malloc_def
  by (intro realloc_failure_serves serves_two_sets serves_pures serves_rules;
      (assumption | (intro realloc_intros; assumption)))

lemma realloc_realloc_no_free_serves:
  "bt_flag K bt \<Longrightarrow> serves K (own bt E) bt E (mut_realloc_realloc_no_free p n bt)"
  unfolding mut_realloc_realloc_no_free_def
  by (intro realloc_failure_serves serves_new serves_let_counted serves_let_val serves_pures serves_rules;
      (assumption | (intro realloc_intros; assumption)))

lemma realloc_malloc_no_free_serves: "bt_flag K bt \<Longrightarrow> serves K (own bt E) B E (mut_realloc_malloc_no_free n bt)"
  unfolding mut_realloc_malloc_no_free_def
  by (intro realloc_failure_serves serves_new serves_let_counted serves_let_val serves_pures serves_rules;
      (assumption | (intro realloc_intros; assumption)))

lemma mut_do_realloc_serves: "\<not> kctl K mut_control_free \<Longrightarrow> serves K E B E (mut_do_realloc a)"
  unfolding mut_do_realloc_def
  by (intro realloc_malloc_serves realloc_realloc_no_free_serves realloc_malloc_no_free_serves
      action_serves serves_lookup serves_ctl serves_pures serves_rules;
      (assumption | (intro realloc_intros; assumption) | simp))

end
