(* ===== verification/MutRun.thy ===== *)
theory MutRun
  imports MutRealloc
begin

text \<open>
  The core of MUT, last part: the main loop and the end of a run.
\<close>

definition mut_do_usage ::
  "mut_action_id \<Rightarrow> ('p, 'a) mut_world_scheme \<Rightarrow> (bool \<times> ('p, 'a) mut_world_scheme) option" where
  "mut_do_usage usage w = do {
     w \<leftarrow> mut_report_usage w;
     try_c (mut_process_function_return_addr w) fail_c (\<lambda>return_addr w.
     mut_do_action return_addr usage w)
   }"

text \<open>The \<open>switch\<close> of the loop.\<close>

definition mut_dispatch ::
  "mut_action_id \<Rightarrow> ('p, 'a) mut_world_scheme \<Rightarrow> (bool \<times> ('p, 'a) mut_world_scheme) option" where
  "mut_dispatch action w =
     (case a_type (actions w action) of
        Type_malloc \<Rightarrow> mut_do_malloc action w
      | Type_consumer \<Rightarrow> mut_do_consumer action w
      | Type_realloc \<Rightarrow> mut_do_realloc action w
      | Type_calloc \<Rightarrow> mut_do_calloc action w
      | Type_usage \<Rightarrow> mut_do_usage action w)"

text \<open>What is done for a call of an action, with the breakpoints out.\<close>

definition serve_action ::
  "mut_action_id \<Rightarrow> ('p, 'a) mut_world_scheme \<Rightarrow> (bool \<times> ('p, 'a) mut_world_scheme) option" where
  "serve_action action w =
     try_ok (mut_remove_action_breakpoints w) fail_c (\<lambda>w.
     try_ok (mut_dispatch action w) fail_c mut_install_action_breakpoints)"

text \<open>One round of the loop: the value to return, or \<open>None\<close> to go on.\<close>

definition run_round ::
  "('p, 'a) mut_world_scheme \<Rightarrow> (bool option \<times> ('p, 'a) mut_world_scheme) option" where
  "run_round w = do {
     (ok, w) \<leftarrow> mut_process_resume w;
     if \<not> ok then Some (Some False, w)
     else do {
       ((status, pc), w) \<leftarrow> mut_process_wait w;
       if status < 0 then Some (Some True, w)
       else if status = 0 then Some (Some False, w)
       else do {
         pc \<leftarrow> pc;
         case mut_actions_lookup pc w of
           None \<Rightarrow> Some (None, w)
         | Some action \<Rightarrow> do {
             (ok, w) \<leftarrow> serve_action action w;
             Some (if ok then None else Some False, w)
           }
       }
     }
   }"

text \<open>A target that never ends keeps the loop running: no result.\<close>

partial_function (option) mut_run ::
  "('p, 'a) mut_world_scheme \<Rightarrow> (bool \<times> ('p, 'a) mut_world_scheme) option" where
  "mut_run w = do {
     (r, w) \<leftarrow> run_round w;
     case r of Some status \<Rightarrow> Some (status, w) | None \<Rightarrow> mut_run w
   }"

section \<open>The end of a run\<close>

definition mut_log_counter :: "mut_counter \<Rightarrow> ('p, 'a) mut_world_scheme \<Rightarrow> ('p, 'a) mut_world_scheme option" where
  "mut_log_counter c w = mut_log_uint64 c w"

definition log_stat ::
  "string \<Rightarrow> mut_stat \<Rightarrow> ('p, 'a) mut_world_scheme \<Rightarrow> ('p, 'a) mut_world_scheme option" where
  "log_stat title s w = do {
     w \<leftarrow> mut_log_string title w;
     w \<leftarrow> mut_log_counter (space s) w;
     mut_log_counter (count s) w
   }"

definition log_hits ::
  "string \<Rightarrow> mut_action_id \<Rightarrow> ('p, 'a) mut_world_scheme \<Rightarrow> ('p, 'a) mut_world_scheme option" where
  "log_hits title a w = do { w \<leftarrow> mut_log_string title w; mut_log_counter (a_hits (actions w a)) w }"

definition mut_log_stats :: "('p, 'a) mut_world_scheme \<Rightarrow> ('p, 'a) mut_world_scheme option" where
  "mut_log_stats w = do {
     w \<leftarrow> mut_log_info ''stats'' w;
     w \<leftarrow> log_stat ''alloc.now'' (st_now (stats w)) w;
     w \<leftarrow> log_stat ''alloc.total'' (st_total (stats w)) w;
     w \<leftarrow> log_stat ''alloc.max.space'' (st_max_space (stats w)) w;
     w \<leftarrow> log_stat ''alloc.max.count'' (st_max_count (stats w)) w;
     w \<leftarrow> log_hits ''malloc'' Act_malloc w;
     w \<leftarrow> log_hits ''free'' Act_free w;
     w \<leftarrow> log_hits ''realloc'' Act_realloc w;
     w \<leftarrow> log_hits ''calloc'' Act_calloc w;
     w \<leftarrow> log_hits ''cfree'' Act_cfree w;
     end_log w
   }"

definition log_leak :: "ptr \<Rightarrow> ('p, 'a) mut_world_scheme \<Rightarrow> ('p, 'a) mut_world_scheme option" where
  "log_leak p w = do {
     r \<leftarrow> res_get p w;
     w \<leftarrow> mut_log_error ''MLK'' w;
     name \<leftarrow> mut_resource_producer_name r w;
     w \<leftarrow> mut_log_string name w;
     sz \<leftarrow> r_size r;
     w \<leftarrow> mut_log_ulong sz w;
     w \<leftarrow> mut_log_uint_hex (r_addr r) w;
     w \<leftarrow> log_bt (producer_backtrace r) w;
     end_log w
   }"

definition mut_log_leaks :: "('p, 'a) mut_world_scheme \<Rightarrow> ('p, 'a) mut_world_scheme option" where
  "mut_log_leaks w = iter_loop log_leak (snd (mut_resources_iter_open False w)) w"

definition mut_close :: "('p, 'a) mut_world_scheme \<Rightarrow> (bool \<times> ('p, 'a) mut_world_scheme) option" where
  "mut_close w = do {
     w \<leftarrow> mut_log_leaks w;
     w \<leftarrow> when_c (ctl mut_control_stats w) mut_log_stats w;
     w \<leftarrow> mut_resources_close w;
     w \<leftarrow> mut_process_close w;
     mut_exec_close w
   }"

definition mut_close_on_error :: "('p, 'a) mut_world_scheme \<Rightarrow> ('p, 'a) mut_world_scheme option" where
  "mut_close_on_error w = do {
     w \<leftarrow> mut_resources_close w;
     w \<leftarrow> mut_process_close w;
     (ok, w) \<leftarrow> mut_exec_close w;
     Some w
   }"

section \<open>The invariant of a run\<close>

lemma tr_log_stats: "tr_only w v \<Longrightarrow> within0 tr_only w (mut_log_stats v)"
  unfolding mut_log_stats_def log_stat_def log_hits_def mut_log_counter_def by (intro core_intros; assumption)

lemma tr_log_leak: "tr_only w v \<Longrightarrow> within0 tr_only w (log_leak p v)"
  unfolding log_leak_def by (intro core_intros; assumption)

lemma tr_log_leaks: "tr_only w v \<Longrightarrow> within0 tr_only w (mut_log_leaks v)"
  unfolding mut_log_leaks_def by (intro tr_iter_loop tr_log_leak)

lemma mut_do_usage_serves: "serves K E B E (mut_do_usage a)"
  unfolding mut_do_usage_def
  by (intro action_serves serves_rules; (assumption | (intro tr_report consumer_intros; assumption)))

text \<open>The modes of a run in which the invariant is kept: no real free, or no \<open>realloc\<close> in the program.\<close>

definition safe_mode :: "u32 \<times> ptr set \<times> mut_exec \<times> mut_exec_symtab \<times> mut_action_id list \<times>
    (mut_action_id \<Rightarrow> u32 \<times> mut_action_type) \<Rightarrow> bool" where
  "safe_mode K \<longleftrightarrow> \<not> kctl K mut_control_free \<or> (\<forall>a. snd (snd (snd (snd (snd (snd K)))) a) \<noteq> Type_realloc)"

lemma mut_dispatch_serves:
  assumes "safe_mode K"
  shows "serves K E B E (mut_dispatch a)"
proof (rule servesI)
  fix w :: "('a, 'b) mut_world_scheme"
  assume inv: "cinv K E B w"
  then have K: "kept w = K" by (simp add: cinv_def core_inv_def)
  have "\<not> kctl K mut_control_free" if "a_type (actions w a) = Type_realloc"
    using assms that unfolding K [symmetric] by (auto simp: safe_mode_def kept_def)
  then show "served K E (mut_dispatch a w)"
    using servesD [OF mut_do_malloc_serves inv] servesD [OF mut_do_consumer_serves inv]
      servesD [OF mut_do_realloc_serves inv] servesD [OF mut_do_calloc_serves inv] servesD [OF mut_do_usage_serves inv]
    by (simp add: mut_dispatch_def split: mut_action_type.split)
qed

lemma tr_restore_actions: "tr_only w v \<Longrightarrow> within tr_only w (restore_actions as v)"
proof (induction as arbitrary: w v)
  case (Cons a as)
  show ?case by (simp only: restore_actions.simps) (intro Cons.IH core_intros tr_refl; rule Cons.prems)
qed (simp add: within_def)

lemma served_break_actions:
  fixes w :: "('p, 'a) mut_world_scheme"
  shows "cinv K E B w \<Longrightarrow> served K E (break_actions as w)"
proof (induction as arbitrary: w)
  case (Cons a as)
  show ?case unfolding break_actions.simps
  proof (rule served_try_c [OF _ Cons.prems])
    show "within tr_only w (mut_process_breakpoint (a_addr (actions w a)) w)" by (intro core_intros tr_refl)
    show "served K E (break_actions as (set_action a (\<lambda>y. y\<lparr>a_instr := x\<rparr>) v))" if "cinv K E B v" for x and v :: "('p, 'a) mut_world_scheme"
      by (rule Cons.IH) (use that in \<open>simp add: cinv_def fresh_bt_def\<close>)
  qed (rule served_end)
qed (simp add: served_end)

lemma serve_action_serves: "safe_mode K \<Longrightarrow> serves K E B E (serve_action a)"
proof (rule servesI)
  fix w :: "('a, 'b) mut_world_scheme"
  assume safe: "safe_mode K" and inv: "cinv K E B w"
  have "served K E (try_ok (mut_dispatch a v) fail_c mut_install_action_breakpoints)" if v: "cinv K E B v" for v
  proof (cases "mut_dispatch a v")
    case (Some r)
    obtain ok u where r: "r = (ok, u)" by (cases r)
    have d: "if ok then core_inv K E u else \<exists>E'. core_inv K E' u"
      using servesD [OF mut_dispatch_serves [OF safe] v] Some r by (auto simp: served_def)
    show ?thesis
    proof (cases ok)
      case True
      with d have "cinv K E 0 u" by (simp add: cinv_0)
      then show ?thesis using Some r True served_break_actions by (simp add: try_ok_def mut_install_action_breakpoints_def)
    next
      case False
      with d show ?thesis using Some r by (auto simp: try_ok_def served_def fail_c_def)
    qed
  qed (simp add: try_ok_def served_None)
  then show "served K E (serve_action a w)"
    unfolding serve_action_def mut_remove_action_breakpoints_def
    by (intro served_try_ok [OF tr_restore_actions [OF tr_refl] inv]) (auto intro: served_end)
qed

lemma run_round_inv:
  fixes w :: "('p, 'a) mut_world_scheme"
  assumes "safe_mode K" and inv: "core_inv K E w" and run: "run_round w = Some (r, w')"
  shows "if r = Some False then \<exists>E'. core_inv K E' w' else core_inv K E w'"
proof -
  obtain ok u where u: "mut_process_resume w = Some (ok, u)" using run by (auto simp: run_round_def split: bind_splits)
  have iu: "core_inv K E u" using withinD [OF tr_process(3) [OF tr_refl] u] inv by (simp add: core_inv_tr)
  show ?thesis
  proof (cases ok)
    case True
    then obtain st pc v where v: "mut_process_wait u = Some ((st, pc), v)"
      using run u by (auto simp: run_round_def split: bind_splits)
    have iv: "core_inv K E v" using withinD [OF tr_wait [OF tr_refl] v] iu by (simp add: core_inv_tr)
    have "served K E (serve_action a v)" for a
      using servesD [OF serve_action_serves [OF assms(1)], of E 0 v] iv by (simp add: cinv_0)
    then show ?thesis
      using run u v True iv by (fastforce simp: run_round_def served_def split: bind_splits if_splits option.splits)
  qed (use run u iu in \<open>auto simp: run_round_def\<close>)
qed

lemma mut_run_inv:
  assumes "safe_mode K"
  shows "mut_run w = Some r \<Longrightarrow> core_inv K E w \<Longrightarrow>
    if fst r then core_inv K E (snd r) else \<exists>E'. core_inv K E' (snd r)"
proof (erule mut_run.raw_induct [where P = "\<lambda>w r. core_inv K E w \<longrightarrow>
    (if fst r then core_inv K E (snd r) else \<exists>E'. core_inv K E' (snd r))", THEN mp, rotated])
  fix rec :: "('a, 'b) mut_world_scheme \<Rightarrow> (bool \<times> ('a, 'b) mut_world_scheme) option"
    and w :: "('a, 'b) mut_world_scheme" and r
  assume IH: "\<And>w r. rec w = Some r \<Longrightarrow> core_inv K E w \<longrightarrow>
      (if fst r then core_inv K E (snd r) else \<exists>E'. core_inv K E' (snd r))"
    and run: "run_round w \<bind> (\<lambda>(r, w). case r of None \<Rightarrow> rec w | Some status \<Rightarrow> Some (status, w)) = Some r"
  obtain x v where v: "run_round w = Some (x, v)" using run by (auto split: bind_splits)
  show "core_inv K E w \<longrightarrow> (if fst r then core_inv K E (snd r) else \<exists>E'. core_inv K E' (snd r))"
  proof
    assume "core_inv K E w"
    from run_round_inv [OF assms this v] have "if x = Some False then \<exists>E'. core_inv K E' v else core_inv K E v" .
    then show "if fst r then core_inv K E (snd r) else \<exists>E'. core_inv K E' (snd r)"
      using run v IH [of v r] by (cases x) (auto split: if_splits)
  qed
qed

section \<open>The end of a run: what is left\<close>

text \<open>The blocks of the executable and its symbol table.\<close>

definition exec_blocks :: "'a exec_world_scheme \<Rightarrow> ptr set" where
  "exec_blocks w = set (exec_tables (exec w)) \<union> snd ` set (symtab_sites (symtab w))"

lemma no_refs_no_bts:
  assumes "refs_ok w" and "\<And>p. p \<noteq> 0 \<Longrightarrow> bt_refs w p = 0"
  shows "bts w = Map.empty"
proof
  fix p
  show "bts w p = None"
  proof (rule ccontr)
    assume "bts w p \<noteq> None"
    then obtain b where b: "bts w p = Some b" by blast
    have ok: "bts_ok w" using assms(1) by (simp add: refs_ok_def)
    then have "p \<noteq> 0" using b mem_in_use_not_null [of w] by (auto simp: bts_ok_def dom_def)
    with assms(2) [of p] b have "unat (ref_count b) = 0" by (simp add: bt_refs_def)
    then show False using assms(1) b by (auto simp: refs_ok_def unat_eq_0)
  qed
qed

lemma bt_only_exec: "bt_only w (w' :: 'a bt_world_scheme) \<Longrightarrow> exec w' = exec w \<and> symtab w' = symtab w"
  by (erule bt_onlyE) simp

lemma closing_blocks:
  assumes inv: "core_inv K (\<lambda>_. 0) v" and own: "exec_owned v" and foreign: "foreign v = exec_blocks v"
    and x: "mut_resources_close v = Some x" and y: "mut_process_close x = Some y"
  shows "mem_wf y \<and> exec_owned y \<and> mem_in_use y = exec_blocks y \<and> exec_blocks y = exec_blocks v"
proof -
  have rv: "res_inv (\<lambda>_. 0) v" using inv by (simp add: core_inv_def)
  from mut_resources_close_result [OF rv] x have cx: "refs_ok x" "\<And>p. p \<noteq> 0 \<Longrightarrow> bt_refs x p = 0"
    "plain_blocks x = foreign v" "bt_only v x" by (auto simp: foreign_def)
  have "bts x = Map.empty" by (rule no_refs_no_bts [OF cx(1,2)])
  then have mx: "mem_in_use x = exec_blocks v" using cx(3) foreign by (simp add: plain_blocks_def)
  have wx: "mem_wf x" using cx(1) by (simp add: refs_ok_def bts_ok_def)
  note ty = tr_only_same [OF within0D [OF tr_close [OF tr_refl] y]]
  have wy: "mem_wf y" "exec y = exec v" "symtab y = symtab v" "mem_in_use y = exec_blocks v"
    using wx mx ty bt_only_exec [OF cx(4)] by simp_all
  then have "exec_owned y" using own by (simp add: exec_owned_def exec_blocks_def)
  with wy show ?thesis by (simp add: exec_blocks_def)
qed

lemma close_releases:
  assumes inv: "core_inv K (\<lambda>_. 0) w" and own: "exec_owned w" and foreign: "foreign w = exec_blocks w"
    and run: "mut_close w = Some (ok, w')"
  shows "ok \<and> mem_wf w' \<and> mem_in_use w' = {}"
proof -
  obtain u v x y where u: "mut_log_leaks w = Some u"
    and v: "when_c (ctl mut_control_stats u) mut_log_stats u = Some v"
    and x: "mut_resources_close v = Some x" and y: "mut_process_close x = Some y"
    and z: "mut_exec_close y = Some (ok, w')"
    using run by (auto simp: mut_close_def split: bind_splits)
  have uv: "tr_only w v"
    using within0D [OF tr_log_leaks [OF tr_refl] u]
      within0D [OF within_when [OF tr_only_transp tr_log_stats [OF tr_refl] tr_refl] v] by (rule tr_only_trans)
  have iv: "core_inv K (\<lambda>_. 0) v" using inv core_inv_tr [OF uv] by simp
  have "kept v = kept w" using inv iv by (simp add: core_inv_def)
  then have same: "exec v = exec w" "symtab v = symtab w" "foreign v = foreign w" by (simp_all add: kept_def)
  then have "exec_owned v" "foreign v = exec_blocks v"
    using own foreign tr_only_same(14) [OF uv] by (simp_all add: exec_owned_def exec_blocks_def)
  from closing_blocks [OF iv this x y] have "mem_wf y" "exec_owned y" "mem_in_use y = exec_blocks y" by simp_all
  with mut_exec_close_result [of y] z show ?thesis by (auto simp: exec_blocks_def)
qed

section \<open>The loop as rounds\<close>

lemma resume_ok:
  assumes "p_stopped w" and "regs (child w) mut_process_arch_regs_eip = Some y"
    and "os_continue (os w) (child (set_reg mut_process_arch_regs_eip (p_pc (process w)) w)) 0 = Some c"
  shows "mut_process_resume w = Some (True, set_status Status_running (w\<lparr>child := c\<rparr>))"
  using assms
  by (simp add: mut_process_resume_def mut_process_write_pc_def mut_trace_write_reg_def mut_trace_continue_def
        p_stopped_def set_reg_def set_pc_def set_status_def)

inductive rounds :: "('p, 'a) mut_world_scheme \<Rightarrow> ('p, 'a) mut_world_scheme \<Rightarrow> bool" where
  here: "rounds w w"
| round: "run_round w = Some (None, v) \<Longrightarrow> rounds v u \<Longrightarrow> rounds w u"

lemma rounds_run: "rounds w v \<Longrightarrow> mut_run w = mut_run v"
  by (induction rule: rounds.induct) (simp_all add: mut_run.simps)

lemma run_rounds:
  "mut_run w = Some r \<Longrightarrow> \<exists>v. rounds w v \<and> run_round v = Some (Some (fst r), snd r)"
proof (erule mut_run.raw_induct [where P = "\<lambda>w r. \<exists>v. rounds w v \<and> run_round v = Some (Some (fst r), snd r)", rotated])
  fix rec :: "('a, 'b) mut_world_scheme \<Rightarrow> (bool \<times> ('a, 'b) mut_world_scheme) option"
    and w :: "('a, 'b) mut_world_scheme" and r
  assume IH: "\<And>w r. rec w = Some r \<Longrightarrow> \<exists>v. rounds w v \<and> run_round v = Some (Some (fst r), snd r)"
    and run: "run_round w \<bind> (\<lambda>(r, w). case r of None \<Rightarrow> rec w | Some status \<Rightarrow> Some (status, w)) = Some r"
  obtain x v where v: "run_round w = Some (x, v)" using run by (auto split: bind_splits)
  show "\<exists>v. rounds w v \<and> run_round v = Some (Some (fst r), snd r)"
  proof (cases x)
    case None
    with IH [of v r] run v show ?thesis by (auto intro: rounds.round)
  next
    case (Some b)
    with run v show ?thesis by (auto intro: rounds.here)
  qed
qed

section \<open>A sample run\<close>

text \<open>A target that ends at once, and one action.\<close>

definition sample_action :: mut_action where
  "sample_action = \<lparr>a_addr = 0x1000, a_instr = 0, a_type = Type_malloc, a_name = ''malloc'', a_hits = mut_counter_from_uint 0\<rparr>"

definition sample_stats :: mut_stats where
  "sample_stats = (let s = \<lparr>space = mut_counter_from_uint 0, count = mut_counter_from_uint 0\<rparr> in
     \<lparr>st_now = s, st_total = s, st_max_space = s, st_max_count = s\<rparr>)"

definition sample_mut :: "u32 \<Rightarrow> (unit, unit) mut_world_scheme" where
  "sample_mut flags = sample_world (log_world_ext sample_log_state
     (symtab_world_ext \<lparr>st_head = [], st_cache = 0, st_end = 0\<rparr>
     (exec_world_ext sample_exec (bt_world_ext Map.empty (res_world_ext
        \<lparr>elems = [], really_free = False, n_active_elems = 0, n_consumed_elems = 0\<rparr>
        (proc_world_ext \<lparr>p_child = 7, p_status = Status_stopped, p_pc = 0x1000\<rparr> sample_child
          (sample_os\<lparr>os_wait := (\<lambda>c. (Wait_status 0, c))\<rparr>)
          (mut_world_ext (\<lambda>_. sample_action) [Act_malloc] flags sample_stats ())))))))"

lemma sample_mut_inv: "core_inv (kept (sample_mut flags)) (\<lambda>_. 0) (sample_mut flags)"
  by (simp add: core_inv_def res_inv_def refs_ok_def bts_ok_def bt_refs_def sample_mut_def) (simp add: sample_world_def)

lemma sample_wait: "os_wait (os (sample_mut f)) c = (Wait_status 0, c)"
   "clean (sample_mut f)" "log_idle (sample_mut f)" "writes_ok (sample_mut f)" "p_stopped (sample_mut f)" "child (sample_mut f) = sample_child" "os (sample_mut f) = sample_os\<lparr>os_wait := (\<lambda>c. (Wait_status 0, c))\<rparr>"
  by (simp_all add: sample_mut_def clean_def log_idle_def writes_ok_def p_stopped_def) (simp_all add: sample_world_def sample_log_state_def sample_os_def)

definition sample_end :: "u32 \<Rightarrow> (unit, unit) mut_world_scheme" where
  "sample_end f = set_status Status_exited (log_emit (log_line ''mut'' Info ''process.exited'' [LInt 0])
     ((sample_mut f)\<lparr>child := child (set_reg mut_process_arch_regs_eip 0x1000 (sample_mut f))\<rparr>))"

lemma sample_run: "mut_run (sample_mut f) = Some (True, sample_end f)"
proof -
  let ?c = "child (set_reg mut_process_arch_regs_eip (p_pc (process (sample_mut f))) (sample_mut f))"
  let ?w = "set_status Status_running ((sample_mut f)\<lparr>child := ?c\<rparr>)"
  have 1: "mut_process_resume (sample_mut f) = Some (True, ?w)"
    by (rule resume_ok [where y = "0x1001"]) (simp_all add: sample_wait sample_os_def)
  have s: "signals_then (os ?w) (child ?w) [] (Wait_status 0) ?c"
    by (intro signals_then.now) (simp add: set_status_def sample_wait)
  have f: "program_name (the_log (sample_mut f)) = ''mut''" "p_pc (process (sample_mut f)) = 0x1000"
    by (simp_all add: sample_mut_def) (simp_all add: sample_world_def sample_log_state_def)
  have 2: "mut_process_wait ?w = Some ((-1, None), sample_end f)"
    using mut_process_wait_outcome [OF s] sample_wait [of f] f
    by (simp add: WIFEXITED_def WEXITSTATUS_def WTERMSIG_def set_status_def clean_def log_idle_def writes_ok_def sample_end_def log_emit_def)
  show ?thesis by (simp add: mut_run.simps [of "sample_mut f"] run_round_def 1 2)
qed

lemma sample_close: "\<exists>v. mut_close (sample_end 0) = Some (True, v)"
  by (simp add: mut_close_def mut_log_leaks_def mut_resources_iter_open_def iter_loop.simps sample_end_def log_emit_def set_status_def sample_mut_def sample_world_def mut_resources_iter_read_def
  when_c_def ctl_def mut_resources_close_def mut_process_close_def mut_exec_close_def sample_exec_def mut_trace_close_def mut_exec_symtab_close_def
    mut_exec_strtab_close_def mut_mem__free_def mut_mem_init_def)

lemma sample_safe: "safe_mode (kept (sample_mut f))"
  by (simp add: safe_mode_def kept_def sample_mut_def) (simp add: sample_world_def sample_action_def)

section \<open>Properties\<close>

text \<open>
  The loop returns exactly when some chain of rounds that do not end it is followed by one that does:
  it returns the status of that round, and a target that never ends gives no result.
\<close>

theorem mut_run_is_a_chain_of_rounds:
  "mut_run w = Some (b, w') \<longleftrightarrow> (\<exists>v. rounds w v \<and> run_round v = Some (Some b, w'))"
proof
  assume "mut_run w = Some (b, w')"
  then show "\<exists>v. rounds w v \<and> run_round v = Some (Some b, w')" using run_rounds [of w "(b, w')"] by simp
next
  assume "\<exists>v. rounds w v \<and> run_round v = Some (Some b, w')"
  then obtain v where "rounds w v" "run_round v = Some (Some b, w')" by blast
  then show "mut_run w = Some (b, w')" using rounds_run [of w v] by (simp add: mut_run.simps [of v])
qed







end
