(* ===== verification/MutService.thy ===== *)
theory MutService
  imports MutRun
begin

text \<open>
  The actions one by one: what a call of \<open>malloc\<close> or \<open>free\<close> does to the map and to the log, the safety
  zones, the breakpoints, the statistics and the report of leaks at the end.
\<close>

section \<open>Rounding up\<close>

lemma and_m4: "x AND - 4 = push_bit 2 (drop_bit 2 (x :: u32))"
proof -
  have "- 4 = NOT (mask 2 :: u32)" by (simp add: mask_eq_exp_minus_1)
  then have m: "x AND - 4 = x AND NOT (mask 2)" by simp
  show ?thesis unfolding m
  proof (rule bit_word_eqI)
    fix n
    have "Suc (Suc (n - 2)) = n" if "\<not> n < 2" using that by simp
    moreover assume "n < LENGTH(32)"
    ultimately show "bit (x AND NOT (mask 2)) n = bit (push_bit 2 (drop_bit 2 x)) n"
      by (cases "n < 2") (simp_all add: bit_and_iff bit_not_iff bit_mask_iff bit_push_bit_iff bit_drop_bit_eq)
  qed
qed

lemma unat_and_m4: "unat (x AND - 4 :: u32) = 4 * (unat x div 4)"
proof -
  have "unat x div 4 < 2 ^ 30" using unat_u32_less [of x] by (simp add: less_mult_imp_div_less)
  then show ?thesis
    by (simp add: and_m4 unat_drop_bit_eq drop_bit_eq_div push_bit_eq_mult unat_word_ariths mult.commute)
qed



lemma round_up_val:
  "unat (mut_round_up sz) =
     (if unat sz < 2 ^ 32 - 11 then 4 * ((unat sz + 3) div 4) + 8
      else if unat sz < 2 ^ 32 - 7 then 0 else if unat sz < 2 ^ 32 - 3 then 4 else 8)"
proof -
  have u: "unat (sz + 3) = (unat sz + 3) mod 2 ^ 32" by (simp add: unat_word_ariths)
  have lt: "unat sz < 2 ^ 32" using unat_u32_less [of sz] by simp
  have r: "unat (mut_round_up sz) = (4 * (unat (sz + 3) div 4) + 8) mod 2 ^ 32"
  proof -
    have "mut_round_up sz = ((sz + 3) AND - 4) + 8" by (simp add: mut_round_up_def mut_zone_size_def add.commute [of 3])
    then show ?thesis by (simp add: unat_word_ariths(1) unat_and_m4)
  qed
  show ?thesis
  proof (cases "unat sz < 2 ^ 32 - 3")
    case True
    then have "unat (sz + 3) = unat sz + 3" by (simp add: u)
    moreover have "(unat sz + 3) div 4 = 1073741822" if "unat sz < 2 ^ 32 - 7" "\<not> unat sz < 2 ^ 32 - 11"
      using that by (intro div_nat_eqI) auto
    moreover have "(unat sz + 3) div 4 = 1073741823" if "\<not> unat sz < 2 ^ 32 - 7"
      using that True by (intro div_nat_eqI) auto
    moreover have "(unat sz + 3) div 4 < 1073741822" if "unat sz < 2 ^ 32 - 11"
      using that by (simp add: less_mult_imp_div_less)
    ultimately show ?thesis using r True by (auto simp: mod_if)
  next
    case False
    then have "unat (sz + 3) = unat sz + 3 - 2 ^ 32" using lt by (simp add: u mod_if)
    then have "unat (sz + 3) div 4 = 0" using lt by simp
    with r False show ?thesis by simp
  qed
qed

section \<open>Statistics\<close>

definition stat_val :: "mut_stat \<Rightarrow> nat \<times> nat" where
  "stat_val s = (u64_val (space s), u64_val (count s))"

definition stat_small :: "mut_stat \<Rightarrow> bool" where
  "stat_small s \<longleftrightarrow> u64_val (space s) < 2 ^ 32 \<and> u64_val (count s) < 2 ^ 32"


section \<open>Messages\<close>

lemma log_core [simp]:
  "ctl c (log_emit s w) = ctl c w" "ctl c (log_busy w) = ctl c w" "ctl c (log_quiet w) = ctl c w"
  "action_name a (log_emit s w) = action_name a w" "action_name a (log_busy w) = action_name a w"
  "action_name a (log_quiet w) = action_name a w"
  "res_get p (log_emit s w) = res_get p w" "res_get p (log_busy w) = res_get p w"
  "res_get p (log_quiet w) = res_get p w"
  "resources (log_emit s w) = resources w"
  by (simp_all add: log_emit_def log_busy_def log_quiet_def ctl_def action_name_def res_get_def)

lemma core_fields [simp]:
  "ctl c (w\<lparr>c_errno := e\<rparr>) = ctl c w" "action_name a (w\<lparr>c_errno := e\<rparr>) = action_name a w"
  "res_get p (w\<lparr>c_errno := e\<rparr>) = res_get p w" "log_idle (w\<lparr>c_errno := e\<rparr>) = log_idle w"
  by (simp_all add: ctl_def action_name_def res_get_def log_idle_def)

lemmas quiet_defs = log_bt_def when_c_def end_log_def mut_resource_producer_name_def mut_resource_consumer_name_def
  log_line_def

lemma mut_log_wum_line:
  assumes "log_idle w" and "writes_ok w" and "ctl mut_control_check w" and "\<not> ctl mut_control_backtrace w"
    and "res_get p w = Some r" and "r_size r = Some sz" and "producer_action r = Some act"
  shows "mut_log_wum obj zone v c p bt w = Some (log_emit (log_line (program_name (the_log w)) Error ''WUM''
    [LString (action_name c w), LHex obj, LUlong sz, LHex zone, LHex v, LString (action_name act w)]) w)"
  using assms by (simp add: mut_log_wum_def quiet_defs)

section \<open>Safety zones\<close>

lemma mut_install_check_zones_ok:
  assumes "p_stopped w" and "regs (child w) mut_process_arch_regs_eax = Some e"
    and "addr_aligned obj" and "addr_aligned (obj + n - 4)" and "read_word (cmem (child w)) obj = Some x" and "read_word (cmem (child w)) (obj + n - 4) = Some y"
  shows "mut_install_check_zones obj n w = Some (Some (obj + 4), set_reg mut_process_arch_regs_eax (obj + 4)
    (set_mem (put_word (obj + n - 4) mut_zone_value (put_word obj mut_zone_value (cmem (child w)))) w))"
proof -
  let ?w = "set_mem (put_word obj mut_zone_value (cmem (child w))) w"
  obtain z where z: "read_word (put_word obj mut_zone_value (cmem (child w))) (obj + n - 4) = Some z"
  proof -
    have "word_addrs obj \<subseteq> dom (cmem (child w))" "word_addrs (obj + n - 4) \<subseteq> dom (cmem (child w))"
      using assms(5,6) read_word_None [of "cmem (child w)"] by (metis option.distinct(1))+
    then have "word_addrs (obj + n - 4) \<subseteq> dom (put_word obj mut_zone_value (cmem (child w)))" by (simp add: put_word_dom)
    then show thesis using read_word_None [of "put_word obj mut_zone_value (cmem (child w))" "obj + n - 4"] that by auto
  qed
  show ?thesis
    using assms z by (simp add: Let_def mut_install_check_zones_def mut_zone_size_def mut_process_write_word_def
        mut_process_write_result_def trace_ok)
qed



lemma addr_aligned_mod: "addr_aligned a \<longleftrightarrow> unat a mod 4 = 0"
proof -
  have "a AND 3 = take_bit 2 a" using take_bit_eq_mask [of 2 a] by (simp add: mask_eq_exp_minus_1)
  moreover have "unat (take_bit 2 a) = take_bit 2 (unat a)" by (rule unsigned_take_bit_eq)
  moreover have "take_bit 2 (unat a) = unat a mod 4" by (simp add: take_bit_eq_mod)
  ultimately show ?thesis by (metis addr_aligned_def unat_eq_0)
qed

lemma addr_aligned_add: "addr_aligned a \<Longrightarrow> addr_aligned d \<Longrightarrow> addr_aligned (a + d)"
  unfolding addr_aligned_mod by (simp add: unat_word_ariths mod_mod_cancel) (metis add_0 mod_add_eq mod_0)

lemma words_apart_add:
  assumes "4 \<le> unat d" and "unat d \<le> 2 ^ 32 - 4"
  shows "words_apart a (a + d)"
proof -
  have "a + of_nat i \<noteq> a + d + of_nat j" if ij: "i < 4" "j < 4" for i j
  proof
    assume "a + of_nat i = a + d + of_nat j"
    then have "(of_nat i :: u32) = d + of_nat j" by (simp add: add.assoc)
    then have "unat (of_nat i :: u32) = unat (d + of_nat j)" by simp
    then show False using assms ij by (simp add: unat_word_ariths unat_of_nat)
  qed
  then show ?thesis unfolding words_apart_def span_4 [symmetric] span_def by auto
qed

lemma round_up_facts:
  assumes "unat sz < 2 ^ 32 - 11"
  shows "unat (mut_round_up sz - 4) = 4 * ((unat sz + 3) div 4) + 4" and "words_apart obj (obj + mut_round_up sz - 4)"
    and "addr_aligned obj \<Longrightarrow> addr_aligned (obj + mut_round_up sz - 4)"
proof -
  have n: "unat (mut_round_up sz) = 4 * ((unat sz + 3) div 4) + 8" using assms round_up_val [of sz] by simp
  then have "(4 :: u32) \<le> mut_round_up sz" by (simp add: word_le_nat_alt)
  then show d: "unat (mut_round_up sz - 4) = 4 * ((unat sz + 3) div 4) + 4" using n by (simp add: unat_sub)
  have e: "obj + mut_round_up sz - 4 = obj + (mut_round_up sz - 4)" by simp
  have "(unat sz + 3) div 4 < 1073741822" using assms by (simp add: less_mult_imp_div_less)
  then show "words_apart obj (obj + mut_round_up sz - 4)" unfolding e by (intro words_apart_add) (simp_all add: d)
  show "addr_aligned obj \<Longrightarrow> addr_aligned (obj + mut_round_up sz - 4)"
    unfolding e by (rule addr_aligned_add) (simp_all add: addr_aligned_mod d)
qed


section \<open>Breakpoints\<close>

lemma restore_actions_ok:
  "p_stopped w \<Longrightarrow> child_memory.unpatch (map (\<lambda>a. (a_addr (actions w a), a_instr (actions w a))) as) (cmem (child w)) = Some m \<Longrightarrow>
   restore_actions as w = Some (True, set_mem m w)"
proof (induction as arbitrary: w)
  case Nil
  then show ?case by (simp add: set_mem_def)
next
  case (Cons a as)
  let ?ad = "a_addr (actions w a)" and ?i = "a_instr (actions w a)"
  obtain u where u: "write_word ?ad ?i (cmem (child w)) = Some u"
    and rest: "child_memory.unpatch (map (\<lambda>a. (a_addr (actions w a), a_instr (actions w a))) as) u = Some m"
    using Cons.prems(2) by (auto split: bind_splits)
  then have "mut_process_restore ?ad ?i w = Some (True, set_mem u w)"
    using restore_ok [OF Cons.prems(1), of ?ad _ ?i] by (auto simp: write_word_def split: if_splits option.splits)
  then show ?case
    using Cons.IH [of "set_mem u w"] Cons.prems(1) rest by (simp add: try_ok_def set_mem_def p_stopped_def)
qed


lemma set_action_fields [simp]:
  "child (set_action a g w) = child w" "process (set_action a g w) = process w" "os (set_action a g w) = os w"
  "a_root (set_action a g w) = a_root w" "clean (set_action a g w) = clean w" "p_stopped (set_action a g w) = p_stopped w"
  "a_addr (actions (set_action a (\<lambda>x. x\<lparr>a_instr := i\<rparr>) w) b) = a_addr (actions w b)"
  by (simp_all add: set_action_def clean_def p_stopped_def)

lemma break_actions_ok:
  fixes w :: "('p, 'a) mut_world_scheme"
  shows "clean w \<Longrightarrow> p_stopped w \<Longrightarrow> distinct as \<Longrightarrow>
   child_memory.patch mut_instr_bp (map (\<lambda>a. a_addr (actions w a)) as) (cmem (child w)) = Some (vs, m) \<Longrightarrow>
   \<exists>e A. break_actions as w = Some (True, w\<lparr>c_errno := e, child := (child w)\<lparr>cmem := m\<rparr>, actions := A\<rparr>) \<and>
     map (\<lambda>a. a_instr (A a)) as = vs \<and> (\<forall>b. A b = (actions w b)\<lparr>a_instr := a_instr (A b)\<rparr> \<and> (b \<notin> set as \<longrightarrow> A b = actions w b))"
proof (induction as arbitrary: w vs)
  case Nil
  then show ?case by (intro exI [of _ "c_errno w"] exI [of _ "actions w"]) simp
next
  case (Cons a as)
  let ?ad = "a_addr (actions w a)"
  obtain i u ws where u: "read_word (cmem (child w)) ?ad = Some i" "u = put_word ?ad mut_instr_bp (cmem (child w))"
    and rest: "child_memory.patch mut_instr_bp (map (\<lambda>a. a_addr (actions w a)) as) u = Some (ws, m)" "vs = i # ws"
  proof -
    obtain i u ws where "read_word (cmem (child w)) ?ad = Some i" "write_word ?ad mut_instr_bp (cmem (child w)) = Some u"
      "child_memory.patch mut_instr_bp (map (\<lambda>a. a_addr (actions w a)) as) u = Some (ws, m)" "vs = i # ws"
      using Cons.prems(4) by (auto split: bind_splits)
    then show thesis using that [of i u ws] by (simp add: write_word_def)
  qed
  let ?w = "set_action a (\<lambda>x. x\<lparr>a_instr := i\<rparr>) (set_mem u (w\<lparr>c_errno := 0\<rparr>))"
  have f: "actions ?w = (actions w)(a := (actions w a)\<lparr>a_instr := i\<rparr>)" by (simp add: set_action_def set_mem_def)
  have ok: "clean ?w" "p_stopped ?w" using Cons.prems(1,2) by (simp_all add: clean_def set_mem_def p_stopped_def)
  have "map (\<lambda>b. a_addr (actions ?w b)) as = map (\<lambda>b. a_addr (actions w b)) as" unfolding f by simp
  then have "child_memory.patch mut_instr_bp (map (\<lambda>a. a_addr (actions ?w a)) as) (cmem (child ?w)) = Some (ws, m)"
    using rest(1) by (simp only: set_action_fields set_simps)
  from Cons.IH [OF ok _ this] Cons.prems(3) obtain e A where A:
      "break_actions as ?w = Some (True, ?w\<lparr>c_errno := e, child := (child ?w)\<lparr>cmem := m\<rparr>, actions := A\<rparr>)"
      "map (\<lambda>a. a_instr (A a)) as = ws"
      "\<And>b. A b = (actions ?w b)\<lparr>a_instr := a_instr (A b)\<rparr>" "\<And>b. b \<notin> set as \<Longrightarrow> A b = actions ?w b" by auto
  have "?w\<lparr>c_errno := e, child := (child ?w)\<lparr>cmem := m\<rparr>, actions := A\<rparr> =
      w\<lparr>c_errno := e, child := (child w)\<lparr>cmem := m\<rparr>, actions := A\<rparr>"
    by (simp add: set_action_def set_mem_def)
  with A(1) have "break_actions (a # as) w = Some (True, w\<lparr>c_errno := e, child := (child w)\<lparr>cmem := m\<rparr>, actions := A\<rparr>)"
    using breakpoint_ok [OF Cons.prems(1,2) u(1)] u(2) by (simp add: try_c_def)
  moreover have "a_instr (A a) = i" using A(4) [of a] Cons.prems(3) f by simp
  moreover have "A b = (actions w b)\<lparr>a_instr := a_instr (A b)\<rparr>" for b using A(3) [of b] f by (cases "b = a") simp_all
  moreover have "b \<notin> set (a # as) \<Longrightarrow> A b = actions w b" for b using A(4) [of b] f by simp
  ultimately show ?case using A(2) rest(2) by (intro exI [of _ e] exI [of _ A]) simp
qed

lemma patch_exists:
  "sorted_wrt words_apart as \<Longrightarrow> set as \<subseteq> {a. read_word m a \<noteq> None} \<Longrightarrow> \<exists>vs m'. child_memory.patch x as m = Some (vs, m')"
proof (induction as arbitrary: m)
  case (Cons a as)
  then obtain i where i: "read_word m a = Some i" by auto
  have "read_word (put_word a x m) b = read_word m b" if "b \<in> set as" for b
    using Cons.prems(1) that by (simp add: words_apart_def read_put_word_other)
  then have "set as \<subseteq> {b. read_word (put_word a x m) b \<noteq> None}" using Cons.prems(2) by auto
  with Cons.IH [of "put_word a x m"] Cons.prems(1) obtain vs m' where
    "child_memory.patch x as (put_word a x m) = Some (vs, m')" by auto
  moreover have "write_word a x m = Some (put_word a x m)" using i by (simp add: write_word_def)
  ultimately show ?case using i by simp
qed simp



section \<open>Consumers\<close>

text \<open>The state after a call has been stepped over.\<close>

definition skipped :: "u32 \<Rightarrow> u32 \<Rightarrow> ('p, 'a) mut_world_scheme \<Rightarrow> ('p, 'a) mut_world_scheme" where
  "skipped ra sp w = set_reg mut_process_arch_regs_esp (sp + 4) ((set_pc ra w)\<lparr>c_errno := 0\<rparr>)"

lemma ctl_0: "m_flags w = 0 \<Longrightarrow> \<not> ctl c w"
  by (simp add: ctl_def)

lemma log_child [simp]:
  "child (log_emit s w) = child (w :: ('p, 'a) mut_world_scheme)" "m_flags (log_emit s w) = m_flags w"
  "p_stopped (log_emit s w) = p_stopped w" "clean (log_emit s w) = clean w"
  by (simp_all add: log_emit_def p_stopped_def clean_def)

lemma skip_ok:
  assumes "clean w" and "p_stopped w" and "regs (child w) mut_process_arch_regs_esp = Some sp" and "m_flags w = 0"
  shows "do_or_skip ra c w = Some (True, skipped ra sp w)"
  using assms read_pc_arg_ok(4) [OF assms(1-3)] by (simp add: do_or_skip_def ctl_0 skipped_def)



section \<open>Producers\<close>



lemma malloc_success_entry:
  fixes w :: "('p, 'a) mut_world_scheme"
  assumes "m_flags w = 0" and "res_inv E w" and "res_entry w obj = None"
    and "mut_mem__malloc sizeof_mut_resource 101 resources_file w = Some (p, u)" and "p \<noteq> 0"
  shows "\<exists>v. mut_malloc_success n obj 0 w = Some (True, v) \<and> res_inv E v \<and>
    res_entry v = (res_entry w)(obj \<mapsto> (new_resource p obj)\<lparr>producer_action := Some Act_malloc, r_size := Some n\<rparr>)"
proof -
  have "find_addr obj (elems (resources w)) = 0"
    using mut_resources_lookup_spec [OF assms(2), of obj] assms(3) by (simp add: mut_resources_lookup_def)
  then obtain x where x: "mut_resources_create_resource obj w = Some (p, x)"
    using assms(4,5) by (simp add: mut_resources_create_resource_def Let_def)
  note r = mut_resources_create_result [OF assms(2) x]
  then have e: "elems (resources x) = new_resource p obj # elems (resources w)" and inv: "res_inv E x"
    using assms(3,5) by auto
  have get: "res_get p x = Some (new_resource p obj)" by (simp add: res_get_def e new_resource_def)
  have new: "producer_backtrace (new_resource p obj) = 0" "r_addr (new_resource p obj) = obj" by (simp_all add: new_resource_def)
  have entry: "res_entry x = (res_entry w)(obj \<mapsto> new_resource p obj)"
    by (auto simp: res_entry_def e new(2) fun_eq_iff)
  have ex: "(\<lambda>q. E q - of_bool (q = (0 :: ptr) \<and> (0 :: ptr) \<noteq> 0)) = E" by auto
  obtain v where v: "mut_resource_make_producer p Act_malloc n 0 x = Some v" "res_inv E v"
    "res_entry v = (res_entry x)(obj \<mapsto> (new_resource p obj)\<lparr>producer_action := Some Act_malloc, producer_backtrace := 0, r_size := Some n\<rparr>)"
    using mut_resource_make_producer_result [OF inv get new(1), of 0 Act_malloc n] new(2) ex by auto
  have "m_flags x = 0"
  proof -
    have xw: "x = w\<lparr>c_heap := c_heap x, c_errno := c_errno x, c_out := c_out x, store := store x,
            the_log := the_log x, bts := bts x, resources := resources x\<rparr>"
      using withinD [OF res_only_create x] by (simp add: res_only_def)
    show ?thesis by (subst xw) (simp add: assms(1))
  qed
  then have off: "\<not> ctl c w" "\<not> ctl c x" "\<not> ctl c v" for c
    using assms(1) v(1) by (auto simp: ctl_def mut_resource_make_producer_def res_set_def split: bind_splits)
  have "mut_malloc_success n obj 0 w = Some (True, v)"
    using x get v(1) off assms(5) new(1)
    by (simp add: mut_malloc_success_def collect_if_def mut_resource_is_new_def when_c_def usage_if_def)
  moreover have "(new_resource p obj)\<lparr>producer_action := Some Act_malloc, producer_backtrace := 0, r_size := Some n\<rparr> =
      (new_resource p obj)\<lparr>producer_action := Some Act_malloc, r_size := Some n\<rparr>" by (simp add: new_resource_def)
  ultimately show ?thesis using v(2,3) entry by (intro exI [of _ v]) simp
qed

section \<open>Leaks\<close>

definition leak_line :: "('p, 'a) mut_world_scheme \<Rightarrow> mut_resource \<Rightarrow> string" where
  "leak_line w r = log_line (program_name (the_log w)) Error ''MLK''
     [LString (action_name (the (producer_action r)) w), LUlong (the (r_size r)), LHex (r_addr r)]"

definition made :: "mut_resource \<Rightarrow> bool" where
  "made r \<longleftrightarrow> producer_action r \<noteq> None \<and> r_size r \<noteq> None"

lemma log_leak_line:
  assumes "log_idle w" and "writes_ok w" and "\<not> ctl mut_control_backtrace w" and "res_get p w = Some r" and "made r"
  shows "log_leak p w = Some (log_emit (leak_line w r) w)"
  using assms by (auto simp: log_leak_def quiet_defs leak_line_def made_def)

lemma each_leaks:
  fixes w :: "('p, 'a) mut_world_scheme"
  assumes "log_idle w" and "writes_ok w" and "\<not> ctl mut_control_backtrace w" and "distinct (map r_self (elems (resources w)))"
    and "list_all made rs" and "set rs \<subseteq> set (elems (resources w))"
  shows "each log_leak (map r_self rs) w = Some (log_emit (concat (map (leak_line w) rs)) w)"
  using assms
proof (induction rs arbitrary: w)
  case (Cons r rs)
  have get: "res_get (r_self r) w = Some r" using Cons.prems(4,6) node_at_self by (simp add: res_get_def)
  have same: "leak_line (log_emit s w) = leak_line w" for s by (simp add: leak_line_def fun_eq_iff)
  from log_leak_line [OF Cons.prems(1-3) get] Cons.prems(5) have "log_leak (r_self r) w = Some (log_emit (leak_line w r) w)" by simp
  then show ?case using Cons.IH [of "log_emit (leak_line w r) w"] Cons.prems by (simp add: same)
qed simp

lemma log_leaks_ok:
  fixes w :: "('p, 'a) mut_world_scheme"
  assumes "log_idle w" and "writes_ok w" and "\<not> ctl mut_control_backtrace w" and "res_inv E w"
    and "list_all made (filter (\<lambda>r. consumer_action r = None) (elems (resources w)))"
  shows "mut_log_leaks w = Some (log_emit (concat (map (leak_line w)
    (filter (\<lambda>r. consumer_action r = None) (elems (resources w))))) w)"
proof -
  have body: "log_leak p u = Some v \<Longrightarrow> resources v = resources u" for p and u v :: "('p, 'a) mut_world_scheme"
    using within0D [OF tr_log_leak [OF tr_refl]] tr_only_same(1) by blast
  have "distinct (map r_self (elems (resources w)))" using assms(4) by (simp add: res_inv_def)
  then show ?thesis
    using iter_loop_open [OF assms(4), of log_leak False] body each_leaks [OF assms(1-3) _ assms(5)]
    by (simp add: mut_log_leaks_def visited_def)
qed

section \<open>Sample states\<close>

definition sample_object :: mut_resource where
  "sample_object = \<lparr>r_self = 0x1000, r_addr = 0x80, r_size = Some 16, producer_action = Some Act_malloc,
     producer_backtrace = 0, consumer_action = None, consumer_backtrace = 0\<rparr>"

text \<open>One live object in the map.\<close>

definition sample_live :: "u32 \<Rightarrow> (unit, unit) mut_world_scheme" where
  "sample_live flags = (snd (the (mut_resources_create_resource 0x80 (sample_mut flags))))
     \<lparr>resources := \<lparr>elems = [sample_object], really_free = False, n_active_elems = 1, n_consumed_elems = 0\<rparr>\<rparr>"

text \<open>The entry of a call with one argument.\<close>

definition sample_call :: "u32 \<Rightarrow> (unit, unit) mut_world_scheme" where
  "sample_call x = set_mem (put_word 0x104 x sample_cmem) (sample_mut 0)"

lemma sample_mut_fields [simp]:
  "m_flags (sample_mut f) = f" "a_root (sample_mut f) = [Act_malloc]" "actions (sample_mut f) = (\<lambda>_. sample_action)"
  "stats (sample_mut f) = sample_stats" "program_name (the_log (sample_mut f)) = ''mut''"
  "elems (resources (sample_mut f)) = []" "res_entry (sample_mut f) = Map.empty"
  "really_free (resources (sample_mut f)) = False"
  by (simp_all add: sample_mut_def) (simp_all add: sample_world_def sample_log_state_def res_entry_def fun_eq_iff)

lemma sample_created:
  "\<exists>v. mut_resources_create_resource 0x80 (sample_mut f) = Some (0x1000, v) \<and> res_inv (\<lambda>_. 0) v \<and>
     elems (resources v) = [new_resource 0x1000 0x80] \<and> res_only (sample_mut f) v \<and> log_idle v \<and>
     n_active_elems (resources v) = 1 \<and> n_consumed_elems (resources v) = 0 \<and> program_name (the_log v) = ''mut''"
proof -
  obtain v where v: "mut_resources_create_resource 0x80 (sample_mut f) = Some (0x1000, v)" "log_idle v"
     "n_active_elems (resources v) = 1" "n_consumed_elems (resources v) = 0" "program_name (the_log v) = ''mut''"
    by (simp add: mut_resources_create_resource_def mut_mem__malloc_def libc_malloc_def Let_def sample_mut_def
        sample_world_def sample_pick_def log_idle_def sample_log_state_def)
  have "res_inv (\<lambda>_. 0) (sample_mut f)" using sample_mut_inv by (simp add: core_inv_def)
  from mut_resources_create_result [OF this v(1)] withinD [OF res_only_create v(1)] v show ?thesis by auto
qed

lemma res_only_fields:
  assumes "res_only w (v :: ('p, 'a) mut_world_scheme)"
  shows "m_flags v = m_flags w" "child v = child w" "actions v = actions w" "process v = process w" "os v = os w"
    "c_write_fails v = c_write_fails w"
proof -
  have v: "v = w\<lparr>c_heap := c_heap v, c_errno := c_errno v, c_out := c_out v, store := store v,
      the_log := the_log v, bts := bts v, resources := resources v\<rparr>" using assms by (simp add: res_only_def)
  show "m_flags v = m_flags w" "child v = child w" "actions v = actions w" "process v = process w" "os v = os w"
    "c_write_fails v = c_write_fails w" by (subst v, simp)+
qed

lemma sample_live_facts [simp]:
  "res_inv (\<lambda>_. 0) (sample_live f)" "elems (resources (sample_live f)) = [sample_object]"
  "log_idle (sample_live f)" "writes_ok (sample_live f)" "clean (sample_live f)" "p_stopped (sample_live f)"
  "m_flags (sample_live f) = f" "child (sample_live f) = sample_child" "actions (sample_live f) = (\<lambda>_. sample_action)"
  "program_name (the_log (sample_live f)) = ''mut''"
proof -
  obtain v where v: "mut_resources_create_resource 0x80 (sample_mut f) = Some (0x1000, v)" "res_inv (\<lambda>_. 0) v"
     "elems (resources v) = [new_resource 0x1000 0x80]" "res_only (sample_mut f) v" "log_idle v"
     "n_active_elems (resources v) = 1" "n_consumed_elems (resources v) = 0" "program_name (the_log v) = ''mut''"
    using sample_created by blast
  have l: "sample_live f = v\<lparr>resources := \<lparr>elems = [sample_object], really_free = False, n_active_elems = 1, n_consumed_elems = 0\<rparr>\<rparr>"
    by (simp add: sample_live_def v(1))
  show "elems (resources (sample_live f)) = [sample_object]" by (simp add: l)
  show "program_name (the_log (sample_live f)) = ''mut''" using v(8) by (simp add: l)
  show "log_idle (sample_live f)" using v(5) by (simp add: l log_idle_def)
  note r = res_only_fields [OF v(4)]
  show "writes_ok (sample_live f)" using sample_wait(4) [of f] r by (simp add: l writes_ok_def)
  show "clean (sample_live f)" using sample_wait(2) [of f] r by (simp add: l clean_def)
  show "p_stopped (sample_live f)" using sample_wait(5) [of f] r by (simp add: l p_stopped_def)
  show "m_flags (sample_live f) = f" "child (sample_live f) = sample_child" "actions (sample_live f) = (\<lambda>_. sample_action)"
    using r sample_wait(6) [of f] by (simp_all add: l)
  show "res_inv (\<lambda>_. 0) (sample_live f)"
    using v(2,3) by (simp add: l res_inv_def refs_ok_def bts_ok_def mem_wf_def mem_in_use_def
      malloc_fresh_def plain_blocks_def bt_refs_def new_resource_def sample_object_def uses1_def)
qed

lemma sample_call_facts [simp]:
  "clean (sample_call x)" "p_stopped (sample_call x)" "log_idle (sample_call x)" "writes_ok (sample_call x)"
  "m_flags (sample_call x) = 0" "res_inv (\<lambda>_. 0) (sample_call x)" "res_entry (sample_call x) = Map.empty"
  "regs (child (sample_call x)) = regs sample_child" "actions (sample_call x) = (\<lambda>_. sample_action)"
  "program_name (the_log (sample_call x)) = ''mut''"
  "read_word (cmem (child (sample_call x))) 0x100 = Some 0x45" "read_word (cmem (child (sample_call x))) 0x104 = Some x"
proof -
  note sm [simp] = sample_wait [of 0]
  show "clean (sample_call x)" "p_stopped (sample_call x)" "log_idle (sample_call x)" "writes_ok (sample_call x)"
    using sm by (simp_all add: sample_call_def set_mem_def clean_def p_stopped_def log_idle_def writes_ok_def)
  show "m_flags (sample_call x) = 0" "regs (child (sample_call x)) = regs sample_child"
    "actions (sample_call x) = (\<lambda>_. sample_action)" "program_name (the_log (sample_call x)) = ''mut''"
    by (simp_all add: sample_call_def set_mem_def)
  have r: "resources (sample_call x) = resources (sample_mut 0)" by (simp add: sample_call_def set_mem_def)
  show "res_entry (sample_call x) = Map.empty" by (simp add: r res_entry_def fun_eq_iff)
  have "res_inv (\<lambda>_. 0) (sample_mut 0)" using sample_mut_inv by (simp add: core_inv_def)
  then show "res_inv (\<lambda>_. 0) (sample_call x)"
    by (simp add: sample_call_def set_mem_def res_inv_def refs_ok_def bts_ok_def mem_wf_def mem_in_use_def
      malloc_fresh_def plain_blocks_def bt_refs_def)
  show "read_word (cmem (child (sample_call x))) 0x100 = Some 0x45" "read_word (cmem (child (sample_call x))) 0x104 = Some x"
    by (simp_all add: sample_call_def set_mem_def)
      (simp add: sample_cmem_def put_word_def read_word_def word_of_bytes_def byte_of_word_def)
qed

lemma sample_reads [simp]:
  "read_word sample_cmem 0x200 = Some 0" "read_word sample_cmem 0x214 = Some 0" "addr_aligned 0x200" "addr_aligned 0x214"
  "mut_round_up 16 = 24"
  by (simp_all add: sample_cmem_def put_word_def read_word_def word_of_bytes_def byte_of_word_def addr_aligned_def
      mut_round_up_def mut_zone_size_def)

lemma sample_live_get [simp]: "res_get 0x1000 (sample_live f) = Some sample_object"
  by (simp add: res_get_def) (simp add: sample_object_def)

lemmas sample_service = ctl_def action_name_def sample_action_def sample_object_def log_line_def made_def leak_line_def
  fmt_X_def fmt_u_def hex_string.simps dec_string.simps digit_char_def char_of_def bit_simps

section \<open>Properties\<close>

text \<open>
  C17: A call of \<open>free\<close> or \<open>cfree\<close> in the default mode is stepped over. For an address that is not in the map it
  logs one FUM line, for an object that was freed before one FFM line with the consumer of that time, and the map
  stays as it is; a live object is marked as consumed by this call, without a message.
\<close>

theorem mut_do_consumer_outcome:
  fixes w :: "('p, 'a) mut_world_scheme"
  assumes "clean w" and "p_stopped w" and "log_idle w" and "writes_ok w" and "m_flags w = 0" and "res_inv E w"
    and "regs (child w) mut_process_arch_regs_esp = Some sp" and "read_word (cmem (child w)) sp = Some ra"
    and "read_word (cmem (child w)) (sp + 4) = Some obj" and "obj \<noteq> 0"
  shows "case res_entry w obj of
      None \<Rightarrow> mut_do_consumer c w = Some (True, skipped ra sp (log_emit (log_line (program_name (the_log w)) Error ''FUM''
          [LString (action_name c w), LHex obj]) (w\<lparr>c_errno := 0\<rparr>)))
    | Some r \<Rightarrow> (case consumer_action r of
        Some c' \<Rightarrow> mut_do_consumer c w = Some (True, skipped ra sp (log_emit (log_line (program_name (the_log w)) Error ''FFM''
          [LString (action_name c w), LHex obj, LString (action_name c' w)]) (w\<lparr>c_errno := 0\<rparr>)))
      | None \<Rightarrow> \<exists>v. mut_do_consumer c w = Some (True, skipped ra sp v) \<and> res_inv E v \<and> res_entry v =
          (if really_free (resources w) then (res_entry w)(obj := None)
           else (res_entry w)(obj \<mapsto> r\<lparr>consumer_action := Some c, consumer_backtrace := 0\<rparr>)))"
proof -
  let ?w = "w\<lparr>c_errno := 0\<rparr>"
  have arg: "mut_process_read_arg 0 w = Some (Some obj, ?w)" using read_pc_arg_ok(2) [OF assms(1,2,7), of 0 obj] assms(9) by simp
  have ra: "mut_process_function_return_addr ?w = Some (Some ra, ?w)"
    using read_pc_arg_ok(1) [of ?w sp ra] assms(1,2,7,8) by simp
  have hit: "hit c w = w" using assms(5) by (simp add: hit_def ctl_0)
  have bt: "mut_produce_backtrace ?w = Some (Some 0, ?w)" using assms(5) by (simp add: mut_produce_backtrace_def ctl_def)
  have off: "\<not> ctl x w" for x using assms(5) by (simp add: ctl_0)
  note start = mut_do_consumer_def hit arg ra bt try_c_def
  have inv: "res_inv E ?w" using assms(6) by (simp add: res_inv_def refs_ok_def bts_ok_def mem_wf_def mem_in_use_def
      malloc_fresh_def plain_blocks_def bt_refs_def)
  have entry: "res_entry ?w = res_entry w" by (simp add: res_entry_def fun_eq_iff)
  have look: "mut_resources_lookup obj ?w = (case res_entry w obj of None \<Rightarrow> 0 | Some r \<Rightarrow> r_self r)"
    using mut_resources_lookup_spec [OF inv, of obj] entry by simp
  show ?thesis
  proof (cases "res_entry w obj")
    case None
    then show ?thesis using assms look
      by (simp add: start mut_log_fum_def quiet_defs off drop_bt_def skip_ok)
  next
    case (Some r)
    have r: "r \<in> set (elems (resources w))" "r_addr r = obj"
      using Some assms(6) by (auto simp: res_entry_iff res_inv_def)
    have get: "res_get (r_self r) ?w = Some r" "r_self r \<noteq> 0"
      using r node_at_self [of "elems (resources w)" r] res_inv_not_null [OF assms(6)] assms(6)
      by (auto simp: res_get_def res_inv_def)
    show ?thesis
    proof (cases "consumer_action r")
      case None
      obtain v where v: "mut_resources_delete_resource (r_self r) c 0 ?w = Some v" "res_inv E v"
        "res_entry v = (if really_free (resources w) then (res_entry w)(obj := None)
           else (res_entry w)(obj \<mapsto> r\<lparr>consumer_action := Some c, consumer_backtrace := 0\<rparr>))"
        using mut_resources_delete_result [OF inv get(1) None, of 0 c] r(2) entry by auto
      have ro: "res_only ?w v" using within0D [OF res_only_delete v(1)] .
      then have vw: "v = w\<lparr>c_heap := c_heap v, c_errno := c_errno v, c_out := c_out v, store := store v,
            the_log := the_log v, bts := bts v, resources := resources v\<rparr>" by (simp add: res_only_def)
      have f: "m_flags v = 0" "child v = child w" "p_stopped v" "clean v"
        using assms(1,2,5) by (subst vw, simp add: p_stopped_def clean_def)+
      have "consume_object obj ra c (r_self r) 0 ?w = Some (True, skipped ra sp v)"
        using assms get v(1) off f
        by (simp add: consume_object_def when_c_def try_ok_def drop_bt_def usage_if_def ctl_0 skip_ok)
      then have "mut_do_consumer c w = Some (True, skipped ra sp v)"
        using assms look Some get None off by (simp add: start when_c_def mut_resources_resource_deleted_def)
      with v(2,3) Some None show ?thesis by auto
    next
      case c': (Some c')
      then show ?thesis using assms look Some get off
        by (simp add: start when_c_def mut_resources_resource_deleted_def mut_log_ffm_def quiet_defs drop_bt_def skip_ok)
    qed
  qed
qed

lemma mut_do_consumer_outcome_witness:
  "mut_do_consumer Act_free (sample_call 0x90) = Some (True, skipped 0x45 0x100
     (log_emit ''mut error FUM malloc 90\<newline>'' ((sample_call 0x90)\<lparr>c_errno := 0\<rparr>)))"
  using mut_do_consumer_outcome [of "sample_call 0x90" "\<lambda>_. 0" "0x100" "0x45" "0x90" Act_free]
  by (simp add: sample_service)

text \<open>
  A new address returned by \<open>malloc\<close> becomes an entry of the map with the size requested and \<open>malloc\<close> as its
  producer; the other entries stay as they are.
\<close>

theorem mut_malloc_success_records_object:
  fixes w :: "('p, 'a) mut_world_scheme"
  assumes "m_flags w = 0" and "res_inv E w" and "res_entry w obj = None"
    and "mut_mem__malloc sizeof_mut_resource 101 resources_file w = Some (p, u)" and "p \<noteq> 0"
  shows "\<exists>v. mut_malloc_success n obj 0 w = Some (True, v) \<and> res_inv E v \<and>
    res_entry v = (res_entry w)(obj \<mapsto> (new_resource p obj)\<lparr>producer_action := Some Act_malloc, r_size := Some n\<rparr>)"
  using assms by (rule malloc_success_entry)

lemma mut_malloc_success_records_object_witness:
  "\<exists>v. mut_malloc_success 16 0x80 0 (sample_mut 0) = Some (True, v) \<and> res_entry v 0x80 = Some sample_object"
proof -
  obtain u where u: "mut_mem__malloc sizeof_mut_resource 101 resources_file (sample_mut 0) = Some (0x1000, u)"
    by (simp add: mut_mem__malloc_def libc_malloc_def Let_def sample_mut_def sample_world_def sample_pick_def)
  have "res_inv (\<lambda>_. 0) (sample_mut 0)" using sample_mut_inv by (simp add: core_inv_def)
  from mut_malloc_success_records_object [OF _ this _ u, of "0x80" 16] obtain v where
    v: "mut_malloc_success 16 0x80 0 (sample_mut 0) = Some (True, v)"
    "res_entry v = (res_entry (sample_mut 0))(0x80 \<mapsto>
       (new_resource 0x1000 0x80)\<lparr>producer_action := Some Act_malloc, r_size := Some 16\<rparr>)" by auto
  have "res_entry v 0x80 = Some sample_object" unfolding v(2) by (simp add: sample_object_def new_resource_def)
  with v(1) show ?thesis by blast
qed

text \<open>
  At the end of a run exactly the objects that were not consumed are reported, one MLK line each, in the order of
  the map, with the producer, the size and the address of each.
\<close>

theorem mut_log_leaks_reports_live_objects:
  fixes w :: "('p, 'a) mut_world_scheme"
  assumes "log_idle w" and "writes_ok w" and "\<not> ctl mut_control_backtrace w" and "res_inv E w"
    and "list_all made (filter (\<lambda>r. consumer_action r = None) (elems (resources w)))"
  shows "mut_log_leaks w = Some (log_emit (concat (map (leak_line w)
    (filter (\<lambda>r. consumer_action r = None) (elems (resources w))))) w)"
  using assms by (rule log_leaks_ok)

lemma mut_log_leaks_reports_live_objects_witness:
  "mut_log_leaks (sample_live 0) = Some (log_emit ''mut error MLK malloc 16 80\<newline>'' (sample_live 0))"
  using mut_log_leaks_reports_live_objects [of "sample_live 0" "\<lambda>_. 0"] by (simp add: sample_service)

text \<open>
  C18: The check of the zones of an object succeeds, and reports nothing, exactly when both words still hold the
  value written; otherwise it fails with one WUM line for the first zone that has been overwritten.
\<close>

theorem mut_zone_check_outcome:
  assumes "clean w" and "p_stopped w" and "log_idle w" and "writes_ok w" and "ctl mut_control_check w"
    and "\<not> ctl mut_control_backtrace w" and "res_get p w = Some r" and "r_size r = Some sz" and "producer_action r = Some act"
    and "addr_aligned (obj - 4)" and "addr_aligned (obj + mut_round_up sz - 8)"
    and "read_word (cmem (child w)) (obj - 4) = Some x" and "read_word (cmem (child w)) (obj + mut_round_up sz - 8) = Some y"
  shows "mut_zone_check obj p c bt w =
    (let v = w\<lparr>c_errno := 0\<rparr>;
         wum = \<lambda>zone value. log_emit (log_line (program_name (the_log w)) Error ''WUM''
           [LString (action_name c w), LHex obj, LUlong sz, LHex zone, LHex value, LString (action_name act w)]) v
     in if x \<noteq> mut_zone_value then Some (False, wum (obj - 4) x)
        else if y \<noteq> mut_zone_value then Some (False, wum (obj + mut_round_up sz - 8) y)
        else Some (True, v))"
proof -
  have read: "mut_process_read_word a w' = Some (read_word (cmem (child w)) a, w\<lparr>c_errno := 0\<rparr>)"
    if "addr_aligned a" "read_word (cmem (child w)) a \<noteq> None" "w' = w \<or> w' = w\<lparr>c_errno := 0\<rparr>" for a w'
    using that assms(1,2) by (auto simp: mut_process_read_word_def trace_ok clean_def)
  have post: "obj - mut_zone_size + mut_round_up sz - mut_zone_size = obj + mut_round_up sz - 8"
    by (simp add: mut_zone_size_def algebra_simps)
  show ?thesis
    using assms post mut_log_wum_line [of "w\<lparr>c_errno := 0\<rparr>" p r sz act]
    by (simp add: mut_zone_check_def try_c_def fail_c_def read Let_def mut_zone_size_def)
qed

lemma mut_zone_check_outcome_witness:
  "\<exists>v. mut_zone_check 0x204 0x1000 Act_free 0 (sample_live 0x40) = Some (False, v)"
  using mut_zone_check_outcome [of "sample_live 0x40" "0x1000" sample_object 16 Act_malloc "0x204" 0 0 Act_free 0]
  by (simp add: sample_service Let_def mut_zone_value_def mut_zone_size_def mut_control_check_def mut_control_backtrace_def)

text \<open>
  C19: Zones installed around a block of the rounded-up size pass the check of the object that the program gets,
  whose address is returned to it in the result register.
\<close>

theorem mut_installed_zones_pass_the_check:
  assumes "clean w" and "p_stopped w" and "regs (child w) mut_process_arch_regs_eax = Some e"
    and "unat sz < 2 ^ 32 - 11" and "addr_aligned obj"
    and "read_word (cmem (child w)) obj = Some x" and "read_word (cmem (child w)) (obj + mut_round_up sz - 4) = Some y"
    and "res_get p w = Some r" and "r_size r = Some sz"
  shows "\<exists>v. mut_install_check_zones obj (mut_round_up sz) w = Some (Some (obj + 4), v) \<and>
    regs (child v) mut_process_arch_regs_eax = Some (obj + 4) \<and>
    mut_zone_check (obj + 4) p c bt v = Some (True, v\<lparr>c_errno := 0\<rparr>)"
proof -
  note f = round_up_facts [OF assms(4)]
  let ?post = "obj + mut_round_up sz - 4"
  let ?m = "put_word ?post mut_zone_value (put_word obj mut_zone_value (cmem (child w)))"
  let ?v = "set_reg mut_process_arch_regs_eax (obj + 4) (set_mem ?m w)"
  have i: "mut_install_check_zones obj (mut_round_up sz) w = Some (Some (obj + 4), ?v)"
    using mut_install_check_zones_ok [OF assms(2,3,5) f(3) [OF assms(5)] assms(6,7)] .
  have "words_apart ?post obj" using f(2) [of obj] by (auto simp: words_apart_def)
  then have rd: "read_word ?m obj = Some mut_zone_value" "read_word ?m ?post = Some mut_zone_value"
    by (simp_all add: words_apart_def read_put_word_other)
  have read: "mut_process_read_word a w' = Some (read_word ?m a, ?v\<lparr>c_errno := 0\<rparr>)"
    if "addr_aligned a" "read_word ?m a \<noteq> None" "w' = ?v \<or> w' = ?v\<lparr>c_errno := 0\<rparr>" for a w'
    using that assms(1,2) by (auto simp: mut_process_read_word_def trace_ok)
  have res: "res_get p ?v = Some r" using assms(8) by (simp add: res_get_def set_reg_def set_mem_def)
  have "mut_zone_check (obj + 4) p c bt ?v = Some (True, ?v\<lparr>c_errno := 0\<rparr>)"
    using read [of obj] read [of ?post] rd assms(5) f(3) res assms(9)
    by (simp add: mut_zone_check_def try_c_def Let_def mut_zone_size_def)
  with i show ?thesis by auto
qed

lemma mut_installed_zones_pass_the_check_witness:
  "\<exists>v. mut_install_check_zones 0x200 (mut_round_up 16) (sample_live 0x40) = Some (Some 0x204, v) \<and>
     mut_zone_check 0x204 0x1000 Act_free 0 v = Some (True, v\<lparr>c_errno := 0\<rparr>)"
  using mut_installed_zones_pass_the_check [of "sample_live 0x40" 0 16 "0x200" 0 0 "0x1000" sample_object Act_free 0]
  by (simp add: sample_service mut_zone_size_def) blast

text \<open>
  C20: The block that \<open>calloc\<close> requests for its zones is the one the zone check expects only for sizes that are not a
  multiple of the word: for the others the check looks for the upper zone one word below where it was put.
\<close>

theorem mut_do_calloc_zone_mismatch:
  assumes "unat n < 2 ^ 32 - 12"
  shows "calloc_zones n * mut_zone_size = mut_round_up n \<longleftrightarrow> unat n mod 4 \<noteq> 0"
proof -
  have k: "unat n div 4 + 3 < 2 ^ 32" using assms by simp
  then have "unat (calloc_zones n) = unat n div 4 + 3"
    by (simp add: calloc_zones_def mut_zone_size_def unat_word_ariths unat_div)
  moreover have "unat n div 4 < 1073741821" using assms by (simp add: less_mult_imp_div_less)
  ultimately have l: "unat (calloc_zones n * mut_zone_size) = 4 * (unat n div 4) + 12"
    by (simp add: mut_zone_size_def unat_word_ariths)
  have r: "unat (mut_round_up n) = 4 * ((unat n + 3) div 4) + 8"
    using round_up_val [of n] assms by simp
  have "(unat n + 3) div 4 = unat n div 4 + (if unat n mod 4 = 0 then 0 else 1)" by presburger
  then show ?thesis using l r by (auto simp: word_unat_eq_iff)
qed

lemma mut_do_calloc_zone_mismatch_witness: "calloc_zones 8 * mut_zone_size \<noteq> mut_round_up 8"
  using mut_do_calloc_zone_mismatch [of 8] by simp

text \<open>
  The size that is requested with zones is the size rounded up to words plus two words, exactly when that
  is less than \<open>2\<^sup>3\<^sup>2\<close>; the eleven largest sizes wrap around to a request of at most eight bytes.
\<close>

theorem mut_round_up_exact:
  "unat (mut_round_up sz) =
     (if unat sz < 2 ^ 32 - 11 then 4 * ((unat sz + 3) div 4) + 8
      else if unat sz < 2 ^ 32 - 7 then 0 else if unat sz < 2 ^ 32 - 3 then 4 else 8)"
  by (rule round_up_val)

text \<open>
  C21: Installing the breakpoints of the actions puts the breakpoint instruction at each of their addresses, and
  removing them gives the child back exactly as it was.
\<close>

theorem mut_install_then_remove_breakpoints:
  assumes "clean w" and "p_stopped w" and "distinct (a_root w)"
    and "sorted_wrt words_apart (map (\<lambda>a. a_addr (actions w a)) (a_root w))"
    and "(\<lambda>a. a_addr (actions w a)) ` set (a_root w) \<subseteq> {a. read_word (cmem (child w)) a \<noteq> None}"
  shows "\<exists>v u. mut_install_action_breakpoints w = Some (True, v) \<and>
    (\<lambda>a. read_word (cmem (child v)) (a_addr (actions v a))) ` set (a_root w) \<subseteq> {Some mut_instr_bp} \<and>
    mut_remove_action_breakpoints v = Some (True, u) \<and> child u = child w"
proof -
  let ?ads = "map (\<lambda>a. a_addr (actions w a)) (a_root w)"
  obtain vs m where p: "child_memory.patch mut_instr_bp ?ads (cmem (child w)) = Some (vs, m)"
    using patch_exists [OF assms(4), of "cmem (child w)" mut_instr_bp] assms(5) by auto
  obtain e A where A: "break_actions (a_root w) w = Some (True, w\<lparr>c_errno := e, child := (child w)\<lparr>cmem := m\<rparr>, actions := A\<rparr>)"
     "map (\<lambda>a. a_instr (A a)) (a_root w) = vs" "\<And>b. A b = (actions w b)\<lparr>a_instr := a_instr (A b)\<rparr>"
    using break_actions_ok [OF assms(1,2,3) p] by blast
  define v where "v = w\<lparr>c_errno := e, child := (child w)\<lparr>cmem := m\<rparr>, actions := A\<rparr>"
  have "a_addr (A b) = a_addr (actions w b)" for b by (subst A(3), simp)
  then have v: "break_actions (a_root w) w = Some (True, v)" "child v = (child w)\<lparr>cmem := m\<rparr>"
     "p_stopped v" "map (\<lambda>a. a_instr (actions v a)) (a_root w) = vs" "a_root v = a_root w"
     "\<And>b. a_addr (actions v b) = a_addr (actions w b)"
    using A(1,2) assms(2) by (simp_all add: v_def p_stopped_def)
  have un: "child_memory.unpatch (zip ?ads vs) m = Some (cmem (child w))"
    using child_memory.unpatch_patch [OF assms(4) p] by simp
  have "map (\<lambda>a. (a_addr (actions v a), a_instr (actions v a))) (a_root v) = zip ?ads vs"
    unfolding v(4) [symmetric] v(5) by (simp add: v(6) zip_map_map) (simp add: zip_same_conv_map)
  with un v(2,3) restore_actions_ok [of v "a_root v" "cmem (child w)"]
  have r: "mut_remove_action_breakpoints v = Some (True, set_mem (cmem (child w)) v)"
    by (simp add: mut_remove_action_breakpoints_def)
  have "child (set_mem (cmem (child w)) v) = child w" by (simp add: set_mem_def v(2))
  moreover have "read_word m (a_addr (actions v a)) = Some mut_instr_bp" if "a \<in> set (a_root w)" for a
    using child_memory.patch_reads [OF assms(4) p] that by (simp add: v(6))
  ultimately show ?thesis using v(1,2) r by (auto simp: mut_install_action_breakpoints_def)
qed

lemma mut_install_then_remove_breakpoints_witness:
  "\<exists>v u. mut_install_action_breakpoints (sample_mut 0) = Some (True, v) \<and>
     mut_remove_action_breakpoints v = Some (True, u) \<and> child u = sample_child"
  using mut_install_then_remove_breakpoints [of "sample_mut 0"] sample_wait [of 0] by (simp add: sample_action_def) blast

text \<open>
  While the counters stay below \<open>2\<^sup>3\<^sup>2\<close>, collecting the statistics of a new object adds its size and one to
  the current and to the total figures, and keeps the maxima of space and of count as running maxima.
\<close>

theorem mut_collect_producer_stats_values:
  assumes "u64_val (space (st_total (stats w))) + unat n < 2 ^ 32"
    and "u64_val (count (st_total (stats w))) + 1 < 2 ^ 32"
    and "u64_val (space (st_now (stats w))) + unat n < 2 ^ 32"
    and "u64_val (count (st_now (stats w))) + 1 < 2 ^ 32"
    and "stat_small (st_max_space (stats w))" and "stat_small (st_max_count (stats w))"
    and "stats (mut_collect_producer_stats n w) = s'"
  shows "stat_val (st_now s') = (fst (stat_val (st_now (stats w))) + unat n, snd (stat_val (st_now (stats w))) + 1) \<and>
    stat_val (st_total s') = (fst (stat_val (st_total (stats w))) + unat n, snd (stat_val (st_total (stats w))) + 1) \<and>
    fst (stat_val (st_max_space s')) = max (fst (stat_val (st_max_space (stats w)))) (fst (stat_val (st_now s'))) \<and>
    snd (stat_val (st_max_count s')) = max (snd (stat_val (st_max_count (stats w)))) (snd (stat_val (st_now s')))"
proof -
  have one: "u64_val c + unat (1 :: u32) < 2 ^ 32" if "u64_val c + 1 < 2 ^ 32" for c using that by simp
  note inc = struct_counter.inc_val [of _ _ w]
  let ?now = "\<lparr>space = mut_counter_inc w (space (st_now (stats w))) n, count = mut_counter_inc w (count (st_now (stats w))) 1\<rparr>"
  have now: "u64_val (space ?now) = u64_val (space (st_now (stats w))) + unat n"
    "u64_val (count ?now) = u64_val (count (st_now (stats w))) + 1"
    using inc [OF assms(3)] inc [OF one [OF assms(4)]] by simp_all
  have s': "s' = collect_stats w n (stats w)" using assms(7) by (simp add: mut_collect_producer_stats_def)
  have mx: "u64_val (space (if mut_counter_lt (space m) (space ?now) then ?now else m)) =
      max (u64_val (space m)) (u64_val (space ?now))"
    "u64_val (count (if mut_counter_lt (count m) (count ?now) then ?now else m)) =
      max (u64_val (count m)) (u64_val (count ?now))" if "stat_small m" for m
    using struct_counter.running_max_val [of "space m" "space ?now"] struct_counter.running_max_val [of "count m" "count ?now"]
      that now assms(3,4) by (auto simp: stat_small_def)
  show ?thesis
    using now mx(1) [OF assms(5)] mx(2) [OF assms(6)] inc [OF assms(1)] inc [OF one [OF assms(2)]]
    by (simp add: s' collect_stats_def Let_def stat_val_def)
qed

lemma mut_collect_producer_stats_values_witness:
  "stat_val (st_now (stats (mut_collect_producer_stats 10 (sample_mut 0)))) = (10, 1)"
proof -
  have z: "u64_val (mut_counter_from_uint 0) = 0" by (simp add: mut_counter_from_uint_def u64_val_def mut_uint64_from_uint_def)
  show ?thesis
    using mut_collect_producer_stats_values [of "sample_mut 0" 10, OF _ _ _ _ _ _ refl]
    by (simp add: stat_val_def stat_small_def sample_stats_def Let_def z)
qed

end
