(* ===== verification/MutElf.thy ===== *)
theory MutElf
  imports MutRun
begin

text \<open>
  The reader of ELF executables, src/src/exec/elf/mut_exec.c, as built for 32-bit little-endian targets
  (src/src/exec/elf/32/mut_elf_types.h). The structures are those of the ELF specification. The file
  is a \<open>source\<close>: its bytes, and what decides which seeks, reads and the final close fail.

  The structures of the reader that are pointers into \<open>reader->section.header\<close> are the headers
  themselves: a slot is not written again once something points to it. A slot beyond the array, a
  header longer than its structure, and a string outside its table are undefined: no result.
\<close>

section \<open>The format\<close>

record mut_elf_ehdr =
  e_ident :: "u8 list"
  e_type :: u32
  e_shoff :: u32
  e_shentsize :: u32
  e_shnum :: u32
  e_shstrndx :: u32

record mut_elf_shdr =
  sh_name :: u32
  sh_type :: u32
  sh_addr :: u32
  sh_offset :: u32
  sh_size :: u32
  sh_link :: u32
  sh_addralign :: u32
  sh_entsize :: u32

record mut_elf_sym =
  st_name :: u32
  st_value :: u32
  st_info :: u32

record mut_exec_stab =
  other_and_string_index :: u32
  line_and_type :: u32
  stab_value :: u32

definition le16 :: "nat \<Rightarrow> u8 list \<Rightarrow> u32" where
  "le16 i bs = word_of_bytes (bs ! i) (bs ! (i + 1)) 0 0"

definition le32 :: "nat \<Rightarrow> u8 list \<Rightarrow> u32" where
  "le32 i bs = word_of_bytes (bs ! i) (bs ! (i + 1)) (bs ! (i + 2)) (bs ! (i + 3))"

definition sizeof_ehdr :: u32 where "sizeof_ehdr = 52"
definition sizeof_shdr :: u32 where "sizeof_shdr = 40"
definition sizeof_sym :: u32 where "sizeof_sym = 16"
definition sizeof_stab :: u32 where "sizeof_stab = 12"

definition ehdr_of :: "u8 list \<Rightarrow> mut_elf_ehdr" where
  "ehdr_of bs = \<lparr>e_ident = take 16 bs, e_type = le16 16 bs, e_shoff = le32 32 bs, e_shentsize = le16 46 bs,
     e_shnum = le16 48 bs, e_shstrndx = le16 50 bs\<rparr>"

definition shdr_of :: "u8 list \<Rightarrow> mut_elf_shdr" where
  "shdr_of bs = \<lparr>sh_name = le32 0 bs, sh_type = le32 4 bs, sh_addr = le32 12 bs, sh_offset = le32 16 bs,
     sh_size = le32 20 bs, sh_link = le32 24 bs, sh_addralign = le32 32 bs, sh_entsize = le32 36 bs\<rparr>"

definition sym_of :: "u8 list \<Rightarrow> mut_elf_sym" where
  "sym_of bs = \<lparr>st_name = le32 0 bs, st_value = le32 4 bs, st_info = ucast (bs ! 12)\<rparr>"

definition stab_of :: "u8 list \<Rightarrow> mut_exec_stab" where
  "stab_of bs = \<lparr>other_and_string_index = le32 0 bs, line_and_type = le32 4 bs, stab_value = le32 8 bs\<rparr>"

definition SHT_PROGBITS :: u32 where "SHT_PROGBITS = 1"
definition SHT_SYMTAB :: u32 where "SHT_SYMTAB = 2"
definition SHT_STRTAB :: u32 where "SHT_STRTAB = 3"
definition SHT_DYNSYM :: u32 where "SHT_DYNSYM = 11"
definition ET_EXEC :: u32 where "ET_EXEC = 2"
definition STT_FUNC :: u32 where "STT_FUNC = 2"
definition mut_elf_class :: u8 where "mut_elf_class = 1"

definition mut_elf_st_type :: "u32 \<Rightarrow> u32" where "mut_elf_st_type i = i AND 0xF"

definition mut_exec_stab_type_FUN :: u32 where "mut_exec_stab_type_FUN = 0x24"
definition mut_exec_stab_type_LINE :: u32 where "mut_exec_stab_type_LINE = 0x44"
definition mut_exec_stab_type_SO :: u32 where "mut_exec_stab_type_SO = 0x64"

definition mut_exec_stab_type :: "mut_exec_stab \<Rightarrow> u32" where
  "mut_exec_stab_type s = line_and_type s AND (push_bit 16 1 - 1)"

definition mut_exec_stab_str :: "mut_exec_stab \<Rightarrow> u32" where
  "mut_exec_stab_str s = other_and_string_index s AND (push_bit 16 1 - 1)"

definition mut_exec_stab_line :: "mut_exec_stab \<Rightarrow> u32" where
  "mut_exec_stab_line s = drop_bit 16 (line_and_type s)"

section \<open>The file\<close>

record source =
  s_bytes :: "u8 list"
  s_seek_fails :: "u32 \<Rightarrow> bool"
  s_read_fails :: "nat \<Rightarrow> u32 \<Rightarrow> bool"
  s_close_fails :: bool
  s_errno :: "u32 \<Rightarrow> u32"

text \<open>\<open>fseek\<close> from the start to an offset, a \<open>long\<close>; \<open>fread\<close> of one item of \<open>n\<close> bytes.\<close>

definition libc_fseek :: "u32 \<Rightarrow> source \<Rightarrow> nat option" where
  "libc_fseek off src = (if sint off < 0 \<or> s_seek_fails src off then None else Some (unat off))"

definition libc_fread :: "nat \<Rightarrow> u32 \<Rightarrow> source \<Rightarrow> u8 list option" where
  "libc_fread pos n src =
     (if n \<noteq> 0 \<and> pos + unat n \<le> length (s_bytes src) \<and> \<not> s_read_fails src pos n
      then Some (take (unat n) (drop pos (s_bytes src))) else None)"

text \<open>The value of \<open>errno\<close> after a failure.\<close>

definition io_error :: "source \<Rightarrow> 'a libc_scheme \<Rightarrow> 'a libc_scheme" where
  "io_error src w = w\<lparr>c_errno := s_errno src (c_errno w)\<rparr>"

datatype io_result = Seek_failed | Read_failed | Got "u8 list"

definition read_at :: "u32 \<Rightarrow> u32 \<Rightarrow> source \<Rightarrow> io_result" where
  "read_at off n src =
     (case libc_fseek off src of
        None \<Rightarrow> Seek_failed
      | Some pos \<Rightarrow> (case libc_fread pos n src of None \<Rightarrow> Read_failed | Some bs \<Rightarrow> Got bs))"

text \<open>The bytes that a read has put into a block.\<close>

definition heap_fill :: "ptr \<Rightarrow> u8 list \<Rightarrow> 'a libc_scheme \<Rightarrow> 'a libc_scheme option" where
  "heap_fill p bs w = do {
     old \<leftarrow> c_heap w p;
     assert_c (length bs \<le> length old);
     Some (w\<lparr>c_heap := (c_heap w)(p \<mapsto> bs @ drop (length bs) old)\<rparr>)
   }"

definition heap_poke :: "ptr \<Rightarrow> nat \<Rightarrow> u8 \<Rightarrow> 'a libc_scheme \<Rightarrow> 'a libc_scheme option" where
  "heap_poke p i b w = do {
     old \<leftarrow> c_heap w p;
     assert_c (i < length old);
     Some (w\<lparr>c_heap := (c_heap w)(p \<mapsto> old[i := b])\<rparr>)
   }"

text \<open>
  \<open>fread(&header, size, 1, source)\<close> into a structure that held \<open>old\<close>: fewer bytes than the structure
  leave its tail as it was, more are written past its end.
\<close>

definition header_fill :: "u8 list \<Rightarrow> u8 list \<Rightarrow> u8 list option" where
  "header_fill old bs = do { assert_c (length bs \<le> length old); Some (bs @ drop (length bs) old) }"

definition indet_header :: "u32 \<Rightarrow> 'a libc_scheme \<Rightarrow> u8 list" where
  "indet_header tag w = map (\<lambda>i. ucast (c_indet w [tag, of_nat i])) [0..<unat sizeof_shdr]"

section \<open>The reader\<close>

definition mut_exec_reader_sections_max :: nat where "mut_exec_reader_sections_max = 4"

record mut_exec_reader =
  r_header :: mut_elf_ehdr
  r_slot :: "u8 list"
  r_free :: nat
  r_strings :: mut_exec_strings
  r_dsymtab :: "mut_elf_shdr option"
  r_symtab :: "mut_elf_shdr option"
  r_stabs :: "mut_elf_shdr option"
  r_plt :: "mut_elf_shdr option"
  r_source :: source
  r_file_name :: string

text \<open>A fatal message with its arguments, from \<open>mut_log_fatal\<close> to \<open>mut_log_end\<close>.\<close>

definition complain ::
  "u32 \<Rightarrow> string \<Rightarrow> log_argument list \<Rightarrow> 'a log_world_scheme \<Rightarrow> 'a log_world_scheme option" where
  "complain e msg args w = do { (ok, w) \<leftarrow> log_message (Fatal e) msg args w; Some w }"

definition mut_exec_check_id ::
  "mut_exec_reader \<Rightarrow> 'a log_world_scheme \<Rightarrow> (bool \<times> 'a log_world_scheme) option" where
  "mut_exec_check_id r w =
     (let id = e_ident (r_header r) in
      if id ! 0 \<noteq> 0x7F \<or> id ! 1 \<noteq> 0x45 \<or> id ! 2 \<noteq> 0x4C \<or> id ! 3 \<noteq> 0x46
      then do { w \<leftarrow> complain (c_errno w) ''elf.not'' [LString (r_file_name r)] w; Some (False, w) }
      else Some (True, w))"

definition mut_exec_check_class ::
  "mut_exec_reader \<Rightarrow> 'a log_world_scheme \<Rightarrow> (bool \<times> 'a log_world_scheme) option" where
  "mut_exec_check_class r w =
     (let c = e_ident (r_header r) ! 4 in
      if c \<noteq> mut_elf_class then do {
        (ok, w) \<leftarrow> log_message Warning ''elf.bad-class''
          [LString (r_file_name r), LString (if c = 0 then [] else [char_of (unat c)])] w;
        Some (False, w)
      }
      else Some (True, w))"

definition mut_exec_check_type ::
  "mut_exec_reader \<Rightarrow> 'a log_world_scheme \<Rightarrow> (bool \<times> 'a log_world_scheme) option" where
  "mut_exec_check_type r w =
     (if e_type (r_header r) \<noteq> ET_EXEC
      then do { w \<leftarrow> complain 0 ''elf.not-exec'' [LString (r_file_name r)] w; Some (False, w) }
      else Some (True, w))"

section \<open>String tables\<close>

definition mut_exec_strtab_open ::
  "mut_exec_reader \<Rightarrow> mut_elf_shdr \<Rightarrow> mut_exec_strings \<Rightarrow> 'a log_world_scheme \<Rightarrow>
   ((bool \<times> mut_exec_strings) \<times> 'a log_world_scheme) option" where
  "mut_exec_strtab_open r sy strs w =
     (let es = e_shentsize (r_header r);
          shi = sh_link sy;
          off = e_shoff (r_header r) + shi * es;
          name = LString (r_file_name r)
      in if es \<noteq> sizeof_shdr then do {
           w \<leftarrow> complain 0 ''elf.section.size'' [name, LUint es, LUint sizeof_shdr] w;
           Some ((False, strs), w)
         }
         else if e_shnum (r_header r) < shi then do {
           w \<leftarrow> complain 0 ''elf.section.index.range'' [name, LString ''.strtab'', LUint shi, LUint (e_shnum (r_header r))] w;
           Some ((False, strs), w)
         }
         else case read_at off sizeof_shdr (r_source r) of
           Seek_failed \<Rightarrow> do {
             let w = io_error (r_source r) w;
             w \<leftarrow> complain 0 ''io.seek'' [name, LInt (c_errno w)] w;
             Some ((False, strs), w)
           }
         | Read_failed \<Rightarrow> do {
             let w = io_error (r_source r) w;
             w \<leftarrow> complain (c_errno w) ''io.read'' [name, LInt (c_errno w)] w;
             Some ((False, strs), w)
           }
         | Got bs \<Rightarrow>
             let h = shdr_of bs in
             if sh_type h \<noteq> SHT_STRTAB then do {
               w \<leftarrow> complain 0 ''elf.symtab.strtab'' [name, LInt (sh_type h), LInt SHT_STRTAB] w;
               Some ((False, strs), w)
             }
             else do {
               (data, w) \<leftarrow> mut_mem__malloc (sh_size h) 207 exec_file w;
               let strs = \<lparr>es_data = data, es_size = sh_size h\<rparr>;
               if data = 0 then do {
                 w \<leftarrow> complain (c_errno w) ''mem.full'' [LUint (sh_size h)] w;
                 Some ((False, strs), w)
               }
               else case read_at (sh_offset h) (sh_size h) (r_source r) of
                 Seek_failed \<Rightarrow> do {
                   let w = io_error (r_source r) w;
                   w \<leftarrow> complain (c_errno w) ''io.seek'' [name, LInt (c_errno w)] w;
                   w \<leftarrow> mut_mem__free data 234 exec_file w;
                   Some ((False, strs), w)
                 }
               | Read_failed \<Rightarrow> do {
                   let w = io_error (r_source r) w;
                   w \<leftarrow> complain (c_errno w) ''io.read'' [name, LInt (c_errno w)] w;
                   w \<leftarrow> mut_mem__free data 234 exec_file w;
                   Some ((False, strs), w)
                 }
               | Got bs \<Rightarrow> do { w \<leftarrow> heap_fill data bs w; Some ((True, strs), w) }
             })"

definition mut_exec_strtab_lookup :: "mut_exec_strings \<Rightarrow> u32 \<Rightarrow> char_ptr option" where
  "mut_exec_strtab_lookup strs str = do { assert_c (str < es_size strs); Some (At (es_data strs) (unat str)) }"

definition mut_exec_stabstr_open ::
  "mut_exec_reader \<Rightarrow> mut_elf_shdr \<Rightarrow> 'a exec_world_scheme \<Rightarrow> (bool \<times> 'a exec_world_scheme) option" where
  "mut_exec_stabstr_open r st w =
     (let name = LString (r_file_name r);
          es = e_shentsize (r_header r)
      in if e_shnum (r_header r) < sh_link st then do {
           w \<leftarrow> complain 0 ''elf.section_index.range'' [name, LString ''.stabstr''] w;
           Some (False, w)
         }
         else case read_at (e_shoff (r_header r) + sh_link st * es) es (r_source r) of
           Seek_failed \<Rightarrow> do {
             w \<leftarrow> complain 0 ''io.seek'' [name] (io_error (r_source r) w);
             Some (False, w)
           }
         | Read_failed \<Rightarrow> do {
             let w = io_error (r_source r) w;
             w \<leftarrow> complain (c_errno w) ''io.read'' [name] w;
             Some (False, w)
           }
         | Got bs \<Rightarrow> do {
             bs \<leftarrow> header_fill (indet_header 423 w) bs;
             let h = shdr_of bs;
             if sh_type h \<noteq> SHT_STRTAB then do {
               w \<leftarrow> complain 0 ''elf.stab.stabstr'' [name] w;
               Some (False, w)
             }
             else do {
               (data, w) \<leftarrow> mut_mem__malloc (sh_size h) 423 exec_file w;
               let w = w\<lparr>exec := (exec w)\<lparr>stabstr := \<lparr>es_data = data, es_size = sh_size h\<rparr>\<rparr>\<rparr>;
               if data = 0 then do { w \<leftarrow> complain (c_errno w) ''mem.full'' [] w; Some (False, w) }
               else case read_at (sh_offset h) (sh_size h) (r_source r) of
                 Seek_failed \<Rightarrow> do {
                   let w = io_error (r_source r) w;
                   w \<leftarrow> complain (c_errno w) ''io.seek'' [name] w;
                   w \<leftarrow> mut_mem__free data 445 exec_file w;
                   Some (False, w)
                 }
               | Read_failed \<Rightarrow> do {
                   let w = io_error (r_source r) w;
                   w \<leftarrow> complain (c_errno w) ''io.read'' [name] w;
                   w \<leftarrow> mut_mem__free data 445 exec_file w;
                   Some (False, w)
                 }
               | Got bs \<Rightarrow> do { w \<leftarrow> heap_fill data bs w; Some (True, w) }
             }
           })"

definition mut_exec_shstrtab_open ::
  "mut_exec_reader \<Rightarrow> 'a log_world_scheme \<Rightarrow> ((bool \<times> mut_exec_reader) \<times> 'a log_world_scheme) option" where
  "mut_exec_shstrtab_open r w =
     (let name = LString (r_file_name r);
          es = e_shentsize (r_header r)
      in case read_at (e_shoff (r_header r) + e_shstrndx (r_header r) * es) es (r_source r) of
           Seek_failed \<Rightarrow> do {
             let w = io_error (r_source r) w;
             w \<leftarrow> complain (c_errno w) ''io.seek'' [name] w;
             Some ((False, r), w)
           }
         | Read_failed \<Rightarrow> do {
             let w = io_error (r_source r) w;
             w \<leftarrow> complain (c_errno w) ''io.read'' [name] w;
             Some ((False, r), w)
           }
         | Got bs \<Rightarrow> do {
             bs \<leftarrow> header_fill (indet_header 574 w) bs;
             let h = shdr_of bs;
             if sh_type h \<noteq> SHT_STRTAB then do {
               w \<leftarrow> complain 0 ''elf.shstrtab'' [name] w;
               Some ((False, r), w)
             }
             else do {
               (data, w) \<leftarrow> mut_mem__malloc (sh_size h) 574 exec_file w;
               let r = r\<lparr>r_strings := \<lparr>es_data = data, es_size = sh_size h\<rparr>\<rparr>;
               if data = 0 then do { w \<leftarrow> complain (c_errno w) ''mem.full'' [] w; Some ((False, r), w) }
               else case read_at (sh_offset h) (sh_size h) (r_source r) of
                 Seek_failed \<Rightarrow> do {
                   let w = io_error (r_source r) w;
                   w \<leftarrow> complain (c_errno w) ''io.seek'' [name] w;
                   w \<leftarrow> mut_mem__free data 596 exec_file w;
                   Some ((False, r), w)
                 }
               | Read_failed \<Rightarrow> do {
                   let w = io_error (r_source r) w;
                   w \<leftarrow> complain (c_errno w) ''io.read'' [name] w;
                   w \<leftarrow> mut_mem__free data 596 exec_file w;
                   Some ((False, r), w)
                 }
               | Got bs \<Rightarrow> do { w \<leftarrow> heap_fill data bs w; Some ((True, r), w) }
             }
           })"

definition mut_exec_shstrtab_lookup :: "mut_exec_reader \<Rightarrow> u32 \<Rightarrow> char_ptr option" where
  "mut_exec_shstrtab_lookup r index =
     do { assert_c (index < es_size (r_strings r)); Some (At (es_data (r_strings r)) (unat index)) }"

definition mut_exec_shstrtab_close ::
  "mut_exec_reader \<Rightarrow> 'a mem_world_scheme \<Rightarrow> 'a mem_world_scheme option" where
  "mut_exec_shstrtab_close r w = mut_mem__free (es_data (r_strings r)) 612 exec_file w"

section \<open>Sections\<close>

text \<open>
  One header of the loop of \<open>mut_exec_locate_sections\<close>, in the slot: the reader with the pointers
  that are set and the slot that is next.
\<close>

definition take_slot :: "'a libc_scheme \<Rightarrow> mut_exec_reader \<Rightarrow> mut_exec_reader" where
  "take_slot w r = r\<lparr>r_free := r_free r + 1, r_slot := indet_header (of_nat (r_free r + 1)) w\<rparr>"

definition locate_section :: "mut_exec_reader \<Rightarrow> 'a libc_scheme \<Rightarrow> mut_exec_reader option" where
  "locate_section r w =
     (let h = shdr_of (r_slot r) in
      if sh_type h = SHT_DYNSYM then
        if r_dsymtab r \<noteq> None then Some r
        else do {
          p \<leftarrow> mut_exec_shstrtab_lookup r (sh_name h);
          name \<leftarrow> string_at w p;
          Some (if name = ''.dynsym'' then take_slot w (r\<lparr>r_dsymtab := Some h\<rparr>) else r)
        }
      else if sh_type h = SHT_SYMTAB then
        if r_symtab r \<noteq> None then Some r
        else do {
          p \<leftarrow> mut_exec_shstrtab_lookup r (sh_name h);
          name \<leftarrow> string_at w p;
          Some (if name = ''.symtab'' then take_slot w (r\<lparr>r_symtab := Some h\<rparr>) else r)
        }
      else if sh_type h = SHT_PROGBITS then do {
        p \<leftarrow> mut_exec_shstrtab_lookup r (sh_name h);
        name \<leftarrow> string_at w p;
        Some (if name = ''.stab'' then
                if r_stabs r \<noteq> None then r else take_slot w (r\<lparr>r_stabs := Some h\<rparr>)
              else if name = ''.plt'' then
                if r_plt r \<noteq> None then r else take_slot w (r\<lparr>r_plt := Some h\<rparr>)
              else r)
      }
      else Some r)"

text \<open>The loop over the headers that are left, at the position of the file.\<close>

fun locate_loop ::
  "nat \<Rightarrow> nat \<Rightarrow> mut_exec_reader \<Rightarrow> 'a log_world_scheme \<Rightarrow>
   ((bool \<times> mut_exec_reader) \<times> 'a log_world_scheme) option" where
  "locate_loop 0 pos r w = Some ((True, r), w)"
| "locate_loop (Suc n) pos r w = do {
     assert_c (r_free r < mut_exec_reader_sections_max);
     case libc_fread pos (e_shentsize (r_header r)) (r_source r) of
       None \<Rightarrow> do {
         let w = io_error (r_source r) w;
         w \<leftarrow> complain (c_errno w) ''io.read'' [LString (r_file_name r)] w;
         Some ((False, r), w)
       }
     | Some bs \<Rightarrow> do {
         bs \<leftarrow> header_fill (r_slot r) bs;
         r \<leftarrow> locate_section (r\<lparr>r_slot := bs\<rparr>) w;
         locate_loop n (pos + unat (e_shentsize (r_header r))) r w
       }
   }"

definition mut_exec_locate_sections ::
  "mut_exec_reader \<Rightarrow> 'a log_world_scheme \<Rightarrow> ((bool \<times> mut_exec_reader) \<times> 'a log_world_scheme) option" where
  "mut_exec_locate_sections r w =
     (case libc_fseek (e_shoff (r_header r)) (r_source r) of
        None \<Rightarrow> do {
          let w = io_error (r_source r) w;
          w \<leftarrow> complain (c_errno w) ''io.seek'' [LString (r_file_name r)] w;
          Some ((False, r), w)
        }
      | Some pos \<Rightarrow> do {
          let r = r\<lparr>r_free := 0, r_slot := indet_header 0 w, r_symtab := None, r_dsymtab := None,
                    r_stabs := None, r_plt := None\<rparr>;
          ((ok, r), w) \<leftarrow> locate_loop (unat (e_shnum (r_header r)) - 1) pos r w;
          if \<not> ok then Some ((False, r), w)
          else if r_dsymtab r \<noteq> None \<or> r_symtab r \<noteq> None then Some ((True, r), w)
          else do {
            w \<leftarrow> complain 0 ''elf.nosymbols'' [LString (r_file_name r)] w;
            Some ((False, r), w)
          }
        })"

section \<open>Symbols\<close>

text \<open>\<open>strstr\<close>: the index of the first occurrence.\<close>

fun strstr :: "string \<Rightarrow> string \<Rightarrow> nat option" where
  "strstr [] sub = (if sub = [] then Some 0 else None)"
| "strstr (c # cs) sub = (if take (length sub) (c # cs) = sub then Some 0 else map_option Suc (strstr cs sub))"

text \<open>The name is cut off in the string table itself.\<close>

definition cut_suffix :: "string option \<Rightarrow> char_ptr \<Rightarrow> 'a libc_scheme \<Rightarrow> 'a libc_scheme option" where
  "cut_suffix suffix n w =
     (case suffix of
        None \<Rightarrow> Some w
      | Some sub \<Rightarrow> do {
          name \<leftarrow> string_at w n;
          case (strstr name sub, n) of
            (Some i, At b off) \<Rightarrow> heap_poke b (off + i) 0 w
          | _ \<Rightarrow> Some w
        })"

text \<open>
  The loop over the symbols: \<open>f\<close> is the number of the next function, from which the address of its
  entry in the procedure linkage table is computed when the symbol has none.
\<close>

fun symbols_loop ::
  "mut_elf_sym list \<Rightarrow> u32 \<Rightarrow> mut_exec_strings \<Rightarrow> string option \<Rightarrow> mut_elf_shdr option \<Rightarrow>
   'a symtab_world_scheme \<Rightarrow> (bool \<times> 'a symtab_world_scheme) option" where
  "symbols_loop [] f strs suffix pl w = Some (True, w)"
| "symbols_loop (s # ss) f strs suffix pl w =
     (if mut_elf_st_type (st_info s) = STT_FUNC then do {
        n \<leftarrow> mut_exec_strtab_lookup strs (st_name s);
        w \<leftarrow> cut_suffix suffix n w;
        let sa = (if st_value s = 0 then (case pl of None \<Rightarrow> 0 | Some h \<Rightarrow> sh_addr h + f * sh_addralign h)
                  else st_value s);
        (ok, w) \<leftarrow> (if sa \<noteq> 0 then mut_exec_symtab_add_fun n sa w else Some (True, w));
        if \<not> ok then Some (False, w) else symbols_loop ss (f + 1) strs suffix pl w
      }
      else symbols_loop ss f strs suffix pl w)"

fun chunks :: "nat \<Rightarrow> nat \<Rightarrow> u8 list \<Rightarrow> u8 list list" where
  "chunks 0 k bs = []"
| "chunks (Suc n) k bs = take k bs # chunks n k (drop k bs)"

definition mut_exec_extract_symbols ::
  "mut_exec_reader \<Rightarrow> mut_elf_shdr \<Rightarrow> mut_exec_strings \<Rightarrow> string option \<Rightarrow> mut_elf_shdr option \<Rightarrow>
   'a symtab_world_scheme \<Rightarrow> (bool \<times> 'a symtab_world_scheme) option" where
  "mut_exec_extract_symbols r sy strs suffix pl w = do {
     let name = LString (r_file_name r);
     assert_c (es_data strs \<noteq> 0);
     if sh_size sy mod sizeof_sym \<noteq> 0
     then do { w \<leftarrow> complain 0 ''elf.sym.size'' [name] w; Some (False, w) }
     else do {
       let n_symbols = sh_size sy div sizeof_sym;
       (symbols, w) \<leftarrow> mut_mem__malloc (sh_size sy) 289 exec_file w;
       if symbols = 0 then do { w \<leftarrow> mut_log_mem_full (c_errno w) w; Some (False, w) }
       else case read_at (sh_offset sy) (sh_size sy) (r_source r) of
         Seek_failed \<Rightarrow> do {
           w \<leftarrow> complain 0 ''io.seek'' [name, LLong (sh_offset sy)] (io_error (r_source r) w);
           w \<leftarrow> mut_mem__free symbols 329 exec_file w;
           Some (False, w)
         }
       | Read_failed \<Rightarrow> do {
           let w = io_error (r_source r) w;
           w \<leftarrow> complain (c_errno w) ''io.read'' [name] w;
           w \<leftarrow> mut_mem__free symbols 329 exec_file w;
           Some (False, w)
         }
       | Got bs \<Rightarrow> do {
           w \<leftarrow> heap_fill symbols bs w;
           (ok, w) \<leftarrow> symbols_loop (map sym_of (chunks (unat n_symbols) 16 bs)) 1 strs suffix pl w;
           if ok then do { w \<leftarrow> mut_mem__free symbols 322 exec_file w; Some (True, w) }
           else do {
             w \<leftarrow> mut_exec_symtab_close w;
             w \<leftarrow> mut_mem__free symbols 329 exec_file w;
             Some (False, w)
           }
         }
     }
   }"

section \<open>Line numbers\<close>

text \<open>The entries and the block that holds them.\<close>

definition mut_exec_extract_stabs ::
  "mut_exec_reader \<Rightarrow> mut_elf_shdr \<Rightarrow> 'a log_world_scheme \<Rightarrow>
   ((ptr \<times> mut_exec_stab list) option \<times> 'a log_world_scheme) option" where
  "mut_exec_extract_stabs r st w =
     (let name = LString (r_file_name r) in
      if sh_entsize st \<noteq> sizeof_stab \<or> sh_size st mod sizeof_stab \<noteq> 0
      then do { w \<leftarrow> complain 0 ''elf.stab.size'' [name] w; Some (None, w) }
      else do {
        let n_stabs = sh_size st div sizeof_stab;
        (stabs, w) \<leftarrow> mut_mem__malloc (sh_size st) 355 exec_file w;
        if stabs = 0 then do { w \<leftarrow> mut_log_mem_full (c_errno w) w; Some (None, w) }
        else case read_at (sh_offset st) (sh_size st) (r_source r) of
          Seek_failed \<Rightarrow> do {
            w \<leftarrow> complain 0 ''io.seek'' [name, LLong (sh_offset st)] (io_error (r_source r) w);
            w \<leftarrow> mut_mem__free stabs 377 exec_file w;
            Some (None, w)
          }
        | Read_failed \<Rightarrow> do {
            let w = io_error (r_source r) w;
            w \<leftarrow> complain (c_errno w) ''io.read'' [name] w;
            w \<leftarrow> mut_mem__free stabs 377 exec_file w;
            Some (None, w)
          }
        | Got bs \<Rightarrow> do {
            w \<leftarrow> heap_fill stabs bs w;
            Some (Some (stabs, map stab_of (chunks (unat n_stabs) 12 bs)), w)
          }
      })"

text \<open>
  An entry for a source file: the current file name afterwards. The last character is looked at even
  when the string is empty, which is outside the table when the string is its first.
\<close>

definition so_entry :: "mut_exec_stab \<Rightarrow> char_ptr \<Rightarrow> 'a exec_world_scheme \<Rightarrow> char_ptr option" where
  "so_entry s fn w =
     (let i = mut_exec_stab_str s in
      if i < es_size (stabstr (exec w)) then do {
        let p = At (es_data (stabstr (exec w))) (unat i);
        x \<leftarrow> string_at w p;
        bs \<leftarrow> c_heap w (es_data (stabstr (exec w)));
        assert_c (unat i + length x \<noteq> 0);
        Some (if bs ! (unat i + length x - 1) = 0x2F then fn else if fn = Null then p else Null)
      }
      else Some fn)"

fun stabs_loop ::
  "mut_exec_stab list \<Rightarrow> u32 \<Rightarrow> char_ptr \<Rightarrow> 'a exec_world_scheme \<Rightarrow> (bool \<times> 'a exec_world_scheme) option" where
  "stabs_loop [] base_addr fn w = Some (True, w)"
| "stabs_loop (s # ss) base_addr fn w =
     (if mut_exec_stab_type s = mut_exec_stab_type_LINE then
        if base_addr = 0 then stabs_loop ss base_addr fn w
        else do {
          (ok, w) \<leftarrow> mut_exec_symtab_add_range (base_addr + stab_value s) (mut_exec_stab_line s) fn w;
          if \<not> ok then Some (False, w) else stabs_loop ss base_addr fn w
        }
      else if mut_exec_stab_type s = mut_exec_stab_type_FUN then stabs_loop ss (stab_value s) fn w
      else if mut_exec_stab_type s = mut_exec_stab_type_SO then do {
        fn \<leftarrow> so_entry s fn w;
        stabs_loop ss base_addr fn w
      }
      else stabs_loop ss base_addr fn w)"

definition mut_exec_extract_debug_info ::
  "mut_exec_reader \<Rightarrow> mut_elf_shdr \<Rightarrow> 'a exec_world_scheme \<Rightarrow> (bool \<times> 'a exec_world_scheme) option" where
  "mut_exec_extract_debug_info r st w = do {
     (x, w) \<leftarrow> mut_exec_extract_stabs r st w;
     case x of
       None \<Rightarrow> Some (False, w)
     | Some (stabs, entries) \<Rightarrow> do {
         (ok, w) \<leftarrow> stabs_loop entries 0 Null w;
         w \<leftarrow> mut_mem__free stabs (if ok then 534 else 538) exec_file w;
         Some (ok, w)
       }
   }"

section \<open>Opening\<close>

definition set_exec :: "(mut_exec \<Rightarrow> mut_exec) \<Rightarrow> 'a exec_world_scheme \<Rightarrow> 'a exec_world_scheme" where
  "set_exec g w = w\<lparr>exec := g (exec w)\<rparr>"

text \<open>The labels of \<open>mut_exec_open\<close>, each of which falls through to the next.\<close>

definition could_not_locate_sections where
  "could_not_locate_sections r w = do { w \<leftarrow> mut_exec_shstrtab_close r w; Some (False, w) }"

definition could_not_open_strtab where
  "could_not_open_strtab r w = do { w \<leftarrow> mut_exec_symtab_close w; could_not_locate_sections r w }"

definition could_not_open_dynstr where
  "could_not_open_dynstr r w = do { w \<leftarrow> mut_exec_strtab_close (strtab (exec w)) w; could_not_open_strtab r w }"

definition could_not_open_stabstr where
  "could_not_open_stabstr r w = do { w \<leftarrow> mut_exec_strtab_close (dynstr (exec w)) w; could_not_open_dynstr r w }"

definition could_not_extract_debug_info where
  "could_not_extract_debug_info r w = do {
     w \<leftarrow> (if r_stabs r \<noteq> None then mut_exec_stabstr_close w else Some w);
     could_not_open_stabstr r w
   }"

text \<open>The three parts that read from the sections found; each goes on with \<open>k\<close> when it succeeds.\<close>

definition open_symtab ::
  "mut_exec_reader \<Rightarrow> string option \<Rightarrow> ('a exec_world_scheme \<Rightarrow> (bool \<times> 'a exec_world_scheme) option) \<Rightarrow>
   'a exec_world_scheme \<Rightarrow> (bool \<times> 'a exec_world_scheme) option" where
  "open_symtab r suffix k w =
     (case r_symtab r of
        None \<Rightarrow> k w
      | Some h \<Rightarrow> do {
          ((ok, strs), w) \<leftarrow> mut_exec_strtab_open r h (strtab (exec w)) w;
          let w = set_exec (\<lambda>e. e\<lparr>strtab := strs\<rparr>) w;
          if \<not> ok then could_not_open_strtab r w
          else do {
            (ok, w) \<leftarrow> mut_exec_extract_symbols r h (strtab (exec w)) suffix None w;
            if \<not> ok then could_not_open_dynstr r w
            else k (set_exec (\<lambda>e. e\<lparr>has_full_symbols := Some True\<rparr>) w)
          }
        })"

definition open_dynsym ::
  "mut_exec_reader \<Rightarrow> string option \<Rightarrow> ('a exec_world_scheme \<Rightarrow> (bool \<times> 'a exec_world_scheme) option) \<Rightarrow>
   'a exec_world_scheme \<Rightarrow> (bool \<times> 'a exec_world_scheme) option" where
  "open_dynsym r suffix k w =
     (case r_dsymtab r of
        None \<Rightarrow> k w
      | Some h \<Rightarrow> do {
          ((ok, strs), w) \<leftarrow> mut_exec_strtab_open r h (dynstr (exec w)) w;
          let w = set_exec (\<lambda>e. e\<lparr>dynstr := strs\<rparr>) w;
          if \<not> ok then could_not_open_dynstr r w
          else do {
            (ok, w) \<leftarrow> mut_exec_extract_symbols r h (dynstr (exec w)) suffix (r_plt r) w;
            if \<not> ok then could_not_open_stabstr r w else k w
          }
        })"

definition open_stabs ::
  "mut_exec_reader \<Rightarrow> ('a exec_world_scheme \<Rightarrow> (bool \<times> 'a exec_world_scheme) option) \<Rightarrow>
   'a exec_world_scheme \<Rightarrow> (bool \<times> 'a exec_world_scheme) option" where
  "open_stabs r k w =
     (case r_stabs r of
        None \<Rightarrow> k (set_exec (\<lambda>e. e\<lparr>stabstr := (stabstr e)\<lparr>es_data := 0\<rparr>\<rparr>) w)
      | Some h \<Rightarrow> do {
          (ok, w) \<leftarrow> mut_exec_stabstr_open r h w;
          if \<not> ok then could_not_open_stabstr r w
          else do {
            (ok, w) \<leftarrow> mut_exec_extract_debug_info r h w;
            if \<not> ok then could_not_extract_debug_info r w else k w
          }
        })"

definition close_source ::
  "mut_exec_reader \<Rightarrow> 'a exec_world_scheme \<Rightarrow> (bool \<times> 'a exec_world_scheme) option" where
  "close_source r w = do {
     w \<leftarrow> (if s_close_fails (r_source r)
           then do { (ok, w) \<leftarrow> log_message Warning ''io.close'' [LString (r_file_name r)] (io_error (r_source r) w); Some w }
           else Some w);
     w \<leftarrow> mut_exec_shstrtab_close r w;
     Some (True, w)
   }"

definition read_sections ::
  "mut_exec_reader \<Rightarrow> string option \<Rightarrow> 'a exec_world_scheme \<Rightarrow> (bool \<times> 'a exec_world_scheme) option" where
  "read_sections r suffix w =
     (let w = mut_exec_symtab_open w;
          w = set_exec (\<lambda>e. e\<lparr>strtab := (strtab e)\<lparr>es_data := 0\<rparr>, dynstr := (dynstr e)\<lparr>es_data := 0\<rparr>\<rparr>) w
      in open_symtab r suffix (open_dynsym r suffix (open_stabs r (close_source r))) w)"

definition mut_exec_open ::
  "source \<Rightarrow> string \<Rightarrow> string option \<Rightarrow> 'a exec_world_scheme \<Rightarrow> (bool \<times> 'a exec_world_scheme) option" where
  "mut_exec_open src file suffix w =
     (if c_fopen_fails w file then do {
        let w = w\<lparr>c_errno := ENOENT\<rparr>;
        w \<leftarrow> complain (c_errno w) ''io.open'' [LString file] w;
        Some (False, w)
      }
      else case libc_fread 0 sizeof_ehdr src of
        None \<Rightarrow> do {
          let w = io_error src w;
          w \<leftarrow> complain (c_errno w) ''io.read'' [LString file] w;
          Some (False, w)
        }
      | Some bs \<Rightarrow>
          let r = \<lparr>r_header = ehdr_of bs, r_slot = [], r_free = 0, r_strings = \<lparr>es_data = 0, es_size = 0\<rparr>,
                   r_dsymtab = None, r_symtab = None, r_stabs = None, r_plt = None, r_source = src, r_file_name = file\<rparr>
          in do {
            (ok, w) \<leftarrow> mut_exec_check_id r w;
            if \<not> ok then Some (False, w)
            else do {
              (ok, w) \<leftarrow> mut_exec_check_class r w;
              if \<not> ok then Some (False, w)
              else do {
                (ok, w) \<leftarrow> mut_exec_check_type r w;
                if \<not> ok then Some (False, w)
                else do {
                  ((ok, r), w) \<leftarrow> mut_exec_shstrtab_open r w;
                  if \<not> ok then Some (False, w)
                  else do {
                    ((ok, r), w) \<leftarrow> mut_exec_locate_sections r w;
                    if \<not> ok then could_not_locate_sections r w
                    else read_sections r suffix w
                  }
                }
              }
            }
          })"

end
