(* ===== verification/MutOpen.thy ===== *)
theory MutOpen
  imports MutElf
begin

text \<open>
  The start of a run, \<open>mut_open\<close> of src/src/mut.c, and the program around it, src/src/ui/tty/mut_ui.c:
  the command line and \<open>main\<close>. The files that can be read are a parameter, from names to sources.
\<close>

section \<open>mut_open\<close>

definition zero_stats :: mut_stats where
  "zero_stats =
     (let s = \<lparr>space = mut_counter_from_uint 0, count = mut_counter_from_uint 0\<rparr>
      in \<lparr>st_now = s, st_total = s, st_max_space = s, st_max_count = s\<rparr>)"

definition mut_open ::
  "source \<Rightarrow> string list \<Rightarrow> u32 \<Rightarrow> string option \<Rightarrow> string option \<Rightarrow> ('p, 'a) mut_world_scheme \<Rightarrow>
   (bool \<times> ('p, 'a) mut_world_scheme) option" where
  "mut_open src argv flags suffix usage_function w =
     try_ok (mut_exec_open src (hd argv) suffix w) fail_c (\<lambda>w.
     try_ok (mut_process_open argv w) (\<lambda>w. do { (ok, w) \<leftarrow> mut_exec_close w; Some (False, w) }) (\<lambda>w. do {
       let w = w\<lparr>m_flags := flags\<rparr>;
       w \<leftarrow> when_c (ctl mut_control_backtrace w) (\<lambda>w. do {
         symbols \<leftarrow> mut_exec_has_backtrace_symbols w;
         if symbols then Some w
         else do {
           let w = w\<lparr>m_flags := m_flags w AND NOT mut_control_backtrace\<rparr>;
           w \<leftarrow> mut_log_info ''backtrace.off'' w;
           end_log w
         }
       }) w;
       let w = w\<lparr>stats := zero_stats, a_root := []\<rparr>;
       try_ok (mut_manage_actions usage_function w)
         (\<lambda>w. do {
           w \<leftarrow> mut_process_close w;
           (ok, w) \<leftarrow> mut_exec_close w;
           Some (False, w)
         })
         (\<lambda>w. Some (True, mut_resources_open (flags AND mut_control_free \<noteq> 0) w))
     }))"

section \<open>The command line\<close>

record mut_ui_arg_info =
  i_argv :: "string list"
  i_log_file_name :: "string option"
  i_mut_name :: "string option"
  i_flags :: u32
  i_undesirable_suffix :: "string option"
  i_usage_function :: "string option"

definition mut_ui_usage :: "'a log_world_scheme \<Rightarrow> 'a log_world_scheme option" where
  "mut_ui_usage w = complain 0 ''args.usage'' [LString ''exec-file-name''] w"

definition or_flags :: "u32 \<Rightarrow> mut_ui_arg_info \<Rightarrow> mut_ui_arg_info" where
  "or_flags f info = info\<lparr>i_flags := i_flags info OR f\<rparr>"

text \<open>An option with a value that is not the first of its argument.\<close>

definition bad_opt ::
  "char \<Rightarrow> string \<Rightarrow> 'a log_world_scheme \<Rightarrow> (mut_ui_arg_info option \<times> 'a log_world_scheme) option" where
  "bad_opt c arg0 w = do { w \<leftarrow> complain 0 ''args.opt'' [LString [c], LString arg0] w; Some (None, w) }"

text \<open>
  The inner loop over one argument: \<open>first\<close> says whether \<open>arg == &argv[0][1]\<close>. The value of an
  option with a value is the rest of the argument.
\<close>

fun option_loop ::
  "string \<Rightarrow> string \<Rightarrow> bool \<Rightarrow> mut_ui_arg_info \<Rightarrow> 'a log_world_scheme \<Rightarrow>
   (mut_ui_arg_info option \<times> 'a log_world_scheme) option" where
  "option_loop arg0 [] first info w = Some (Some info, w)"
| "option_loop arg0 (c # arg) first info w =
     (if c = CHR ''r'' then option_loop arg0 arg False info (snd (mut_mem_report (Some Stderr) w))
      else if c = CHR ''f'' then option_loop arg0 arg False (or_flags mut_control_free info) w
      else if c = CHR ''t'' then option_loop arg0 arg False (or_flags mut_control_trace info) w
      else if c = CHR ''b'' then option_loop arg0 arg False (or_flags mut_control_backtrace info) w
      else if c = CHR ''c'' then option_loop arg0 arg False (or_flags mut_control_check info) w
      else if c = CHR ''s'' then option_loop arg0 arg False (or_flags mut_control_stats info) w
      else if c = CHR ''u'' then option_loop arg0 arg False (or_flags mut_control_usage info) w
      else if c = CHR ''o'' then
        if first then Some (Some (info\<lparr>i_log_file_name := Some arg\<rparr>), w) else bad_opt c arg0 w
      else if c = CHR ''x'' then
        if first then Some (Some (info\<lparr>i_undesirable_suffix := Some arg\<rparr>), w) else bad_opt c arg0 w
      else if c = CHR ''n'' then
        if first then Some (Some (info\<lparr>i_mut_name := Some arg\<rparr>), w) else bad_opt c arg0 w
      else if c = CHR ''U'' then
        if first then Some (Some (info\<lparr>i_usage_function := Some arg\<rparr>), w) else bad_opt c arg0 w
      else if c = CHR ''z'' then option_loop arg0 arg False (or_flags mut_control_zero info) w
      else do { w \<leftarrow> complain 0 ''args.unknown'' [LString arg0] w; Some (None, w) })"

fun options_loop ::
  "mut_ui_arg_info \<Rightarrow> string list \<Rightarrow> 'a log_world_scheme \<Rightarrow>
   (mut_ui_arg_info option \<times> 'a log_world_scheme) option" where
  "options_loop info [] w = do { w \<leftarrow> mut_ui_usage w; Some (None, w) }"
| "options_loop info (a # argv) w =
     (case a of
        [] \<Rightarrow> Some (Some (info\<lparr>i_argv := a # argv\<rparr>), w)
      | c # arg \<Rightarrow>
          if c \<noteq> CHR ''-'' then Some (Some (info\<lparr>i_argv := a # argv\<rparr>), w)
          else do {
            (r, w) \<leftarrow> option_loop a arg True info w;
            case r of None \<Rightarrow> Some (None, w) | Some info \<Rightarrow> options_loop info argv w
          })"

text \<open>The first step over \<open>argv[0]\<close>, the name of the program.\<close>

definition mut_ui_process_args ::
  "mut_ui_arg_info \<Rightarrow> string list \<Rightarrow> 'a log_world_scheme \<Rightarrow>
   (mut_ui_arg_info option \<times> 'a log_world_scheme) option" where
  "mut_ui_process_args info argv w =
     (case argv of [] \<Rightarrow> None | _ # args \<Rightarrow> options_loop info args w)"

section \<open>main\<close>

definition EXIT_SUCCESS :: u32 where "EXIT_SUCCESS = 0"

definition could_not :: "('p, 'a) mut_world_scheme \<Rightarrow> (u32 \<times> ('p, 'a) mut_world_scheme) option" where
  "could_not w = do {
     let (e, w) = mut_log_close w;
     (status, w) \<leftarrow> mut_mem_close w;
     Some (EXIT_FAILURE, w)
   }"

text \<open>
  The \<open>manager\<close> is a variable of \<open>main\<close> without a value: of its fields only \<open>has_full_symbols\<close> can be
  read before it is assigned.
\<close>

definition main ::
  "(string \<Rightarrow> source) \<Rightarrow> string list \<Rightarrow> ('p, 'a) mut_world_scheme \<Rightarrow> (u32 \<times> ('p, 'a) mut_world_scheme) option" where
  "main files argv w = do {
     let w = mut_mem_open (w\<lparr>store := mut_mem_init\<rparr>);
     let w = mut_log_open (hd argv) w;
     let w = set_exec (\<lambda>e. e\<lparr>has_full_symbols := None\<rparr>) w;
     let info = \<lparr>i_argv = [], i_log_file_name = None, i_mut_name = None, i_flags = 0,
                 i_undesirable_suffix = Some ''@@GLIBC_2.0'', i_usage_function = None\<rparr>;
     (r, w) \<leftarrow> mut_ui_process_args info argv w;
     case r of
       None \<Rightarrow> could_not w
     | Some info \<Rightarrow> do {
         w \<leftarrow> (case i_log_file_name info of None \<Rightarrow> Some w | Some f \<Rightarrow> mut_log_file f w);
         let w = (case i_mut_name info of None \<Rightarrow> w | Some n \<Rightarrow> mut_log_prog_name n w);
         (ok, w) \<leftarrow> mut_open (files (hd (i_argv info))) (i_argv info) (i_flags info)
           (i_undesirable_suffix info) (i_usage_function info) w;
         if \<not> ok then could_not w
         else do {
           (ok, w) \<leftarrow> mut_run w;
           if \<not> ok then do { w \<leftarrow> mut_close_on_error w; could_not w }
           else do {
             (ok, w) \<leftarrow> mut_close w;
             if \<not> ok then could_not w
             else do {
               let (e, w) = mut_log_close w;
               (status, w) \<leftarrow> mut_mem_close w;
               Some (EXIT_SUCCESS, w)
             }
           }
         }
       }
   }"

end
