(* ===== verification/MutLoad.thy ===== *)
theory MutLoad
  imports MutElf
begin

text \<open>
  What opening an executable does to the blocks of MUT, on every path through \<open>mut_exec_open\<close>: the
  labels at its end release exactly what has been allocated. \<open>loading\<close> follows the blocks while no
  symbol table is open, \<open>reading\<close> while one is; the rules for one call (\<open>loads\<close>) follow the program.
\<close>

section \<open>The state while an executable is read\<close>

text \<open>Reading changes the heap, the log and the executable with its symbol table.\<close>

definition exec_only :: "'a exec_world_scheme \<Rightarrow> 'a exec_world_scheme \<Rightarrow> bool" where
  "exec_only w w' \<longleftrightarrow>
     w' = w\<lparr>c_heap := c_heap w', c_errno := c_errno w', c_out := c_out w', store := store w',
            the_log := the_log w', symtab := symtab w', exec := exec w'\<rparr>"

lemma exec_only_refl [simp]: "exec_only w w"
  by (simp add: exec_only_def)

lemma exec_only_trans: "exec_only u v \<Longrightarrow> exec_only v w \<Longrightarrow> exec_only u w"
  by (cases u; cases v; cases w) (simp add: exec_only_def)

lemma log_only_exec: "log_only w w' \<Longrightarrow> exec_only w w'"
  by (cases w; cases w') (simp add: exec_only_def log_only_def)

lemma exec_only_update [simp]: "exec_only w (w\<lparr>exec := x\<rparr>)" "exec_only w (w\<lparr>symtab := s\<rparr>)"
  by (simp_all add: exec_only_def)

lemma exec_only_errno [simp]: "exec_only z (w\<lparr>c_errno := e\<rparr>) = exec_only z w"
  by (cases w; cases z) (auto simp: exec_only_def)

text \<open>
  Since the state \<open>z\<close> only this has changed; the blocks in use are \<open>B\<close>, the symbol table is \<open>S\<close> and
  the executable \<open>X\<close>.
\<close>

definition loading ::
  "'a exec_world_scheme \<Rightarrow> ptr set \<Rightarrow> mut_exec_symtab \<Rightarrow> mut_exec \<Rightarrow> 'a exec_world_scheme \<Rightarrow> bool" where
  "loading z B S X w \<longleftrightarrow> exec_only z w \<and> mem_wf w \<and> mem_in_use w = B \<and> symtab w = S \<and> exec w = X"

lemma loading_mem_only:
  assumes "loading z B S X w" and "mem_only w v"
  shows "exec_only z v \<and> symtab v = S \<and> exec v = X"
  using assms exec_only_trans [OF _ log_only_exec [OF mem_only_log_only [OF assms(2)]]] mem_only_exec [OF assms(2)]
  by (simp add: loading_def)

lemma loading_start: "mem_wf w \<Longrightarrow> loading w (mem_in_use w) (symtab w) (exec w) w"
  by (simp add: loading_def)

lemma loading_io:
  assumes "loading z B S X w" and "io_only w v"
  shows "loading z B S X v"
  using assms io_only_mem [OF assms(2)] exec_only_trans log_only_exec [OF io_only_log_only [OF assms(2)]]
    assms(2) by (auto simp: loading_def elim!: io_onlyE)

lemma loading_errno [simp]:
  "loading z B S X (io_error src w) = loading z B S X w" "loading z B S X (w\<lparr>c_errno := e\<rparr>) = loading z B S X w"
  by (simp_all add: loading_def io_error_def mem_in_use_def)

lemma loading_exec: "loading z B S X w \<Longrightarrow> loading z B S Y (w\<lparr>exec := Y\<rparr>)"
  using exec_only_trans [OF _ exec_only_update(1)]
  by (auto simp: loading_def mem_wf_def mem_in_use_def malloc_fresh_def)

lemma loading_set_exec: "loading z B S X w \<Longrightarrow> loading z B S (g X) (set_exec g w)"
  using loading_exec [of z B S X w "g X"] by (simp add: set_exec_def loading_def)

lemma loading_null: "loading z B S X w \<Longrightarrow> 0 \<notin> B"
  using mem_in_use_not_null [of w 0] by (auto simp: loading_def)

subsection \<open>One step\<close>

named_theorems loads

lemma loads_malloc [loads]:
  assumes "loading z B S X w"
    and "\<And>v. loading z B S X v \<Longrightarrow> whenever (k 0 v) Q"
    and "\<And>p v. p \<noteq> 0 \<Longrightarrow> p \<notin> B \<Longrightarrow> loading z (insert p B) S X v \<Longrightarrow> whenever (k p v) Q"
  shows "whenever (mut_mem__malloc n l f w \<bind> (\<lambda>(p, v). k p v)) Q"
proof (cases "mut_mem__malloc n l f w")
  case (Some r)
  obtain p v where r: "r = (p, v)" by fastforce
  then have run: "mut_mem__malloc n l f w = Some (p, v)" using Some by simp
  have wf: "mem_wf w" using assms(1) by (simp add: loading_def)
  have only: "exec_only z v" "symtab v = S" "exec v = X"
    using loading_mem_only [OF assms(1) mem_only_malloc [OF run]] by simp_all
  have "if p = 0 then loading z B S X v else p \<notin> B \<and> loading z (insert p B) S X v"
    using mut_mem__malloc_result [OF wf run] mut_mem__malloc_wf [OF wf run] only assms(1)
    by (auto simp: loading_def)
  then show ?thesis using assms(2,3) Some r by (cases "p = 0") auto
qed simp

lemma loads_free:
  assumes "loading z B S X w" and "p = 0 \<or> p \<in> B" and "\<And>v. loading z (B - {p}) S X v \<Longrightarrow> whenever (k v) Q"
  shows "whenever (mut_mem__free p l f w \<bind> k) Q"
proof -
  obtain v where v: "mut_mem__free p l f w = Some v" "mem_wf v" "mem_in_use v = B - {p}"
    using mut_mem__free_if [of w p l f] assms(1,2) by (auto simp: loading_def)
  have "exec_only z v" "symtab v = S" "exec v = X"
    using loading_mem_only [OF assms(1) mem_only_free [OF v(1)]] by simp_all
  then show ?thesis using assms(3) v by (simp add: loading_def)
qed

lemma loads_free_new [loads]:
  assumes "loading z (insert p B) S X w" and "p \<notin> B" and "\<And>v. loading z B S X v \<Longrightarrow> whenever (k v) Q"
  shows "whenever (mut_mem__free p l f w \<bind> k) Q"
  using assms by (intro loads_free [OF assms(1)]) simp_all

lemma log_arguments_only: "log_arguments as w = Some v \<Longrightarrow> io_only w v"
proof (induction as arbitrary: w)
  case (Cons a as)
  then show ?case by (cases a) (auto split: bind_splits dest!: mut_io_only intro: io_only_trans)
qed simp

lemma log_message_only: "log_message l m as w = Some (r, v) \<Longrightarrow> io_only w v"
  by (auto simp: log_message_def split: bind_splits dest!: log_level_call_only log_arguments_only mut_io_only(13)
      intro: io_only_trans)

lemma complain_only: "complain e m as w = Some v \<Longrightarrow> io_only w v"
  by (auto simp: complain_def split: bind_splits dest: log_message_only)

lemma loads_complain [loads]:
  assumes "loading z B S X w" and "\<And>v. loading z B S X v \<Longrightarrow> whenever (k v) Q"
  shows "whenever (complain e m as w \<bind> k) Q"
  using assms loading_io [OF assms(1) complain_only] by (cases "complain e m as w") auto

lemma loads_message [loads]:
  assumes "loading z B S X w" and "\<And>r v. loading z B S X v \<Longrightarrow> whenever (k r v) Q"
  shows "whenever (log_message l m as w \<bind> (\<lambda>(r, v). k r v)) Q"
  using assms loading_io [OF assms(1) log_message_only] by (cases "log_message l m as w") auto

lemma loads_mem_full [loads]:
  assumes "loading z B S X w" and "\<And>v. loading z B S X v \<Longrightarrow> whenever (k v) Q"
  shows "whenever (mut_log_mem_full e w \<bind> k) Q"
  using assms loading_io [OF assms(1) mut_io_only(2)] by (cases "mut_log_mem_full e w") auto

lemma loading_heap_write:
  assumes "loading z B S X w" and "c_heap w p = Some old" and "length bs = length old"
  shows "loading z B S X (w\<lparr>c_heap := (c_heap w)(p \<mapsto> bs)\<rparr>)"
  using assms mem_wf_heap_write [OF _ assms(2,3)] exec_only_trans [OF _ log_only_exec [OF mem_only_log_only [OF mem_only_update(2)]]]
  by (auto simp: loading_def mem_in_use_def)

lemma loads_fill [loads]:
  assumes "loading z B S X w" and "\<And>v. loading z B S X v \<Longrightarrow> whenever (k v) Q"
  shows "whenever (heap_fill p bs w \<bind> k) Q"
proof (cases "heap_fill p bs w")
  case (Some v)
  then have "loading z B S X v"
    using loading_heap_write [OF assms(1)] by (auto simp: heap_fill_def split: bind_splits)
  then show ?thesis using assms(2) Some by simp
qed simp

lemma loads_poke:
  assumes "loading z B S X w" and "heap_poke p i b w = Some v"
  shows "loading z B S X v"
  using assms(2) loading_heap_write [OF assms(1)] by (auto simp: heap_poke_def split: bind_splits)

lemma loads_if [loads]: "(c \<Longrightarrow> whenever a Q) \<Longrightarrow> (\<not> c \<Longrightarrow> whenever b Q) \<Longrightarrow> whenever (if c then a else b) Q"
  by simp

lemma loads_read [loads]:
  assumes "whenever a Q" and "whenever b Q" and "\<And>bs. whenever (f bs) Q"
  shows "whenever (case read_at off n src of Seek_failed \<Rightarrow> a | Read_failed \<Rightarrow> b | Got bs \<Rightarrow> f bs) Q"
  using assms by (simp split: io_result.split)

lemma loads_header [loads]:
  "(\<And>h. whenever (f h) Q) \<Longrightarrow> whenever (header_fill old bs \<bind> f) Q"
  by (cases "header_fill old bs") auto

section \<open>String tables\<close>

lemma strtab_open_loads:
  assumes "loading z B S X w"
  shows "whenever (mut_exec_strtab_open r h s w) (\<lambda>((ok, strs), v).
    if ok then es_data strs \<noteq> 0 \<and> es_data strs \<notin> B \<and> loading z (insert (es_data strs) B) S X v else loading z B S X v)"
  unfolding mut_exec_strtab_open_def Let_def
  by (insert assms, (rule loads_if loads_read | (rule loads_complain loads_malloc loads_fill loads_free_new, (assumption | simp; fail)) | (simp; fail))+)

lemma stabstr_open_loads:
  assumes "loading z B S X w"
  shows "whenever (mut_exec_stabstr_open r st w) (\<lambda>(ok, v).
    if ok then \<exists>t. es_data t \<noteq> 0 \<and> es_data t \<notin> B \<and> loading z (insert (es_data t) B) S (X\<lparr>stabstr := t\<rparr>) v
    else \<exists>t. loading z B S (X\<lparr>stabstr := t\<rparr>) v)"
proof -
  have X: "loading z B S (X\<lparr>stabstr := stabstr X\<rparr>) v = loading z B S X v" for v by simp
  have step: "loading z C S (X\<lparr>stabstr := t\<rparr>) (v\<lparr>exec := (exec v)\<lparr>stabstr := t\<rparr>\<rparr>)" if "loading z C S X v" for C v t
    using loading_exec [OF that, of "X\<lparr>stabstr := t\<rparr>"] that by (simp add: loading_def)
  let ?Q = "\<lambda>(ok, v). if ok then \<exists>t. es_data t \<noteq> 0 \<and> es_data t \<notin> B \<and> loading z (insert (es_data t) B) S (X\<lparr>stabstr := t\<rparr>) v
    else \<exists>t. loading z B S (X\<lparr>stabstr := t\<rparr>) v"
  have opened: "whenever (Some (True, v)) ?Q"
    if "d \<noteq> 0" "d \<notin> B" "loading z (insert d B) S (X\<lparr>stabstr := \<lparr>es_data = d, es_size = n\<rparr>\<rparr>) v" for d n v
    using that by (simp, intro exI [of _ "\<lparr>es_data = d, es_size = n\<rparr>"]) simp
  show ?thesis
    unfolding mut_exec_stabstr_open_def Let_def
    by (insert assms, (rule loads_if loads_read loads_header
        | (rule loads_complain loads_malloc loads_fill loads_free_new, (assumption | (simp; fail) | (rule step, assumption) | (subst loading_errno, rule step, assumption)))
        | (simp; fail) | (simp, (rule exI)?, erule X [THEN iffD2]) | (simp, blast) | (rule opened, assumption+))+)
qed

lemma shstrtab_open_loads:
  assumes "loading z B S X w"
  shows "whenever (mut_exec_shstrtab_open r w) (\<lambda>((ok, r), v).
    if ok then es_data (r_strings r) \<noteq> 0 \<and> es_data (r_strings r) \<notin> B \<and> loading z (insert (es_data (r_strings r)) B) S X v
    else loading z B S X v)"
  unfolding mut_exec_shstrtab_open_def Let_def
  by (insert assms, (rule loads_if loads_read loads_header
      | (rule loads_complain loads_malloc loads_fill loads_free_new, (assumption | simp; fail)) | (simp; fail))+)

lemma locate_section_strings: "locate_section r w = Some r' \<Longrightarrow> r_strings r' = r_strings r"
  by (auto simp: locate_section_def Let_def take_slot_def split: if_splits bind_splits)

lemma locate_loop_loads:
  "loading z B S X w \<Longrightarrow>
   whenever (locate_loop n pos r w) (\<lambda>((ok, r'), v). loading z B S X v \<and> r_strings r' = r_strings r)"
proof (induction n arbitrary: pos r w)
  case (Suc n)
  have step: "whenever (locate_loop n p r' w) (\<lambda>((ok, r''), v). loading z B S X v \<and> r_strings r'' = r_strings r)"
    if "locate_section (r\<lparr>r_slot := bs\<rparr>) w = Some r'" for p r' bs
    using Suc.IH [OF Suc.prems, of p r'] locate_section_strings [OF that] by simp
  show ?case
    using Suc.prems step by (auto simp: whenever_eq Let_def split: bind_splits option.splits dest!: loading_io [OF _ complain_only, rotated])
qed simp

lemma locate_sections_loads:
  assumes "loading z B S X w"
  shows "whenever (mut_exec_locate_sections r w) (\<lambda>((ok, r'), v). loading z B S X v \<and> r_strings r' = r_strings r)"
proof (cases "libc_fseek (e_shoff (r_header r)) (r_source r)")
  case None
  then show ?thesis
    using assms by (auto simp: mut_exec_locate_sections_def whenever_eq Let_def split: bind_splits dest!: loading_io [OF _ complain_only, rotated])
next
  case (Some pos)
  let ?r = "r\<lparr>r_free := 0, r_slot := indet_header 0 w, r_symtab := None, r_dsymtab := None, r_stabs := None, r_plt := None\<rparr>"
  show ?thesis
    unfolding mut_exec_locate_sections_def Some option.case Let_def
  proof (rule whenever_bind [OF locate_loop_loads [OF assms]], goal_cases)
    case (1 x)
    obtain ok r' v where x: "x = ((ok, r'), v)" by (metis prod.exhaust)
    then have v: "loading z B S X v" "r_strings r' = r_strings r" using 1 by simp_all
    show ?case
      unfolding x prod.case
      by (insert v, (rule loads_if | (rule loads_complain, assumption) | (simp; fail))+)
  qed
qed

section \<open>The state with a symbol table\<close>

abbreviation blocks_of :: "mut_exec_symtab \<Rightarrow> ptr set" where
  "blocks_of S \<equiv> set (symtab_blocks (st_head S))"

definition table_ok :: "mut_exec_symtab \<Rightarrow> bool" where
  "table_ok S \<longleftrightarrow> symtab_sorted S \<and> distinct (symtab_blocks (st_head S))"

text \<open>\<open>reading\<close>: the table is open, and \<open>B\<close> are the other blocks. \<open>closed\<close>: the table has been closed.\<close>

definition reading :: "'a exec_world_scheme \<Rightarrow> ptr set \<Rightarrow> mut_exec \<Rightarrow> 'a exec_world_scheme \<Rightarrow> bool" where
  "reading z B X w \<longleftrightarrow> (\<exists>S. table_ok S \<and> B \<inter> blocks_of S = {} \<and> loading z (B \<union> blocks_of S) S X w)"

definition closed :: "'a exec_world_scheme \<Rightarrow> ptr set \<Rightarrow> mut_exec \<Rightarrow> 'a exec_world_scheme \<Rightarrow> bool" where
  "closed z B X w \<longleftrightarrow> (\<exists>S. B \<inter> blocks_of S = {} \<and> 0 \<notin> blocks_of S \<and> loading z B S X w)"

lemma readingI:
  "table_ok S \<Longrightarrow> B \<inter> blocks_of S = {} \<Longrightarrow> loading z C S X w \<Longrightarrow> C = B \<union> blocks_of S \<Longrightarrow> reading z B X w"
  unfolding reading_def by blast

lemma readingE:
  assumes "reading z B X w"
  obtains S where "table_ok S" "B \<inter> blocks_of S = {}" "loading z (B \<union> blocks_of S) S X w"
  using assms by (auto simp: reading_def)

lemma reading_ok: "reading z B X w \<Longrightarrow> symtab_ok w"
  by (auto simp: reading_def table_ok_def symtab_ok_def symtab_owned_iff loading_def)

lemma reading_io: "reading z B X w \<Longrightarrow> io_only w v \<Longrightarrow> reading z B X v"
  unfolding reading_def by (blast intro: loading_io)

lemma reading_errno [simp]:
  "reading z B X (io_error src w) = reading z B X w" "reading z B X (w\<lparr>c_errno := e\<rparr>) = reading z B X w"
  by (simp_all add: reading_def)

lemma reading_set_exec: "reading z B X w \<Longrightarrow> reading z B (g X) (set_exec g w)"
  unfolding reading_def by (blast intro: loading_set_exec)

lemma reads_malloc [loads]:
  assumes "reading z B X w"
    and "\<And>v. reading z B X v \<Longrightarrow> whenever (k 0 v) Q"
    and "\<And>p v. p \<noteq> 0 \<Longrightarrow> p \<notin> B \<Longrightarrow> reading z (insert p B) X v \<Longrightarrow> whenever (k p v) Q"
  shows "whenever (mut_mem__malloc n l f w \<bind> (\<lambda>(p, v). k p v)) Q"
proof -
  obtain S where S: "table_ok S" "B \<inter> blocks_of S = {}" "loading z (B \<union> blocks_of S) S X w"
    using assms(1) by (rule readingE)
  show ?thesis
  proof (rule loads_malloc [OF S(3)])
    fix v assume "loading z (B \<union> blocks_of S) S X v"
    then show "whenever (k 0 v) Q" using assms(2) S by (auto simp: reading_def)
  next
    fix p v assume p: "p \<noteq> 0" "p \<notin> B \<union> blocks_of S" "loading z (insert p (B \<union> blocks_of S)) S X v"
    then have "reading z (insert p B) X v" using S by (auto simp: reading_def)
    then show "whenever (k p v) Q" using assms(3) p by auto
  qed
qed

lemma reading_free:
  assumes "reading z B X w" and "p = 0 \<or> p \<in> B"
  shows "\<exists>v. mut_mem__free p l f w = Some v \<and> reading z (B - {p}) X v"
proof -
  obtain S where S: "table_ok S" "B \<inter> blocks_of S = {}" "loading z (B \<union> blocks_of S) S X w"
    using assms(1) by (rule readingE)
  have n: "p \<notin> blocks_of S" using assms(2) S(2) loading_null [OF S(3)] by auto
  have "whenever (mut_mem__free p l f w \<bind> Some) (loading z (B \<union> blocks_of S - {p}) S X)"
    by (rule loads_free [OF S(3)]) (use assms(2) in auto)
  moreover obtain v where v: "mut_mem__free p l f w = Some v"
    using mut_mem__free_if [of w p l f] S(3) assms(2) by (auto simp: loading_def)
  moreover have "B \<union> blocks_of S - {p} = B - {p} \<union> blocks_of S" using n by auto
  ultimately show ?thesis using S by (auto simp: reading_def)
qed

lemma closed_free:
  assumes "closed z B X w" and "p = 0 \<or> p \<in> B"
  shows "\<exists>v. mut_mem__free p l f w = Some v \<and> closed z (B - {p}) X v"
proof -
  obtain S where S: "B \<inter> blocks_of S = {}" "0 \<notin> blocks_of S" "loading z B S X w"
    using assms(1) by (auto simp: closed_def)
  have "whenever (mut_mem__free p l f w \<bind> Some) (loading z (B - {p}) S X)"
    by (rule loads_free [OF S(3) assms(2)]) simp
  moreover obtain v where v: "mut_mem__free p l f w = Some v"
    using mut_mem__free_if [of w p l f] S(3) assms(2) by (auto simp: loading_def)
  ultimately show ?thesis using S by (auto simp: closed_def)
qed

subsection \<open>The symbol table\<close>

lemma reading_grow:
  assumes r: "reading z B X w" and m: "mut_mem__malloc n l f w = Some (p, v)" and "p \<noteq> 0"
    and s: "symtab_sorted s" "mset (symtab_blocks (st_head s)) = add_mset p (mset (symtab_blocks (st_head (symtab w))))"
  shows "reading z B X (v\<lparr>symtab := s\<rparr>)"
proof -
  obtain S where S: "table_ok S" "B \<inter> blocks_of S = {}" "loading z (B \<union> blocks_of S) S X w"
    using r by (rule readingE)
  have "whenever (mut_mem__malloc n l f w \<bind> (\<lambda>(p, v). Some (p, v)))
      (\<lambda>(p, v). p \<noteq> 0 \<longrightarrow> p \<notin> B \<union> blocks_of S \<and> loading z (insert p (B \<union> blocks_of S)) S X v)"
    by (rule loads_malloc [OF S(3)]) simp_all
  then have p: "p \<notin> B" "p \<notin> blocks_of S" and v: "loading z (insert p (B \<union> blocks_of S)) S X v"
    using m assms(3) by auto
  have sw: "symtab w = S" using S(3) by (simp add: loading_def)
  have b: "blocks_of s = insert p (blocks_of S)" using s(2) sw by (metis set_mset_add_mset_insert set_mset_mset)
  have "distinct (p # symtab_blocks (st_head S))" using p(2) S(1) by (simp add: table_ok_def)
  then have "distinct (symtab_blocks (st_head s))"
    using s(2) sw mset_eq_imp_distinct_iff [of "p # symtab_blocks (st_head S)"] by simp
  moreover have "loading z (insert p (B \<union> blocks_of S)) s X (v\<lparr>symtab := s\<rparr>)"
    using v exec_only_trans [OF _ exec_only_update(2)] by (auto simp: loading_def)
  ultimately show ?thesis using s(1) S(2) p b by (intro readingI [of s]) (auto simp: table_ok_def)
qed

lemma reading_no_memory:
  assumes "reading z B X w" and "mut_mem__malloc n l f w = Some (0, v)"
  shows "reading z B X v"
proof -
  have "whenever (mut_mem__malloc n l f w \<bind> (\<lambda>(p, v). Some (p, v))) (\<lambda>(p, v). p = 0 \<longrightarrow> reading z B X v)"
    by (rule reads_malloc [OF assms(1)]) simp_all
  then show ?thesis using assms(2) by simp
qed

lemma reading_add_fun:
  assumes r: "reading z B X w" and run: "mut_exec_symtab_add_fun n a w = Some (ok, w')"
  shows "reading z B X w'"
proof (cases "symtab_place a (st_head (symtab w))")
  case None
  with run r show ?thesis by (simp add: mut_exec_symtab_add_fun_def)
next
  case (Some pl)
  obtain xs ys where pl: "pl = (xs, ys)" by fastforce
  have sorted: "symtab_sorted (symtab w)" "symtab_sorted (symtab w')"
    using reading_ok [OF r] mut_exec_symtab_add_fun_result [OF _ run] by (auto simp: symtab_ok_def)
  have d: "st_head (symtab w) = xs @ ys"
    using symtab_place_Some [of a "st_head (symtab w)" xs ys] Some pl sorted(1) by (auto simp: symtab_sorted_def)
  obtain p v where m: "mut_mem__malloc sizeof_mut_exec_symtab_fun 49 symtab_file w = Some (p, v)"
    using run Some pl by (auto simp: mut_exec_symtab_add_fun_def mut_exec_symtab_fun_open_def split: bind_splits)
  show ?thesis
  proof (cases "p = 0")
    case True
    then have "symtab_mem_full v = Some w'"
      using run Some pl m by (auto simp: mut_exec_symtab_add_fun_def mut_exec_symtab_fun_open_def split: bind_splits)
    with True m show ?thesis using reading_io [OF reading_no_memory [OF r]] symtab_mem_full_frame by blast
  next
    case False
    then obtain f where f: "w' = v\<lparr>symtab := (symtab v)\<lparr>st_head := xs @ f # ys\<rparr>\<rparr>" "sf_self f = p" "fun_lines f = []"
      using run Some pl m by (auto simp: mut_exec_symtab_add_fun_def mut_exec_symtab_fun_open_def)
    have "symtab_sorted ((symtab v)\<lparr>st_head := xs @ f # ys\<rparr>)" using sorted(2) f(1) by simp
    with f d show ?thesis using reading_grow [OF r m False] by simp
  qed
qed

lemma reading_table:
  assumes "reading z B X w" and "symtab_sorted s" and "symtab_blocks (st_head s) = symtab_blocks (st_head (symtab w))"
  shows "reading z B X (w\<lparr>symtab := s\<rparr>)"
proof -
  obtain S where S: "table_ok S" "B \<inter> blocks_of S = {}" "loading z (B \<union> blocks_of S) S X w"
    using assms(1) by (rule readingE)
  have "symtab w = S" using S(3) by (simp add: loading_def)
  moreover have "loading z (B \<union> blocks_of S) s X (w\<lparr>symtab := s\<rparr>)"
    using S(3) exec_only_trans [OF _ exec_only_update(2)] by (auto simp: loading_def)
  ultimately show ?thesis using assms(2,3) S by (intro readingI [of s]) (simp_all add: table_ok_def)
qed

lemma reading_add_xxx:
  assumes r: "reading z B X w" and run: "mut_exec_symtab_add_xxx a l w = Some (ok, w')"
    and c: "st_cache (symtab w) \<in> sf_self ` set (st_head (symtab w))"
  shows "reading z B X w'"
proof -
  have sorted: "symtab_sorted (symtab w)" "symtab_sorted (symtab w')"
    using reading_ok [OF r] mut_exec_symtab_add_xxx_sorted [OF _ run] by (auto simp: symtab_ok_def)
  have dist: "distinct (symtab_blocks (st_head (symtab w)))"
    using reading_ok [OF r] by (simp add: symtab_ok_def symtab_owned_iff)
  obtain p v where m: "mut_mem__malloc sizeof_mut_exec_symtab_fun_line 91 symtab_file w = Some (p, v)"
    using run by (auto simp: mut_exec_symtab_add_xxx_def mut_exec_symtab_fun_line_open_def split: bind_splits)
  have sv: "symtab v = symtab w" using mem_only_symtab [OF mem_only_malloc [OF m]] .
  show ?thesis
  proof (cases "p = 0")
    case True
    then have "symtab_mem_full v = Some w'"
      using run m by (auto simp: mut_exec_symtab_add_xxx_def mut_exec_symtab_fun_line_open_def split: bind_splits)
    with True m show ?thesis using reading_io [OF reading_no_memory [OF r]] symtab_mem_full_frame by blast
  next
    case False
    then obtain n where n: "w' = v\<lparr>symtab := symtab_assign (st_cache (symtab w))
         (\<lambda>f. f\<lparr>fun_lines := symtab_insert_line n (fun_lines f)\<rparr>) (symtab w)\<rparr>" "fl_self n = p"
      using run m sv by (auto simp: mut_exec_symtab_add_xxx_def mut_exec_symtab_fun_line_open_def)
    have "mset (symtab_blocks (st_head (symtab w'))) = add_mset p (mset (symtab_blocks (st_head (symtab w))))"
      using symtab_blocks_insert_line [OF dist c, of n] n by (simp add: symtab_assign_def)
    then show ?thesis using reading_grow [OF r m False] sorted(2) n(1) by simp
  qed
qed

lemma reading_add_range:
  assumes r: "reading z B X w" and run: "mut_exec_symtab_add_range a l fn w = Some (ok, w')"
  shows "reading z B X w'"
proof (cases "symtab_find a (st_head (symtab w))")
  case None
  then have "io_only w w'"
    using run by (auto simp: mut_exec_symtab_add_range_def split: bind_splits dest!: mut_io_only intro: io_only_trans)
  then show ?thesis using reading_io [OF r] by blast
next
  case (Some q)
  obtain f g where q: "q = (f, g)" by fastforce
  define t where "t = symtab_assign (sf_self f) (\<lambda>f. f\<lparr>fun_file_name := fn\<rparr>)
     ((symtab w)\<lparr>st_end := (case g of None \<Rightarrow> st_end (symtab w) | Some g \<Rightarrow> fun_start_addr g), st_cache := sf_self f\<rparr>)"
  have x: "mut_exec_symtab_add_xxx a l (w\<lparr>symtab := t\<rparr>) = Some (ok, w')"
    using run Some q by (simp add: mut_exec_symtab_add_range_def Let_def t_def)
  have "symtab_sorted (symtab w)" using reading_ok [OF r] by (simp add: symtab_ok_def)
  then have "symtab_sorted t" unfolding t_def by (intro symtab_assign_sorted) simp_all
  then have rt: "reading z B X (w\<lparr>symtab := t\<rparr>)"
    using reading_table [OF r, of t] by (simp add: t_def symtab_assign_def symtab_blocks_file_name)
  have "f \<in> set (st_head (symtab w))" using Some q symtab_find_in by blast
  moreover have "map sf_self (st_head t) = map sf_self (st_head (symtab w))" by (simp add: t_def symtab_assign_def)
  ultimately have "sf_self f \<in> sf_self ` set (st_head t)" by (metis image_eqI list.set_map)
  then show ?thesis using reading_add_xxx [OF rt x] by (simp add: t_def symtab_assign_def)
qed

lemma mem_only_symtab_close: "mut_exec_symtab_close w = Some v \<Longrightarrow> mem_only w v"
proof -
  have lines: "symtab_close_lines fls w = Some v \<Longrightarrow> mem_only w v" for fls and w v :: "'a symtab_world_scheme"
    by (induction fls arbitrary: w) (auto split: bind_splits dest!: mem_only_free intro: mem_only_trans)
  have "symtab_close_funs fs w = Some v \<Longrightarrow> mem_only w v" for fs and w v :: "'a symtab_world_scheme"
    by (induction fs arbitrary: w) (auto split: bind_splits dest!: mem_only_free lines intro: mem_only_trans)
  then show "mut_exec_symtab_close w = Some v \<Longrightarrow> mem_only w v" unfolding mut_exec_symtab_close_def .
qed

lemma reading_close:
  assumes r: "reading z B X w"
  shows "\<exists>v. mut_exec_symtab_close w = Some v \<and> closed z B X v"
proof -
  obtain S where S: "table_ok S" "B \<inter> blocks_of S = {}" "loading z (B \<union> blocks_of S) S X w"
    using r by (rule readingE)
  have own: "mem_wf w" "symtab_owned w" "symtab w = S" using reading_ok [OF r] S(3) by (auto simp: symtab_ok_def loading_def)
  obtain v where v: "mut_exec_symtab_close w = Some v" "mem_wf v"
     "mem_in_use v = mem_in_use w - blocks_of S"
    using mut_exec_symtab_close_result [OF own(1,2)] own(3) by (auto simp: symtab_sites_blocks simp flip: list.set_map)
  have "mem_in_use v = B" using v(3) S(2,3) by (auto simp: loading_def)
  then have "loading z B S X v"
    using v(2) loading_mem_only [OF S(3) mem_only_symtab_close [OF v(1)]] by (simp add: loading_def)
  moreover have "0 \<notin> blocks_of S" using loading_null [OF S(3)] by simp
  ultimately show ?thesis using v(1) S(2) by (auto simp: closed_def)
qed

text \<open>A second close aborts, unless there is nothing to release.\<close>

lemma closed_close:
  assumes c: "closed z B X w" and run: "mut_exec_symtab_close w = Some v"
  shows "closed z B X v"
proof -
  obtain S where S: "B \<inter> blocks_of S = {}" "0 \<notin> blocks_of S" "loading z B S X w"
    using c by (auto simp: closed_def)
  have st: "symtab w = S" "mem_in_use w = B" using S(3) by (simp_all add: loading_def)
  have run': "mut_mem.release_all (symtab_sites S) w = Some v"
    using run st by (simp add: mut_exec_symtab_close_def symtab_close_funs_release symtab_sites_def)
  have sites: "snd ` set (symtab_sites S) = blocks_of S"
    by (metis list.set_map symtab_sites_blocks)
  show ?thesis
  proof (cases "symtab_sites S")
    case Nil
    then show ?thesis using run' c by simp
  next
    case (Cons x xs)
    then have "snd x \<in> blocks_of S" using sites by (metis image_eqI list.set_intros(1))
    then have "mem_free_at (fst x) (snd x) w = None"
      using mut_mem.release_other [of "snd x" w "fst x"] S(1,2) st by (metis disjoint_iff)
    then show ?thesis using run' Cons by simp
  qed
qed

section \<open>Symbols and line numbers\<close>

lemma reads_complain [loads]:
  assumes "reading z B X w" and "\<And>v. reading z B X v \<Longrightarrow> whenever (k v) Q"
  shows "whenever (complain e m as w \<bind> k) Q"
  using assms reading_io [OF assms(1) complain_only] by (cases "complain e m as w") auto

lemma reads_message [loads]:
  assumes "reading z B X w" and "\<And>r v. reading z B X v \<Longrightarrow> whenever (k r v) Q"
  shows "whenever (log_message l m as w \<bind> (\<lambda>(r, v). k r v)) Q"
  using assms reading_io [OF assms(1) log_message_only] by (cases "log_message l m as w") auto

lemma reads_mem_full [loads]:
  assumes "reading z B X w" and "\<And>v. reading z B X v \<Longrightarrow> whenever (k v) Q"
  shows "whenever (mut_log_mem_full e w \<bind> k) Q"
  using assms reading_io [OF assms(1) mut_io_only(2)] by (cases "mut_log_mem_full e w") auto

lemma reads_free_new [loads]:
  assumes "reading z (insert p B) X w" and "p \<notin> B" and "\<And>v. reading z B X v \<Longrightarrow> whenever (k v) Q"
  shows "whenever (mut_mem__free p l f w \<bind> k) Q"
  using reading_free [OF assms(1), of p l f] assms(2,3) by auto

lemma reading_fill: "reading z B X w \<Longrightarrow> heap_fill p bs w = Some v \<Longrightarrow> reading z B X v"
proof -
  assume r: "reading z B X w" and f: "heap_fill p bs w = Some v"
  from r obtain S where S: "table_ok S" "B \<inter> blocks_of S = {}" "loading z (B \<union> blocks_of S) S X w" by (rule readingE)
  have "whenever (heap_fill p bs w \<bind> Some) (loading z (B \<union> blocks_of S) S X)"
    by (rule loads_fill [OF S(3)]) simp
  then show "reading z B X v" using f S by (intro readingI [of S]) simp_all
qed

lemma reads_fill [loads]:
  assumes "reading z B X w" and "\<And>v. reading z B X v \<Longrightarrow> whenever (k v) Q"
  shows "whenever (heap_fill p bs w \<bind> k) Q"
  using assms reading_fill [OF assms(1)] by (cases "heap_fill p bs w") auto

lemma reading_poke: "reading z B X w \<Longrightarrow> heap_poke p i b w = Some v \<Longrightarrow> reading z B X v"
  by (elim readingE) (rule readingI, assumption+, rule loads_poke, assumption+, rule refl)

lemma reading_cut_suffix: "reading z B X w \<Longrightarrow> cut_suffix suffix n w = Some v \<Longrightarrow> reading z B X v"
  by (auto simp: cut_suffix_def split: option.splits bind_splits char_ptr.splits intro: reading_poke)

lemma reading_symbols_loop:
  "reading z B X w \<Longrightarrow> symbols_loop ss f strs suffix pl w = Some (ok, v) \<Longrightarrow> reading z B X v"
proof (induction ss arbitrary: f w)
  case (Cons s ss)
  show ?case
  proof (cases "mut_elf_st_type (st_info s) = STT_FUNC")
    case True
    with Cons.prems(2) obtain n u sa ok' u' where "cut_suffix suffix n w = Some u"
      and a: "(if sa \<noteq> 0 then mut_exec_symtab_add_fun n sa u else Some (True, u)) = Some (ok', u')"
      and rest: "(if \<not> ok' then Some (False, u') else symbols_loop ss (f + 1) strs suffix pl u') = Some (ok, v)"
      by (auto simp: Let_def split: bind_splits)
    then have "reading z B X u" using Cons.prems(1) reading_cut_suffix by blast
    then have "reading z B X u'" using a reading_add_fun by (auto split: if_splits)
    then show ?thesis using rest Cons.IH by (auto split: if_splits)
  next
    case False
    with Cons show ?thesis by simp
  qed
qed simp

definition undone :: "'a exec_world_scheme \<Rightarrow> ptr set \<Rightarrow> mut_exec \<Rightarrow> 'a exec_world_scheme \<Rightarrow> bool" where
  "undone z B X w \<longleftrightarrow> reading z B X w \<or> closed z B X w"

lemma undone_free:
  assumes "undone z B X w" and "p = 0 \<or> p \<in> B"
  shows "\<exists>v. mut_mem__free p l f w = Some v \<and> undone z (B - {p}) X v"
  using assms(1) reading_free [OF _ assms(2), of z X w l f] closed_free [OF _ assms(2), of z X w l f]
  by (auto simp: undone_def)

lemma undone_reading: "reading z B X w \<Longrightarrow> undone z B X w"
  by (simp add: undone_def)

lemma undone_free_new:
  assumes "undone z (insert p B) X w" and "p \<notin> B" and "\<And>v. undone z B X v \<Longrightarrow> whenever (k v) Q"
  shows "whenever (mut_mem__free p l f w \<bind> k) Q"
  using undone_free [OF assms(1), of p l f] assms(2,3) by auto

lemma undone_close:
  assumes "undone z B X w" and "mut_exec_symtab_close w = Some v"
  shows "closed z B X v"
  using assms reading_close [of z B X w] closed_close [of z B X w v] by (auto simp: undone_def)

lemma extract_symbols_reads:
  assumes "reading z B X w"
  shows "whenever (mut_exec_extract_symbols r sy strs suffix pl w)
    (\<lambda>(ok, v). if ok then reading z B X v else undone z B X v)"
proof -
  have assert: "whenever (f u) Q \<Longrightarrow> whenever (assert_c c \<bind> (\<lambda>u. f u)) Q"
    for c and u :: unit and f :: "unit \<Rightarrow> (bool \<times> 'a exec_world_scheme) option" and Q
    by (cases c) (simp_all add: assert_c_def)
  have loop: "whenever (symbols_loop ss n strs suffix pl u \<bind> (\<lambda>(ok, w).
        if ok then do { w \<leftarrow> mut_mem__free p l1 f1 w; Some (True, w) }
        else do { w \<leftarrow> mut_exec_symtab_close w; w \<leftarrow> mut_mem__free p l2 f2 w; Some (False, w) }))
      (\<lambda>(ok, v). if ok then reading z B X v else undone z B X v)"
    if "p \<notin> B" "reading z (insert p B) X u" for p u ss n l1 f1 l2 f2
  proof (cases "symbols_loop ss n strs suffix pl u")
    case (Some x)
    obtain ok v where x: "x = (ok, v)" by fastforce
    have v: "reading z (insert p B) X v" using reading_symbols_loop that(2) Some x by blast
    show ?thesis
    proof (cases ok)
      case True
      have "whenever (mut_mem__free p l1 f1 v \<bind> (\<lambda>w. Some (True, w)))
          (\<lambda>(ok, v). if ok then reading z B X v else undone z B X v)"
        by (rule reads_free_new [OF v that(1)]) simp
      then show ?thesis using True Some x by simp
    next
      case False
      obtain u where u: "mut_exec_symtab_close v = Some u" "closed z (insert p B) X u"
        using reading_close [OF v] by blast
      then have "undone z (insert p B) X u" by (simp add: undone_def)
      then have "whenever (mut_mem__free p l2 f2 u \<bind> (\<lambda>w. Some (False, w)))
          (\<lambda>(ok, v). if ok then reading z B X v else undone z B X v)"
        by (rule undone_free_new [OF _ that(1)]) simp
      then show ?thesis using False Some x u(1) by simp
    qed
  qed simp
  show ?thesis
    unfolding mut_exec_extract_symbols_def Let_def
    by (insert assms, (rule assert loads_if loads_read
        | (rule loop, assumption, assumption)
        | (rule reads_complain reads_malloc reads_fill reads_mem_full reads_free_new, (assumption | (simp; fail)))
        | (simp add: undone_def; fail))+)
qed

lemma reading_stabs_loop:
  "reading z B X w \<Longrightarrow> stabs_loop ss a fn w = Some (ok, v) \<Longrightarrow> reading z B X v"
proof (induction ss arbitrary: a fn w)
  case (Cons s ss)
  then show ?case by (auto split: bind_splits if_splits dest: reading_add_range)
qed simp

lemma extract_stabs_reads:
  assumes "reading z B X w"
  shows "whenever (mut_exec_extract_stabs r st w)
    (\<lambda>(x, v). case x of None \<Rightarrow> reading z B X v | Some (p, ss) \<Rightarrow> p \<notin> B \<and> reading z (insert p B) X v)"
  unfolding mut_exec_extract_stabs_def Let_def
  by (insert assms, (rule loads_if loads_read
      | (rule reads_complain reads_malloc reads_fill reads_mem_full reads_free_new, (assumption | (simp; fail)))
      | (simp; fail))+)

lemma extract_debug_info_reads:
  assumes "reading z B X w"
  shows "whenever (mut_exec_extract_debug_info r st w) (\<lambda>(ok, v). reading z B X v)"
  unfolding mut_exec_extract_debug_info_def
proof (rule whenever_bind [OF extract_stabs_reads [OF assms]], goal_cases)
  case (1 x)
  obtain y u where x: "x = (y, u)" by fastforce
  show ?case
  proof (cases y)
    case None
    then show ?thesis using 1 x by simp
  next
    case (Some q)
    obtain p ss where q: "q = (p, ss)" by fastforce
    have u: "p \<notin> B" "reading z (insert p B) X u" using 1 x Some q by simp_all
    have "whenever (mut_mem__free p l f v \<bind> (\<lambda>w. Some (ok, w))) (\<lambda>(ok, v). reading z B X v)"
      if "stabs_loop ss 0 Null u = Some (ok, v)" for ok v l f
      by (rule reads_free_new [OF reading_stabs_loop [OF u(2) that] u(1)]) simp
    then show ?thesis using x Some q by (cases "stabs_loop ss 0 Null u") auto
  qed
qed

section \<open>All or nothing\<close>

lemma reading_new:
  assumes "table_ok S" and "B \<inter> blocks_of S = {}" and "loading z (insert p (B \<union> blocks_of S)) S Y v" and "p \<notin> blocks_of S"
  shows "reading z (insert p B) Y v"
  using assms by (intro readingI [of S]) auto

lemma strtab_open_reads:
  assumes "reading z B X w"
  shows "whenever (mut_exec_strtab_open r h s w) (\<lambda>((ok, strs), v).
    if ok then es_data strs \<noteq> 0 \<and> es_data strs \<notin> B \<and> reading z (insert (es_data strs) B) X v else reading z B X v)"
proof -
  obtain S where S: "table_ok S" "B \<inter> blocks_of S = {}" "loading z (B \<union> blocks_of S) S X w"
    using assms by (rule readingE)
  show ?thesis
    by (rule whenever_mono [OF strtab_open_loads [OF S(3)]])
      (auto split: if_splits intro: reading_new [OF S(1,2)] readingI [OF S(1,2)])
qed

lemma stabstr_open_reads:
  assumes "reading z B X w"
  shows "whenever (mut_exec_stabstr_open r st w) (\<lambda>(ok, v).
    if ok then \<exists>t. es_data t \<noteq> 0 \<and> es_data t \<notin> B \<and> reading z (insert (es_data t) B) (X\<lparr>stabstr := t\<rparr>) v
    else \<exists>t. reading z B (X\<lparr>stabstr := t\<rparr>) v)"
proof -
  obtain S where S: "table_ok S" "B \<inter> blocks_of S = {}" "loading z (B \<union> blocks_of S) S X w"
    using assms by (rule readingE)
  show ?thesis
  proof (rule whenever_mono [OF stabstr_open_loads [OF S(3)]], goal_cases)
    case (1 x)
    obtain ok v where x: "x = (ok, v)" by fastforce
    show ?case
    proof (cases ok)
      case True
      with 1 x obtain t where t: "es_data t \<noteq> 0" "es_data t \<notin> B" "es_data t \<notin> blocks_of S"
        "loading z (insert (es_data t) (B \<union> blocks_of S)) S (X\<lparr>stabstr := t\<rparr>) v" by auto
      with reading_new [OF S(1,2) t(4,3)] True x show ?thesis by auto
    next
      case False
      with 1 x obtain t where t: "loading z (B \<union> blocks_of S) S (X\<lparr>stabstr := t\<rparr>) v" by auto
      with readingI [OF S(1,2) t] False x show ?thesis by auto
    qed
  qed
qed

text \<open>
  Since the state \<open>z\<close>: the names of the sections are in \<open>d\<close> and the string tables in \<open>ps\<close>, where 0 stands for
  a table that is not there.
\<close>

definition holds where
  "holds P z d ps X w \<longleftrightarrow> d \<noteq> 0 \<and> d \<notin> mem_in_use z \<and> distinct (filter (\<lambda>p. p \<noteq> 0) ps) \<and>
     (set ps - {0}) \<inter> insert d (mem_in_use z) = {} \<and> P z (insert d (mem_in_use z) \<union> (set ps - {0})) X w"

text \<open>Back where it was, and open.\<close>

definition restored :: "'a exec_world_scheme \<Rightarrow> 'a exec_world_scheme \<Rightarrow> bool" where
  "restored z v \<longleftrightarrow> exec_only z v \<and> mem_wf v \<and> mem_in_use v = mem_in_use z"

definition opened :: "'a exec_world_scheme \<Rightarrow> 'a exec_world_scheme \<Rightarrow> bool" where
  "opened z v \<longleftrightarrow> exec_only z v \<and> mem_wf v \<and> symtab_sorted (symtab v) \<and> exec_owned v \<and>
     mem_in_use z \<inter> exec_blocks v = {} \<and> mem_in_use v = mem_in_use z \<union> exec_blocks v"

lemma holds_undone: "holds reading z d ps X w \<Longrightarrow> holds undone z d ps X w"
  unfolding holds_def undone_def by blast

lemma holds_exec: "holds undone z d ps X w \<Longrightarrow> exec w = X"
  by (auto simp: holds_def undone_def reading_def closed_def loading_def)

lemma holds_free:
  assumes "holds undone z d (p # ps) X w"
  shows "\<exists>v. mut_mem__free p l f w = Some v \<and> holds undone z d ps X v"
proof -
  let ?B = "insert d (mem_in_use z) \<union> (set (p # ps) - {0})"
  have h: "undone z ?B X w" "p = 0 \<or> p \<in> ?B" using assms by (auto simp: holds_def)
  have "p \<noteq> 0 \<Longrightarrow> p \<notin> insert d (mem_in_use z) \<and> p \<notin> set ps" using assms by (auto simp: holds_def)
  moreover have "0 \<notin> ?B" using h(1) loading_null by (fastforce simp: undone_def reading_def closed_def)
  ultimately have "?B - {p} = insert d (mem_in_use z) \<union> (set ps - {0})" by auto
  then show ?thesis using undone_free [OF h, of l f] assms by (auto simp: holds_def split: if_splits)
qed

lemma sections_back:
  assumes "loading z (insert (es_data (r_strings r)) (mem_in_use z)) S X w" and "es_data (r_strings r) \<notin> mem_in_use z"
  shows "whenever (could_not_locate_sections r w) (\<lambda>(ok, v). \<not> ok \<and> restored z v)"
  unfolding could_not_locate_sections_def mut_exec_shstrtab_close_def
  by (rule loads_free_new [OF assms]) (simp add: restored_def loading_def)

lemma strtab_back:
  assumes "holds undone z (es_data (r_strings r)) [] X w"
  shows "whenever (could_not_open_strtab r w) (\<lambda>(ok, v). \<not> ok \<and> restored z v)"
proof (cases "mut_exec_symtab_close w")
  case (Some v)
  then obtain S where S: "loading z (insert (es_data (r_strings r)) (mem_in_use z)) S X v"
    using undone_close [of z _ X w v] assms by (auto simp: holds_def closed_def)
  have "es_data (r_strings r) \<notin> mem_in_use z" using assms by (simp add: holds_def)
  from sections_back [OF S this] Some show ?thesis by (simp add: could_not_open_strtab_def)
qed (simp add: could_not_open_strtab_def)

lemma dynstr_back:
  assumes "holds undone z (es_data (r_strings r)) [es_data (strtab X)] X w"
  shows "whenever (could_not_open_dynstr r w) (\<lambda>(ok, v). \<not> ok \<and> restored z v)"
  using holds_free [OF assms, of 254 exec_file] holds_exec [OF assms] strtab_back [of z r X]
  by (auto simp: could_not_open_dynstr_def mut_exec_strtab_close_def)

lemma stabstr_back:
  assumes "holds undone z (es_data (r_strings r)) [es_data (dynstr X), es_data (strtab X)] X w"
  shows "whenever (could_not_open_stabstr r w) (\<lambda>(ok, v). \<not> ok \<and> restored z v)"
  using holds_free [OF assms, of 254 exec_file] holds_exec [OF assms] dynstr_back [of z r X]
  by (auto simp: could_not_open_stabstr_def mut_exec_strtab_close_def)

lemma debug_info_back:
  assumes "holds undone z (es_data (r_strings r)) [es_data (stabstr X), es_data (dynstr X), es_data (strtab X)] X w"
    and "r_stabs r \<noteq> None"
  shows "whenever (could_not_extract_debug_info r w) (\<lambda>(ok, v). \<not> ok \<and> restored z v)"
  using holds_free [OF assms(1), of 467 exec_file] holds_exec [OF assms(1)] stabstr_back [of z r X] assms(2)
  by (auto simp: could_not_extract_debug_info_def mut_exec_stabstr_close_def)

definition all_or_nothing where
  "all_or_nothing z = (\<lambda>(ok, v). if ok then opened z v else restored z v)"

lemma all_or_nothing_back: "whenever m (\<lambda>(ok, v). \<not> ok \<and> restored z v) \<Longrightarrow> whenever m (all_or_nothing z)"
  by (rule whenever_mono) (auto simp: all_or_nothing_def)

text \<open>The three parts, given that what follows is all or nothing.\<close>

lemma holds_reading: "holds reading z d ps X w \<Longrightarrow> reading z (insert d (mem_in_use z) \<union> (set ps - {0})) X w"
  by (simp add: holds_def)

lemma reading_exec: "reading z B X w \<Longrightarrow> exec w = X"
  by (auto simp: reading_def loading_def)

lemma holds_more:
  assumes "holds reading z d ps X w" and "p \<noteq> 0" and "p \<notin> insert d (mem_in_use z) \<union> (set ps - {0})"
    and "P z (insert p (insert d (mem_in_use z) \<union> (set ps - {0}))) Y v"
  shows "holds P z d (p # ps) Y v"
proof -
  have "insert p (insert d (mem_in_use z) \<union> (set ps - {0})) = insert d (mem_in_use z) \<union> (set (p # ps) - {0})"
    using assms(2) by auto
  then show ?thesis using assms unfolding holds_def by auto
qed

lemma holds_same: "holds reading z d ps X w \<Longrightarrow> P z (insert d (mem_in_use z) \<union> (set ps - {0})) Y v \<Longrightarrow> holds P z d ps Y v"
  unfolding holds_def by blast

lemma holds_none: "holds P z d ps X w \<Longrightarrow> holds P z d (0 # ps) X w"
  by (auto simp: holds_def)

lemma open_symtab_all:
  assumes h: "holds reading z (es_data (r_strings r)) [] X w" and X: "es_data (strtab X) = 0" "es_data (dynstr X) = 0"
    and k: "\<And>Y v. holds reading z (es_data (r_strings r)) [es_data (strtab Y)] Y v \<Longrightarrow> es_data (dynstr Y) = 0 \<Longrightarrow>
       whenever (k v) (all_or_nothing z)"
  shows "whenever (open_symtab r suffix k w) (all_or_nothing z)"
proof (cases "r_symtab r")
  case None
  have "holds reading z (es_data (r_strings r)) [es_data (strtab X)] X w" using holds_none [OF h] X by simp
  from k [OF this X(2)] None show ?thesis by (simp add: open_symtab_def)
next
  case (Some sy)
  show ?thesis
    unfolding open_symtab_def Some option.case Let_def
  proof (rule whenever_bind [OF strtab_open_reads [OF holds_reading [OF h]]], goal_cases)
    case (1 x)
    obtain ok strs v where x: "x = ((ok, strs), v)" by (metis prod.exhaust)
    let ?X = "X\<lparr>strtab := strs\<rparr>" and ?v = "set_exec (\<lambda>e. e\<lparr>strtab := strs\<rparr>) v"
    show ?case
    proof (cases ok)
      case False
      then have "reading z (insert (es_data (r_strings r)) (mem_in_use z) \<union> (set [] - {0})) ?X ?v"
        using 1 x reading_set_exec [of z _ X v "\<lambda>e. e\<lparr>strtab := strs\<rparr>"] by simp
      then have "holds reading z (es_data (r_strings r)) [] ?X ?v" by (rule holds_same [OF h])
      from all_or_nothing_back [OF strtab_back [OF holds_undone [OF this]]] False x show ?thesis by simp
    next
      case True
      let ?B = "insert (es_data strs) (insert (es_data (r_strings r)) (mem_in_use z) \<union> (set [] - {0}))"
      have n: "es_data strs \<noteq> 0" "es_data strs \<notin> insert (es_data (r_strings r)) (mem_in_use z) \<union> (set [] - {0})"
        and v: "reading z ?B ?X ?v"
        using 1 True x reading_set_exec [of z ?B X v "\<lambda>e. e\<lparr>strtab := strs\<rparr>"] by simp_all
      have "whenever (mut_exec_extract_symbols r sy (strtab (exec ?v)) suffix None ?v \<bind> (\<lambda>(ok, w).
          if \<not> ok then could_not_open_dynstr r w else k (set_exec (\<lambda>e. e\<lparr>has_full_symbols := Some True\<rparr>) w))) (all_or_nothing z)"
      proof (rule whenever_bind [OF extract_symbols_reads [OF v]], goal_cases)
        case (1 y)
        obtain ok' u where y: "y = (ok', u)" by fastforce
        show ?case
        proof (cases ok')
          case False
          then have "holds undone z (es_data (r_strings r)) [es_data (strtab ?X)] ?X u"
            using holds_more [OF h n] 1 y by simp
          from all_or_nothing_back [OF dynstr_back [OF this]] False y show ?thesis by simp
        next
          case True
          let ?Y = "?X\<lparr>has_full_symbols := Some True\<rparr>" and ?u = "set_exec (\<lambda>e. e\<lparr>has_full_symbols := Some True\<rparr>) u"
          have "reading z ?B ?Y ?u" using 1 True y reading_set_exec by fastforce
          from holds_more [where P = reading, OF h n this]
          have "holds reading z (es_data (r_strings r)) [es_data (strtab ?Y)] ?Y ?u" by simp
          from k [OF this] X True y show ?thesis by simp
        qed
      qed
      then show ?thesis using True x by simp
    qed
  qed
qed

lemma open_dynsym_all:
  assumes h: "holds reading z (es_data (r_strings r)) [es_data (strtab X)] X w" and X: "es_data (dynstr X) = 0"
    and k: "\<And>Y v. holds reading z (es_data (r_strings r)) [es_data (dynstr Y), es_data (strtab Y)] Y v \<Longrightarrow>
       whenever (k v) (all_or_nothing z)"
  shows "whenever (open_dynsym r suffix k w) (all_or_nothing z)"
proof (cases "r_dsymtab r")
  case None
  have "holds reading z (es_data (r_strings r)) [es_data (dynstr X), es_data (strtab X)] X w" using holds_none [OF h] X by simp
  from k [OF this] None show ?thesis by (simp add: open_dynsym_def)
next
  case (Some sy)
  let ?C = "insert (es_data (r_strings r)) (mem_in_use z) \<union> (set [es_data (strtab X)] - {0})"
  show ?thesis
    unfolding open_dynsym_def Some option.case Let_def
  proof (rule whenever_bind [OF strtab_open_reads [OF holds_reading [OF h]]], goal_cases)
    case (1 x)
    obtain ok strs v where x: "x = ((ok, strs), v)" by (metis prod.exhaust)
    let ?X = "X\<lparr>dynstr := strs\<rparr>" and ?v = "set_exec (\<lambda>e. e\<lparr>dynstr := strs\<rparr>) v"
    show ?case
    proof (cases ok)
      case False
      then have "reading z ?C ?X ?v" using 1 x reading_set_exec [of z ?C X v "\<lambda>e. e\<lparr>dynstr := strs\<rparr>"] by simp
      then have "holds reading z (es_data (r_strings r)) [es_data (strtab ?X)] ?X ?v" using holds_same [OF h] by simp
      from all_or_nothing_back [OF dynstr_back [OF holds_undone [OF this]]] False x show ?thesis by simp
    next
      case True
      then have n: "es_data strs \<noteq> 0" "es_data strs \<notin> ?C" and "reading z (insert (es_data strs) ?C) X v"
        using 1 unfolding x prod.case by (simp_all only: if_True simp_thms)
      from reading_set_exec [OF this(3), of "\<lambda>e. e\<lparr>dynstr := strs\<rparr>"]
      have v: "reading z (insert (es_data strs) ?C) ?X ?v" .
      have "whenever (mut_exec_extract_symbols r sy (dynstr (exec ?v)) suffix (r_plt r) ?v \<bind> (\<lambda>(ok, w).
          if \<not> ok then could_not_open_stabstr r w else k w)) (all_or_nothing z)"
      proof (rule whenever_bind [OF extract_symbols_reads [OF v]], goal_cases)
        case (1 y)
        obtain ok' u where y: "y = (ok', u)" by fastforce
        show ?case
        proof (cases ok')
          case False
          then have "undone z (insert (es_data strs) ?C) ?X u" using 1 y by simp
          from holds_more [where P = undone, OF h n this]
          have "holds undone z (es_data (r_strings r)) [es_data (dynstr ?X), es_data (strtab ?X)] ?X u" by simp
          from all_or_nothing_back [OF stabstr_back [OF this]] False y show ?thesis by simp
        next
          case True
          then have "reading z (insert (es_data strs) ?C) ?X u" using 1 y by simp
          from holds_more [where P = reading, OF h n this]
          have "holds reading z (es_data (r_strings r)) [es_data (dynstr ?X), es_data (strtab ?X)] ?X u" by simp
          from k [OF this] True y show ?thesis by simp
        qed
      qed
      then show ?thesis using True x by simp
    qed
  qed
qed

lemma open_stabs_all:
  assumes h: "holds reading z (es_data (r_strings r)) [es_data (dynstr X), es_data (strtab X)] X w"
    and k: "\<And>Y v. holds reading z (es_data (r_strings r)) [es_data (stabstr Y), es_data (dynstr Y), es_data (strtab Y)] Y v \<Longrightarrow>
       whenever (k v) (all_or_nothing z)"
  shows "whenever (open_stabs r k w) (all_or_nothing z)"
proof (cases "r_stabs r")
  case None
  let ?Y = "X\<lparr>stabstr := (stabstr X)\<lparr>es_data := 0\<rparr>\<rparr>" and ?v = "set_exec (\<lambda>e. e\<lparr>stabstr := (stabstr e)\<lparr>es_data := 0\<rparr>\<rparr>) w"
  have "holds reading z (es_data (r_strings r)) [0, es_data (dynstr X), es_data (strtab X)] X w" by (rule holds_none [OF h])
  from holds_same [OF this, where P = reading, OF reading_set_exec [OF holds_reading [OF this]]]
  have "holds reading z (es_data (r_strings r)) [es_data (stabstr ?Y), es_data (dynstr ?Y), es_data (strtab ?Y)] ?Y ?v" by simp
  from k [OF this] None show ?thesis by (simp add: open_stabs_def)
next
  case (Some st)
  let ?C = "insert (es_data (r_strings r)) (mem_in_use z) \<union> (set [es_data (dynstr X), es_data (strtab X)] - {0})"
  show ?thesis
    unfolding open_stabs_def Some option.case
  proof (rule whenever_bind [OF stabstr_open_reads [OF holds_reading [OF h]]], goal_cases)
    case (1 x)
    obtain ok v where x: "x = (ok, v)" by fastforce
    show ?case
    proof (cases ok)
      case False
      then obtain t where "reading z ?C (X\<lparr>stabstr := t\<rparr>) v" using 1 x by auto
      from holds_same [OF h, where P = reading, OF this]
      have "holds reading z (es_data (r_strings r)) [es_data (dynstr (X\<lparr>stabstr := t\<rparr>)), es_data (strtab (X\<lparr>stabstr := t\<rparr>))]
          (X\<lparr>stabstr := t\<rparr>) v" by simp
      from all_or_nothing_back [OF stabstr_back [OF holds_undone [OF this]]] False x show ?thesis by simp
    next
      case True
      then obtain t where t: "es_data t \<noteq> 0" "es_data t \<notin> ?C" "reading z (insert (es_data t) ?C) (X\<lparr>stabstr := t\<rparr>) v"
        using 1 x by auto
      let ?X = "X\<lparr>stabstr := t\<rparr>"
      have held: "holds reading z (es_data (r_strings r)) [es_data (stabstr ?X), es_data (dynstr ?X), es_data (strtab ?X)] ?X u"
        if "reading z (insert (es_data t) ?C) ?X u" for u
        using holds_more [where P = reading, OF h t(1,2) that] by simp
      have "whenever (mut_exec_extract_debug_info r st v \<bind> (\<lambda>(ok, w).
          if \<not> ok then could_not_extract_debug_info r w else k w)) (all_or_nothing z)"
      proof (rule whenever_bind [OF extract_debug_info_reads [OF t(3)]], goal_cases)
        case (1 y)
        obtain ok' u where y: "y = (ok', u)" by fastforce
        have u: "holds reading z (es_data (r_strings r)) [es_data (stabstr ?X), es_data (dynstr ?X), es_data (strtab ?X)] ?X u"
          using held 1 y by simp
        have s: "r_stabs r \<noteq> None" using Some by simp
        from k [OF u] all_or_nothing_back [OF debug_info_back [OF holds_undone [OF u] s]] y show ?case by simp
      qed
      then show ?thesis using True x by simp
    qed
  qed
qed

lemma close_source_all:
  assumes h: "holds reading z (es_data (r_strings r)) [es_data (stabstr X), es_data (dynstr X), es_data (strtab X)] X w"
  shows "whenever (close_source r w) (all_or_nothing z)"
proof -
  let ?d = "es_data (r_strings r)" and ?ps = "set [es_data (stabstr X), es_data (dynstr X), es_data (strtab X)] - {0}"
  have last: "opened z v" if v: "reading z (mem_in_use z \<union> ?ps) X v" for v
  proof -
    obtain S where S: "table_ok S" "(mem_in_use z \<union> ?ps) \<inter> blocks_of S = {}"
      "loading z (mem_in_use z \<union> ?ps \<union> blocks_of S) S X v" using v by (rule readingE)
    have "set [a, b, c] = set [a, c, b]" for a b c :: ptr by auto
    then have t: "set (exec_tables X) = ?ps" unfolding exec_tables_def set_filter set_diff_eq by simp
    have "distinct (filter Q [a, b, c]) \<Longrightarrow> distinct (filter Q [a, c, b])" for Q and a b c :: ptr
      by (cases "Q a"; cases "Q b"; cases "Q c") auto
    then have dist: "distinct (exec_tables X)" using h unfolding exec_tables_def holds_def by blast
    have s: "snd ` set (symtab_sites S) = blocks_of S" by (metis list.set_map symtab_sites_blocks)
    have v': "exec v = X" "symtab v = S" "mem_in_use v = mem_in_use z \<union> ?ps \<union> blocks_of S" "mem_wf v" "exec_only z v"
      using S(3) by (simp_all only: loading_def)
    have b: "exec_blocks v = ?ps \<union> blocks_of S" unfolding exec_blocks_def v' t s ..
    have "exec_owned v"
      using S(1,2) dist t v' by (simp add: exec_owned_def symtab_sites_blocks s table_ok_def) blast
    moreover have "mem_in_use z \<inter> ?ps = {}" using h by (auto simp: holds_def)
    moreover have "mem_in_use z \<inter> (?ps \<union> blocks_of S) = {}" using calculation(2) S(2) by blast
    ultimately show ?thesis using S(1) v' b by (simp only: opened_def table_ok_def Un_assoc simp_thms)
  qed
  have fr: "whenever (mut_mem__free ?d 612 exec_file v \<bind> (\<lambda>w. Some (True, w))) (all_or_nothing z)"
    if "holds reading z ?d [es_data (stabstr X), es_data (dynstr X), es_data (strtab X)] X v" for v
  proof -
    have "reading z (insert ?d (mem_in_use z \<union> ?ps)) X v" "?d \<notin> mem_in_use z \<union> ?ps"
      using that by (auto simp: holds_def)
    then show ?thesis by (rule reads_free_new) (simp add: all_or_nothing_def last)
  qed
  have io: "holds reading z ?d ps X v" if "holds reading z ?d ps X w" "io_only w v" for ps v w
    using that reading_io unfolding holds_def by blast
  have er: "holds reading z ?d ps X (io_error s w) = holds reading z ?d ps X w" for ps s w
    unfolding holds_def by simp
  have mid: "whenever (mut_mem__free ?d 612 exec_file v \<bind> (\<lambda>w. Some (True, w))) (all_or_nothing z)"
    if "log_message Warning ''io.close'' [LString (r_file_name r)] (io_error (r_source r) w) = Some (b, v)" for b v
    using fr io log_message_only [OF that] er h by blast
  show ?thesis
  proof (cases "s_close_fails (r_source r)")
    case False
    then show ?thesis using fr [OF h] by (simp add: close_source_def mut_exec_shstrtab_close_def)
  next
    case True
    then show ?thesis
      using mid by (cases "log_message Warning ''io.close'' [LString (r_file_name r)] (io_error (r_source r) w)")
        (auto simp: close_source_def mut_exec_shstrtab_close_def)
  qed
qed

lemma read_sections_all:
  assumes "loading z (insert (es_data (r_strings r)) (mem_in_use z)) S X w"
    and "es_data (r_strings r) \<noteq> 0" and "es_data (r_strings r) \<notin> mem_in_use z"
  shows "whenever (read_sections r suffix w) (all_or_nothing z)"
proof -
  let ?e = "\<lambda>e. e\<lparr>strtab := (strtab e)\<lparr>es_data := 0\<rparr>, dynstr := (dynstr e)\<lparr>es_data := 0\<rparr>\<rparr>"
  let ?S = "\<lparr>st_head = [], st_cache = 0, st_end = 0\<rparr>"
  have "loading z (insert (es_data (r_strings r)) (mem_in_use z)) ?S X (mut_exec_symtab_open w)"
    using assms(1) exec_only_trans [OF _ exec_only_update(2)] by (auto simp: mut_exec_symtab_open_def loading_def)
  then have "reading z (insert (es_data (r_strings r)) (mem_in_use z)) X (mut_exec_symtab_open w)"
    by (intro readingI [of ?S]) (simp_all add: table_ok_def symtab_sorted_def)
  from reading_set_exec [OF this, of ?e]
  have h: "holds reading z (es_data (r_strings r)) [] (?e X) (set_exec ?e (mut_exec_symtab_open w))"
    using assms(2,3) by (simp add: holds_def)
  show ?thesis
    unfolding read_sections_def Let_def
    by (rule open_symtab_all [OF h], simp, simp)
      (rule open_dynsym_all, assumption, assumption, rule open_stabs_all, assumption, rule close_source_all, assumption)
qed

lemma loads_checks [loads]:
  assumes "loading z B S X w" and "\<And>ok v. loading z B S X v \<Longrightarrow> whenever (k ok v) Q"
  shows "whenever (mut_exec_check_id r w \<bind> (\<lambda>(ok, v). k ok v)) Q"
    and "whenever (mut_exec_check_class r w \<bind> (\<lambda>(ok, v). k ok v)) Q"
    and "whenever (mut_exec_check_type r w \<bind> (\<lambda>(ok, v). k ok v)) Q"
proof -
  have "whenever (mut_exec_check_id r w) (\<lambda>(ok, v). loading z B S X v)"
    "whenever (mut_exec_check_class r w) (\<lambda>(ok, v). loading z B S X v)"
    "whenever (mut_exec_check_type r w) (\<lambda>(ok, v). loading z B S X v)"
    unfolding mut_exec_check_id_def mut_exec_check_class_def mut_exec_check_type_def Let_def
    by (insert assms(1), ((rule loads_if | (rule loads_complain loads_message, assumption) | (simp; fail))+)[3])
  then show "whenever (mut_exec_check_id r w \<bind> (\<lambda>(ok, v). k ok v)) Q"
    "whenever (mut_exec_check_class r w \<bind> (\<lambda>(ok, v). k ok v)) Q"
    "whenever (mut_exec_check_type r w \<bind> (\<lambda>(ok, v). k ok v)) Q"
    using assms(2) by (auto elim!: whenever_bind)
qed

lemma loading_restored: "loading z (mem_in_use z) S X v \<Longrightarrow> all_or_nothing z (False, v)"
  by (simp add: all_or_nothing_def restored_def loading_def)

lemma mut_exec_open_all:
  assumes "mem_wf w"
  shows "whenever (mut_exec_open src file suffix w) (all_or_nothing w)"
proof -
  note start = loading_start [OF assms]
  have rest: "whenever (do { ((ok, r), v) \<leftarrow> mut_exec_shstrtab_open r v;
      if \<not> ok then Some (False, v)
      else do { ((ok, r), v) \<leftarrow> mut_exec_locate_sections r v;
        if \<not> ok then could_not_locate_sections r v else read_sections r suffix v } }) (all_or_nothing w)"
    if v: "loading w (mem_in_use w) (symtab w) (exec w) v" for r v
  proof (rule whenever_bind [OF shstrtab_open_loads [OF v]], goal_cases)
    case (1 x)
    obtain ok r' u where x: "x = ((ok, r'), u)" by (metis prod.exhaust)
    show ?case
    proof (cases ok)
      case False
      then show ?thesis using 1 x loading_restored by auto
    next
      case True
      let ?d = "es_data (r_strings r')"
      have d: "?d \<noteq> 0" "?d \<notin> mem_in_use w" and u: "loading w (insert ?d (mem_in_use w)) (symtab w) (exec w) u"
        using 1 True x by simp_all
      have "whenever (mut_exec_locate_sections r' u \<bind> (\<lambda>((ok, r), v).
          if \<not> ok then could_not_locate_sections r v else read_sections r suffix v)) (all_or_nothing w)"
      proof (rule whenever_bind [OF locate_sections_loads [OF u]], goal_cases)
        case (1 y)
        obtain ok' r'' t where y: "y = ((ok', r''), t)" by (metis prod.exhaust)
        then have t: "loading w (insert (es_data (r_strings r'')) (mem_in_use w)) (symtab w) (exec w) t"
          and d': "es_data (r_strings r'') \<noteq> 0" "es_data (r_strings r'') \<notin> mem_in_use w"
          using 1 d by simp_all
        show ?case
          using read_sections_all [OF t d'] all_or_nothing_back [OF sections_back [OF t d'(2)]] y by simp
      qed
      then show ?thesis using True x by simp
    qed
  qed
  have e: "loading w (mem_in_use w) (symtab w) (exec w) (w\<lparr>c_errno := ENOENT\<rparr>)" using start by simp
  have e': "loading w (mem_in_use w) (symtab w) (exec w) (io_error src w)" using start by simp
  show ?thesis
  proof (cases "c_fopen_fails w file")
    case True
    then show ?thesis
      unfolding mut_exec_open_def Let_def
      by simp (rule loads_complain [OF e], simp add: loading_restored)
  next
    case opens: False
    show ?thesis
    proof (cases "libc_fread 0 sizeof_ehdr src")
      case None
      then show ?thesis
        using opens unfolding mut_exec_open_def Let_def
        by simp (rule loads_complain [OF e'], simp add: loading_restored)
    next
      case (Some bs)
      show ?thesis
        unfolding mut_exec_open_def Let_def using opens Some start
        by simp ((rule loads_checks | assumption | rule loads_if rest | (simp add: loading_restored; fail))+)
    qed
  qed
qed

end
