(* ===== verification/MutMain.thy ===== *)
theory MutMain
  imports MutLoad MutOpen MutService
begin

text \<open>
  The whole program, \<open>main\<close> of src/src/ui/tty/mut_ui.c: what a run leaves allocated.
\<close>

section \<open>What the start of a run changes\<close>

definition setup_only :: "('p, 'a) mut_world_scheme \<Rightarrow> ('p, 'a) mut_world_scheme \<Rightarrow> bool" where
  "setup_only w w' \<longleftrightarrow>
     w' = w\<lparr>c_errno := c_errno w', c_out := c_out w', the_log := the_log w', process := process w', child := child w',
            actions := actions w', a_root := a_root w', stats := stats w'\<rparr>"

lemma setup_only_refl [simp]: "setup_only w w"
  by (simp add: setup_only_def)

lemma setup_only_trans: "setup_only u v \<Longrightarrow> setup_only v w \<Longrightarrow> setup_only u w"
  by (cases u; cases v; cases w) (simp add: setup_only_def)

lemma setup_only_update [simp]:
  "setup_only z (w\<lparr>child := c\<rparr>) = setup_only z w" "setup_only z (w\<lparr>c_errno := e\<rparr>) = setup_only z w"
  "setup_only z (w\<lparr>process := p\<rparr>) = setup_only z w" "setup_only z (w\<lparr>actions := a\<rparr>) = setup_only z w"
  "setup_only z (w\<lparr>a_root := r\<rparr>) = setup_only z w"
  "setup_only z (w\<lparr>stats := s\<rparr>) = setup_only z w"
  by (cases w; cases z; auto simp: setup_only_def)+

lemma setup_only_steps [simp]:
  "setup_only z (set_status st w) = setup_only z w" "setup_only z (set_pc pc w) = setup_only z w"
  "setup_only z (mut_trace_open pid w) = setup_only z w" "setup_only z (set_action a g w) = setup_only z w"
  "setup_only z (name_action a n w) = setup_only z w" "setup_only z (type_action a t w) = setup_only z w"
  by (simp_all add: set_status_def set_pc_def mut_trace_open_def set_action_def name_action_def type_action_def)

text \<open>What matters of a state here.\<close>

definition same_blocks :: "('p, 'a) mut_world_scheme \<Rightarrow> ('p, 'a) mut_world_scheme \<Rightarrow> bool" where
  "same_blocks w v \<longleftrightarrow> mem_wf v = mem_wf w \<and> mem_in_use v = mem_in_use w \<and> exec v = exec w \<and> symtab v = symtab w \<and> bts v = bts w"

lemma same_blocks_trans: "same_blocks u v \<Longrightarrow> same_blocks v w \<Longrightarrow> same_blocks u w"
  by (simp add: same_blocks_def)

lemma same_blocks_update [simp]:
  "same_blocks w (v\<lparr>m_flags := f\<rparr>) = same_blocks w v" "same_blocks w (v\<lparr>stats := s\<rparr>) = same_blocks w v"
  "same_blocks w (v\<lparr>a_root := r\<rparr>) = same_blocks w v"
  by (simp_all add: same_blocks_def mem_wf_def mem_in_use_def malloc_fresh_def)

lemma setup_only_same:
  assumes "setup_only w (v :: ('p, 'a) mut_world_scheme)"
  shows "same_blocks w v" "m_flags v = m_flags w"
proof -
  have v: "v = w\<lparr>c_errno := c_errno v, c_out := c_out v, the_log := the_log v, process := process v, child := child v,
            actions := actions v, a_root := a_root v, stats := stats v\<rparr>"
    using assms by (simp add: setup_only_def)
  have "exec v = exec w" "symtab v = symtab w" "bts v = bts w" by (subst v, simp)+
  moreover have "mem_wf v = mem_wf w" "mem_in_use v = mem_in_use w"
    by (subst v, simp add: mem_wf_def mem_in_use_def malloc_fresh_def)+
  ultimately show "same_blocks w v" by (simp add: same_blocks_def)
  show "m_flags v = m_flags w" by (subst v, simp)
qed

lemma same_blocks_tr: "tr_only w v \<Longrightarrow> same_blocks w v"
  by (simp add: same_blocks_def tr_only_same)

lemma m_flags_tr: "tr_only w v \<Longrightarrow> m_flags v = m_flags (w :: ('p, 'a) mut_world_scheme)"
  by (erule tr_onlyE) simp

lemma setup_tr:
  assumes "setup_only z w" and "tr_only w (v :: ('p, 'a) mut_world_scheme)"
  shows "setup_only z v"
proof -
  have "setup_only w v" using assms(2) by (cases w; cases v) (simp add: tr_only_def setup_only_def)
  with assms(1) show ?thesis by (rule setup_only_trans)
qed

lemma within_setup: "setup_only z w \<Longrightarrow> within tr_only w (m :: ('r \<times> ('p, 'a) mut_world_scheme) option) \<Longrightarrow> within setup_only z m"
  by (auto simp: within_def intro: setup_tr)

lemma tr_process_open: "tr_only w v \<Longrightarrow> within tr_only w (mut_process_open argv v)"
  unfolding mut_process_open_def Let_def
  by (intro within_wait_result tr_arch tr_intros)

lemma process_open_setup: "setup_only z w \<Longrightarrow> mut_process_open argv w = Some (ok, v) \<Longrightarrow> setup_only z v"
  by (rule withinD [OF within_setup [OF _ tr_process_open [OF tr_refl]]])

lemma manage_action_setup:
  assumes "setup_only z w" and run: "mut_manage_action a f w = Some (ok, v)"
  shows "setup_only z v"
proof -
  let ?w = "set_action a (\<lambda>x. x\<lparr>a_addr := fst f\<rparr>) (set_action a (\<lambda>x. x\<lparr>a_hits := mut_counter_from_uint 0\<rparr>) w)"
  obtain oa u where e: "mut_actions_enter a ?w = (oa, u)" by fastforce
  have u: "setup_only z u" using e assms(1) by (auto simp: mut_actions_enter_def split: option.splits)
  have logs: "within tr_only u (do {
       w \<leftarrow> mut_log_info ''duplicate.addr'' u;
       w \<leftarrow> mut_log_string (action_name a w) w;
       w \<leftarrow> mut_log_string (action_name oa w) w;
       w \<leftarrow> mut_log_uint_hex (a_addr (actions w a)) w;
       w \<leftarrow> end_log w;
       Some (True, w) })"
    by (intro core_intros tr_refl)
  show ?thesis
  proof (cases "snd f")
    case False
    then show ?thesis using assms by (auto simp: mut_manage_action_def Let_def)
  next
    case True
    show ?thesis
    proof (cases "oa = a")
      case False
      then show ?thesis using run True e withinD [OF within_setup [OF u logs]] by (simp add: mut_manage_action_def Let_def)
    next
      case same: True
      then obtain i x where x: "mut_process_breakpoint (a_addr (actions u a)) u = Some (i, x)"
        "(case i of None \<Rightarrow> fail_c x | Some y \<Rightarrow> Some (True, set_action a (\<lambda>z. z\<lparr>a_instr := y\<rparr>) x)) = Some (ok, v)"
        using run True e by (auto simp: mut_manage_action_def Let_def try_c_def split: bind_splits)
      have "setup_only z x" using withinD [OF within_setup [OF u tr_process(1) [OF tr_refl]] x(1)] .
      then show ?thesis using x(2) by (auto simp: fail_c_def split: option.splits)
    qed
  qed
qed

lemma manage_actions_setup:
  assumes "setup_only z w" and run: "mut_manage_actions usage w = Some (ok, v)"
  shows "setup_only z v"
proof -
  have step: "try_ok (mut_manage_action a f x) fail_c k = Some (ok, v) \<Longrightarrow> setup_only z x \<Longrightarrow>
     (\<And>y. setup_only z y \<Longrightarrow> k y = Some (ok, v) \<Longrightarrow> setup_only z v) \<Longrightarrow> setup_only z v" for a f x k
    by (auto simp: try_ok_def fail_c_def split: bind_splits if_splits dest: manage_action_setup)
  obtain fs x where x: "setup_only z x" "try_ok (mut_manage_action Act_malloc (fs ! 0) (type_action Act_malloc Type_malloc x)) fail_c (\<lambda>w.
     try_ok (mut_manage_action Act_calloc (fs ! 1) (type_action Act_calloc Type_calloc w)) fail_c (\<lambda>w.
     try_ok (mut_manage_action Act_realloc (fs ! 2) (type_action Act_realloc Type_realloc w)) fail_c (\<lambda>w.
     try_ok (mut_manage_action Act_free (fs ! 3) (type_action Act_free Type_consumer w)) fail_c (\<lambda>w.
     try_ok (mut_manage_action Act_cfree (fs ! 4) (type_action Act_cfree Type_consumer w)) fail_c (\<lambda>w.
     if usage = None then Some (True, w)
     else try_ok (mut_manage_action Act_usage (fs ! 5) (type_action Act_usage Type_usage w)) fail_c (\<lambda>w.
       Some (True, w))))))) = Some (ok, v)"
  proof -
    let ?x = "name_action Act_cfree ''cfree'' (name_action Act_free ''free'' (name_action Act_realloc ''realloc''
        (name_action Act_calloc ''calloc'' (name_action Act_malloc ''malloc'' w))))"
    obtain fs where "mut_exec_functions_addr ([''malloc'', ''calloc'', ''realloc'', ''free'', ''cfree''] @
        (case usage of None \<Rightarrow> [] | Some u \<Rightarrow> [u])) (case usage of None \<Rightarrow> ?x | Some u \<Rightarrow> name_action Act_usage u ?x) = Some fs"
      and k: "try_ok (mut_manage_action Act_malloc (fs ! 0) (type_action Act_malloc Type_malloc
          (case usage of None \<Rightarrow> ?x | Some u \<Rightarrow> name_action Act_usage u ?x))) fail_c (\<lambda>w.
        try_ok (mut_manage_action Act_calloc (fs ! 1) (type_action Act_calloc Type_calloc w)) fail_c (\<lambda>w.
        try_ok (mut_manage_action Act_realloc (fs ! 2) (type_action Act_realloc Type_realloc w)) fail_c (\<lambda>w.
        try_ok (mut_manage_action Act_free (fs ! 3) (type_action Act_free Type_consumer w)) fail_c (\<lambda>w.
        try_ok (mut_manage_action Act_cfree (fs ! 4) (type_action Act_cfree Type_consumer w)) fail_c (\<lambda>w.
        if usage = None then Some (True, w)
        else try_ok (mut_manage_action Act_usage (fs ! 5) (type_action Act_usage Type_usage w)) fail_c (\<lambda>w.
          Some (True, w))))))) = Some (ok, v)"
      using run unfolding mut_manage_actions_def Let_def Option.bind_eq_Some_conv by blast
    have "setup_only z (case usage of None \<Rightarrow> ?x | Some u \<Rightarrow> name_action Act_usage u ?x)"
      using assms(1) by (simp split: option.split)
    then show thesis using that k by blast
  qed
  have last: "setup_only z y \<Longrightarrow> (if usage = None then Some (True, y)
     else try_ok (mut_manage_action Act_usage (fs ! 5) (type_action Act_usage Type_usage y)) fail_c (\<lambda>w.
       Some (True, w))) = Some (ok, v) \<Longrightarrow> setup_only z v" for y
    by (cases "usage = None") (auto elim!: step)
  show ?thesis
    by (rule step [OF x(2)], simp add: x(1), (erule step, simp)+, rule last)
qed

section \<open>mut_open\<close>

lemma exec_only_bts: "exec_only w (v :: ('p, 'a) mut_world_scheme) \<Longrightarrow> bts v = bts w"
  by (cases w; cases v) (simp add: exec_only_def)

text \<open>The invariant of a run holds when there are no resources and no backtraces.\<close>

lemma core_inv_start:
  assumes "mem_wf w" and "bts w = Map.empty"
  shows "core_inv (kept (mut_resources_open f w)) (\<lambda>_. 0) (mut_resources_open f w)"
    and "foreign (mut_resources_open f w) = mem_in_use w"
  using assms by (simp_all add: core_inv_def res_inv_def refs_ok_def bts_ok_def bt_refs_def mut_resources_open_def
      foreign_def plain_blocks_def mem_wf_def mem_in_use_def malloc_fresh_def)

lemma try_ok_Some: "try_ok (Some (ok, w)) h k = (if ok then k w else h w)"
  by (simp add: try_ok_def)

lemma bindE: "m \<bind> f = Some r \<Longrightarrow> (\<And>x. m = Some x \<Longrightarrow> f x = Some r \<Longrightarrow> P) \<Longrightarrow> P"
  by (cases m) auto

text \<open>Opening, when nothing is in use before.\<close>

lemma mut_open_result:
  assumes wf: "mem_wf w" and bts: "bts w = Map.empty" and none: "mem_in_use w = {}"
    and run: "mut_open src argv flags suffix usage w = Some (ok, v)"
  shows "if ok then core_inv (kept v) (\<lambda>_. 0) v \<and> exec_owned v \<and> foreign v = exec_blocks v \<and>
      ctl mut_control_free v = (flags AND mut_control_free \<noteq> 0)
    else mem_wf v \<and> mem_in_use v = {}"
proof -
  obtain e u where u: "mut_exec_open src (hd argv) suffix w = Some (e, u)" and
    k: "(if e then try_ok (mut_process_open argv u) (\<lambda>w. do { (ok, w) \<leftarrow> mut_exec_close w; Some (False, w) }) (\<lambda>w. do {
       let w = w\<lparr>m_flags := flags\<rparr>;
       w \<leftarrow> when_c (ctl mut_control_backtrace w) (\<lambda>w. do {
         symbols \<leftarrow> mut_exec_has_backtrace_symbols w;
         if symbols then Some w
         else do {
           let w = w\<lparr>m_flags := m_flags w AND NOT mut_control_backtrace\<rparr>;
           w \<leftarrow> mut_log_info ''backtrace.off'' w;
           end_log w
         }
       }) w;
       let w = w\<lparr>stats := zero_stats, a_root := []\<rparr>;
       try_ok (mut_manage_actions usage w)
         (\<lambda>w. do { w \<leftarrow> mut_process_close w; (ok, w) \<leftarrow> mut_exec_close w; Some (False, w) })
         (\<lambda>w. Some (True, mut_resources_open (flags AND mut_control_free \<noteq> 0) w))
     }) else fail_c u) = Some (ok, v)"
    using run unfolding mut_open_def try_ok_def [of "mut_exec_open src (hd argv) suffix w"] by (auto split: bind_splits)
  have all: "all_or_nothing w (e, u)" using wheneverD [OF mut_exec_open_all [OF wf] u] .
  show ?thesis
  proof (cases e)
    case False
    then show ?thesis using k all none by (auto simp: fail_c_def all_or_nothing_def restored_def)
  next
    case True
    then have o: "opened w u" using all by (simp add: all_or_nothing_def)
    have bu: "bts u = Map.empty" using o bts exec_only_bts [of w u] by (simp add: opened_def)
    have close: "mem_wf y \<and> mem_in_use y = {}" if "same_blocks u x" "mut_exec_close x = Some (b, y)" for x y b
    proof -
      have s: "mem_wf x = mem_wf u" "mem_in_use x = mem_in_use u" "exec x = exec u" "symtab x = symtab u"
        using that(1) by (simp_all add: same_blocks_def)
      have "exec_owned x = exec_owned u" unfolding exec_owned_def by (simp only: s)
      then have "exec_owned x" using o by (simp add: opened_def)
      from mut_exec_close_result [OF _ this] show ?thesis
        using o s that(2) none by (auto simp: opened_def exec_blocks_def)
    qed
    obtain p x where x: "mut_process_open argv u = Some (p, x)" using k True by (auto simp: try_ok_def split: bind_splits)
    have sx: "same_blocks u x" using setup_only_same(1) process_open_setup [OF setup_only_refl x] by blast
    show ?thesis
    proof (cases p)
      case False
      then show ?thesis using k \<open>e\<close> x close [OF sx] by (auto simp: try_ok_def split: bind_splits)
    next
      case True
      obtain y where y: "when_c (ctl mut_control_backtrace (x\<lparr>m_flags := flags\<rparr>)) (\<lambda>w. do {
         symbols \<leftarrow> mut_exec_has_backtrace_symbols w;
         if symbols then Some w
         else do {
           let w = w\<lparr>m_flags := m_flags w AND NOT mut_control_backtrace\<rparr>;
           w \<leftarrow> mut_log_info ''backtrace.off'' w;
           end_log w
         }
       }) (x\<lparr>m_flags := flags\<rparr>) = Some y" and
        k': "try_ok (mut_manage_actions usage (y\<lparr>stats := zero_stats, a_root := []\<rparr>))
         (\<lambda>w. do { w \<leftarrow> mut_process_close w; (ok, w) \<leftarrow> mut_exec_close w; Some (False, w) })
         (\<lambda>w. Some (True, mut_resources_open (flags AND mut_control_free \<noteq> 0) w)) = Some (ok, v)"
      proof -
        from k \<open>e\<close> x True that show thesis unfolding Let_def
          by (simp only: if_True try_ok_Some) (erule bindE, blast)
      qed
      have log: "tr_only r t" if l: "mut_log_info m r = Some s" "end_log s = Some t" for m r s t
      proof -
        obtain b where "mut_log_end s = Some (b, t)" using l(2) by (auto simp: end_log_def split: bind_splits)
        then show ?thesis using io_only_tr_only [OF io_only_trans [OF mut_io_only(5) [OF l(1)] mut_io_only(13)]] by blast
      qed
      have sy: "same_blocks u y \<and> (m_flags y = flags \<or> m_flags y = flags AND NOT mut_control_backtrace)"
      proof (cases "y = x\<lparr>m_flags := flags\<rparr>")
        case True
        then show ?thesis using sx by simp
      next
        case False
        then have "tr_only (x\<lparr>m_flags := flags AND NOT mut_control_backtrace\<rparr>) y"
          using y by (auto simp: when_c_def Let_def split: if_splits bind_splits elim!: log)
        from m_flags_tr [OF this] same_blocks_trans [OF _ same_blocks_tr [OF this], of u] show ?thesis using sx by simp
      qed
      obtain q t where t: "mut_manage_actions usage (y\<lparr>stats := zero_stats, a_root := []\<rparr>) = Some (q, t)"
        using k' by (auto simp: try_ok_def split: bind_splits)
      have "setup_only (y\<lparr>stats := zero_stats, a_root := []\<rparr>) t" using manage_actions_setup [OF setup_only_refl t] .
      note mt = setup_only_same [OF this]
      have st: "same_blocks u t" using same_blocks_trans [OF _ mt(1)] sy by simp
      show ?thesis
      proof (cases q)
        case False
        then obtain r b where r: "mut_process_close t = Some r" "mut_exec_close r = Some (b, v)" "\<not> ok"
          using k' t by (auto simp: try_ok_def split: bind_splits)
        have "same_blocks u r" using same_blocks_trans [OF st same_blocks_tr [OF within0D [OF tr_close [OF tr_refl] r(1)]]] .
        then show ?thesis using close r by simp
      next
        case True
        then have v: "ok" "v = mut_resources_open (flags AND mut_control_free \<noteq> 0) t"
          using k' t by (simp_all add: try_ok_def)
        have s: "mem_wf t = mem_wf u" "mem_in_use t = mem_in_use u" "exec t = exec u" "symtab t = symtab u" "bts t = bts u"
          using st by (simp_all add: same_blocks_def)
        have "mem_wf t" "bts t = Map.empty" using s o bu by (simp_all add: opened_def)
        note start = core_inv_start [OF this, of "flags AND mut_control_free \<noteq> 0"]
        have "exec v = exec u" "symtab v = symtab u" "mem_in_use v = mem_in_use u" "mem_in_use t = mem_in_use u"
          using s by (simp_all add: v(2) mut_resources_open_def mem_in_use_def)
        moreover have "exec_owned u" "mem_in_use u = exec_blocks u" using o none by (simp_all add: opened_def)
        ultimately have "exec_owned v" "exec_blocks v = mem_in_use t"
          by (simp_all only: exec_owned_def exec_blocks_def)
        moreover have "ctl mut_control_free v = (flags AND mut_control_free \<noteq> 0)"
        proof -
          have "(flags AND NOT mut_control_backtrace) AND mut_control_free = flags AND mut_control_free"
            by (simp add: mut_control_backtrace_def mut_control_free_def and.assoc)
          then show ?thesis using sy mt(2) by (auto simp: v(2) mut_resources_open_def ctl_def)
        qed
        ultimately show ?thesis using start v by simp
      qed
    qed
  qed
qed

section \<open>The command line and the end\<close>

lemma restored_io: "restored z w \<Longrightarrow> io_only w v \<Longrightarrow> restored z v"
  using io_only_mem [of w v] exec_only_trans [OF _ log_only_exec [OF io_only_log_only]] by (auto simp: restored_def)

lemma restored_report: "restored z w \<Longrightarrow> restored z (snd (mut_mem_report l w))"
  using exec_only_trans [OF _ log_only_exec [OF mem_only_log_only [OF mem_only_update(5)]]]
  by (auto simp: restored_def mut_mem_report_def mem_in_use_def)

lemma option_loop_restored:
  "option_loop a0 a first info w = Some (r, v) \<Longrightarrow> restored z w \<Longrightarrow> restored z v"
proof (induction a arbitrary: first info w)
  case (Cons c a)
  show ?case
    using Cons.prems
    by (auto simp: bad_opt_def split: if_splits bind_splits elim: Cons.IH intro: restored_report restored_io complain_only)
qed simp

lemma options_loop_restored:
  "options_loop info args w = Some (r, v) \<Longrightarrow> restored z w \<Longrightarrow> restored z v"
proof (induction args arbitrary: info w)
  case Nil
  then show ?case by (auto simp: mut_ui_usage_def split: bind_splits intro: restored_io complain_only)
next
  case (Cons a args)
  then show ?case by (auto split: list.splits if_splits bind_splits option.splits dest: option_loop_restored)
qed

lemma log_file_restored: "mut_log_file f w = Some v \<Longrightarrow> restored z w \<Longrightarrow> restored z v"
proof (cases "c_fopen_fails w f")
  case True
  assume r: "restored z w"
  from r have r: "restored z (w\<lparr>c_errno := ENOENT\<rparr>)" by (rule restored_io) (simp add: io_only_def)
  assume "mut_log_file f w = Some v"
  then obtain x y ok where "mut_log_warning ''io.open'' (w\<lparr>c_errno := ENOENT\<rparr>) = Some x" "mut_log_string f x = Some y"
    "mut_log_end y = Some (ok, v)"
    using True by (auto simp: mut_log_file_def libc_fopen_w_def split: bind_splits)
  with r show "restored z v" using mut_io_only(4,6,13) restored_io by metis
next
  case False
  assume r: "restored z w" and "mut_log_file f w = Some v"
  then have "v = w\<lparr>c_out := (c_out w)(File f := []), the_log := (the_log w)\<lparr>sink := File f\<rparr>\<rparr>"
    using False by (simp add: mut_log_file_def libc_fopen_w_def)
  with r show "restored z v" by (auto intro: restored_io)
qed

lemma prog_name_restored: "restored z w \<Longrightarrow> restored z (mut_log_prog_name n w)"
  by (erule restored_io) (simp add: mut_log_prog_name_def)

lemma mem_only_close: "mut_mem_close w = Some (s, v) \<Longrightarrow> mem_only w v \<and> in_use (store v) = in_use (store w)"
proof -
  have free: "mem_only u y \<and> store y = store u" if "libc_free p u = Some y" for p and u y :: "'a mem_world_scheme"
    using that mem_only_libc(2) by (auto simp: libc_free_def split: if_splits)
  have put: "mem_only u (snd (libc_fput str l u)) \<and> store (snd (libc_fput str l u)) = store u" for str l and u :: "'a mem_world_scheme"
    using mem_only_libc(5) by (auto simp: libc_fput_def)
  have wr: "mem_write_report str ls st u = (st', y) \<Longrightarrow> mem_only u y \<and> store y = store u"
    for str ls st st' and u y :: "'a mem_world_scheme"
  proof (induction ls arbitrary: st u)
    case (Cons l ls)
    obtain b x where x: "libc_fput str l u = (b, x)" by fastforce
    then have "mem_only u x" "store x = store u" using put [of u str l] by simp_all
    with Cons x show ?case by (auto intro: mem_only_trans)
  qed simp
  have iu: "mem_close_in_use ps st u = Some (st', y) \<Longrightarrow> mem_only u y \<and> in_use (store y) = in_use (store u)"
    for ps st st' and u y :: "'a mem_world_scheme"
  proof (induction ps arbitrary: st u)
    case (Cons p ps)
    obtain b x where x: "libc_fput (mem_log (store u)) (mem_leak_line p) u = (b, x)" by fastforce
    then have f: "mem_only u x" "store x = store u" using put [of u "mem_log (store u)" "mem_leak_line p"] by simp_all
    let ?x = "x\<lparr>store := (store x)\<lparr>n_bytes_in_use := n_bytes_in_use (store x) - mn_bytes p, n_blocks_in_use := n_blocks_in_use (store x) - 1\<rparr>\<rparr>"
    obtain c d where c: "libc_free (mn_addr p) ?x = Some c" "libc_free (mn_self p) c = Some d"
      "mem_close_in_use ps (if b then st else 1) d = Some (st', y)"
      using Cons.prems x by (auto split: bind_splits)
    have "mem_only u ?x" using mem_only_trans [OF f(1) mem_only_update(5)] .
    then have "mem_only u d" using free [OF c(1)] free [OF c(2)] mem_only_trans by blast
    moreover have "in_use (store d) = in_use (store u)" using free [OF c(1)] free [OF c(2)] f(2) by simp
    ultimately show ?case using Cons.IH [OF c(3)] mem_only_trans by auto
  qed simp
  have fr: "mem_close_freed ps u = Some y \<Longrightarrow> mem_only u y \<and> store y = store u" for ps and u y :: "'a mem_world_scheme"
    by (induction ps arbitrary: u) (auto split: bind_splits dest!: free intro: mem_only_trans)
  assume "mut_mem_close w = Some (s, v)"
  then obtain a x b y where "(case mem_report (store w) of None \<Rightarrow> (0, w)
      | Some str \<Rightarrow> mem_write_report str (mem_report_lines (store w)) 0 w) = (a, x)"
    and 2: "mem_close_in_use (in_use (store x)) a x = Some (b, y)" "mem_close_freed (freed (store y)) y = Some v"
    by (auto simp: mut_mem_close_def split: bind_splits prod.splits)
  then have 1: "mem_only w x \<and> store x = store w" using wr by (auto split: option.splits)
  show ?thesis using 1 iu [OF 2(1)] fr [OF 2(2)] mem_only_trans by (metis (no_types))
qed

lemma m_flags_same:
  fixes w v :: "('p, 'a) mut_world_scheme"
  shows "mem_only w v \<Longrightarrow> m_flags v = m_flags w" "bt_only w v \<Longrightarrow> m_flags v = m_flags w"
    "exec_only w v \<Longrightarrow> m_flags v = m_flags w"
  by (erule mem_onlyE, simp) (erule bt_onlyE, simp, cases w, cases v, simp add: exec_only_def)

lemma mem_only_exec_close: "mut_exec_close w = Some (b, v) \<Longrightarrow> mem_only w v"
  by (auto simp: mut_exec_close_def mut_exec_stabstr_close_def mut_exec_strtab_close_def split: bind_splits if_splits
      dest!: mem_only_free mem_only_symtab_close intro: mem_only_trans)

section \<open>The letters on the command line\<close>

definition flag_of :: "char \<Rightarrow> u32" where
  "flag_of c = (if c = CHR ''f'' then mut_control_free else if c = CHR ''t'' then mut_control_trace
     else if c = CHR ''b'' then mut_control_backtrace else if c = CHR ''c'' then mut_control_check
     else if c = CHR ''s'' then mut_control_stats else if c = CHR ''u'' then mut_control_usage
     else if c = CHR ''z'' then mut_control_zero else 0)"

definition flags_of :: "string \<Rightarrow> u32" where
  "flags_of cs = foldr (\<lambda>c f. flag_of c OR f) cs 0"

lemma flags_of_simps [simp]:
  "flags_of [] = 0" "flags_of (c # cs) = flag_of c OR flags_of cs" "flags_of (cs @ ds) = flags_of cs OR flags_of ds"
proof -
  show "flags_of [] = 0" "flags_of (c # cs) = flag_of c OR flags_of cs" by (simp_all add: flags_of_def)
  show "flags_of (cs @ ds) = flags_of cs OR flags_of ds"
    by (induction cs) (simp_all add: flags_of_def or.assoc)
qed

text \<open>The arguments that are options, and the letters of one: none when it is an option with a value.\<close>

definition is_option :: "string \<Rightarrow> bool" where
  "is_option a \<longleftrightarrow> a \<noteq> [] \<and> hd a = CHR ''-''"

definition letters_of :: "string \<Rightarrow> string" where
  "letters_of a = (case tl a of [] \<Rightarrow> [] | c # cs \<Rightarrow> if c \<in> set ''oxnU'' then [] else c # cs)"

definition option_letters :: "string list \<Rightarrow> string" where
  "option_letters argv = concat (map letters_of (takeWhile is_option (tl argv)))"

lemma option_loop_rest:
  "option_loop a0 cs False info w = Some (Some info', v) \<Longrightarrow>
   i_flags info' = i_flags info OR flags_of cs \<and> i_argv info' = i_argv info"
proof (induction cs arbitrary: info w)
  case (Cons c cs)
  show ?case
    using Cons.prems
    by (auto simp: bad_opt_def or_flags_def flag_of_def or.assoc split: if_splits bind_splits dest!: Cons.IH)
qed simp

lemma option_loop_flags:
  assumes "option_loop a (tl a) True info w = Some (Some info', v)"
  shows "i_flags info' = i_flags info OR flags_of (letters_of a) \<and> i_argv info' = i_argv info"
proof (cases "tl a")
  case (Cons c cs)
  with assms show ?thesis
    by (auto simp: letters_of_def or_flags_def flag_of_def or.assoc split: if_splits bind_splits dest!: option_loop_rest)
qed (use assms in \<open>simp add: letters_of_def\<close>)

lemma options_loop_result:
  "options_loop info args w = Some (Some info', v) \<Longrightarrow>
   i_flags info' = i_flags info OR flags_of (concat (map letters_of (takeWhile is_option args))) \<and>
   i_argv info' = dropWhile is_option args \<and> i_argv info' \<noteq> []"
proof (induction args arbitrary: info w)
  case Nil
  then show ?case by (auto simp: mut_ui_usage_def split: bind_splits)
next
  case (Cons a args)
  show ?case
  proof (cases "is_option a")
    case True
    then obtain cs where a: "a = CHR ''-'' # cs" by (cases a) (auto simp: is_option_def)
    then obtain info2 w2 where o: "option_loop a (tl a) True info w = Some (Some info2, w2)"
      and rest: "options_loop info2 args w2 = Some (Some info', v)"
      using Cons.prems by (auto split: bind_splits option.splits)
    from option_loop_flags [OF o] Cons.IH [OF rest] True show ?thesis by (auto simp: or.assoc)
  next
    case False
    with Cons.prems show ?thesis by (auto simp: is_option_def split: list.splits if_splits)
  qed
qed

lemma process_args_result:
  "mut_ui_process_args info argv w = Some (Some info', v) \<Longrightarrow>
   i_flags info' = i_flags info OR flags_of (option_letters argv) \<and>
   i_argv info' = dropWhile is_option (tl argv) \<and> i_argv info' \<noteq> []"
  by (cases argv) (auto simp: mut_ui_process_args_def option_letters_def dest: options_loop_result)

lemma no_free_letter: "CHR ''f'' \<notin> set cs \<Longrightarrow> flags_of cs AND mut_control_free = 0"
  by (induction cs) (auto simp: bit.conj_disj_distrib2 flag_of_def mut_control_free_def mut_control_trace_def mut_control_backtrace_def
    mut_control_check_def mut_control_stats_def mut_control_usage_def mut_control_zero_def)

section \<open>main\<close>

lemma could_not_result:
  assumes "mem_wf w" and "could_not w = Some (status, v)"
  shows "status = EXIT_FAILURE \<and> c_heap v = Map.empty \<and> m_flags v = m_flags w"
  using assms mut_mem_close_result [OF assms(1)] mem_only_close [of w] m_flags_same(1)
  by (auto simp: could_not_def mut_log_close_def split: bind_splits)

text \<open>After a run, in both of its outcomes.\<close>

lemma run_result:
  assumes inv: "core_inv (kept w) (\<lambda>_. 0) w" and own: "exec_owned w" and foreign: "foreign w = exec_blocks w"
    and run: "mut_run w = Some (ok, v)" and f: "\<not> ctl mut_control_free w"
  shows "m_flags v = m_flags w"
    and "ok \<Longrightarrow> mut_close v = Some (b, x) \<Longrightarrow> b \<and> mem_wf x \<and> mem_in_use x = {} \<and> m_flags x = m_flags w"
    and "\<not> ok \<Longrightarrow> mut_close_on_error v = Some x \<Longrightarrow> mem_wf x \<and> m_flags x = m_flags w"
proof -
  have safe: "safe_mode (kept w)" using f core_inv_ctl [OF inv] by (simp add: safe_mode_def)
  obtain E where iv: "core_inv (kept w) E v" "ok \<Longrightarrow> E = (\<lambda>_. 0)"
    using mut_run_inv [OF safe run inv] by (auto split: if_splits)
  then have k: "kept v = kept w" by (simp add: core_inv_def)
  then show fv: "m_flags v = m_flags w" by (simp add: kept_def)
  have same: "exec v = exec w" "symtab v = symtab w" "foreign v = foreign w" using k by (simp_all add: kept_def)
  then have fe: "foreign v = exec_blocks v" using foreign by (simp add: exec_blocks_def)
  have "foreign v \<subseteq> mem_in_use v" by (auto simp: foreign_def plain_blocks_def)
  then have ov: "exec_owned v" using own same fe by (simp add: exec_owned_def exec_blocks_def)
  have close: "m_flags t = m_flags u" if "mut_resources_close u = Some r" "mut_process_close r = Some s" "mut_exec_close s = Some (c, t)" "res_inv F u"
    for u r s t and c :: bool and F
  proof -
    have "bt_only u r" using mut_resources_close_result [OF that(4)] that(1) by auto
    then have "m_flags r = m_flags u" by (rule m_flags_same(2))
    moreover have "m_flags s = m_flags r" using m_flags_tr within0D [OF tr_close [OF tr_refl] that(2)] by blast
    moreover have "m_flags t = m_flags s" using m_flags_same(1) mem_only_exec_close [OF that(3)] by blast
    ultimately show ?thesis by simp
  qed
  show "b \<and> mem_wf x \<and> mem_in_use x = {} \<and> m_flags x = m_flags w" if ok and c: "mut_close v = Some (b, x)"
  proof -
    have ev: "core_inv (kept w) (\<lambda>_. 0) v" using iv \<open>ok\<close> by simp
    obtain p q r s where p: "mut_log_leaks v = Some p" and q: "when_c (ctl mut_control_stats p) mut_log_stats p = Some q"
      and r: "mut_resources_close q = Some r" "mut_process_close r = Some s" "mut_exec_close s = Some (b, x)"
      using c by (auto simp: mut_close_def split: bind_splits)
    have t: "tr_only v q"
      using within0D [OF tr_log_leaks [OF tr_refl] p]
        within0D [OF within_when [OF tr_only_transp tr_log_stats [OF tr_refl] tr_refl] q] by (rule tr_only_trans)
    have "core_inv (kept w) (\<lambda>_. 0) q" using ev core_inv_tr [OF t] by blast
    then have "res_inv (\<lambda>_. 0) q" by (simp add: core_inv_def)
    from close [OF r this] m_flags_tr [OF t] fv have "m_flags x = m_flags w" by simp
    with close_releases [OF ev ov fe c] show ?thesis by simp
  qed
  show "mem_wf x \<and> m_flags x = m_flags w" if "\<not> ok" and c: "mut_close_on_error v = Some x"
  proof -
    obtain r s b where r: "mut_resources_close v = Some r" "mut_process_close r = Some s" "mut_exec_close s = Some (b, x)"
      using c by (auto simp: mut_close_on_error_def split: bind_splits)
    have ri: "res_inv E v" using iv(1) by (simp add: core_inv_def)
    have rr: "refs_ok r" "plain_blocks r = foreign v" "bt_only v r"
      using mut_resources_close_result [OF ri] r(1) by (auto simp: foreign_def)
    have ty: "tr_only r s" using within0D [OF tr_close [OF tr_refl] r(2)] .
    note ts = tr_only_same [OF ty]
    have s: "mem_wf s" "exec s = exec v" "symtab s = symtab v" "foreign v \<subseteq> mem_in_use s"
      using rr ts bt_only_exec [OF rr(3)] by (auto simp: refs_ok_def bts_ok_def plain_blocks_def)
    then have "exec_owned s" using ov fe by (simp add: exec_owned_def exec_blocks_def)
    then have "mem_wf x" using mut_exec_close_result [OF s(1)] r(3) by auto
    with close [OF r ri] fv show ?thesis by simp
  qed
qed

lemma main_result:
  assumes w: "malloc_fresh w" "c_heap w = Map.empty" "bts w = Map.empty"
    and run: "main files argv w = Some (status, v)" and f: "CHR ''f'' \<notin> set (option_letters argv)"
  shows "c_heap v = Map.empty \<and> (status = EXIT_SUCCESS \<longrightarrow> mem_in_use v = {})"
proof -
  define z where "z = set_exec (\<lambda>e. e\<lparr>has_full_symbols := None\<rparr>) (mut_log_open (hd argv) (mut_mem_open (w\<lparr>store := mut_mem_init\<rparr>)))"
  have z: "mem_wf z" "bts z = Map.empty" "mem_in_use z = {}"
  proof -
    have "mem_wf (w\<lparr>store := mut_mem_init\<rparr>)" using w(1,2) by (intro mem_wf_init) simp_all
    then show "mem_wf z" by (simp add: z_def set_exec_def mut_log_open_def mut_mem_open_def mem_wf_def malloc_fresh_def)
    show "bts z = Map.empty" "mem_in_use z = {}"
      using w(3) by (simp_all add: z_def set_exec_def mut_log_open_def mut_mem_open_def mem_in_use_def mut_mem_init_def)
  qed
  have start: "restored z z" using z(1) by (simp add: restored_def)
  obtain r u where u: "mut_ui_process_args \<lparr>i_argv = [], i_log_file_name = None, i_mut_name = None, i_flags = 0,
       i_undesirable_suffix = Some ''@@GLIBC_2.0'', i_usage_function = None\<rparr> argv z = Some (r, u)" and
    k: "(case r of None \<Rightarrow> could_not u | Some info \<Rightarrow> do {
         w \<leftarrow> (case i_log_file_name info of None \<Rightarrow> Some u | Some f \<Rightarrow> mut_log_file f u);
         let w = (case i_mut_name info of None \<Rightarrow> w | Some n \<Rightarrow> mut_log_prog_name n w);
         (ok, w) \<leftarrow> mut_open (files (hd (i_argv info))) (i_argv info) (i_flags info)
           (i_undesirable_suffix info) (i_usage_function info) w;
         if \<not> ok then could_not w
         else do {
           (ok, w) \<leftarrow> mut_run w;
           if \<not> ok then do { w \<leftarrow> mut_close_on_error w; could_not w }
           else do {
             (ok, w) \<leftarrow> mut_close w;
             if \<not> ok then could_not w
             else do {
               let (e, w) = mut_log_close w;
               (status, w) \<leftarrow> mut_mem_close w;
               Some (EXIT_SUCCESS, w)
             }
           }
         }
       }) = Some (status, v)"
    using run unfolding main_def Let_def z_def [symmetric] by (auto elim!: bindE)
  have ru: "restored z u"
    using u start by (auto simp: mut_ui_process_args_def split: list.splits dest: options_loop_restored)
  have fail: ?thesis if "mem_wf t" "could_not t = Some (status, v)" for t
    using could_not_result [OF that] by (simp add: EXIT_SUCCESS_def EXIT_FAILURE_def)
  show ?thesis
  proof (cases r)
    case None
    then show ?thesis using k fail [of u] ru by (simp add: restored_def)
  next
    case (Some info)
    obtain x where x: "(case i_log_file_name info of None \<Rightarrow> Some u | Some f \<Rightarrow> mut_log_file f u) = Some x" and
      k2: "(do {
         let w = (case i_mut_name info of None \<Rightarrow> x | Some n \<Rightarrow> mut_log_prog_name n x);
         (ok, w) \<leftarrow> mut_open (files (hd (i_argv info))) (i_argv info) (i_flags info)
           (i_undesirable_suffix info) (i_usage_function info) w;
         if \<not> ok then could_not w
         else do {
           (ok, w) \<leftarrow> mut_run w;
           if \<not> ok then do { w \<leftarrow> mut_close_on_error w; could_not w }
           else do {
             (ok, w) \<leftarrow> mut_close w;
             if \<not> ok then could_not w
             else do {
               let (e, w) = mut_log_close w;
               (status, w) \<leftarrow> mut_mem_close w;
               Some (EXIT_SUCCESS, w)
             }
           }
         }
       }) = Some (status, v)"
      using k Some by (auto elim!: bindE)
    define y where "y = (case i_mut_name info of None \<Rightarrow> x | Some n \<Rightarrow> mut_log_prog_name n x)"
    have "restored z x" using x ru log_file_restored by (auto split: option.splits)
    then have "restored z y" using prog_name_restored by (auto simp: y_def split: option.splits)
    then have y: "mem_wf y" "bts y = Map.empty" "mem_in_use y = {}"
      using z exec_only_bts [of z y] by (auto simp: restored_def)
    obtain ok t where t: "mut_open (files (hd (i_argv info))) (i_argv info) (i_flags info)
           (i_undesirable_suffix info) (i_usage_function info) y = Some (ok, t)" and
      k3: "(if \<not> ok then could_not t
         else do {
           (ok, w) \<leftarrow> mut_run t;
           if \<not> ok then do { w \<leftarrow> mut_close_on_error w; could_not w }
           else do {
             (ok, w) \<leftarrow> mut_close w;
             if \<not> ok then could_not w
             else do {
               let (e, w) = mut_log_close w;
               (status, w) \<leftarrow> mut_mem_close w;
               Some (EXIT_SUCCESS, w)
             }
           }
         }) = Some (status, v)"
      using k2 unfolding Let_def y_def [symmetric] by (auto elim!: bindE)
    note o = mut_open_result [OF y t]
    show ?thesis
    proof (cases ok)
      case False
      then show ?thesis using k3 o fail [of t] by simp
    next
      case True
      then have o': "core_inv (kept t) (\<lambda>_. 0) t" "exec_owned t" "foreign t = exec_blocks t"
        and ft: "ctl mut_control_free t = (i_flags info AND mut_control_free \<noteq> 0)" using o by simp_all
      have "i_flags info = flags_of (option_letters argv)" using process_args_result [OF u [unfolded Some]] by simp
      then have nf: "\<not> ctl mut_control_free t" using f ft by (simp add: no_free_letter)
      obtain ok' s where s: "mut_run t = Some (ok', s)" and
        k4: "(if \<not> ok' then do { w \<leftarrow> mut_close_on_error s; could_not w }
           else do {
             (ok, w) \<leftarrow> mut_close s;
             if \<not> ok then could_not w
             else do {
               let (e, w) = mut_log_close w;
               (status, w) \<leftarrow> mut_mem_close w;
               Some (EXIT_SUCCESS, w)
             }
           }) = Some (status, v)"
        using k3 True by (auto elim!: bindE)
      note rr = run_result [OF o' s nf]
      show ?thesis
      proof (cases ok')
        case False
        then obtain p where "mut_close_on_error s = Some p" "could_not p = Some (status, v)"
          using k4 by (auto elim!: bindE)
        with rr(3) [OF False] fail show ?thesis by blast
      next
        case True
        then obtain c p where p: "mut_close s = Some (c, p)" using k4 by (auto elim!: bindE)
        then have k5: "(if \<not> c then could_not p else do { (status, w) \<leftarrow> mut_mem_close p; Some (EXIT_SUCCESS, w) }) = Some (status, v)"
          using k4 True by (cases c) (simp_all add: mut_log_close_def Let_def)
        note closed = rr(2) [OF True p]
        then obtain st where q: "mut_mem_close p = Some (st, v)" using k5 by (auto elim!: bindE)
        have "c_heap v = Map.empty" using mut_mem_close_result [of p] closed q by auto
        moreover have "mem_in_use v = {}" using mem_only_close [OF q] closed by (simp add: mem_in_use_def)
        ultimately show ?thesis by simp
      qed
    qed
  qed
qed

end
