(* ===== verification/MutSession.thy ===== *)
theory MutSession
  imports MutMain
begin

text \<open>
  The program as a whole: what opening an executable and a complete run of \<open>main\<close> leave allocated, with a
  session that is evaluated from the bytes of the executable to the exit status.
\<close>

section \<open>The symbols of an executable\<close>

text \<open>The symbols that are entered for the entries of a symbol section, as a list.\<close>

definition is_func :: "mut_elf_sym \<Rightarrow> bool" where
  "is_func s \<longleftrightarrow> mut_elf_st_type (st_info s) = STT_FUNC"

definition symbol_addr :: "mut_elf_shdr option \<Rightarrow> nat \<Rightarrow> mut_elf_sym \<Rightarrow> u32" where
  "symbol_addr pl k s = (if st_value s = 0 then (case pl of None \<Rightarrow> 0 | Some h \<Rightarrow> sh_addr h + of_nat k * sh_addralign h) else st_value s)"

definition fun_entries :: "ptr \<Rightarrow> mut_elf_shdr option \<Rightarrow> nat \<Rightarrow> mut_elf_sym list \<Rightarrow> (u32 \<times> char_ptr) list" where
  "fun_entries d pl n ss = filter (\<lambda>(a, p). a \<noteq> 0)
     (map (\<lambda>(k, s). (symbol_addr pl k s, At d (unat (st_name s)))) (enumerate n (filter is_func ss)))"

lemma fun_entries_simps [simp]:
  "fun_entries d pl n [] = []"
  "fun_entries d pl n (s # ss) = (if is_func s
     then (if symbol_addr pl n s \<noteq> 0 then [(symbol_addr pl n s, At d (unat (st_name s)))] else []) @ fun_entries d pl (Suc n) ss
     else fun_entries d pl n ss)"
  by (simp_all add: fun_entries_def)

lemma cut_suffix_symtab: "cut_suffix suffix n w = Some v \<Longrightarrow> symtab (v :: 'a symtab_world_scheme) = symtab w"
  by (auto simp: cut_suffix_def heap_poke_def split: option.splits bind_splits char_ptr.splits)

lemma symbols_loop_names:
  "symbols_loop ss (of_nat n) strs suffix pl w = Some (True, v) \<Longrightarrow> symtab_sorted (symtab w) \<Longrightarrow>
   symtab_sorted (symtab v) \<and> symtab_names (symtab v) = map_of (fun_entries (es_data strs) pl n ss) ++ symtab_names (symtab w)"
proof (induction ss arbitrary: n w)
  case (Cons s ss)
  show ?case
  proof (cases "is_func s")
    case False
    then show ?thesis using Cons by (simp add: is_func_def)
  next
    case True
    let ?a = "symbol_addr pl n s" and ?p = "At (es_data strs) (unat (st_name s))"
    obtain u ok x where u: "cut_suffix suffix ?p w = Some u"
      and x: "(if ?a \<noteq> 0 then mut_exec_symtab_add_fun ?p ?a u else Some (True, u)) = Some (ok, x)"
      and rest: "ok" "symbols_loop ss (of_nat (Suc n)) strs suffix pl x = Some (True, v)"
      using Cons.prems(1) True
      by (auto simp: is_func_def symbol_addr_def mut_exec_strtab_lookup_def Let_def add.commute split: bind_splits if_splits option.splits)
    have su: "symtab u = symtab w" by (rule cut_suffix_symtab [OF u])
    have "symtab_sorted (symtab x) \<and> symtab_names (symtab x) =
        (if ?a \<noteq> 0 \<and> ?a \<notin> dom (symtab_names (symtab w)) then (symtab_names (symtab w))(?a \<mapsto> ?p) else symtab_names (symtab w))"
      using x rest(1) mut_exec_symtab_add_fun_result [of u ?p ?a ok x] Cons.prems(2) su by (auto split: if_splits)
    with Cons.IH [OF rest(2)] True show ?thesis by (auto simp: map_add_def fun_eq_iff split: option.splits)
  qed
qed simp

section \<open>A sample executable\<close>

definition sample_blocks :: "(ptr \<Rightarrow> u8 list option) \<Rightarrow> u32 \<Rightarrow> ptr" where
  "sample_blocks h n = (case filter (\<lambda>p. h p = None)
     [0x1000, 0x2000, 0x3000, 0x4000, 0x5000, 0x6000, 0x7000, 0x8000, 0x9000, 0xA000] of [] \<Rightarrow> 0 | p # _ \<Rightarrow> p)"

text \<open>
  The smallest file that is accepted: the header, the headers of its symbol table and of the one string
  table, the strings, and the symbol \<open>malloc\<close>.
\<close>

definition sample_strings :: "u8 list" where
  "sample_strings = [0, 0x2E, 0x73, 0x79, 0x6D, 0x74, 0x61, 0x62, 0, 0x6D, 0x61, 0x6C, 0x6C, 0x6F, 0x63, 0]"

definition sample_symbol :: "u8 list" where
  "sample_symbol = [9, 0, 0, 0, 0, 0x80, 0, 0, 0, 0, 0, 0, 0x12, 0, 0, 0]"

definition sample_ehdr :: "u8 list" where
  "sample_ehdr = [0x7F, 0x45, 0x4C, 0x46, 1, 1, 1, 0, 0, 0, 0, 0, 0, 0, 0, 0,
     2, 0, 3, 0, 1, 0, 0, 0, 0, 0, 0, 0, 0, 0, 0, 0,
     52, 0, 0, 0, 0, 0, 0, 0, 52, 0, 0, 0, 0, 0, 40, 0, 2, 0, 1, 0]"

definition sample_symtab_shdr :: "u8 list" where
  "sample_symtab_shdr = [1, 0, 0, 0, 2, 0, 0, 0, 0, 0, 0, 0, 0, 0, 0, 0, 148, 0, 0, 0, 16, 0, 0, 0,
     1, 0, 0, 0, 0, 0, 0, 0, 4, 0, 0, 0, 16, 0, 0, 0]"

definition sample_strtab_shdr :: "u8 list" where
  "sample_strtab_shdr = [0, 0, 0, 0, 3, 0, 0, 0, 0, 0, 0, 0, 0, 0, 0, 0, 132, 0, 0, 0, 16, 0, 0, 0,
     0, 0, 0, 0, 0, 0, 0, 0, 1, 0, 0, 0, 0, 0, 0, 0]"

definition sample_source :: source where
  "sample_source = \<lparr>s_bytes = sample_ehdr @ sample_symtab_shdr @ sample_strtab_shdr @ sample_strings @ sample_symbol,
     s_seek_fails = (\<lambda>_. False), s_read_fails = (\<lambda>_ _. False), s_close_fails = False, s_errno = id\<rparr>"

lemmas byte_simps = le16_def le32_def word_of_bytes_def

lemma sample_reads_elf:
  "libc_fread 0 sizeof_ehdr sample_source = Some sample_ehdr"
  "read_at 92 40 sample_source = Got sample_strtab_shdr"
  "libc_fseek 52 sample_source = Some 52"
  "libc_fread 52 40 sample_source = Some sample_symtab_shdr"
  "read_at 132 16 sample_source = Got sample_strings"
  "read_at 148 16 sample_source = Got sample_symbol"
  by (simp_all add: libc_fread_def read_at_def libc_fseek_def sample_source_def sizeof_ehdr_def sample_ehdr_def
      sample_symtab_shdr_def sample_strtab_shdr_def sample_strings_def sample_symbol_def)

lemma sample_close_ok: "\<not> s_close_fails sample_source"
  by (simp add: sample_source_def)

lemma sample_headers:
  "ehdr_of sample_ehdr = \<lparr>e_ident = [0x7F, 0x45, 0x4C, 0x46, 1, 1, 1, 0, 0, 0, 0, 0, 0, 0, 0, 0], e_type = 2, e_shoff = 52,
     e_shentsize = 40, e_shnum = 2, e_shstrndx = 1\<rparr>"
  "shdr_of sample_symtab_shdr = \<lparr>sh_name = 1, sh_type = 2, sh_addr = 0, sh_offset = 148, sh_size = 16, sh_link = 1,
     sh_addralign = 4, sh_entsize = 16\<rparr>"
  "shdr_of sample_strtab_shdr = \<lparr>sh_name = 0, sh_type = 3, sh_addr = 0, sh_offset = 132, sh_size = 16, sh_link = 0,
     sh_addralign = 1, sh_entsize = 0\<rparr>"
  "sym_of sample_symbol = \<lparr>st_name = 9, st_value = 0x8000, st_info = 0x12\<rparr>"
  by (simp_all add: ehdr_of_def shdr_of_def sym_of_def byte_simps sample_ehdr_def sample_symtab_shdr_def sample_strtab_shdr_def
      sample_symbol_def bit_simps)

text \<open>The state in which \<open>main\<close> opens it.\<close>

definition sample_start :: "'a \<Rightarrow> 'a exec_world_scheme" where
  "sample_start x = (sample_world (log_world_ext sample_log_state (symtab_world_ext \<lparr>st_head = [], st_cache = 0, st_end = 0\<rparr>
     (exec_world_ext (sample_exec\<lparr>has_full_symbols := None\<rparr>) x))))\<lparr>c_pick := sample_blocks\<rparr>"

definition sample_header :: mut_elf_ehdr where "sample_header = ehdr_of sample_ehdr"

definition sample_reader :: mut_exec_reader where
  "sample_reader = \<lparr>r_header = sample_header, r_slot = [], r_free = 0, r_strings = \<lparr>es_data = 0, es_size = 0\<rparr>,
                   r_dsymtab = None, r_symtab = None, r_stabs = None, r_plt = None, r_source = sample_source, r_file_name = ''a.out''\<rparr>"

lemma sample_checks:
  "mut_exec_check_id sample_reader w = Some (True, w)"
  "mut_exec_check_class sample_reader w = Some (True, w)"
  "mut_exec_check_type sample_reader w = Some (True, w)"
  by (simp_all add: mut_exec_check_id_def mut_exec_check_class_def mut_exec_check_type_def sample_reader_def sample_header_def
    sample_headers mut_elf_class_def ET_EXEC_def)

lemma sample_lengths [simp]:
  "length sample_ehdr = 52" "length sample_symtab_shdr = 40" "length sample_strtab_shdr = 40" "length sample_strings = 16"
  "length sample_symbol = 16" "length (indet_header t w) = 40"
  by (simp_all add: sample_ehdr_def sample_symtab_shdr_def sample_strtab_shdr_def sample_strings_def sample_symbol_def indet_header_def
      sizeof_shdr_def)

lemma header_fill_full: "length bs = length old \<Longrightarrow> header_fill old bs = Some bs"
  by (simp add: header_fill_def)

lemmas sample_mallocs = mut_mem__malloc_def libc_malloc_def sample_blocks_def Let_def sample_start_def sample_world_def
   sizeof_mut_mem_node_def mem_enter_def mut_mem_init_def heap_fill_def

definition sample_named :: "'a \<Rightarrow> 'a exec_world_scheme" where
  "sample_named x = snd (the (mut_exec_shstrtab_open sample_reader (sample_start x)))"

definition sample_reader1 :: mut_exec_reader where
  "sample_reader1 = sample_reader\<lparr>r_strings := \<lparr>es_data = 0x1000, es_size = 16\<rparr>\<rparr>"

lemma sample_named:
  "mut_exec_shstrtab_open sample_reader (sample_start x) = Some ((True, sample_reader1), sample_named x)"
  "c_heap (sample_named x) 0x1000 = Some sample_strings"
  by (simp_all add: mut_exec_shstrtab_open_def sample_named_def sample_reader1_def sample_reader_def sample_header_def sample_headers
     sample_reads_elf header_fill_full SHT_STRTAB_def sample_mallocs)

lemma sample_located:
  "c_heap w 0x1000 = Some sample_strings \<Longrightarrow> \<exists>r. mut_exec_locate_sections sample_reader1 w = Some ((True, r), w) \<and>
     r_symtab r = Some (shdr_of sample_symtab_shdr) \<and> r_dsymtab r = None \<and> r_stabs r = None \<and> r_header r = sample_header \<and>
     r_source r = sample_source \<and> r_file_name r = ''a.out'' \<and> r_strings r = \<lparr>es_data = 0x1000, es_size = 16\<rparr>"
  by (simp add: mut_exec_locate_sections_def sample_reader1_def sample_reader_def sample_header_def sample_headers sample_reads_elf
    header_fill_full mut_exec_reader_sections_max_def locate_section_def Let_def SHT_DYNSYM_def SHT_SYMTAB_def take_slot_def
    mut_exec_shstrtab_lookup_def string_at_def sample_strings_def char_of_def bit_simps)

text \<open>The state after opening: the string table and the one function.\<close>

definition sample_store :: mem where
  "sample_store =
     \<lparr>in_use =
        [\<lparr>mn_self = 0x8000, mn_addr = 0x7000, mn_bytes = 24, mn_malloc = \<lparr>line = 49, file_name = Some symtab_file\<rparr>,
          mn_free = \<lparr>line = 0, file_name = None\<rparr>\<rparr>,
         \<lparr>mn_self = 0x4000, mn_addr = 0x3000, mn_bytes = 16, mn_malloc = \<lparr>line = 207, file_name = Some exec_file\<rparr>,
          mn_free = \<lparr>line = 0, file_name = None\<rparr>\<rparr>],
      freed =
        [\<lparr>mn_self = 0x2000, mn_addr = 0x1000, mn_bytes = 16, mn_malloc = \<lparr>line = 574, file_name = Some exec_file\<rparr>,
          mn_free = \<lparr>line = 612, file_name = Some exec_file\<rparr>\<rparr>,
         \<lparr>mn_self = 0x6000, mn_addr = 0x5000, mn_bytes = 16, mn_malloc = \<lparr>line = 289, file_name = Some exec_file\<rparr>,
          mn_free = \<lparr>line = 322, file_name = Some exec_file\<rparr>\<rparr>],
      n_bytes_allocated = 72, n_bytes_in_use = 40, n_blocks_in_use = 2, max_bytes_in_use = 72, max_blocks_in_use = 4,
      n_malloc = 4, n_realloc = 0, n_realloc0 = 0, n_free = 2, n_free0 = 0, mem_log = Stderr, mem_report = None\<rparr>"

definition sample_heap :: "ptr \<rightharpoonup> u8 list" where
  "sample_heap = [0x2000 \<mapsto> replicate 28 0, 0x4000 \<mapsto> replicate 28 0, 0x3000 \<mapsto> sample_strings, 0x6000 \<mapsto> replicate 28 0,
     0x7000 \<mapsto> replicate 24 0, 0x8000 \<mapsto> replicate 28 0, 0x5000 \<mapsto> replicate 16 0xAA, 0x1000 \<mapsto> replicate 16 0xAA]"

definition sample_opened :: "'a \<Rightarrow> 'a exec_world_scheme" where
  "sample_opened x = (sample_start x)\<lparr>c_heap := sample_heap, store := sample_store,
     symtab := \<lparr>st_head = [\<lparr>sf_self = 0x7000, fun_name = At 0x3000 9, fun_start_addr = 0x8000, fun_file_name = Indeterminate,
       fun_lines = []\<rparr>], st_cache = 0, st_end = 0\<rparr>,
     exec := \<lparr>strtab = \<lparr>es_data = 0x3000, es_size = 16\<rparr>, dynstr = \<lparr>es_data = 0, es_size = 0\<rparr>,
       stabstr = \<lparr>es_data = 0, es_size = 0\<rparr>, has_full_symbols = Some True\<rparr>\<rparr>"

lemma sample_fill: "map (\<lambda>_. 0) [0..<n] = replicate n 0"
  by (simp add: map_replicate_const)

lemma sample_open_sections:
  "r_symtab r = Some (shdr_of sample_symtab_shdr) \<Longrightarrow> r_dsymtab r = None \<Longrightarrow> r_stabs r = None \<Longrightarrow> r_header r = sample_header \<Longrightarrow>
   r_source r = sample_source \<Longrightarrow> r_strings r = \<lparr>es_data = 0x1000, es_size = 16\<rparr> \<Longrightarrow>
   read_sections r (Some ''@@GLIBC_2.0'') (sample_named x) = Some (True, sample_opened x)"
  by (simp add: read_sections_def open_symtab_def open_dynsym_def open_stabs_def close_source_def mut_exec_strtab_open_def
    mut_exec_extract_symbols_def sample_named_def mut_exec_shstrtab_open_def sample_reader_def sample_header_def sample_headers
    sample_reads_elf header_fill_full SHT_STRTAB_def sample_mallocs set_exec_def mut_exec_symtab_open_def sizeof_shdr_def sizeof_sym_def
    sample_exec_def sample_close_ok symbols_loop.simps mut_elf_st_type_def STT_FUNC_def mut_exec_strtab_lookup_def cut_suffix_def
    string_at_def sample_strings_def char_of_def bit_simps mem_retire_def mut_exec_symtab_add_fun_def mut_exec_symtab_fun_open_def
    sizeof_mut_exec_symtab_fun_def mut_mem__free_def libc_memset_def mut_exec_shstrtab_close_def sample_opened_def sample_heap_def
    sample_store_def sample_fill)

lemma sample_exec_open:
  "mut_exec_open sample_source ''a.out'' (Some ''@@GLIBC_2.0'') (sample_start x) = Some (True, sample_opened x)"
proof -
  obtain r where "mut_exec_locate_sections sample_reader1 (sample_named x) = Some ((True, r), sample_named x)"
    "r_symtab r = Some (shdr_of sample_symtab_shdr)" "r_dsymtab r = None" "r_stabs r = None" "r_header r = sample_header"
    "r_source r = sample_source" "r_strings r = \<lparr>es_data = 0x1000, es_size = 16\<rparr>"
    using sample_located [OF sample_named(2) [of x]] by blast
  moreover have "\<not> c_fopen_fails (sample_start x) ''a.out''" by (simp add: sample_start_def sample_world_def)
  ultimately show ?thesis
    by (simp add: mut_exec_open_def sample_reads_elf sample_reader_def [symmetric] sample_header_def [symmetric] Let_def
        sample_checks sample_named(1) sample_open_sections)
qed

section \<open>A sample session\<close>

text \<open>A target that stops at its start, and ends when it is continued.\<close>

definition sample_target :: "bool child" where
  "sample_target = \<lparr>regs = regs sample_child, cmem = (\<lambda>_. Some 0), prog = False\<rparr>"

definition sample_system :: "bool os" where
  "sample_system = \<lparr>os_continue = (\<lambda>c sig. Some (c\<lparr>prog := True\<rparr>)),
     os_wait = (\<lambda>c. (Wait_status (if prog c then 0 else 0x57f), c)), os_kill = Some,
     os_fork = (\<lambda>_. Some (7, sample_target)), os_traceme_fails = False, os_execv_fails = False, os_peek_clears_errno = True\<rparr>"

definition sample_machine :: "'a \<Rightarrow> (bool, 'a) mut_world_scheme" where
  "sample_machine x = sample_start (bt_world_ext Map.empty (res_world_ext
     \<lparr>elems = [], really_free = False, n_active_elems = 0, n_consumed_elems = 0\<rparr>
     (proc_world_ext \<lparr>p_child = 0, p_status = Status_exited, p_pc = 0\<rparr> sample_target sample_system
       (mut_world_ext (\<lambda>_. sample_action) [] 0 sample_stats x))))"

definition sample_named_actions :: "mut_action_id \<Rightarrow> mut_action" where
  "sample_named_actions = (\<lambda>_. sample_action)
     (Act_malloc := sample_action\<lparr>a_addr := 0x8000\<rparr>, Act_calloc := sample_action\<lparr>a_type := Type_calloc, a_name := ''calloc''\<rparr>,
      Act_realloc := sample_action\<lparr>a_type := Type_realloc, a_name := ''realloc''\<rparr>,
      Act_free := sample_action\<lparr>a_type := Type_consumer, a_name := ''free''\<rparr>,
      Act_cfree := sample_action\<lparr>a_type := Type_consumer, a_name := ''cfree''\<rparr>)"

text \<open>The target stopped at its first instruction, with a breakpoint at \<open>malloc\<close>.\<close>

definition sample_session :: "(bool, unit) mut_world_scheme" where
  "sample_session = (sample_opened (bt_world_ext Map.empty (res_world_ext
     \<lparr>elems = [], really_free = False, n_active_elems = 0, n_consumed_elems = 0\<rparr>
     (proc_world_ext \<lparr>p_child = 7, p_status = Status_stopped, p_pc = 0x1001\<rparr>
       (sample_target\<lparr>cmem := put_word 0x8000 mut_instr_bp (\<lambda>_. Some 0)\<rparr>) sample_system
       (mut_world_ext sample_named_actions [Act_malloc] 0 zero_stats ())))))"

lemma sample_mut_open:
  "mut_open sample_source [''a.out''] 0 (Some ''@@GLIBC_2.0'') None (sample_machine ()) = Some (True, sample_session)"
  by (simp only: sample_machine_def mut_open_def list.sel sample_exec_open try_ok_Some if_True, simp add: try_ok_def sample_action_def
    sample_opened_def sample_start_def sample_world_def mut_process_open_def sample_system_def set_status_def mut_trace_open_def
    WIFEXITED_def WIFSIGNALED_def WIFSTOPPED_def WTERMSIG_def mut_process_read_pc_def mut_trace_read_reg_def ptrace_peek_def
    sample_target_def p_stopped_def set_pc_def when_c_def ctl_def Let_def mut_manage_actions_def mut_manage_action_def
    name_action_def type_action_def set_action_def mut_exec_functions_addr.simps mut_exec_symtab_lookup_name_def string_at_def
    sample_heap_def sample_strings_def char_of_def bit_simps mut_actions_enter_def mut_process_breakpoint_def
    mut_trace_read_text_def mut_trace_write_text_def try_c_def fail_c_def read_word_def write_word_def mut_resources_open_def
    word_of_bytes_def sample_session_def sample_named_actions_def fun_eq_iff)

definition sample_over :: "(bool, unit) mut_world_scheme" where
  "sample_over = set_status Status_exited (log_emit (log_line ''mut'' Info ''process.exited'' [LInt 0])
     (sample_session\<lparr>child := (child (set_reg mut_process_arch_regs_eip 0x1001 sample_session))\<lparr>prog := True\<rparr>\<rparr>))"

lemma sample_session_facts:
  "clean sample_session" "log_idle sample_session" "writes_ok sample_session" "p_stopped sample_session"
  "os sample_session = sample_system" "p_pc (process sample_session) = 0x1001" "regs (child sample_session) = regs sample_child"
  "program_name (the_log sample_session) = ''mut''"
  by (simp_all add: sample_session_def sample_opened_def sample_start_def sample_world_def clean_def log_idle_def writes_ok_def
    p_stopped_def sample_log_state_def sample_target_def sample_system_def)

lemma sample_session_run: "mut_run sample_session = Some (True, sample_over)"
proof -
  let ?c = "(child (set_reg mut_process_arch_regs_eip (p_pc (process sample_session)) sample_session))\<lparr>prog := True\<rparr>"
  let ?w = "set_status Status_running (sample_session\<lparr>child := ?c\<rparr>)"
  have 1: "mut_process_resume sample_session = Some (True, ?w)"
    by (rule resume_ok [where y = "0x1001"]) (simp_all add: sample_session_facts sample_system_def)
  have s: "signals_then (os ?w) (child ?w) [] (Wait_status 0) ?c"
    by (intro signals_then.now) (simp add: set_status_def sample_session_facts sample_system_def)
  have 2: "mut_process_wait ?w = Some ((-1, None), sample_over)"
    using mut_process_wait_outcome [OF s] sample_session_facts
    by (simp add: WIFEXITED_def WEXITSTATUS_def WTERMSIG_def set_status_def clean_def log_idle_def writes_ok_def sample_over_def log_emit_def)
  show ?thesis by (simp add: mut_run.simps [of sample_session] run_round_def 1 2)
qed

lemma sample_session_close:
  "\<exists>u s v. mut_close sample_over = Some (True, u) \<and> mut_mem_close u = Some (s, v)"
  by (simp add: mut_close_def mut_log_leaks_def mut_resources_iter_open_def iter_loop.simps sample_over_def log_emit_def set_status_def
    sample_session_def sample_opened_def sample_start_def sample_world_def sample_heap_def sample_store_def
    mut_resources_iter_read_def when_c_def ctl_def mut_resources_close_def mut_process_close_def mut_exec_close_def
    mut_trace_close_def mut_exec_symtab_close_def mut_exec_strtab_close_def mut_mem__free_def mem_retire_def libc_memset_def Let_def
    mut_mem_close_def libc_free_def libc_fput_def)

lemma sample_main:
  "\<exists>v. main (\<lambda>_. sample_source) [''mut'', ''a.out''] (sample_machine ()) = Some (EXIT_SUCCESS, v)"
proof -
  obtain u s v where c: "mut_close sample_over = Some (True, u)" "mut_mem_close u = Some (s, v)"
    using sample_session_close by blast
  have z: "set_exec (\<lambda>e. e\<lparr>has_full_symbols := None\<rparr>) (mut_log_open ''mut'' (mut_mem_open ((sample_machine ())\<lparr>store := mut_mem_init\<rparr>))) =
      sample_machine ()"
    by (simp add: set_exec_def mut_log_open_def mut_mem_open_def sample_machine_def sample_start_def sample_world_def
        sample_log_state_def sample_exec_def)
  show ?thesis
    unfolding main_def Let_def list.sel z
    by (simp add: mut_ui_process_args_def sample_mut_open sample_session_run c mut_log_close_def)
qed

section \<open>Properties\<close>

text \<open>
  C7: Opening an executable is all or nothing. When it succeeds, the string tables and the symbol
  table are new blocks, each owned once, and nothing else is left allocated; when it
  fails, on any of its paths, exactly the blocks that were in use before are in use.
\<close>

theorem mut_exec_open_all_or_nothing:
  assumes "mem_wf w" and "mut_exec_open src file suffix w = Some (ok, v)"
  shows "mem_wf v \<and> (if ok then exec_owned v \<and> symtab_sorted (symtab v) \<and> mem_in_use w \<inter> exec_blocks v = {} \<and>
      mem_in_use v = mem_in_use w \<union> exec_blocks v
    else mem_in_use v = mem_in_use w)"
  using wheneverD [OF mut_exec_open_all [OF assms(1)] assms(2)]
  by (auto simp: all_or_nothing_def opened_def restored_def split: if_splits)


lemma mut_exec_open_all_or_nothing_witness:
  "mem_in_use (sample_opened ()) = exec_blocks (sample_opened ()) \<and> exec_owned (sample_opened ())"
proof -
  have "mem_in_use (sample_start ()) = {}" "mem_wf (sample_start ())"
    by (simp_all add: sample_start_def sample_world_def mem_in_use_def mut_mem_init_def mem_wf_def mem_defs malloc_fresh_def sample_blocks_def)
  then show ?thesis using mut_exec_open_all_or_nothing [OF _ sample_exec_open, of "()"] by simp
qed

text \<open>
  C10: Reading the symbols of a section adds the functions among them, numbered from 1, to the table: the first entry for an
  address stays, and a function without an address gets that of its entry in the procedure linkage table, if there is one.
\<close>

theorem symbols_loop_adds_functions:
  assumes "symbols_loop ss 1 strs suffix pl w = Some (True, v)" and "symtab_sorted (symtab w)"
  shows "symtab_sorted (symtab v) \<and>
    symtab_names (symtab v) = map_of (fun_entries (es_data strs) pl 1 ss) ++ symtab_names (symtab w)"
  using symbols_loop_names [of ss 1 strs suffix pl w v] assms by simp

lemma symbols_loop_adds_functions_witness:
  "\<exists>v. symbols_loop [\<lparr>st_name = 9, st_value = 0x8000, st_info = 0x12\<rparr>, \<lparr>st_name = 5, st_value = 0, st_info = 0x11\<rparr>,
       \<lparr>st_name = 1, st_value = 0, st_info = 0x12\<rparr>] 1 \<lparr>es_data = 0x3000, es_size = 16\<rparr> None
       (Some \<lparr>sh_name = 0, sh_type = 1, sh_addr = 0x7000, sh_offset = 0, sh_size = 64, sh_link = 0, sh_addralign = 16, sh_entsize = 0\<rparr>)
       (mut_exec_symtab_open sample_symtab0) = Some (True, v) \<and>
     symtab_names (symtab v) = [0x7020 \<mapsto> At 0x3000 1, 0x8000 \<mapsto> At 0x3000 9]"
proof -
  let ?pl = "Some \<lparr>sh_name = 0, sh_type = 1, sh_addr = 0x7000, sh_offset = 0, sh_size = 64, sh_link = 0, sh_addralign = 16, sh_entsize = 0\<rparr>"
  let ?ss = "[\<lparr>st_name = 9, st_value = 0x8000, st_info = 0x12\<rparr>, \<lparr>st_name = 5, st_value = 0, st_info = 0x11\<rparr>,
       \<lparr>st_name = 1, st_value = 0, st_info = 0x12\<rparr>]"
  obtain v where v: "symbols_loop ?ss 1 \<lparr>es_data = 0x3000, es_size = 16\<rparr> None ?pl (mut_exec_symtab_open sample_symtab0) = Some (True, v)"
    by (simp add: symbols_loop.simps mut_elf_st_type_def STT_FUNC_def mut_exec_strtab_lookup_def cut_suffix_def sample_symtab_defs)
  have "symtab_sorted (symtab (mut_exec_symtab_open sample_symtab0))" "symtab_names (symtab (mut_exec_symtab_open sample_symtab0)) = Map.empty"
    by (simp_all add: mut_exec_symtab_open_def symtab_sorted_def symtab_names_def)
  then have "symtab_names (symtab v) = [0x7020 \<mapsto> At 0x3000 1, 0x8000 \<mapsto> At 0x3000 9]"
    using symbols_loop_adds_functions [OF v] by (simp add: is_func_def mut_elf_st_type_def STT_FUNC_def symbol_addr_def)
  with v show ?thesis by blast
qed

text \<open>
  C11: The command line: the flags are exactly those of the letters given, in any order and any number of times,
  where an option with a value is not a list of letters; what is run starts with the first argument that
  is not an option.
\<close>

theorem mut_ui_process_args_flags:
  assumes "mut_ui_process_args info argv w = Some (Some info', v)"
  shows "i_flags info' = i_flags info OR flags_of (option_letters argv) \<and>
    i_argv info' = dropWhile is_option (tl argv) \<and> i_argv info' \<noteq> []"
  using assms by (rule process_args_result)

lemma mut_ui_process_args_flags_witness:
  "\<exists>info v. mut_ui_process_args \<lparr>i_argv = [], i_log_file_name = None, i_mut_name = None, i_flags = 0,
       i_undesirable_suffix = None, i_usage_function = None\<rparr> [''mut'', ''-bs'', ''-ofile'', ''-z'', ''a.out'', ''-f''] sample_log = Some (Some info, v) \<and>
     i_flags info = 0x1A \<and> i_argv info = [''a.out'', ''-f'']"
proof -
  obtain info v where r: "mut_ui_process_args \<lparr>i_argv = [], i_log_file_name = None, i_mut_name = None, i_flags = 0,
       i_undesirable_suffix = None, i_usage_function = None\<rparr> [''mut'', ''-bs'', ''-ofile'', ''-z'', ''a.out'', ''-f''] sample_log = Some (Some info, v)"
    by (simp add: mut_ui_process_args_def)
  from mut_ui_process_args_flags [OF this] have "i_flags info = 0x1A \<and> i_argv info = [''a.out'', ''-f'']"
    by (simp add: option_letters_def is_option_def letters_of_def flag_of_def mut_control_backtrace_def mut_control_stats_def mut_control_zero_def)
  with r show ?thesis by blast
qed

text \<open>
  C4: The whole program, without the option that frees memory for real: however it ends, nothing is left in its
  heap, and when it ends successfully, every block had already been released before the last check for leaks.
\<close>

theorem main_releases_everything:
  assumes "malloc_fresh w" and "c_heap w = Map.empty" and "bts w = Map.empty"
    and "main files argv w = Some (status, v)" and "CHR ''f'' \<notin> set (option_letters argv)"
  shows "c_heap v = Map.empty \<and> (status = EXIT_SUCCESS \<longrightarrow> mem_in_use v = {})"
  using assms by (rule main_result)

lemma main_releases_everything_witness:
  "\<exists>v. main (\<lambda>_. sample_source) [''mut'', ''a.out''] (sample_machine ()) = Some (EXIT_SUCCESS, v) \<and> mem_in_use v = {}"
proof -
  obtain v where v: "main (\<lambda>_. sample_source) [''mut'', ''a.out''] (sample_machine ()) = Some (EXIT_SUCCESS, v)"
    using sample_main by blast
  have "malloc_fresh (sample_machine ())" "c_heap (sample_machine ()) = Map.empty" "bts (sample_machine ()) = Map.empty"
    by (simp_all add: sample_machine_def sample_start_def sample_world_def malloc_fresh_def sample_blocks_def)
  then have "mem_in_use v = {}"
    using main_releases_everything [OF _ _ _ v] by (simp add: option_letters_def is_option_def)
  with v show ?thesis by blast
qed

end
