(* ===== verification/MutSparc.thy ===== *)
theory MutSparc
  imports MutProcess
begin

text \<open>
  The SPARC as the machine of the target, src/src/proc/ptrace/arch/sparc/mut_process_arch.c with the headers
  of src/src/arch/sparc, and the access to registers on the BSD systems, of which a single one cannot be read: arch/sparc/os/bsd/mut_trace_arch.c
  and arch/x86/os/bsd/mut_trace_arch.c. The one of Solaris has the text of that of Linux. Which
  of the two systems MUT is built for is an argument.

  The registers of a child are numbered as in the \<open>sys/reg.h\<close> of Solaris and of Linux.
\<close>

section \<open>Register sets\<close>

datatype sparc_os = Solaris | BSD

text \<open>The part of \<open>struct reg\<close> that is used; the rest goes back as it came.\<close>

record sparc_reg =
  r_pc :: u32
  r_npc :: u32
  r_out :: "u32 list"

record x86_reg =
  r_eax :: u32
  r_ebp :: u32
  r_eip :: u32
  r_esp :: u32

text \<open>The requests \<open>PT_GETREGS\<close> and \<open>PT_SETREGS\<close>. They fail when the child does not have the registers.\<close>

definition sparc_getregs :: "'p child \<Rightarrow> sparc_reg option" where
  "sparc_getregs c = do {
     pc \<leftarrow> regs c 1;
     npc \<leftarrow> regs c 2;
     out \<leftarrow> those (map (\<lambda>i. regs c (11 + i)) [0, 1, 2, 3, 4, 5, 6, 7]);
     Some \<lparr>r_pc = pc, r_npc = npc, r_out = out\<rparr>
   }"

definition sparc_setregs :: "sparc_reg \<Rightarrow> 'p child \<Rightarrow> 'p child option" where
  "sparc_setregs rs c =
     (if sparc_getregs c = None then None
      else Some (c\<lparr>regs := \<lambda>r. if r = 1 then Some (r_pc rs) else if r = 2 then Some (r_npc rs)
        else if 11 \<le> r \<and> r \<le> 18 then Some (r_out rs ! unat (r - 11)) else regs c r\<rparr>))"

definition x86_getregs :: "'p child \<Rightarrow> x86_reg option" where
  "x86_getregs c = do {
     eax \<leftarrow> regs c mut_process_arch_regs_eax;
     ebp \<leftarrow> regs c mut_process_arch_regs_ebp;
     eip \<leftarrow> regs c mut_process_arch_regs_eip;
     esp \<leftarrow> regs c mut_process_arch_regs_esp;
     Some \<lparr>r_eax = eax, r_ebp = ebp, r_eip = eip, r_esp = esp\<rparr>
   }"

definition x86_setregs :: "x86_reg \<Rightarrow> 'p child \<Rightarrow> 'p child option" where
  "x86_setregs rs c =
     (if x86_getregs c = None then None
      else Some (c\<lparr>regs := (regs c)(mut_process_arch_regs_eax \<mapsto> r_eax rs, mut_process_arch_regs_ebp \<mapsto> r_ebp rs,
        mut_process_arch_regs_eip \<mapsto> r_eip rs, mut_process_arch_regs_esp \<mapsto> r_esp rs)\<rparr>))"

section \<open>Registers on BSD\<close>

text \<open>The numbers of \<open>mut_process_arch_regs.h\<close>: made up on BSD, those of the system on Solaris.\<close>

fun sparc_regs_pc :: "sparc_os \<Rightarrow> u32" where
  "sparc_regs_pc BSD = 1"
| "sparc_regs_pc Solaris = 1"

fun sparc_regs_npc :: "sparc_os \<Rightarrow> u32" where
  "sparc_regs_npc BSD = 2"
| "sparc_regs_npc Solaris = 2"

fun sparc_regs_o0 :: "sparc_os \<Rightarrow> u32" where
  "sparc_regs_o0 BSD = 3"
| "sparc_regs_o0 Solaris = 11"

fun sparc_regs_o6 :: "sparc_os \<Rightarrow> u32" where
  "sparc_regs_o6 BSD = 4"
| "sparc_regs_o6 Solaris = 17"

fun sparc_regs_o7 :: "sparc_os \<Rightarrow> u32" where
  "sparc_regs_o7 BSD = 5"
| "sparc_regs_o7 Solaris = 18"

text \<open>The two \<open>switch\<close> statements, with \<open>mut_assert(0)\<close> for every other number.\<close>

definition sparc_bsd_get :: "u32 \<Rightarrow> sparc_reg \<Rightarrow> u32 option" where
  "sparc_bsd_get reg rs =
     (if reg = sparc_regs_pc BSD then Some (r_pc rs)
      else if reg = sparc_regs_npc BSD then Some (r_npc rs)
      else if reg = sparc_regs_o0 BSD then Some (r_out rs ! 0)
      else if reg = sparc_regs_o6 BSD then Some (r_out rs ! 6)
      else if reg = sparc_regs_o7 BSD then Some (r_out rs ! 7)
      else None)"

definition sparc_bsd_set :: "u32 \<Rightarrow> u32 \<Rightarrow> sparc_reg \<Rightarrow> sparc_reg option" where
  "sparc_bsd_set reg v rs =
     (if reg = sparc_regs_pc BSD then Some (rs\<lparr>r_pc := v\<rparr>)
      else if reg = sparc_regs_npc BSD then Some (rs\<lparr>r_npc := v\<rparr>)
      else if reg = sparc_regs_o0 BSD then Some (rs\<lparr>r_out := (r_out rs)[0 := v]\<rparr>)
      else if reg = sparc_regs_o6 BSD then Some (rs\<lparr>r_out := (r_out rs)[6 := v]\<rparr>)
      else if reg = sparc_regs_o7 BSD then Some (rs\<lparr>r_out := (r_out rs)[7 := v]\<rparr>)
      else None)"

definition sparc_bsd_read_reg ::
  "u32 \<Rightarrow> ('p, 'a) proc_world_scheme \<Rightarrow> (u32 option \<times> ('p, 'a) proc_world_scheme) option" where
  "sparc_bsd_read_reg reg w =
     (case sparc_getregs (child w) of
        None \<Rightarrow> do {
          w \<leftarrow> trace_failure ''ptrace.peek.user'' (w\<lparr>c_errno := EIO\<rparr>) (mut_log_uint reg);
          Some (None, w)
        }
      | Some rs \<Rightarrow> do { v \<leftarrow> sparc_bsd_get reg rs; Some (Some v, w) })"

definition sparc_bsd_write_reg ::
  "u32 \<Rightarrow> u32 \<Rightarrow> ('p, 'a) proc_world_scheme \<Rightarrow> (bool \<times> ('p, 'a) proc_world_scheme) option" where
  "sparc_bsd_write_reg reg value w =
     (case sparc_getregs (child w) of
        None \<Rightarrow> do {
          w \<leftarrow> trace_failure ''ptrace.peek.user'' (w\<lparr>c_errno := EIO\<rparr>) (mut_log_uint reg);
          Some (False, w)
        }
      | Some rs \<Rightarrow> do {
          rs \<leftarrow> sparc_bsd_set reg value rs;
          case sparc_setregs rs (child w) of
            None \<Rightarrow> do {
              w \<leftarrow> trace_failure ''ptrace.poke.reg'' (w\<lparr>c_errno := EIO\<rparr>) (mut_log_uint reg);
              Some (False, w)
            }
          | Some c \<Rightarrow> Some (True, w\<lparr>child := c\<rparr>)
        })"

definition x86_bsd_get :: "u32 \<Rightarrow> x86_reg \<Rightarrow> u32 option" where
  "x86_bsd_get reg rs =
     (if reg = mut_process_arch_regs_eax then Some (r_eax rs)
      else if reg = mut_process_arch_regs_ebp then Some (r_ebp rs)
      else if reg = mut_process_arch_regs_eip then Some (r_eip rs)
      else if reg = mut_process_arch_regs_esp then Some (r_esp rs)
      else None)"

definition x86_bsd_set :: "u32 \<Rightarrow> u32 \<Rightarrow> x86_reg \<Rightarrow> x86_reg option" where
  "x86_bsd_set reg v rs =
     (if reg = mut_process_arch_regs_eax then Some (rs\<lparr>r_eax := v\<rparr>)
      else if reg = mut_process_arch_regs_ebp then Some (rs\<lparr>r_ebp := v\<rparr>)
      else if reg = mut_process_arch_regs_eip then Some (rs\<lparr>r_eip := v\<rparr>)
      else if reg = mut_process_arch_regs_esp then Some (rs\<lparr>r_esp := v\<rparr>)
      else None)"

definition x86_bsd_read_reg ::
  "u32 \<Rightarrow> ('p, 'a) proc_world_scheme \<Rightarrow> (u32 option \<times> ('p, 'a) proc_world_scheme) option" where
  "x86_bsd_read_reg reg w =
     (case x86_getregs (child w) of
        None \<Rightarrow> do {
          w \<leftarrow> trace_failure ''ptrace.peek.user'' (w\<lparr>c_errno := EIO\<rparr>) (mut_log_uint reg);
          Some (None, w)
        }
      | Some rs \<Rightarrow> do { v \<leftarrow> x86_bsd_get reg rs; Some (Some v, w) })"

definition x86_bsd_write_reg ::
  "u32 \<Rightarrow> u32 \<Rightarrow> ('p, 'a) proc_world_scheme \<Rightarrow> (bool \<times> ('p, 'a) proc_world_scheme) option" where
  "x86_bsd_write_reg reg value w =
     (case x86_getregs (child w) of
        None \<Rightarrow> do {
          w \<leftarrow> trace_failure ''ptrace.peek.user'' (w\<lparr>c_errno := EIO\<rparr>) (mut_log_uint reg);
          Some (False, w)
        }
      | Some rs \<Rightarrow> do {
          rs \<leftarrow> x86_bsd_set reg value rs;
          case x86_setregs rs (child w) of
            None \<Rightarrow> do {
              w \<leftarrow> trace_failure ''ptrace.poke.reg'' (w\<lparr>c_errno := EIO\<rparr>) (mut_log_uint reg);
              Some (False, w)
            }
          | Some c \<Rightarrow> Some (True, w\<lparr>child := c\<rparr>)
        })"

text \<open>The wrappers a build for the SPARC is linked with.\<close>

fun sparc_read_reg ::
  "sparc_os \<Rightarrow> u32 \<Rightarrow> ('p, 'a) proc_world_scheme \<Rightarrow> (u32 option \<times> ('p, 'a) proc_world_scheme) option" where
  "sparc_read_reg Solaris reg w = mut_trace_read_reg reg w"
| "sparc_read_reg BSD reg w = sparc_bsd_read_reg reg w"

fun sparc_write_reg ::
  "sparc_os \<Rightarrow> u32 \<Rightarrow> u32 \<Rightarrow> ('p, 'a) proc_world_scheme \<Rightarrow> (bool \<times> ('p, 'a) proc_world_scheme) option" where
  "sparc_write_reg Solaris reg value w = mut_trace_write_reg reg value w"
| "sparc_write_reg BSD reg value w = sparc_bsd_write_reg reg value w"

section \<open>The process on a SPARC\<close>

definition sparc_instr_bytes :: u32 where "sparc_instr_bytes = 4"
definition sparc_reg_size :: u32 where "sparc_reg_size = 4"
definition sparc_pc_adjust :: "u32 \<Rightarrow> u32" where "sparc_pc_adjust pc = pc"
definition sparc_n_arg_regs :: u32 where "sparc_n_arg_regs = 6"

definition sparc_is_dynamic_link ::
  "u32 \<Rightarrow> ('p, 'a) proc_world_scheme \<Rightarrow> (int \<times> ('p, 'a) proc_world_scheme) option" where
  "sparc_is_dynamic_link pc w = do {
     let prev_addr = pc - sparc_instr_bytes;
     (prev_instr, w) \<leftarrow> mut_trace_read_text prev_addr w;
     case prev_instr of
       None \<Rightarrow> Some (-1, w)
     | Some prev_instr \<Rightarrow> Some (if prev_instr AND 0xfffff000 = 0x81c06000 then 1 else 0, w)
   }"

definition sparc_read_pc ::
  "sparc_os \<Rightarrow> ('p, 'a) proc_world_scheme \<Rightarrow> ((int \<times> u32 option) \<times> ('p, 'a) proc_world_scheme) option" where
  "sparc_read_pc sys w = do {
     assert_c (p_stopped w);
     (pc_reg, w) \<leftarrow> sparc_read_reg sys (sparc_regs_pc sys) w;
     case pc_reg of None \<Rightarrow> Some ((0, None), w) | Some pc_reg \<Rightarrow> do {
     (npc_reg, w) \<leftarrow> sparc_read_reg sys (sparc_regs_npc sys) w;
     case npc_reg of None \<Rightarrow> Some ((0, None), w) | Some npc_reg \<Rightarrow>
     if npc_reg \<noteq> pc_reg + sparc_instr_bytes then do {
       (xxx, w) \<leftarrow> sparc_is_dynamic_link pc_reg w;
       if xxx < 0 then Some ((0, None), w)
       else if xxx > 0 then do {
         let pc_reg = npc_reg;
         let npc_reg = npc_reg + sparc_instr_bytes;
         (ok, w) \<leftarrow> sparc_write_reg sys (sparc_regs_pc sys) pc_reg w;
         if \<not> ok then Some ((0, None), w)
         else do {
           (ok, w) \<leftarrow> sparc_write_reg sys (sparc_regs_npc sys) npc_reg w;
           if \<not> ok then Some ((0, None), w) else Some ((-1, None), w)
         }
       }
       else do {
         w \<leftarrow> mut_log_info ''sparc.pc'' w;
         w \<leftarrow> mut_log_uint_hex pc_reg w;
         w \<leftarrow> mut_log_uint_hex npc_reg w;
         (ok, w) \<leftarrow> mut_log_end w;
         Some ((1, Some pc_reg), w)
       }
     }
     else Some ((1, Some pc_reg), w)
     }
   }"

definition sparc_write_pc ::
  "sparc_os \<Rightarrow> u32 \<Rightarrow> ('p, 'a) proc_world_scheme \<Rightarrow> (bool \<times> ('p, 'a) proc_world_scheme) option" where
  "sparc_write_pc sys addr w = do {
     let pc = addr;
     let npc = pc + 4;
     assert_c (p_stopped w);
     (ok, w) \<leftarrow> sparc_write_reg sys (sparc_regs_pc sys) pc w;
     if \<not> ok then Some (False, w) else sparc_write_reg sys (sparc_regs_npc sys) npc w
   }"

definition sparc_read_arg ::
  "sparc_os \<Rightarrow> u32 \<Rightarrow> ('p, 'a) proc_world_scheme \<Rightarrow> (u32 option \<times> ('p, 'a) proc_world_scheme) option" where
  "sparc_read_arg sys n w = do {
     assert_c (p_stopped w);
     assert_c (n < sparc_n_arg_regs);
     sparc_read_reg sys (sparc_regs_o0 sys + n) w
   }"

definition sparc_write_arg ::
  "sparc_os \<Rightarrow> u32 \<Rightarrow> u32 \<Rightarrow> ('p, 'a) proc_world_scheme \<Rightarrow> (bool \<times> ('p, 'a) proc_world_scheme) option" where
  "sparc_write_arg sys n arg w = do {
     assert_c (p_stopped w);
     assert_c (n < sparc_n_arg_regs);
     sparc_write_reg sys (sparc_regs_o0 sys + n) arg w
   }"

definition sparc_function_return_addr ::
  "sparc_os \<Rightarrow> ('p, 'a) proc_world_scheme \<Rightarrow> (u32 option \<times> ('p, 'a) proc_world_scheme) option" where
  "sparc_function_return_addr sys w = do {
     assert_c (p_stopped w);
     (o7, w) \<leftarrow> sparc_read_reg sys (sparc_regs_o7 sys) w;
     case o7 of
       None \<Rightarrow> Some (None, w)
     | Some o7 \<Rightarrow> Some (Some (o7 + 8), w)
   }"

definition sparc_read_result ::
  "sparc_os \<Rightarrow> ('p, 'a) proc_world_scheme \<Rightarrow> (u32 option \<times> ('p, 'a) proc_world_scheme) option" where
  "sparc_read_result sys w = do {
     assert_c (p_stopped w);
     sparc_read_reg sys (sparc_regs_o0 sys) w
   }"

definition sparc_write_result ::
  "sparc_os \<Rightarrow> u32 \<Rightarrow> ('p, 'a) proc_world_scheme \<Rightarrow> (bool \<times> ('p, 'a) proc_world_scheme) option" where
  "sparc_write_result sys result w = do {
     assert_c (p_stopped w);
     sparc_write_reg sys (sparc_regs_o0 sys) result w
   }"

text \<open>
  The walk over the register windows saved on the stack. Nothing makes the frame pointers grow, so a cycle of frames is possible:
  the loop ends because the backtrace is full at some time.
\<close>

partial_function (option) sparc_walk ::
  "ptr \<Rightarrow> u32 \<Rightarrow> ('p, 'a) proc_world_scheme \<Rightarrow> (bool \<times> ('p, 'a) proc_world_scheme) option" where
  "sparc_walk bt fp w =
     (if fp \<noteq> 0 then do {
        (link, w) \<leftarrow> mut_trace_read_data (fp + 15 * sparc_reg_size) w;
        case link of
          None \<Rightarrow> Some (False, w)
        | Some link \<Rightarrow> do {
            (status, w) \<leftarrow> mut_backtrace_enter bt link w;
            if status < 0 then Some (True, w)
            else if status = 0 then Some (False, w)
            else do {
              (fp, w) \<leftarrow> mut_trace_read_data (fp + 14 * sparc_reg_size) w;
              case fp of None \<Rightarrow> Some (False, w) | Some fp \<Rightarrow> sparc_walk bt fp w
            }
          }
      }
      else Some (True, w))"

definition sparc_function_xxx_backtrace ::
  "sparc_os \<Rightarrow> ptr \<Rightarrow> ('p, 'a) proc_world_scheme \<Rightarrow> (bool \<times> ('p, 'a) proc_world_scheme) option" where
  "sparc_function_xxx_backtrace sys bt w = do {
     (fp, w) \<leftarrow> sparc_read_reg sys (sparc_regs_o6 sys) w;
     case fp of None \<Rightarrow> Some (False, w) | Some fp \<Rightarrow> sparc_walk bt fp w
   }"

definition sparc_function_backtrace ::
  "sparc_os \<Rightarrow> ptr \<Rightarrow> ('p, 'a) proc_world_scheme \<Rightarrow> (bool \<times> ('p, 'a) proc_world_scheme) option" where
  "sparc_function_backtrace sys bt w = do {
     (link, w) \<leftarrow> sparc_read_reg sys (sparc_regs_o7 sys) w;
     case link of
       None \<Rightarrow> Some (False, w)
     | Some link \<Rightarrow> do {
         (status, w) \<leftarrow> mut_backtrace_enter bt link w;
         if status < 0 then Some (True, w)
         else if status = 0 then Some (False, w)
         else sparc_function_xxx_backtrace sys bt w
       }
   }"

definition sparc_skip_to :: "u32 \<Rightarrow> ('p, 'a) proc_world_scheme \<Rightarrow> (bool \<times> ('p, 'a) proc_world_scheme) option" where
  "sparc_skip_to pc w = do {
     assert_c (p_stopped w);
     Some (True, set_pc pc w)
   }"

section \<open>Waiting on a SPARC\<close>

text \<open>
  \<open>mut_process_wait\<close> as compiled for the SPARC: here \<open>mut_process_read_pc\<close> may answer -1, after it has moved the child past a
  jump of the dynamic linker; then the child is continued and the wait starts again.
\<close>

definition sparc_wait_round ::
  "sparc_os \<Rightarrow> u32 \<Rightarrow> ('p, 'a) proc_world_scheme \<Rightarrow> (((int \<times> u32 option) + u32) \<times> ('p, 'a) proc_world_scheme) option" where
  "sparc_wait_round sys st w =
     (let (r, c) = os_wait (os w) (child w);
          w = w\<lparr>child := c\<rparr>
      in case r of
           Wait_failed e \<Rightarrow> do {
             w \<leftarrow> mut_log_fatal ''waitpid'' e (w\<lparr>c_errno := e\<rparr>);
             w \<leftarrow> mut_log_int st w;
             (ok, w) \<leftarrow> mut_log_end w;
             Some (Inl (0, None), w)
           }
         | Wait_status status \<Rightarrow>
             if WIFEXITED status then do {
               w \<leftarrow> mut_log_info ''process.exited'' w;
               w \<leftarrow> mut_log_int (WEXITSTATUS status) w;
               (ok, w) \<leftarrow> mut_log_end w;
               Some (Inl (-1, None), set_status Status_exited w)
             }
             else if WIFSIGNALED status then do {
               w \<leftarrow> mut_log_info ''process.signaled'' w;
               w \<leftarrow> mut_log_int (WTERMSIG status) w;
               (ok, w) \<leftarrow> mut_log_end w;
               Some (Inl (-1, None), set_status Status_exited w)
             }
             else if WIFSTOPPED status then
               (if WSTOPSIG status = SIGTRAP then do {
                  ((pc_status, pc), w) \<leftarrow> sparc_read_pc sys (set_status Status_stopped w);
                  if pc_status < 0 then do {
                    (ok, w) \<leftarrow> mut_trace_continue 0 w;
                    if \<not> ok then Some (Inl (0, None), w) else Some (Inr status, w)
                  }
                  else if pc_status = 0 then Some (Inl (0, None), w)
                  else do {
                    pc \<leftarrow> pc;
                    Some (Inl (1, Some (sparc_pc_adjust pc)), set_pc (sparc_pc_adjust pc) w)
                  }
                }
                else do {
                  (ok, w) \<leftarrow> mut_trace_continue (WSTOPSIG status) w;
                  if \<not> ok then Some (Inl (0, None), w) else Some (Inr status, w)
                })
             else do {
               w \<leftarrow> mut_log_info ''process.unknown'' w;
               w \<leftarrow> mut_log_uint_hex status w;
               (ok, w) \<leftarrow> mut_log_end w;
               (ok, w) \<leftarrow> mut_trace_continue 0 w;
               if \<not> ok then Some (Inl (0, None), w) else Some (Inr status, w)
             })"

partial_function (option) sparc_wait_loop ::
  "sparc_os \<Rightarrow> u32 \<Rightarrow> ('p, 'a) proc_world_scheme \<Rightarrow> ((int \<times> u32 option) \<times> ('p, 'a) proc_world_scheme) option" where
  "sparc_wait_loop sys st w = do {
     (r, w) \<leftarrow> sparc_wait_round sys st w;
     case r of
       Inl result \<Rightarrow> Some (result, w)
     | Inr st \<Rightarrow> sparc_wait_loop sys st w
   }"

definition sparc_wait ::
  "sparc_os \<Rightarrow> ('p, 'a) proc_world_scheme \<Rightarrow> ((int \<times> u32 option) \<times> ('p, 'a) proc_world_scheme) option" where
  "sparc_wait sys w = do {
     assert_c (p_status (process w) = Status_running);
     sparc_wait_loop sys (c_indet w [5]) w
   }"

section \<open>Registers\<close>

lemma x86_getregs_Some:
  "x86_getregs c = Some rs \<longleftrightarrow>
    regs c mut_process_arch_regs_eax = Some (r_eax rs) \<and> regs c mut_process_arch_regs_ebp = Some (r_ebp rs) \<and>
    regs c mut_process_arch_regs_eip = Some (r_eip rs) \<and> regs c mut_process_arch_regs_esp = Some (r_esp rs)"
  by (cases rs) (auto simp: x86_getregs_def split: bind_splits)

lemmas x86_reg_numbers = mut_process_arch_regs_eax_def mut_process_arch_regs_ebp_def mut_process_arch_regs_eip_def
  mut_process_arch_regs_esp_def

lemma x86_bsd_get_regs:
  "x86_getregs c = Some rs \<Longrightarrow> x86_bsd_get r rs = Some v \<Longrightarrow> regs c r = Some v"
  by (auto simp: x86_getregs_Some x86_bsd_get_def split: if_splits)

lemma x86_bsd_set_regs:
  assumes "x86_getregs c = Some rs" and "x86_bsd_get r rs \<noteq> None"
  shows "\<exists>rs'. x86_bsd_set r v rs = Some rs' \<and> x86_setregs rs' c = Some (c\<lparr>regs := (regs c)(r \<mapsto> v)\<rparr>)"
proof -
  have n: "x86_getregs c \<noteq> None" using assms(1) by simp
  from assms(1) have "regs c mut_process_arch_regs_eax = Some (r_eax rs)" "regs c mut_process_arch_regs_ebp = Some (r_ebp rs)"
    "regs c mut_process_arch_regs_eip = Some (r_eip rs)" "regs c mut_process_arch_regs_esp = Some (r_esp rs)"
    unfolding x86_getregs_Some by blast+
  with assms(2) show ?thesis
    unfolding x86_setregs_def if_not_P [OF n]
    by (auto simp: x86_bsd_get_def x86_bsd_set_def x86_reg_numbers fun_eq_iff split: if_splits)
qed

lemma sparc_getregs_Some:
  assumes "sparc_getregs c = Some rs"
  shows "regs c 1 = Some (r_pc rs)" "regs c 2 = Some (r_npc rs)" "length (r_out rs) = 8"
    "\<And>n. n < 8 \<Longrightarrow> regs c (11 + of_nat n) = Some (r_out rs ! n)"
proof -
  obtain out where o: "those (map (\<lambda>i. regs c (11 + i)) [0, 1, 2, 3, 4, 5, 6, 7]) = Some out"
    and rs: "regs c 1 = Some (r_pc rs)" "regs c 2 = Some (r_npc rs)" "r_out rs = out"
    using assms by (auto simp: sparc_getregs_def split: bind_splits)
  show "regs c 1 = Some (r_pc rs)" "regs c 2 = Some (r_npc rs)" by fact+
  from o obtain a b d e f g h i where
    "regs c 11 = Some a" "regs c 12 = Some b" "regs c 13 = Some d" "regs c 14 = Some e"
    "regs c 15 = Some f" "regs c 16 = Some g" "regs c 17 = Some h" "regs c 18 = Some i" "out = [a, b, d, e, f, g, h, i]"
    by (auto split: option.splits)
  note r = this
  show "length (r_out rs) = 8" using r rs(3) by simp
  fix n :: nat
  assume "n < 8"
  then consider "n = 0" | "n = 1" | "n = 2" | "n = 3" | "n = 4" | "n = 5" | "n = 6" | "n = 7" by linarith
  then show "regs c (11 + of_nat n) = Some (r_out rs ! n)" by cases (simp_all add: r rs(3))
qed

section \<open>Walking the stack\<close>

lemma logging_log_print [simp]: "logging (the_log (log_print s w)) = logging (the_log w)"
  by (simp add: log_print_def libc_fput_def)

lemma trace_failure_returns: "log_idle w \<Longrightarrow> \<exists>v. trace_failure msg w (mut_log_uint a) = Some v"
  "log_idle w \<Longrightarrow> \<exists>v. trace_failure msg w (mut_log_uint_hex a) = Some v"
  by (simp_all add: trace_failure_def mut_log_fatal_def mut_log_uint_def mut_log_uint_hex_def log_arg_def mut_log_end_def
      log_idle_def Let_def)

text \<open>A read request gives a value, and then only \<open>errno\<close> can change, or it fails and says so in the log.\<close>

lemma peek_cases:
  assumes "log_idle w" and "\<And>v. log_idle v \<Longrightarrow> \<exists>u. trace_failure msg v arg = Some u"
    and "m = (let (d, w) = ptrace_peek x w
      in if d = -1 \<and> c_errno w \<noteq> 0 then do { w \<leftarrow> trace_failure msg w arg; Some (None, w) } else Some (Some d, w))"
  shows "(\<exists>d e. m = Some (Some d, w\<lparr>c_errno := e\<rparr>)) \<or> (\<exists>v. m = Some (None, v))"
proof -
  obtain d e where p: "ptrace_peek x w = (d, w\<lparr>c_errno := e\<rparr>)"
    by (cases x; cases "os_peek_clears_errno (os w)") (auto simp: ptrace_peek_def intro: that [of _ "c_errno w"])
  have "log_idle (w\<lparr>c_errno := e\<rparr>)" using assms(1) by (simp add: log_idle_def)
  then obtain u where "trace_failure msg (w\<lparr>c_errno := e\<rparr>) arg = Some u" using assms(2) by blast
  then show ?thesis by (cases "d = -1 \<and> e \<noteq> 0") (auto simp: assms(3) p)
qed

lemma trace_read_cases:
  assumes "log_idle w"
  obtains (got) d e where "mut_trace_read_data a w = Some (Some d, w\<lparr>c_errno := e\<rparr>)"
    | (failure) v where "mut_trace_read_data a w = Some (None, v)"
  using peek_cases [OF assms trace_failure_returns(2) mut_trace_read_data_def] by blast

text \<open>The loop runs at most as often as the backtrace has room for frames, whatever the stack of the child looks like.\<close>

lemma sparc_walk_returns:
  "bts w bt = Some b \<Longrightarrow> bt \<noteq> 0 \<Longrightarrow> log_idle w \<Longrightarrow> mut_backtrace_frames_max - length (frames b) = n \<Longrightarrow>
   \<exists>r. sparc_walk bt fp w = Some r"
proof (induction n arbitrary: w b fp)
  case (0 w b fp)
  from \<open>log_idle w\<close> show ?case
    by (cases rule: trace_read_cases [of w "fp + 15 * sparc_reg_size"])
      (insert 0, auto simp: sparc_walk.simps [of bt fp] mut_backtrace_enter_def)
next
  case (Suc n w b fp)
  then have room: "length (frames b) < mut_backtrace_frames_max" by simp
  from \<open>log_idle w\<close> show ?case
  proof (cases rule: trace_read_cases [of w "fp + 15 * sparc_reg_size"])
    case (got d e)
    let ?v = "w\<lparr>c_errno := e, bts := (bts w)(bt \<mapsto> b\<lparr>frames := frames b @ [d]\<rparr>)\<rparr>"
    have idle: "log_idle ?v" using Suc.prems(3) by (simp add: log_idle_def)
    have enter: "mut_backtrace_enter bt d (w\<lparr>c_errno := e\<rparr>) = Some (1, ?v)"
      using Suc.prems room by (simp add: mut_backtrace_enter_def)
    from idle show ?thesis
    proof (cases rule: trace_read_cases [of ?v "fp + 14 * sparc_reg_size"])
      case (got d' e')
      have "\<exists>r. sparc_walk bt d' (?v\<lparr>c_errno := e'\<rparr>) = Some r"
        using Suc.prems idle by (intro Suc.IH [where b = "b\<lparr>frames := frames b @ [d]\<rparr>"]) (simp_all add: log_idle_def)
      then show ?thesis
        using \<open>mut_trace_read_data (fp + 15 * sparc_reg_size) w = _\<close> enter got by (auto simp: sparc_walk.simps [of bt fp])
    qed (use \<open>mut_trace_read_data (fp + 15 * sparc_reg_size) w = _\<close> enter in \<open>auto simp: sparc_walk.simps [of bt fp]\<close>)
  qed (auto simp: sparc_walk.simps [of bt fp])
qed

text \<open>Reading one of the registers with a number of its own.\<close>

lemma sparc_read_reg_cases [consumes 2]:
  assumes "log_idle w" and "sys = BSD \<longrightarrow> (\<forall>rs. sparc_bsd_get r rs \<noteq> None)"
  obtains (got) d e where "sparc_read_reg sys r w = Some (Some d, w\<lparr>c_errno := e\<rparr>)"
    | (failure) v where "sparc_read_reg sys r w = Some (None, v)"
proof (cases sys)
  case Solaris
  then show ?thesis
    using peek_cases [OF assms(1) trace_failure_returns(1) mut_trace_read_reg_def] got failure by fastforce
next
  case BSD
  show ?thesis
  proof (cases "sparc_getregs (child w)")
    case None
    have "log_idle (w\<lparr>c_errno := EIO\<rparr>)" using assms by (simp add: log_idle_def)
    then obtain u where "trace_failure ''ptrace.peek.user'' (w\<lparr>c_errno := EIO\<rparr>) (mut_log_uint r) = Some u"
      using trace_failure_returns(1) by blast
    then show ?thesis using None by (intro failure [of u]) (simp add: BSD sparc_bsd_read_reg_def)
  next
    case (Some rs)
    obtain d where "sparc_bsd_get r rs = Some d" using assms(2) BSD by blast
    then show ?thesis using Some by (intro got [of d "c_errno w"]) (simp add: BSD sparc_bsd_read_reg_def)
  qed
qed

section \<open>Samples\<close>

text \<open>A child on a SPARC at address 0x2000, in the delay slot of a jump through %g1 to 0x4000, as the dynamic linker leaves it;
  its frame points to itself.\<close>

definition sample_sparc_regs :: "u32 \<Rightarrow> u32 option" where
  "sample_sparc_regs r =
     (if r = 1 then Some 0x2000 else if r = 2 then Some 0x4000 else if r = 17 then Some 0x6000
      else if 11 \<le> r \<and> r \<le> 18 then Some (r * 0x10) else None)"

definition sample_sparc_child :: "unit child" where
  "sample_sparc_child = \<lparr>regs = sample_sparc_regs,
     cmem = put_word 0x1ffc 0x81c06000 (put_word 0x6038 0x6000 (\<lambda>_. Some 0)), prog = ()\<rparr>"

definition sample_sparc :: "(unit, unit) proc_world_scheme" where
  "sample_sparc = sample_proc\<lparr>child := sample_sparc_child\<rparr>"

lemma sample_sparc [simp]:
  "clean sample_sparc" "p_stopped sample_sparc" "os sample_sparc = sample_os"
  "bts sample_sparc = [0x2000 \<mapsto> \<lparr>ref_count = 1, frames = []\<rparr>]" "child sample_sparc = sample_sparc_child" "log_idle sample_sparc"
  by (simp_all add: sample_sparc_def clean_def sample_os_def)
    (simp_all add: p_stopped_def sample_proc_def log_idle_def sample_world_def sample_log_state_def)

section \<open>Properties\<close>

text \<open>
  C26: On the SPARC a backtrace always comes to an end, even when the frames of the target form a cycle.
\<close>

theorem sparc_function_backtrace_terminates:
  assumes b: "bts w bt = Some b" "bt \<noteq> 0" and idle: "log_idle w"
  shows "\<exists>ok v. sparc_function_backtrace sys bt w = Some (ok, v)"
proof -
  have o6: "sys = BSD \<longrightarrow> (\<forall>rs. sparc_bsd_get (sparc_regs_o6 sys) rs \<noteq> None)"
    and o7: "sys = BSD \<longrightarrow> (\<forall>rs. sparc_bsd_get (sparc_regs_o7 sys) rs \<noteq> None)"
    by (simp_all add: sparc_bsd_get_def)
  from idle o7 show ?thesis
  proof (cases rule: sparc_read_reg_cases [of w sys "sparc_regs_o7 sys"])
    case (got d e)
    then show ?thesis
    proof (cases "length (frames b) < mut_backtrace_frames_max")
      case True
      let ?v = "w\<lparr>c_errno := e, bts := (bts w)(bt \<mapsto> b\<lparr>frames := frames b @ [d]\<rparr>)\<rparr>"
      have enter: "mut_backtrace_enter bt d (w\<lparr>c_errno := e\<rparr>) = Some (1, ?v)" using b True by (simp add: mut_backtrace_enter_def)
      have idle: "log_idle ?v" using idle by (simp add: log_idle_def)
      from idle o6 show ?thesis
      proof (cases rule: sparc_read_reg_cases [of ?v sys "sparc_regs_o6 sys"])
        case (got fp e')
        have "\<exists>r. sparc_walk bt fp (?v\<lparr>c_errno := e'\<rparr>) = Some r"
          using b idle by (intro sparc_walk_returns [where b = "b\<lparr>frames := frames b @ [d]\<rparr>"]) (simp_all add: log_idle_def)
        then show ?thesis
          using \<open>sparc_read_reg sys (sparc_regs_o7 sys) w = _\<close> enter got
          by (auto simp: sparc_function_backtrace_def sparc_function_xxx_backtrace_def)
      qed (use \<open>sparc_read_reg sys (sparc_regs_o7 sys) w = _\<close> enter in
          \<open>auto simp: sparc_function_backtrace_def sparc_function_xxx_backtrace_def\<close>)
    qed (use b got in \<open>auto simp: sparc_function_backtrace_def mut_backtrace_enter_def\<close>)
  qed (auto simp: sparc_function_backtrace_def)
qed

lemma sparc_function_backtrace_terminates_witness:
  "\<exists>ok v. sparc_function_backtrace BSD 0x2000 sample_sparc = Some (ok, v)"
  by (rule sparc_function_backtrace_terminates) simp_all

text \<open>
  Reading and writing a register through the whole register set, as on BSD, does the same as the requests for a single one, as on
  Linux: on a child that has the registers, the same value is read, and the same state is left by a write.
\<close>

theorem x86_bsd_registers_as_linux:
  assumes "x86_getregs (child w) = Some rs"
    and "r \<in> {mut_process_arch_regs_eax, mut_process_arch_regs_ebp, mut_process_arch_regs_eip, mut_process_arch_regs_esp}"
  shows "x86_bsd_write_reg r v w = mut_trace_write_reg r v w \<and>
    (\<exists>d. x86_bsd_read_reg r w = Some (Some d, w) \<and> (clean w \<longrightarrow> mut_trace_read_reg r w = Some (Some d, w\<lparr>c_errno := 0\<rparr>)))"
proof -
  from assms(2) have "x86_bsd_get r rs \<noteq> None" by (auto simp: x86_bsd_get_def x86_reg_numbers)
  then obtain d where d: "x86_bsd_get r rs = Some d" by blast
  with assms(1) have r: "regs (child w) r = Some d" by (rule x86_bsd_get_regs)
  obtain rs' where "x86_bsd_set r v rs = Some rs'" "x86_setregs rs' (child w) = Some ((child w)\<lparr>regs := (regs (child w))(r \<mapsto> v)\<rparr>)"
    using x86_bsd_set_regs [OF assms(1), of r v] d by auto
  with assms(1) d r show ?thesis
    by (simp add: x86_bsd_write_reg_def mut_trace_write_reg_def x86_bsd_read_reg_def trace_read_reg_ok)
qed

lemma x86_bsd_registers_as_linux_witness:
  "x86_bsd_write_reg mut_process_arch_regs_esp 0x104 sample_proc = mut_trace_write_reg mut_process_arch_regs_esp 0x104 sample_proc"
proof -
  have "x86_getregs (child sample_proc) = Some \<lparr>r_eax = 0, r_ebp = 0x110, r_eip = 0x1001, r_esp = 0x100\<rparr>"
    by (simp add: x86_getregs_Some)
  from x86_bsd_registers_as_linux [OF this, where r = mut_process_arch_regs_esp] show ?thesis by simp
qed

text \<open>
  The arguments of a call on the SPARC. On Solaris they are the first six out registers. On BSD the numbers of the registers that are made up
  do not leave room for them: argument 1 is read from the stack pointer, argument 2 from the return address, and
  reading any further one is a failed assertion.
\<close>

theorem sparc_read_arg_registers:
  assumes "p_stopped w" and "clean w" and "sparc_getregs (child w) = Some rs" and "n < 6"
  shows "sparc_read_arg Solaris (of_nat n) w = Some (Some (r_out rs ! n), w\<lparr>c_errno := 0\<rparr>) \<and>
    sparc_read_arg BSD (of_nat n) w =
      (if n < 3 then Some (Some (r_out rs ! ([0, 6, 7] ! n)), w) else None)"
proof -
  have six: "of_nat n < sparc_n_arg_regs" using assms(4) by (simp add: sparc_n_arg_regs_def word_less_nat_alt unat_of_nat)
  then have "sparc_read_arg Solaris (of_nat n) w = Some (Some (r_out rs ! n), w\<lparr>c_errno := 0\<rparr>)"
    using assms sparc_getregs_Some(4) [OF assms(3), of n] by (simp add: sparc_read_arg_def trace_read_reg_ok)
  moreover have "sparc_read_arg BSD (of_nat n) w = (if n < 3 then Some (Some (r_out rs ! ([0, 6, 7] ! n)), w) else None)"
  proof -
    from assms(4) consider "n = 0" | "n = 1" | "n = 2" | "n = 3" | "n = 4" | "n = 5" by linarith
    then show ?thesis
      using assms(1,3) by cases (simp_all add: sparc_read_arg_def sparc_bsd_read_reg_def sparc_bsd_get_def sparc_n_arg_regs_def)
  qed
  ultimately show ?thesis by simp
qed

lemma sample_sparc_getregs:
  "sparc_getregs sample_sparc_child =
     Some \<lparr>r_pc = 0x2000, r_npc = 0x4000, r_out = [0xb0, 0xc0, 0xd0, 0xe0, 0xf0, 0x100, 0x6000, 0x120]\<rparr>"
  by (simp add: sparc_getregs_def sample_sparc_child_def sample_sparc_regs_def)

lemma sparc_read_arg_registers_witness:
  "sparc_read_arg Solaris 1 sample_sparc = Some (Some 0xc0, sample_sparc\<lparr>c_errno := 0\<rparr>) \<and>
   sparc_read_arg BSD 1 sample_sparc = Some (Some 0x6000, sample_sparc)"
  using sparc_read_arg_registers [of sample_sparc _ 1] by (simp add: sample_sparc_getregs)

text \<open>
  C27: A child on the SPARC that stops in the delay slot of a jump of the dynamic linker is moved to the target of the
  jump and continued, and the wait goes on; the stop is not reported.
\<close>

theorem sparc_wait_passes_dynamic_link:
  fixes w :: "('p, 'a) proc_world_scheme"
  assumes "clean w" and "os_wait (os w) (child w) = (Wait_status s, c)" and "WIFSTOPPED s" and "WSTOPSIG s = SIGTRAP"
    and "regs c 1 = Some pc" and "regs c 2 = Some npc" and "npc \<noteq> pc + 4"
    and "read_word (cmem c) (pc - 4) = Some i" and "i AND 0xfffff000 = 0x81c06000"
    and "os_continue (os w) (c\<lparr>regs := (regs c)(1 \<mapsto> npc, 2 \<mapsto> npc + 4)\<rparr>) 0 = Some c'"
  shows "sparc_wait_loop Solaris st w =
    sparc_wait_loop Solaris s (set_status Status_stopped (w\<lparr>child := c', c_errno := 0\<rparr>))"
proof -
  have t: "\<not> WIFEXITED s" "\<not> WIFSIGNALED s" using WIFSTOPPED_cases [OF assms(3)] by simp_all
  let ?v = "set_status Status_stopped (w\<lparr>child := c\<rparr>)"
  let ?u = "?v\<lparr>c_errno := 0, child := c\<lparr>regs := (regs c)(1 \<mapsto> npc, 2 \<mapsto> npc + 4)\<rparr>\<rparr>"
  have pc: "sparc_read_pc Solaris ?v = Some ((-1, None), ?u)"
    using assms
    by (simp add: sparc_read_pc_def sparc_is_dynamic_link_def sparc_instr_bytes_def trace_read_reg_ok trace_read_ok
        p_stopped_def set_status_def clean_def mut_trace_write_reg_def Let_def)
  have "sparc_wait_round Solaris st w = Some (Inr s, set_status Status_stopped (w\<lparr>child := c', c_errno := 0\<rparr>))"
    using assms(2,3,4,10) t pc by (simp add: sparc_wait_round_def mut_trace_continue_def set_status_def)
  then show ?thesis by (simp add: sparc_wait_loop.simps [of Solaris st w])
qed

lemma sparc_wait_passes_dynamic_link_witness:
  "sparc_wait_loop Solaris 0 (sample_sparc\<lparr>c_errno := 7\<rparr>) =
   sparc_wait_loop Solaris 0x57f (set_status Status_stopped (sample_sparc\<lparr>child :=
     sample_sparc_child\<lparr>regs := sample_sparc_regs(1 \<mapsto> 0x4000, 2 \<mapsto> 0x4004)\<rparr>, c_errno := 0\<rparr>))"
proof -
  have r: "read_word (cmem sample_sparc_child) 0x1ffc = Some 0x81c06000"
    by (simp add: sample_sparc_child_def put_word_def read_word_def word_of_bytes_def byte_of_word_def)
  have c: "regs sample_sparc_child = sample_sparc_regs" by (simp add: sample_sparc_child_def)
  have w: "clean (sample_sparc\<lparr>c_errno := 7\<rparr>)" "os (sample_sparc\<lparr>c_errno := 7\<rparr>) = sample_os"
    "child (sample_sparc\<lparr>c_errno := 7\<rparr>) = sample_sparc_child" by simp_all
  from sparc_wait_passes_dynamic_link [OF w(1), where st = 0 and s = "0x57f" and c = sample_sparc_child and
      pc = "0x2000" and npc = "0x4000" and i = "0x81c06000"]
  show ?thesis using r unfolding w c
    by (simp add: sample_os_def WIFSTOPPED_def WSTOPSIG_def WEXITSTATUS_def SIGTRAP_def sample_sparc_regs_def)
qed

end
