(* ===== verification/MutTracker.thy ===== *)
theory MutTracker
  imports MutService
begin

text \<open>
  What MUT is for, as a specification: from the calls that a target makes, the objects it has, the lines
  of the log, and the leaks at the end. The theorem at the end of MutTracked says that \<open>mut_run\<close> of src/src/mut.c in its default mode, and in the one
  that traces the calls, computes exactly this, for every target that the relation \<open>target\<close> describes.
\<close>

section \<open>The specification\<close>

text \<open>A call with its arguments, and for the producers the address the target returned.\<close>

datatype call =
  Malloc u32 u32
| Calloc u32 u32 u32
| Realloc u32 u32 u32
| Consume mut_action_id u32

record object =
  o_addr :: u32
  o_size :: u32
  o_producer :: mut_action_id
  o_consumer :: "mut_action_id option"

definition object_at :: "u32 \<Rightarrow> object list \<Rightarrow> object option" where
  "object_at a objs = find (\<lambda>x. o_addr x = a) objs"

definition new_object :: "u32 \<Rightarrow> u32 \<Rightarrow> mut_action_id \<Rightarrow> object" where
  "new_object a n p = \<lparr>o_addr = a, o_size = n, o_producer = p, o_consumer = None\<rparr>"

definition consumed :: "u32 \<Rightarrow> mut_action_id \<Rightarrow> object list \<Rightarrow> object list" where
  "consumed a c = map (\<lambda>x. if o_addr x = a \<and> o_consumer x = None then x\<lparr>o_consumer := Some c\<rparr> else x)"

fun track :: "call \<Rightarrow> object list \<Rightarrow> object list" where
  "track (Malloc n a) objs = (if a = 0 then objs else new_object a n Act_malloc # objs)"
| "track (Calloc k n a) objs = (if a = 0 then objs else new_object a (k * n) Act_calloc # objs)"
| "track (Realloc old n a) objs = new_object a n Act_realloc # (if old = 0 then objs else consumed old Act_realloc objs)"
| "track (Consume c a) objs = (if a = 0 then objs else consumed a c objs)"

text \<open>The line that the option -t adds for a call.\<close>

definition trace_line :: "bool \<Rightarrow> string \<Rightarrow> log_argument list \<Rightarrow> string" where
  "trace_line tr pn args = (if tr then log_line pn Info ''trace'' args else [])"

text \<open>
  The lines of the log for a call, if there are any: the trace, no memory, an object that was not allocated, an object freed twice. A \<open>realloc\<close>
  of what was not allocated is traced as an allocation, after the error.
\<close>

fun report :: "bool \<Rightarrow> string \<Rightarrow> (mut_action_id \<Rightarrow> string) \<Rightarrow> object list \<Rightarrow> call \<Rightarrow> string" where
  "report tr pn nm objs (Malloc n a) =
     trace_line tr pn [LString (nm Act_malloc), LUint n, LHex a] @
     (if a = 0 then log_line pn Warning ''MR0'' [LString (nm Act_malloc), LUint n] else [])"
| "report tr pn nm objs (Calloc k n a) =
     trace_line tr pn [LString (nm Act_calloc), LUint k, LUint n, LHex a] @
     (if a = 0 then log_line pn Warning ''CR0'' [LString (nm Act_calloc), LUint k, LUint n] else [])"
| "report tr pn nm objs (Realloc old n a) =
     (case if old = 0 then None else object_at old objs of
        None \<Rightarrow>
          (if old = 0 then [] else log_line pn Error ''FUM'' [LString (nm Act_realloc), LHex old]) @
          trace_line tr pn [LString (nm Act_realloc), LHex 0, LUlong 0, LUlong n, LHex a]
      | Some x \<Rightarrow> trace_line tr pn [LString (nm Act_realloc), LHex old, LUlong (o_size x), LUlong n, LHex a])"
| "report tr pn nm objs (Consume c a) =
     (if a = 0 then trace_line tr pn [LString (nm c), LHex a]
      else case object_at a objs of
        None \<Rightarrow> trace_line tr pn [LString (nm c), LHex a, LInt 0] @ log_line pn Error ''FUM'' [LString (nm c), LHex a]
      | Some x \<Rightarrow> trace_line tr pn [LString (nm c), LHex a, LUlong (o_size x)] @ (case o_consumer x of
          None \<Rightarrow> []
        | Some c' \<Rightarrow> log_line pn Error ''FFM'' [LString (nm c), LHex a, LString (nm c')]))"

fun reports :: "bool \<Rightarrow> string \<Rightarrow> (mut_action_id \<Rightarrow> string) \<Rightarrow> object list \<Rightarrow> call list \<Rightarrow> string" where
  "reports tr pn nm objs [] = []"
| "reports tr pn nm objs (c # cs) = report tr pn nm objs c @ reports tr pn nm (track c objs) cs"

definition leak_report :: "string \<Rightarrow> (mut_action_id \<Rightarrow> string) \<Rightarrow> object list \<Rightarrow> string" where
  "leak_report pn nm objs = concat (map (\<lambda>x. log_line pn Error ''MLK''
     [LString (nm (o_producer x)), LUlong (o_size x), LHex (o_addr x)]) (filter (\<lambda>x. o_consumer x = None) objs))"

definition exit_report :: "string \<Rightarrow> u32 \<Rightarrow> string" where
  "exit_report pn s =
     (if WIFEXITED s then log_line pn Info ''process.exited'' [LInt (WEXITSTATUS s)]
      else log_line pn Info ''process.signaled'' [LInt (WTERMSIG s)])"

section \<open>The target\<close>

text \<open>
  Continued at \<open>pc\<close>, the child stops next with a trap behind \<open>pc'\<close>, or comes to its end; the signals it gets on the way are passed on to it.
\<close>

definition continues :: "'p os \<Rightarrow> u32 \<Rightarrow> 'p child \<Rightarrow> u32 \<Rightarrow> 'p child \<Rightarrow> bool" where
  "continues sys pc c s c' \<longleftrightarrow> regs c mut_process_arch_regs_eip \<noteq> None \<and>
     (\<exists>c1 sigs. os_continue sys (c\<lparr>regs := (regs c)(mut_process_arch_regs_eip \<mapsto> pc)\<rparr>) 0 = Some c1 \<and>
        signals_then sys c1 sigs (Wait_status s) c')"

definition stops :: "'p os \<Rightarrow> u32 \<Rightarrow> 'p child \<Rightarrow> u32 \<Rightarrow> 'p child \<Rightarrow> bool" where
  "stops sys pc c pc' c' \<longleftrightarrow> (\<exists>s. continues sys pc c s c' \<and> WIFSTOPPED s \<and> WSTOPSIG s = SIGTRAP) \<and>
     regs c' mut_process_arch_regs_eip = Some (pc' + 1)"

definition finishes :: "'p os \<Rightarrow> u32 \<Rightarrow> 'p child \<Rightarrow> u32 \<Rightarrow> bool" where
  "finishes sys pc c s \<longleftrightarrow> (\<exists>c'. continues sys pc c s c') \<and> (WIFEXITED s \<or> WIFSIGNALED s)"

text \<open>A call that runs to its return address, where a breakpoint is put for the time of the call.\<close>

definition runs_call :: "'p os \<Rightarrow> u32 \<Rightarrow> u32 \<Rightarrow> 'p child \<Rightarrow> 'p child \<Rightarrow> bool" where
  "runs_call sys pc ra c c' \<longleftrightarrow> (\<exists>i c1. read_word (cmem c) ra = Some i \<and>
     stops sys pc (c\<lparr>cmem := put_word ra mut_instr_bp (cmem c)\<rparr>) ra c1 \<and> read_word (cmem c1) ra \<noteq> None \<and>
     c' = c1\<lparr>cmem := put_word ra i (cmem c1)\<rparr>)"

text \<open>The stack at the entry of a function: the return address and the arguments.\<close>

fun args_at :: "bytes \<Rightarrow> u32 \<Rightarrow> u32 list \<Rightarrow> bool" where
  "args_at m a [] \<longleftrightarrow> True"
| "args_at m a (x # xs) \<longleftrightarrow> read_word m a = Some x \<and> args_at m (a + 4) xs"

definition call_frame :: "'p child \<Rightarrow> u32 \<Rightarrow> u32 \<Rightarrow> u32 list \<Rightarrow> bool" where
  "call_frame c sp ra xs \<longleftrightarrow> regs c mut_process_arch_regs_esp = Some sp \<and> args_at (cmem c) sp (ra # xs)"

abbreviation result :: "'p child \<Rightarrow> u32 option" where
  "result c \<equiv> regs c mut_process_arch_regs_eax"

text \<open>
  A call of an action, with the breakpoints out: a producer returns no address or one that is not that of an object,
  as nothing is ever freed for real. A \<open>realloc\<close> is turned into an allocation, and the words of the old object
  are copied; it must not be of a freed object, and not fail.
\<close>

inductive performs :: "'p os \<Rightarrow> object list \<Rightarrow> mut_action_id \<Rightarrow> 'p child \<Rightarrow> u32 \<Rightarrow> call \<Rightarrow> u32 \<Rightarrow> 'p child \<Rightarrow> bool"
  for sys objs where
  malloc: "call_frame c sp ra [n] \<Longrightarrow> runs_call sys pc ra c c' \<Longrightarrow> result c' = Some a \<Longrightarrow> a \<notin> o_addr ` set objs \<Longrightarrow>
    performs sys objs Act_malloc c pc (Malloc n a) ra c'"
| calloc: "call_frame c sp ra [k, n] \<Longrightarrow> runs_call sys pc ra c c' \<Longrightarrow> result c' = Some a \<Longrightarrow> a \<notin> o_addr ` set objs \<Longrightarrow>
    performs sys objs Act_calloc c pc (Calloc k n a) ra c'"
| free_null: "act \<in> {Act_free, Act_cfree} \<Longrightarrow> call_frame c sp ra [0] \<Longrightarrow> runs_call sys pc ra c c' \<Longrightarrow>
    performs sys objs act c pc (Consume act 0) ra c'"
| free: "act \<in> {Act_free, Act_cfree} \<Longrightarrow> call_frame c sp ra [a] \<Longrightarrow> a \<noteq> 0 \<Longrightarrow>
    performs sys objs act c pc (Consume act a) ra (c\<lparr>regs := (regs c)(mut_process_arch_regs_esp \<mapsto> sp + 4)\<rparr>)"
| realloc_new: "call_frame c sp ra [0, n] \<Longrightarrow> runs_call sys pc ra c c' \<Longrightarrow>
    result c' = Some a \<Longrightarrow> a \<noteq> 0 \<Longrightarrow> a \<notin> o_addr ` set objs \<Longrightarrow>
    performs sys objs Act_realloc c pc (Realloc 0 n a) ra c'"
| realloc_unknown: "call_frame c sp ra [old, n] \<Longrightarrow> old \<noteq> 0 \<Longrightarrow> object_at old objs = None \<Longrightarrow>
    runs_call sys pc ra (c\<lparr>cmem := put_word (sp + 4) 0 (cmem c)\<rparr>) c' \<Longrightarrow>
    result c' = Some a \<Longrightarrow> a \<noteq> 0 \<Longrightarrow> a \<notin> o_addr ` set objs \<Longrightarrow>
    performs sys objs Act_realloc c pc (Realloc old n a) ra c'"
| realloc: "call_frame c sp ra [old, n] \<Longrightarrow> old \<noteq> 0 \<Longrightarrow> object_at old objs = Some x \<Longrightarrow> o_consumer x = None \<Longrightarrow>
    runs_call sys pc ra (c\<lparr>cmem := put_word (sp + 4) 0 (cmem c)\<rparr>) c1 \<Longrightarrow>
    result c1 = Some a \<Longrightarrow> a \<noteq> 0 \<Longrightarrow> a \<notin> o_addr ` set objs \<Longrightarrow>
    l = min (unat (o_size x)) (unat n) \<Longrightarrow> l mod 4 = 0 \<Longrightarrow> addr_aligned a \<Longrightarrow> addr_aligned old \<Longrightarrow>
    span a l \<union> span old l \<subseteq> dom (cmem c1) \<Longrightarrow> span a l \<inter> span old l = {} \<Longrightarrow>
    filled a l (\<lambda>i. cmem c1 (old + of_nat i)) (cmem c1) m \<Longrightarrow>
    performs sys objs Act_realloc c pc (Realloc old n a) ra (c1\<lparr>cmem := m\<rparr>)"

text \<open>
  A target with the instructions \<open>ins\<close> under the breakpoints at the addresses \<open>ad\<close> of its actions: it makes the calls
  of a list, and then ends with a status. A trap that is not one of an action is passed over.
\<close>

inductive target :: "'p os \<Rightarrow> (mut_action_id \<Rightarrow> u32) \<Rightarrow> mut_action_id list \<Rightarrow>
    u32 list \<Rightarrow> object list \<Rightarrow> u32 \<Rightarrow> 'p child \<Rightarrow> call list \<Rightarrow> u32 \<Rightarrow> bool" for sys ad root where
  ends: "finishes sys pc c s \<Longrightarrow> target sys ad root ins objs pc c [] s"
| passes: "stops sys pc c pc' c' \<Longrightarrow> pc' \<notin> ad ` set root \<Longrightarrow> target sys ad root ins objs pc' c' cs s \<Longrightarrow>
    target sys ad root ins objs pc c cs s"
| calls: "stops sys pc c (ad act) c1 \<Longrightarrow> act \<in> set root \<Longrightarrow>
    child_memory.unpatch (zip (map ad root) ins) (cmem c1) = Some m \<Longrightarrow>
    performs sys objs act (c1\<lparr>cmem := m\<rparr>) (ad act) cl ra c2 \<Longrightarrow>
    child_memory.patch mut_instr_bp (map ad root) (cmem c2) = Some (ins', m') \<Longrightarrow>
    target sys ad root ins' (track cl objs) ra (c2\<lparr>cmem := m'\<rparr>) cs s \<Longrightarrow>
    target sys ad root ins objs pc c (cl # cs) s"

section \<open>Letting the target run\<close>

definition moved :: "u32 \<Rightarrow> 'p child \<Rightarrow> ('p, 'a) mut_world_scheme \<Rightarrow> ('p, 'a) mut_world_scheme" where
  "moved pc c w = w\<lparr>c_errno := 0, child := c, process := (process w)\<lparr>p_pc := pc\<rparr>\<rparr>"

lemma moved_simps [simp]:
  "child (moved pc c w) = c" "p_pc (process (moved pc c w)) = pc" "p_stopped (moved pc c w) = p_stopped w"
  "clean (moved pc c w) = clean w" "os (moved pc c w) = os w" "(moved pc c w)\<lparr>c_errno := 0\<rparr> = moved pc c w"
  "moved pc' c' (moved pc c w) = moved pc' c' w" "m_flags (moved pc c w) = m_flags w"
  "set_mem m (moved pc c w) = moved pc (c\<lparr>cmem := m\<rparr>) w" "moved pc c (w\<lparr>c_errno := e\<rparr>) = moved pc c w"
  "set_reg r v (moved pc c w) = moved pc (c\<lparr>regs := (regs c)(r \<mapsto> v)\<rparr>) w"
  by (simp_all add: moved_def p_stopped_def clean_def set_mem_def set_reg_def)

lemma moved_self: "(set_mem m w)\<lparr>c_errno := 0\<rparr> = moved (p_pc (process w)) ((child w)\<lparr>cmem := m\<rparr>) w"
  "set_mem m (w\<lparr>c_errno := 0\<rparr>) = moved (p_pc (process w)) ((child w)\<lparr>cmem := m\<rparr>) w"
  by (simp_all add: moved_def set_mem_def)

lemma continues_resume:
  assumes "p_stopped w" and "continues (os w) (p_pc (process w)) (child w) s c'"
  obtains c1 sigs where "mut_process_resume w = Some (True, set_status Status_running (w\<lparr>child := c1\<rparr>))"
    "signals_then (os w) c1 sigs (Wait_status s) c'"
proof -
  from assms(2) obtain c1 sigs y where c1: "regs (child w) mut_process_arch_regs_eip = Some y"
    "os_continue (os w) ((child w)\<lparr>regs := (regs (child w))(mut_process_arch_regs_eip \<mapsto> p_pc (process w))\<rparr>) 0 = Some c1"
    "signals_then (os w) c1 sigs (Wait_status s) c'"
    unfolding continues_def by blast
  have "mut_process_resume w = Some (True, set_status Status_running (w\<lparr>child := c1\<rparr>))"
    by (rule resume_ok [OF assms(1) c1(1)]) (use c1(2) in \<open>simp add: set_reg_def\<close>)
  with that c1(3) show thesis by blast
qed

lemma stops_ok:
  fixes w :: "('p, 'a) mut_world_scheme"
  assumes "p_stopped w" and "clean w" and "stops (os w) (p_pc (process w)) (child w) pc' c'"
  shows "\<exists>u. mut_process_resume w = Some (True, u) \<and> mut_process_wait u = Some ((1, Some pc'), moved pc' c' w)"
proof -
  from assms(3) obtain s where s: "continues (os w) (p_pc (process w)) (child w) s c'" "WIFSTOPPED s" "WSTOPSIG s = SIGTRAP"
    "regs c' mut_process_arch_regs_eip = Some (pc' + 1)" unfolding stops_def by blast
  from continues_resume [OF assms(1) s(1)] obtain c1 sigs where
    c1: "mut_process_resume w = Some (True, set_status Status_running (w\<lparr>child := c1\<rparr>))"
    "signals_then (os w) c1 sigs (Wait_status s) c'" by blast
  let ?u = "set_status Status_running (w\<lparr>child := c1\<rparr>)"
  have "signals_then (os ?u) (child ?u) sigs (Wait_status s) c'" using c1(2) by (simp add: set_status_def)
  from mut_process_wait_trap [OF this s(2,3,4)] assms(2)
  have "mut_process_wait ?u = Some ((1, Some pc'), set_pc pc' (set_status Status_stopped (?u\<lparr>child := c', c_errno := 0\<rparr>)))"
    by (simp add: clean_def set_status_def)
  moreover have "set_pc pc' (set_status Status_stopped (?u\<lparr>child := c', c_errno := 0\<rparr>)) = moved pc' c' w"
    using assms(1) by (simp add: set_pc_def set_status_def moved_def p_stopped_def)
  ultimately show ?thesis using c1(1) by auto
qed

lemma finishes_ok:
  fixes w :: "('p, 'a) mut_world_scheme"
  assumes "p_stopped w" and "log_idle w" and "writes_ok w" and "finishes (os w) (p_pc (process w)) (child w) s"
  shows "\<exists>u c. mut_process_resume w = Some (True, u) \<and> mut_process_wait u = Some ((-1, None),
    set_status Status_exited (log_emit (exit_report (program_name (the_log w)) s) (w\<lparr>child := c\<rparr>)))"
proof -
  from assms(4) obtain c' where s: "continues (os w) (p_pc (process w)) (child w) s c'" "WIFEXITED s \<or> WIFSIGNALED s"
    unfolding finishes_def by blast
  from continues_resume [OF assms(1) s(1)] obtain c1 sigs where
    c1: "mut_process_resume w = Some (True, set_status Status_running (w\<lparr>child := c1\<rparr>))"
    "signals_then (os w) c1 sigs (Wait_status s) c'" by blast
  let ?u = "set_status Status_running (w\<lparr>child := c1\<rparr>)"
  have "signals_then (os ?u) (child ?u) sigs (Wait_status s) c'" using c1(2) by (simp add: set_status_def)
  from mut_process_wait_exit [OF this s(2)] assms(2,3)
  have "mut_process_wait ?u = Some ((-1, None), set_status Status_exited (log_emit (exit_report (program_name (the_log w)) s)
      (w\<lparr>child := c'\<rparr>)))"
    by (simp add: set_status_def log_idle_def writes_ok_def exit_report_def log_emit_def)
  with c1(1) show ?thesis by auto
qed

text \<open>Running a call to its return address.\<close>

lemma do_action_ok:
  fixes w :: "('p, 'a) mut_world_scheme"
  assumes "p_stopped w" and "clean w" and "runs_call (os w) (p_pc (process w)) ra (child w) c'"
  shows "mut_do_action ra act w = Some (True, moved ra c' w)"
proof -
  from assms(3) obtain i c1 x where c1: "read_word (cmem (child w)) ra = Some i"
     "stops (os w) (p_pc (process w)) ((child w)\<lparr>cmem := put_word ra mut_instr_bp (cmem (child w))\<rparr>) ra c1"
     "read_word (cmem c1) ra = Some x" "c' = c1\<lparr>cmem := put_word ra i (cmem c1)\<rparr>"
    unfolding runs_call_def by blast
  let ?w = "moved (p_pc (process w)) ((child w)\<lparr>cmem := put_word ra mut_instr_bp (cmem (child w))\<rparr>) w"
  have 1: "mut_process_breakpoint ra w = Some (Some i, ?w)"
    using breakpoint_ok [OF assms(2,1) c1(1)] by (simp add: moved_self)
  obtain u where u: "mut_process_resume ?w = Some (True, u)" "mut_process_wait u = Some ((1, Some ra), moved ra c1 w)"
    using stops_ok [of ?w ra c1] assms(1,2) c1(2) by auto
  have "mut_process_restore ra i (moved ra c1 w) = Some (True, moved ra c' w)"
    using restore_ok [of "moved ra c1 w" ra x i] assms(1) c1(3,4) by simp
  with 1 u show ?thesis by (simp add: mut_do_action_def try_c_def try_ok_def)
qed

section \<open>The map as a list of objects\<close>

definition object_of :: "mut_resource \<Rightarrow> object" where
  "object_of r = \<lparr>o_addr = r_addr r, o_size = the (r_size r), o_producer = the (producer_action r), o_consumer = consumer_action r\<rparr>"

definition objects :: "('p, 'a) mut_world_scheme \<Rightarrow> object list" where
  "objects w = map object_of (elems (resources w))"

text \<open>MUT can allocate its own memory as long as it has less than \<open>k\<close> blocks more than now.\<close>

definition room :: "nat \<Rightarrow> ('p, 'a) mut_world_scheme \<Rightarrow> bool" where
  "room k w \<longleftrightarrow> (\<forall>h n. card (dom h) < card (dom (c_heap w)) + k \<longrightarrow> c_pick w h n \<noteq> 0)"

text \<open>The map is in order, and there are no options, or only the one that traces the calls.\<close>

definition tracking :: "('p, 'a) mut_world_scheme \<Rightarrow> bool" where
  "tracking w \<longleftrightarrow> m_flags w \<in> {0, mut_control_trace} \<and> res_inv (\<lambda>_. 0) w \<and> \<not> really_free (resources w) \<and> list_all made (elems (resources w))"

abbreviation tracing :: "('p, 'a) mut_world_scheme \<Rightarrow> bool" where
  "tracing w \<equiv> ctl mut_control_trace w"

lemma tracking_ctl:
  assumes "tracking w"
  shows "\<not> ctl mut_control_backtrace w" "\<not> ctl mut_control_free w" "\<not> ctl mut_control_stats w" "\<not> ctl mut_control_zero w"
    "\<not> ctl mut_control_usage w" "\<not> ctl mut_control_check w"
  using assms by (auto simp: tracking_def ctl_def mut_control_trace_def mut_control_backtrace_def mut_control_free_def
    mut_control_stats_def mut_control_zero_def mut_control_usage_def mut_control_check_def)

lemma find_map_of: "find (\<lambda>x. o_addr x = a) (map object_of rs) = map_option object_of (map_of (map (\<lambda>r. (r_addr r, r)) rs) a)"
  by (induction rs) (simp_all add: object_of_def)

lemma object_at_entry: "object_at a (objects w) = map_option object_of (res_entry w a)"
  by (simp add: object_at_def objects_def res_entry_def find_map_of)

lemma objects_addrs: "o_addr ` set (objects w) = r_addr ` set (elems (resources w))"
  by (force simp: objects_def object_of_def)

lemma card_dom_upd: "card (dom (h(a \<mapsto> x))) \<le> card (dom (h :: u32 \<Rightarrow> u8 list option)) + 1"
  by (simp add: card_insert_if)

lemma malloc_room:
  fixes w :: "('p, 'a) mut_world_scheme"
  assumes "room (k + 2) w"
  shows "\<exists>p h s. mut_mem__malloc n ln f w = Some (p, w\<lparr>c_heap := h, store := s\<rparr>) \<and> p \<noteq> 0 \<and>
    card (dom h) \<le> card (dom (c_heap w)) + 2 \<and> mem_report s = mem_report (store w)"
proof -
  let ?a = "c_pick w (c_heap w) n"
  define h where "h = (c_heap w)(?a \<mapsto> map (c_fill w ?a) [0..<unat n])"
  define b where "b = c_pick w h sizeof_mut_mem_node"
  define h' where "h' = h(b \<mapsto> map (c_fill w b) [0..<unat sizeof_mut_mem_node])"
  have c: "card (dom h) \<le> card (dom (c_heap w)) + 1" "card (dom h') \<le> card (dom h) + 1"
    unfolding h_def h'_def by (rule card_dom_upd)+
  have a: "?a \<noteq> 0" using assms unfolding room_def by simp
  have "b \<noteq> 0" using assms c(1) unfolding room_def b_def by simp
  with a have "mut_mem__malloc n ln f w = Some (?a, w\<lparr>c_heap := h', store := mem_enter b ?a n ln f (store w)\<rparr>)"
    by (simp add: mut_mem__malloc_def libc_malloc_def Let_def h_def [symmetric] b_def [symmetric] h'_def [symmetric])
  moreover have "mem_report (mem_enter b ?a n ln f (store w)) = mem_report (store w)" by (simp add: mem_enter_def Let_def)
  ultimately show ?thesis
    using a c by (intro exI [of _ ?a] exI [of _ h'] exI [of _ "mem_enter b ?a n ln f (store w)"]) auto
qed

lemma new_resource_fields [simp]:
  "r_self (new_resource p a) = p" "r_addr (new_resource p a) = a" "producer_backtrace (new_resource p a) = 0"
  "consumer_action (new_resource p a) = None" "(new_resource p a)\<lparr>producer_action := x, producer_backtrace := 0, r_size := y\<rparr> =
     (new_resource p a)\<lparr>producer_action := x, r_size := y\<rparr>"
  by (simp_all add: new_resource_def)

text \<open>The state after an object has been recorded.\<close>

definition recorded :: "mut_action_id \<Rightarrow> u32 \<Rightarrow> u32 \<Rightarrow> ('p, 'a) mut_world_scheme \<Rightarrow> ('p, 'a) mut_world_scheme \<Rightarrow> bool" where
  "recorded act n a w v \<longleftrightarrow> (\<exists>h s R. v = w\<lparr>c_heap := h, store := s, resources := R\<rparr> \<and> card (dom h) \<le> card (dom (c_heap w)) + 2 \<and>
     mem_report s = mem_report (store w)) \<and> tracking v \<and> objects v = new_object a n act # objects w"

lemma record_object:
  fixes w :: "('p, 'a) mut_world_scheme"
  assumes ok: "tracking w" and room: "room (k + 2) w" and new: "a \<notin> o_addr ` set (objects w)"
  obtains p x v where "mut_resources_create_resource a w = Some (p, x)" "p \<noteq> 0" "res_get p x = Some (new_resource p a)"
    "m_flags x = m_flags w" "\<And>act n. \<exists>v. mut_resource_make_producer p act n 0 x = Some v \<and> recorded act n a w v"
    "\<And>act n. res_set p (\<lambda>r. r\<lparr>producer_action := Some act, r_size := Some n\<rparr>) x = mut_resource_make_producer p act n 0 x"
proof -
  have inv: "res_inv (\<lambda>_. 0) w" and no: "res_entry w a = None"
    using ok new by (simp_all add: tracking_def res_entry_None objects_addrs)
  obtain p h s where m: "mut_mem__malloc sizeof_mut_resource 101 resources_file w = Some (p, w\<lparr>c_heap := h, store := s\<rparr>)"
      "p \<noteq> 0" "card (dom h) \<le> card (dom (c_heap w)) + 2" "mem_report s = mem_report (store w)"
    using malloc_room [OF room] by blast
  have "find_addr a (elems (resources w)) = 0"
    using mut_resources_lookup_spec [OF inv, of a] no by (simp add: mut_resources_lookup_def)
  then have c: "mut_resources_create_resource a w = Some (p, w\<lparr>c_heap := h, store := s, resources := (resources w)\<lparr>
      elems := new_resource p a # elems (resources w), n_active_elems := n_active_elems (resources w) + 1\<rparr>\<rparr>)"
    (is "_ = Some (p, ?x)") using m by (simp add: mut_resources_create_resource_def Let_def new_resource_def)
  note r = mut_resources_create_result [OF inv c]
  have get: "res_get p ?x = Some (new_resource p a)" by (simp add: res_get_def)
  have out: "p \<notin> r_self ` set (elems (resources w))"
    using r no m(2) by (simp add: res_inv_def)
  then have same: "map (\<lambda>r. if r_self r = p then g r else r) (elems (resources w)) = elems (resources w)" for g
    by (intro map_idI) (auto simp: image_iff)
  have mk: "\<exists>v. mut_resource_make_producer p act n 0 ?x = Some v \<and> recorded act n a w v" for act n
  proof -
    obtain v where v: "mut_resource_make_producer p act n 0 ?x = Some v" "res_inv (\<lambda>_. 0) v"
      using mut_resource_make_producer_result [OF _ get, of "\<lambda>_. 0" 0 act n] r by auto
    moreover have "v = w\<lparr>c_heap := h, store := s, resources := (resources w)\<lparr>
      n_active_elems := n_active_elems (resources w) + 1,
      elems := (new_resource p a)\<lparr>producer_action := Some act, r_size := Some n\<rparr> # elems (resources w)\<rparr>\<rparr>"
      using v(1) same by (simp add: mut_resource_make_producer_def res_set_def get)
    ultimately show ?thesis using m(3,4) ok
      by (auto simp: recorded_def tracking_def objects_def object_of_def new_object_def made_def)
  qed
  have "res_set p (\<lambda>r. r\<lparr>producer_action := Some act, r_size := Some n\<rparr>) ?x = mut_resource_make_producer p act n 0 ?x" for act n
    using same by (simp add: mut_resource_make_producer_def res_set_def get)
  with c m(2) get mk that show thesis using ok by (simp add: tracking_def)
qed

text \<open>The state after an object has been marked as consumed.\<close>

lemma consume_ok:
  fixes w :: "('p, 'a) mut_world_scheme"
  assumes ok: "tracking w" and get: "res_get p w = Some r" and live: "consumer_action r = None"
  shows "\<exists>R. mut_resources_delete_resource p c 0 w = Some (w\<lparr>resources := R\<rparr>) \<and> tracking (w\<lparr>resources := R\<rparr>) \<and>
    objects (w\<lparr>resources := R\<rparr>) = consumed (r_addr r) c (objects w)"
proof -
  have inv: "res_inv (\<lambda>_. 0) w" using ok by (simp add: tracking_def)
  then obtain v where v: "mut_resources_delete_resource p c 0 w = Some v" "res_inv (\<lambda>_. 0) v"
    using mut_resources_delete_result [OF inv get live, of 0 c] by auto
  have r: "r \<in> set (elems (resources w))" "r_self r = p" using get node_at_Some by (auto simp: res_get_def)
  define R where "R = (resources w)\<lparr>elems := map (\<lambda>r. if r_self r = p then r\<lparr>consumer_action := Some c\<rparr> else r) (elems (resources w)),
    n_active_elems := n_active_elems (resources w) - 1, n_consumed_elems := n_consumed_elems (resources w) + 1\<rparr>"
  have vR: "v = w\<lparr>resources := R\<rparr>"
    using v(1) ok get live
    by (auto simp: mut_resources_delete_resource_def mut_resources_mark_as_free_def tracking_def res_set_def R_def split: if_splits bind_splits)
  have self: "r_self x = p \<longleftrightarrow> r_addr x = r_addr r" if "x \<in> set (elems (resources w))" for x
    using inv r that by (auto simp: res_inv_def distinct_map inj_on_def)
  have "objects v = consumed (r_addr r) c (objects w)"
    unfolding objects_def consumed_def vR R_def using self live inv r
    by (auto simp: object_of_def res_inv_def distinct_map inj_on_def)
  moreover have "list_all made (elems (resources v))" "\<not> really_free (resources v)"
    using ok by (auto simp: vR R_def tracking_def list_all_iff made_def)
  ultimately show ?thesis using v ok by (intro exI [of _ R]) (simp add: vR tracking_def)
qed

end
