(* ===== verification/MutTracked.thy ===== *)
theory MutTracked
  imports MutTracker
begin

text \<open>
  The proof that a run of MUT in its default mode, or with -t, computes the specification of MutTracker: first each handler for one call, then a round of the
  loop with the breakpoints taken out and put back, then the whole run and the report of leaks.
\<close>

section \<open>The handlers\<close>

text \<open>What a handler leaves: the child and the program counter, the map, the text of the log, and enough room.\<close>

definition unchanging where
  "unchanging w = (os w, c_pick w, c_write_fails w, program_name (the_log w), sink (the_log w), mem_report (store w), a_root w, actions w, m_flags w)"

definition log_text :: "('p, 'a) mut_world_scheme \<Rightarrow> string" where
  "log_text w = c_out w (sink (the_log w))"

definition ready :: "('p, 'a) mut_world_scheme \<Rightarrow> bool" where
  "ready w \<longleftrightarrow> clean w \<and> p_stopped w \<and> log_idle w \<and> writes_ok w \<and> tracking w"

definition handled ::
  "nat \<Rightarrow> u32 \<Rightarrow> 'p child \<Rightarrow> object list \<Rightarrow> string \<Rightarrow> ('p, 'a) mut_world_scheme \<Rightarrow> ('p, 'a) mut_world_scheme \<Rightarrow> bool" where
  "handled k pc c objs txt w v \<longleftrightarrow> ready v \<and> unchanging v = unchanging w \<and> child v = c \<and> p_pc (process v) = pc \<and>
     objects v = objs \<and> log_text v = log_text w @ txt \<and> room k v"

lemma tracking_update [simp]:
  "tracking (w\<lparr>c_errno := e\<rparr>) = tracking w" "tracking (moved pc c w) = tracking w" "tracking (log_emit s w) = tracking w"
  "tracking (w\<lparr>c_errno := e, child := c\<rparr>) = tracking w" "tracking (set_mem m w) = tracking w" "tracking (set_reg r x w) = tracking w" "tracking (set_pc pc w) = tracking w"
  by (simp_all add: tracking_def moved_def log_emit_def set_mem_def set_reg_def set_pc_def res_inv_def refs_ok_def bts_ok_def
      mem_wf_def mem_in_use_def malloc_fresh_def plain_blocks_def bt_refs_def)

lemma ready_update [simp]:
  "ready (w\<lparr>c_errno := e\<rparr>) = ready w" "ready (moved pc c w) = ready w" "ready (log_emit s w) = ready w"
  by (simp_all add: ready_def moved_def log_emit_def clean_def p_stopped_def log_idle_def writes_ok_def
      tracking_update [unfolded moved_def log_emit_def])

lemma room_update [simp]:
  "room k (w\<lparr>c_errno := e\<rparr>) = room k w" "room k (moved pc c w) = room k w" "room k (log_emit s w) = room k w"
  by (simp_all add: room_def moved_def log_emit_def)

lemma objects_update [simp]:
  "objects (w\<lparr>c_errno := e\<rparr>) = objects w" "objects (moved pc c w) = objects w" "objects (log_emit s w) = objects w"
  by (simp_all add: objects_def moved_def log_emit_def)

lemma unchanging_update [simp]:
  "unchanging (w\<lparr>c_errno := e\<rparr>) = unchanging w" "unchanging (moved pc c w) = unchanging w" "unchanging (log_emit s w) = unchanging w"
  by (simp_all add: unchanging_def moved_def log_emit_def)

lemma log_text_update [simp]:
  "log_text (w\<lparr>c_errno := e\<rparr>) = log_text w" "log_text (moved pc c w) = log_text w" "log_text (log_emit s w) = log_text w @ s"
  by (simp_all add: log_text_def moved_def log_emit_def)

lemma moved_log [simp]:
  "program_name (the_log (moved pc c w)) = program_name (the_log w)" "log_idle (moved pc c w) = log_idle w"
  "writes_ok (moved pc c w) = writes_ok w" "actions (moved pc c w) = actions w" "resources (moved pc c w) = resources w"
  "res_get p (moved pc c w) = res_get p w" "ctl x (moved pc c w) = ctl x w" "the_log (moved pc c w) = the_log w" "store (moved pc c w) = store w" "a_root (moved pc c w) = a_root w"
  by (simp_all add: moved_def log_idle_def writes_ok_def res_get_def ctl_def)

lemma emit_fields [simp]:
  "actions (log_busy w) = actions (w :: ('p, 'a) mut_world_scheme)" "actions (log_quiet w) = actions w"
  "actions (log_emit s w) = actions w" "process (log_emit s w) = process w"
  "os (log_emit s w) = os w" "c_pick (log_emit s w) = c_pick w" "c_heap (log_emit s w) = c_heap w"
  by (simp_all add: log_emit_def log_busy_def log_quiet_def)

text \<open>Reading the arguments.\<close>

lemma ready_tracking: "ready w \<Longrightarrow> tracking w"
  by (simp add: ready_def)

lemma call_frame_ok:
  assumes "ready w" and "call_frame (child w) sp ra xs" and "v = w \<or> v = w\<lparr>c_errno := 0\<rparr>"
  shows "mut_process_function_return_addr v = Some (Some ra, w\<lparr>c_errno := 0\<rparr>)"
    and "xs = x # ys \<Longrightarrow> mut_process_read_arg 0 v = Some (Some x, w\<lparr>c_errno := 0\<rparr>)"
    and "xs = x # y # ys \<Longrightarrow> mut_process_read_arg 1 v = Some (Some y, w\<lparr>c_errno := 0\<rparr>)"
    and "xs = x # ys \<Longrightarrow> mut_process_write_arg 0 d v =
      Some (True, moved (p_pc (process w)) ((child w)\<lparr>cmem := put_word (sp + 4) d (cmem (child w))\<rparr>) w)"
    and "mut_process_skip_to pc v = Some (True, moved pc ((child w)\<lparr>regs := (regs (child w))(mut_process_arch_regs_esp \<mapsto> sp + 4)\<rparr>) w)"
proof -
  have v: "clean v" "p_stopped v" "child v = child w" "v\<lparr>c_errno := 0\<rparr> = w\<lparr>c_errno := 0\<rparr>" "p_pc (process v) = p_pc (process w)"
    using assms(1,3) by (auto simp: ready_def)
  note r = read_pc_arg_ok [OF v(1,2), of sp, unfolded v]
  show "mut_process_function_return_addr v = Some (Some ra, w\<lparr>c_errno := 0\<rparr>)"
    "xs = x # ys \<Longrightarrow> mut_process_read_arg 0 v = Some (Some x, w\<lparr>c_errno := 0\<rparr>)"
    "xs = x # y # ys \<Longrightarrow> mut_process_read_arg 1 v = Some (Some y, w\<lparr>c_errno := 0\<rparr>)"
    "xs = x # ys \<Longrightarrow> mut_process_write_arg 0 d v =
      Some (True, moved (p_pc (process w)) ((child w)\<lparr>cmem := put_word (sp + 4) d (cmem (child w))\<rparr>) w)"
    using assms(2) r by (auto simp: call_frame_def add.assoc moved_self)
  show "mut_process_skip_to pc v = Some (True, moved pc ((child w)\<lparr>regs := (regs (child w))(mut_process_arch_regs_esp \<mapsto> sp + 4)\<rparr>) w)"
    using assms(2,3) r(4) by (auto simp: call_frame_def moved_def set_reg_def set_pc_def)
qed

text \<open>A call that is run to its end.\<close>

lemma call_done:
  assumes "ready w" and "runs_call (os w) pc ra c c'" and "v = moved pc c w \<or> pc = p_pc (process w) \<and> c = child w \<and> v = w\<lparr>c_errno := 0\<rparr>"
  shows "mut_do_action ra act v = Some (True, moved ra c' w)"
  using do_action_ok [of v ra c' act] assms by (auto simp: ready_def)

lemma call_result:
  "ready w \<Longrightarrow> result c = Some a \<Longrightarrow> mut_process_read_result (moved ra c w) = Some (Some a, moved ra c w)"
  by (simp add: mut_process_read_result_def trace_ok ready_def)

lemma hit_off: "tracking w \<Longrightarrow> hit a w = w"
  by (simp add: hit_def tracking_ctl)

lemma no_backtrace: "tracking w \<Longrightarrow> mut_produce_backtrace w = Some (Some 0, w)"
  by (simp add: mut_produce_backtrace_def tracking_ctl)

lemma when_off: "\<not> c \<Longrightarrow> when_c c f w = Some w"
  by (simp add: when_c_def)

lemmas off = hit_off no_backtrace when_off drop_bt_def usage_if_def collect_if_def tracking_ctl mut_resource_is_new_def
lemmas quiet = off log_bt_def end_log_def log_line_def

text \<open>The messages that trace a call.\<close>

lemma trace_no_line [simp]: "log_emit [] w = (w :: 'a log_world_scheme)"
  by (simp add: log_emit_def)

lemma trace_lines:
  fixes v :: "('p, 'a) mut_world_scheme"
  assumes "ready v" and "tr = tracing v"
  shows
    "when_c tr (\<lambda>w. do {
       w \<leftarrow> mut_log_info ''trace'' w;
       w \<leftarrow> mut_log_string (action_name act w) w;
       w \<leftarrow> mut_log_uint n w;
       w \<leftarrow> mut_log_uint_hex a w;
       w \<leftarrow> log_bt bt w;
       end_log w }) v =
     Some (log_emit (trace_line tr (program_name (the_log v)) [LString (action_name act v), LUint n, LHex a]) v)" (is ?malloc)
    "when_c tr (\<lambda>w. do {
       w \<leftarrow> mut_log_info ''trace'' w;
       w \<leftarrow> mut_log_string (action_name act w) w;
       w \<leftarrow> mut_log_uint m w;
       w \<leftarrow> mut_log_uint n w;
       w \<leftarrow> mut_log_uint_hex a w;
       w \<leftarrow> log_bt bt w;
       end_log w }) v =
     Some (log_emit (trace_line tr (program_name (the_log v)) [LString (action_name act v), LUint m, LUint n, LHex a]) v)" (is ?calloc)
    "realloc_trace a m n b bt v =
     Some (log_emit (trace_line tr (program_name (the_log v)) [LString (action_name Act_realloc v), LHex a, LUlong m, LUlong n, LHex b]) v)" (is ?realloc)
    "when_c tr (\<lambda>w. do {
       w \<leftarrow> mut_log_info ''trace'' w;
       w \<leftarrow> mut_log_string (action_name act w) w;
       w \<leftarrow> mut_log_uint_hex a w;
       end_log w }) v =
     Some (log_emit (trace_line tr (program_name (the_log v)) [LString (action_name act v), LHex a]) v)" (is ?null)
    "when_c tr (\<lambda>w. do {
       w \<leftarrow> mut_log_info ''trace'' w;
       w \<leftarrow> mut_log_string (action_name act w) w;
       w \<leftarrow> mut_log_uint_hex a w;
       w \<leftarrow> mut_log_int i w;
       end_log w }) v =
     Some (log_emit (trace_line tr (program_name (the_log v)) [LString (action_name act v), LHex a, LInt i]) v)" (is ?unknown)
    "when_c tr (\<lambda>w. do {
       w \<leftarrow> mut_log_info ''trace'' w;
       w \<leftarrow> mut_log_string (action_name act w) w;
       w \<leftarrow> mut_log_uint_hex a w;
       w \<leftarrow> mut_log_ulong n w;
       end_log w }) v =
     Some (log_emit (trace_line tr (program_name (the_log v)) [LString (action_name act v), LHex a, LUlong n]) v)" (is ?known)
proof -
  have v: "tracking v" "log_idle v" "writes_ok v" using assms(1) by (simp_all add: ready_def)
  note defs = assms(2) when_c_def quiet v(2,3) tracking_ctl [OF v(1)] trace_line_def action_name_def
  show ?malloc ?calloc ?null ?unknown ?known by (simp_all add: defs)
  show ?realloc by (simp add: realloc_trace_def defs)
qed

lemma recorded_handled:
  assumes "recorded act n a (moved pc c w) v" and "ready w" and "room (k + 2) w"
  shows "handled k pc c (new_object a n act # objects w) [] w v"
proof -
  obtain h s R where v: "v = (moved pc c w)\<lparr>c_heap := h, store := s, resources := R\<rparr>" "card (dom h) \<le> card (dom (c_heap w)) + 2"
    "mem_report s = mem_report (store w)"
    using assms(1) by (auto simp: recorded_def moved_def)
  have "ready v" using assms(1,2)
    by (auto simp: recorded_def ready_def) (simp_all add: v(1) moved_def clean_def p_stopped_def log_idle_def writes_ok_def)
  moreover have "unchanging v = unchanging w" "child v = c" "p_pc (process v) = pc" "log_text v = log_text w"
    using v(3) by (simp_all add: v(1) unchanging_def log_text_def moved_def)
  moreover have "room k v" using assms(3) v(2) by (auto simp: room_def v(1) moved_def)
  ultimately show ?thesis using assms(1) by (simp add: handled_def recorded_def)
qed

lemma failures:
  assumes "ready v"
  shows "mut_malloc_failure n 0 v = Some (log_emit (trace_line (tracing v) (program_name (the_log v)) [LString (action_name Act_malloc v), LUint n, LHex 0] @
      log_line (program_name (the_log v)) Warning ''MR0'' [LString (action_name Act_malloc v), LUint n]) v)" (is ?malloc)
    and "mut_calloc_failure m n 0 v = Some (log_emit (trace_line (tracing v) (program_name (the_log v)) [LString (action_name Act_calloc v), LUint m, LUint n, LHex 0] @
      log_line (program_name (the_log v)) Warning ''CR0'' [LString (action_name Act_calloc v), LUint m, LUint n]) v)" (is ?calloc)
proof -
  have v: "tracking v" "log_idle v" "writes_ok v" using assms by (simp_all add: ready_def)
  show ?malloc unfolding mut_malloc_failure_def trace_lines [OF assms refl] by (simp add: quiet v action_name_def)
  show ?calloc unfolding mut_calloc_failure_def trace_lines [OF assms refl] by (simp add: quiet v action_name_def)
qed

lemma handled_emit: "handled k pc c objs txt w v \<Longrightarrow> handled k pc c objs (txt @ s) w (log_emit s v)"
  by (simp add: handled_def)

lemma recorded_traced:
  assumes "recorded act n a (moved pc c w) v" and "ready w" and "room (k + 2) w"
  shows "ready v" and "tracking v" and "tracing v = tracing w" and "program_name (the_log v) = program_name (the_log w)"
    and "action_name b v = a_name (actions w b)" and "handled k pc c (new_object a n act # objects w) s w (log_emit s v)"
proof -
  note h = recorded_handled [OF assms]
  show "ready v" "tracking v" "tracing v = tracing w" "program_name (the_log v) = program_name (the_log w)" "action_name b v = a_name (actions w b)"
    using h ready_tracking [of v] by (simp_all add: handled_def unchanging_def ctl_def action_name_def)
  show "handled k pc c (new_object a n act # objects w) s w (log_emit s v)" using handled_emit [OF h, of s] by simp
qed

lemma malloc_handled:
  assumes "ready w" and "room (k + 2) w" and "call_frame (child w) sp ra [n]"
    and "runs_call (os w) (p_pc (process w)) ra (child w) c'" and "result c' = Some a" and "a \<notin> o_addr ` set (objects w)"
  shows "\<exists>v. mut_do_malloc Act_malloc w = Some (True, v) \<and> handled k ra c' (track (Malloc n a) (objects w))
    (report (tracing w) (program_name (the_log w)) (\<lambda>a. a_name (actions w a)) (objects w) (Malloc n a)) w v"
proof -
  have w: "clean w" "p_stopped w" "log_idle w" "writes_ok w" "tracking w" using assms(1) by (simp_all add: ready_def)
  note f = call_frame_ok [OF assms(1,3)] call_done [OF assms(1,4)]
  note start = mut_do_malloc_def f call_result [OF assms(1,5)] off w try_c_def try_ok_def Let_def
  show ?thesis
  proof (cases "a = 0")
    case True
    have "room k w" using assms(2) by (auto simp: room_def)
    with True assms(1) show ?thesis
      by (simp add: start failures handled_def) (simp add: action_name_def)
  next
    case False
    have t: "tracking (moved ra c' w)" "room (k + 2) (moved ra c' w)" "a \<notin> o_addr ` set (objects (moved ra c' w))"
      using w(5) assms(2,6) by simp_all
    obtain p x v where x: "mut_resources_create_resource a (moved ra c' w) = Some (p, x)" "p \<noteq> 0"
      "res_get p x = Some (new_resource p a)" "m_flags x = m_flags (moved ra c' w)"
      and v: "mut_resource_make_producer p Act_malloc n 0 x = Some v" "recorded Act_malloc n a (moved ra c' w) v"
      using record_object [OF t] by metis
    note rt = recorded_traced [OF v(2) assms(1,2)]
    have same: "ctl c x = ctl c w" for c using x(4) by (simp add: ctl_def)
    let ?l = "trace_line (tracing w) (program_name (the_log w)) [LString (a_name (actions w Act_malloc)), LUint n, LHex a]"
    have "mut_do_malloc Act_malloc w = Some (True, log_emit ?l v)"
      using False x v(1) rt(1-5) by (simp add: start mut_malloc_success_def new_resource_def trace_lines)
    with rt(6) False show ?thesis by auto
  qed
qed

lemma calloc_handled:
  assumes "ready w" and "room (k + 2) w" and "call_frame (child w) sp ra [m, n]"
    and "runs_call (os w) (p_pc (process w)) ra (child w) c'" and "result c' = Some a" and "a \<notin> o_addr ` set (objects w)"
  shows "\<exists>v. mut_do_calloc Act_calloc w = Some (True, v) \<and> handled k ra c' (track (Calloc m n a) (objects w))
    (report (tracing w) (program_name (the_log w)) (\<lambda>a. a_name (actions w a)) (objects w) (Calloc m n a)) w v"
proof -
  have w: "clean w" "p_stopped w" "log_idle w" "writes_ok w" "tracking w" using assms(1) by (simp_all add: ready_def)
  note f = call_frame_ok [OF assms(1,3)] call_done [OF assms(1,4)]
  note start = mut_do_calloc_def f call_result [OF assms(1,5)] off w try_c_def try_ok_def Let_def
  show ?thesis
  proof (cases "a = 0")
    case True
    have "room k w" using assms(2) by (auto simp: room_def)
    with True assms(1) show ?thesis
      by (simp add: start failures handled_def) (simp add: action_name_def)
  next
    case False
    have t: "tracking (moved ra c' w)" "room (k + 2) (moved ra c' w)" "a \<notin> o_addr ` set (objects (moved ra c' w))"
      using w(5) assms(2,6) by simp_all
    obtain p x v where x: "mut_resources_create_resource a (moved ra c' w) = Some (p, x)" "p \<noteq> 0"
      "res_get p x = Some (new_resource p a)" "m_flags x = m_flags (moved ra c' w)"
      and v: "mut_resource_make_producer p Act_calloc (m * n) 0 x = Some v" "recorded Act_calloc (m * n) a (moved ra c' w) v"
      using record_object [OF t] by metis
    note rt = recorded_traced [OF v(2) assms(1,2)]
    have same: "ctl c x = ctl c w" for c using x(4) by (simp add: ctl_def)
    let ?l = "trace_line (tracing w) (program_name (the_log w)) [LString (a_name (actions w Act_calloc)), LUint m, LUint n, LHex a]"
    have "mut_do_calloc Act_calloc w = Some (True, log_emit ?l v)"
      using False x v(1) rt(1-5) by (simp add: start mut_calloc_success_def new_resource_def trace_lines)
    with rt(6) False show ?thesis by auto
  qed
qed

lemma lookup_cases [consumes 1]:
  assumes "tracking w"
  obtains (unknown) "object_at a (objects w) = None" "mut_resources_lookup a w = 0"
  | (known) r where "object_at a (objects w) = Some (object_of r)" "mut_resources_lookup a w = r_self r" "r_self r \<noteq> 0"
      "res_get (r_self r) w = Some r" "r_addr r = a" "made r"
proof (cases "res_entry w a")
  case None
  with assms show thesis using mut_resources_lookup_spec [of "\<lambda>_. 0" w a]
    by (intro unknown) (simp_all add: object_at_entry tracking_def)
next
  case (Some r)
  have inv: "res_inv (\<lambda>_. 0) w" using assms by (simp add: tracking_def)
  have r: "r \<in> set (elems (resources w))" "r_addr r = a" using res_entry_Some [OF Some] by simp_all
  have "res_get (r_self r) w = Some r" using inv r(1) node_at_self by (simp add: res_get_def res_inv_def)
  moreover have "r_self r \<noteq> 0" using res_inv_not_null [OF inv] r(1) by force
  moreover have "made r" using assms r(1) by (simp add: tracking_def list_all_iff)
  ultimately show thesis
    using Some r(2) mut_resources_lookup_spec [OF inv, of a] by (intro known [of r]) (simp_all add: object_at_entry)
qed

lemma emit_errno [simp]: "log_emit s (w\<lparr>c_errno := e\<rparr>) = (log_emit s w)\<lparr>c_errno := e\<rparr>"
  by (simp add: log_emit_def)

lemma free_null_handled:
  assumes "ready w" and "room (k + 2) w" and "call_frame (child w) sp ra [0]"
    and "runs_call (os w) (p_pc (process w)) ra (child w) c'"
  shows "\<exists>v. mut_do_consumer act w = Some (True, v) \<and> handled k ra c' (objects w)
    (report (tracing w) (program_name (the_log w)) (\<lambda>a. a_name (actions w a)) (objects w) (Consume act 0)) w v"
proof -
  have w: "tracking w" using assms(1) by (rule ready_tracking)
  let ?l = "trace_line (tracing w) (program_name (the_log w)) [LString (action_name act w), LHex 0]"
  let ?w = "log_emit ?l w"
  have "runs_call (os ?w) (p_pc (process ?w)) ra (child ?w) c'" using assms(4) by simp
  note f = call_frame_ok [OF assms(1,3)] call_done [OF _ this]
  have "room k w" using assms(2) by (auto simp: room_def)
  moreover have "tracking ((log_emit ?l w)\<lparr>c_errno := 0\<rparr>)" using w by simp
  ultimately show ?thesis using assms(1) by (simp add: mut_do_consumer_def f off w trace_lines try_c_def handled_def) (simp add: action_name_def)?
qed

lemma consumed_unknown: "object_at a objs = None \<Longrightarrow> consumed a c objs = objs"
  by (auto simp: object_at_def consumed_def find_None_iff intro: map_idI)

lemma consumed_addrs [simp]: "o_addr ` set (consumed a c objs) = o_addr ` set objs"
proof -
  have "map o_addr (consumed a c objs) = map o_addr objs" by (simp add: consumed_def)
  then show ?thesis by (metis set_map)
qed

lemma consumed_again:
  assumes "distinct (map o_addr objs)" and "object_at a objs = Some x" and "o_consumer x \<noteq> None"
  shows "consumed a c objs = objs"
proof -
  have "y = x" if "y \<in> set objs" "o_addr y = a" for y
    using assms(1,2) that by (auto simp: object_at_def find_Some_iff distinct_map dest!: inj_onD [where f = o_addr])
  then show ?thesis using assms(3) by (auto simp: consumed_def intro!: map_idI)
qed

lemma objects_distinct: "tracking w \<Longrightarrow> distinct (map o_addr (objects w))"
  by (simp add: tracking_def res_inv_def objects_def object_of_def comp_def)

text \<open>Consuming an object, and the messages about it.\<close>

lemma skip_moved:
  "ready v \<Longrightarrow> regs (child v) mut_process_arch_regs_esp = Some sp \<Longrightarrow>
   do_or_skip ra c v = Some (True, moved ra ((child v)\<lparr>regs := (regs (child v))(mut_process_arch_regs_esp \<mapsto> sp + 4)\<rparr>) v)"
  using read_pc_arg_ok(4) [of v sp ra] tracking_ctl(2) [of v] by (simp add: ready_def do_or_skip_def moved_def set_reg_def set_pc_def)

lemma fum_line:
  "ready v \<Longrightarrow> mut_log_fum a c 0 v =
     Some (log_emit (log_line (program_name (the_log v)) Error ''FUM'' [LString (action_name c v), LHex a]) v)"
  by (simp add: mut_log_fum_def quiet ready_def)

lemma ffm_line:
  "ready v \<Longrightarrow> res_get p v = Some r \<Longrightarrow> consumer_action r = Some c' \<Longrightarrow> mut_log_ffm a c p 0 v =
     Some (log_emit (log_line (program_name (the_log v)) Error ''FFM''
       [LString (action_name c v), LHex a, LString (action_name c' v)]) v)"
  by (simp add: mut_log_ffm_def quiet ready_def mut_resources_resource_deleted_def mut_resource_consumer_name_def)

lemma resources_handled:
  assumes "ready w" and "tracking (w\<lparr>resources := R\<rparr>)"
  shows "ready (w\<lparr>resources := R\<rparr>)" and "unchanging (w\<lparr>resources := R\<rparr>) = unchanging w" and "log_text (w\<lparr>resources := R\<rparr>) = log_text w"
    and "room k (w\<lparr>resources := R\<rparr>) = room k w"
  using assms by (simp_all add: ready_def clean_def p_stopped_def log_idle_def writes_ok_def unchanging_def log_text_def room_def)

lemma lookup_errno [simp]: "mut_resources_lookup a (w\<lparr>c_errno := e\<rparr>) = mut_resources_lookup a w"
  by (simp add: mut_resources_lookup_def)

lemma free_handled:
  fixes w :: "('p, 'a) mut_world_scheme"
  assumes "ready w" and "room (k + 2) w" and "call_frame (child w) sp ra [a]" and "a \<noteq> 0"
  shows "\<exists>v. mut_do_consumer act w = Some (True, v) \<and>
    handled k ra ((child w)\<lparr>regs := (regs (child w))(mut_process_arch_regs_esp \<mapsto> sp + 4)\<rparr>) (consumed a act (objects w))
      (report (tracing w) (program_name (the_log w)) (\<lambda>a. a_name (actions w a)) (objects w) (Consume act a)) w v"
proof -
  have t: "tracking w" using assms(1) by (rule ready_tracking)
  have sp: "regs (child w) mut_process_arch_regs_esp = Some sp" using assms(3) by (simp add: call_frame_def)
  have room: "room k w" using assms(2) by (auto simp: room_def)
  note start = mut_do_consumer_def call_frame_ok [OF assms(1,3)] off t try_c_def trace_lines
  from t show ?thesis
  proof (cases rule: lookup_cases [of w a])
    case unknown
    then show ?thesis using assms(1,4) sp room consumed_unknown [OF unknown(1)]
      by (simp add: start fum_line skip_moved handled_def) (simp add: action_name_def)
  next
    case (known r)
    have made: "made r" "o_addr (object_of r) = a" using known by (simp_all add: object_of_def)
    then obtain sz where sz: "r_size r = Some sz" by (auto simp: made_def)
    show ?thesis
    proof (cases "consumer_action r")
      case (Some c')
      have "consumed a act (objects w) = objects w"
        using consumed_again [OF objects_distinct [OF t] known(1)] Some by (simp add: object_of_def)
      then show ?thesis using assms(1,4) sp room known Some sz
        by (simp add: start mut_resources_resource_deleted_def object_of_def ffm_line skip_moved handled_def) (simp add: action_name_def)
    next
      case None
      let ?w = "log_emit (trace_line (tracing w) (program_name (the_log w)) [LString (action_name act w), LHex a, LUlong sz]) w"
      have same: "res_get (r_self r) ?w = res_get (r_self r) w" by (simp add: log_emit_def res_get_def)
      obtain R where R: "mut_resources_delete_resource (r_self r) act 0 (?w\<lparr>c_errno := 0\<rparr>) = Some ((?w\<lparr>c_errno := 0\<rparr>)\<lparr>resources := R\<rparr>)"
        "tracking ((?w\<lparr>c_errno := 0\<rparr>)\<lparr>resources := R\<rparr>)" "objects ((?w\<lparr>c_errno := 0\<rparr>)\<lparr>resources := R\<rparr>) = consumed a act (objects w)"
        using consume_ok [of "?w\<lparr>c_errno := 0\<rparr>" "r_self r" r act] t known None same by auto
      have rd: "ready ((?w\<lparr>c_errno := 0\<rparr>)\<lparr>resources := R\<rparr>)" using resources_handled(1) [OF _ R(2)] assms(1) by simp
      note rs = resources_handled(2-4) [OF _ R(2)]
      have "consume_object a ra act (r_self r) 0 (?w\<lparr>c_errno := 0\<rparr>) =
          Some (True, moved ra ((child w)\<lparr>regs := (regs (child w))(mut_process_arch_regs_esp \<mapsto> sp + 4)\<rparr>) (?w\<lparr>c_errno := 0, resources := R\<rparr>))"
        using known(4) R(1) rd sp t R(2) sz same
        by (simp add: consume_object_def off try_ok_def skip_moved)
      then show ?thesis using assms(1,4) room known None R rd rs sz
        by (simp add: start handled_def mut_resources_resource_deleted_def object_of_def) (simp add: action_name_def)
    qed
  qed
qed

text \<open>\<open>realloc\<close>.\<close>

lemma write_size_off: "tracking w \<Longrightarrow> write_size n w = Some (True, w)"
  by (simp add: write_size_def tracking_ctl)

lemma realloc_new_handled:
  assumes "ready w" and "room (k + 2) w" and "call_frame (child w) sp ra [0, n]"
    and "runs_call (os w) (p_pc (process w)) ra (child w) c'" and "result c' = Some a" and "a \<noteq> 0" and "a \<notin> o_addr ` set (objects w)"
  shows "\<exists>v. mut_do_realloc Act_realloc w = Some (True, v) \<and> handled k ra c' (new_object a n Act_realloc # objects w)
    (report (tracing w) (program_name (the_log w)) (\<lambda>a. a_name (actions w a)) (objects w) (Realloc 0 n a)) w v"
proof -
  have t: "tracking w" using assms(1) by (rule ready_tracking)
  have new: "tracking (moved ra c' w)" "room (k + 2) (moved ra c' w)" "a \<notin> o_addr ` set (objects (moved ra c' w))"
    using t assms(2,7) by simp_all
  obtain p x v where x: "mut_resources_create_resource a (moved ra c' w) = Some (p, x)" "p \<noteq> 0"
      "res_get p x = Some (new_resource p a)" "m_flags x = m_flags (moved ra c' w)"
      "res_set p (\<lambda>r. r\<lparr>producer_action := Some Act_realloc, r_size := Some n\<rparr>) x = Some v" "recorded Act_realloc n a (moved ra c' w) v"
    using record_object [OF new] by metis
  note rt = recorded_traced [OF x(6) assms(1,2)]
  let ?l = "trace_line (tracing w) (program_name (the_log w)) [LString (a_name (actions w Act_realloc)), LHex 0, LUlong 0, LUlong n, LHex a]"
  have same: "ctl c x = ctl c w" for c using x(4) by (simp add: ctl_def)
  have "mut_realloc_malloc n 0 (moved ra c' w) = Some (True, log_emit ?l v)"
    using t x assms(6) rt(1-5) same
    by (simp add: mut_realloc_malloc_def call_result [OF assms(1,5)] off try_c_def trace_lines Let_def)
  then have "mut_do_realloc Act_realloc w = Some (True, log_emit ?l v)"
    using t by (simp add: mut_do_realloc_def call_frame_ok [OF assms(1,3)] call_done [OF assms(1,4)] off write_size_off try_c_def try_ok_def)
  then show ?thesis using rt(6) by auto
qed

lemma realloc_unknown_handled:
  assumes "ready w" and "room (k + 2) w" and "call_frame (child w) sp ra [old, n]" and "old \<noteq> 0" and "object_at old (objects w) = None"
    and "runs_call (os w) (p_pc (process w)) ra ((child w)\<lparr>cmem := put_word (sp + 4) 0 (cmem (child w))\<rparr>) c'"
    and "result c' = Some a" and "a \<noteq> 0" and "a \<notin> o_addr ` set (objects w)"
  shows "\<exists>v. mut_do_realloc Act_realloc w = Some (True, v) \<and> handled k ra c' (new_object a n Act_realloc # objects w)
    (report (tracing w) (program_name (the_log w)) (\<lambda>a. a_name (actions w a)) (objects w) (Realloc old n a)) w v"
proof -
  let ?line = "log_line (program_name (the_log w)) Error ''FUM'' [LString (action_name Act_realloc w), LHex old]"
  let ?w = "log_emit ?line w"
  have w: "ready ?w" "room (k + 2) ?w" "call_frame (child ?w) sp ra [old, n]"
    "runs_call (os ?w) (p_pc (process ?w)) ra ((child ?w)\<lparr>cmem := put_word (sp + 4) 0 (cmem (child ?w))\<rparr>) c'" "tracking ?w"
    using assms(1-3,6) ready_tracking [OF assms(1)] by simp_all
  have t: "tracking w" using assms(1) by (rule ready_tracking)
  have new: "tracking (moved ra c' ?w)" "room (k + 2) (moved ra c' ?w)" "a \<notin> o_addr ` set (objects (moved ra c' ?w))"
    using t assms(2,9) by simp_all
  obtain p x v where x: "mut_resources_create_resource a (moved ra c' ?w) = Some (p, x)" "p \<noteq> 0"
      "res_get p x = Some (new_resource p a)" "m_flags x = m_flags (moved ra c' ?w)"
      "mut_resource_make_producer p Act_realloc n 0 x = Some v" "recorded Act_realloc n a (moved ra c' ?w) v"
    using record_object [OF new] by metis
  note rt = recorded_traced [OF x(6) w(1,2)]
  let ?l = "trace_line (tracing w) (program_name (the_log w)) [LString (a_name (actions w Act_realloc)), LHex 0, LUlong 0, LUlong n, LHex a]"
  have "mut_realloc_malloc_no_free n 0 (moved ra c' ?w) = Some (True, log_emit ?l v)"
    using t x assms(8) rt(1-5)
    by (simp add: mut_realloc_malloc_no_free_def call_result [OF w(1) assms(7)] off try_c_def trace_lines Let_def)
  moreover have "mut_resources_lookup old w = 0"
    using t assms(5) by (cases rule: lookup_cases [of w old]) simp_all
  moreover have "mut_log_fum old Act_realloc 0 (w\<lparr>c_errno := 0\<rparr>) = Some (?w\<lparr>c_errno := 0\<rparr>)"
    using assms(1) by (simp add: fum_line action_name_def)
  ultimately have "mut_do_realloc Act_realloc w = Some (True, log_emit ?l v)"
    using t assms(4) w(5)
    by (simp add: mut_do_realloc_def call_frame_ok [OF assms(1,3)] call_frame_ok [OF w(1,3)] call_done [OF w(1,4)] off write_size_off
        try_c_def try_ok_def Let_def)
  moreover have "handled k ra c' (new_object a n Act_realloc # objects w) (?line @ ?l) w (log_emit ?l v)"
    using rt(6) [of ?l] by (simp add: handled_def)
  ultimately show ?thesis using assms(4,5) by (auto simp: action_name_def)
qed

lemma filled_unique:
  assumes "filled a n f m m1" and "filled a n f m m2"
  shows "m1 = m2"
proof
  fix x
  show "m1 x = m2 x"
  proof (cases "x \<in> span a n")
    case True
    then obtain i where "i < n" "x = a + of_nat i" by (auto simp: span_def)
    with assms show ?thesis by (simp add: filled_def)
  qed (use assms in \<open>simp add: filled_def\<close>)
qed

lemma memcpy_ok:
  fixes w :: "('p, 'a) mut_world_scheme"
  assumes "ready w" and "addr_aligned d" and "addr_aligned s" and "unat n mod 4 = 0"
    and "span d (unat n) \<union> span s (unat n) \<subseteq> dom (cmem (child w))" and "span d (unat n) \<inter> span s (unat n) = {}"
    and "filled d (unat n) (\<lambda>i. cmem (child w) (s + of_nat i)) (cmem (child w)) m"
  shows "\<exists>e. mut_process_memcpy d s n w = Some (True, set_mem m (w\<lparr>c_errno := e\<rparr>))"
proof -
  have n: "4 * (unat n div 4) = unat n" using assms(4) by auto
  have "unat n \<le> 2 ^ 32" using unat_u32_less [of n] by simp
  with memcpy_words_ok [of w d "unat n div 4" s] assms(1,5,6) obtain m' e where
    m': "memcpy_words (unat n div 4) d s w = Some (Some (d + n, s + n), set_mem m' (w\<lparr>c_errno := e\<rparr>))"
    "filled d (unat n) (\<lambda>i. cmem (child w) (s + of_nat i)) (cmem (child w)) m'" unfolding n by (auto simp: ready_def)
  from filled_unique [OF m'(2) assms(7)] have "m' = m" .
  with m'(1) assms(1-4) show ?thesis by (auto simp: mut_process_memcpy_def ready_def)
qed

lemma handled_mem:
  "handled k pc c objs txt w v \<Longrightarrow> handled k pc (c\<lparr>cmem := m\<rparr>) objs txt w (set_mem m (v\<lparr>c_errno := e\<rparr>))"
  unfolding handled_def ready_def
  by (auto simp: set_mem_def clean_def p_stopped_def log_idle_def writes_ok_def unchanging_def log_text_def room_def objects_def)

lemma realloc_handled:
  fixes w :: "('p, 'a) mut_world_scheme"
  assumes "ready w" and "room (k + 2) w" and "call_frame (child w) sp ra [old, n]" and "old \<noteq> 0"
    and x: "object_at old (objects w) = Some x" "o_consumer x = None"
    and "runs_call (os w) (p_pc (process w)) ra ((child w)\<lparr>cmem := put_word (sp + 4) 0 (cmem (child w))\<rparr>) c1"
    and "result c1 = Some a" and "a \<noteq> 0" and "a \<notin> o_addr ` set (objects w)"
    and l: "l = min (unat (o_size x)) (unat n)" "l mod 4 = 0"
    and mem: "addr_aligned a" "addr_aligned old" "span a l \<union> span old l \<subseteq> dom (cmem c1)" "span a l \<inter> span old l = {}"
      "filled a l (\<lambda>i. cmem c1 (old + of_nat i)) (cmem c1) m"
  shows "\<exists>v. mut_do_realloc Act_realloc w = Some (True, v) \<and>
    handled k ra (c1\<lparr>cmem := m\<rparr>) (new_object a n Act_realloc # consumed old Act_realloc (objects w))
    (report (tracing w) (program_name (the_log w)) (\<lambda>a. a_name (actions w a)) (objects w) (Realloc old n a)) w v"
proof -
  have t: "tracking w" using assms(1) by (rule ready_tracking)
  then obtain r where r: "x = object_of r" "mut_resources_lookup old w = r_self r" "r_self r \<noteq> 0"
      "res_get (r_self r) w = Some r" "r_addr r = old" "made r"
    by (cases rule: lookup_cases [of w old]) (use x in simp_all)
  then obtain sz where sz: "r_size r = Some sz" "o_size x = sz" "consumer_action r = None"
    using x(2) by (auto simp: made_def object_of_def)
  let ?u = "moved ra c1 w"
  obtain R where R: "mut_resources_delete_resource (r_self r) Act_realloc 0 ?u = Some (?u\<lparr>resources := R\<rparr>)"
      "tracking (?u\<lparr>resources := R\<rparr>)" "objects (?u\<lparr>resources := R\<rparr>) = consumed old Act_realloc (objects w)"
    using consume_ok [of ?u "r_self r" r Act_realloc] t r sz(3) by auto
  let ?x = "?u\<lparr>resources := R\<rparr>"
  have "ready ?u" using assms(1) by simp
  from resources_handled [OF this R(2)] have rx: "ready ?x" "unchanging ?x = unchanging w" "log_text ?x = log_text w"
    "room (k + 2) ?x" using assms(2) by simp_all
  have "a \<notin> o_addr ` set (objects ?x)" using assms(10) R(3) by simp
  from record_object [OF R(2) rx(4) this] obtain p y v where y: "mut_resources_create_resource a ?x = Some (p, y)" "p \<noteq> 0"
      "res_get p y = Some (new_resource p a)" "m_flags y = m_flags ?x"
      "mut_resource_make_producer p Act_realloc n 0 y = Some v" "recorded Act_realloc n a ?x v" by metis
  have mx: "moved ra c1 ?x = ?x" by (simp add: moved_def)
  have h: "handled k ra c1 (new_object a n Act_realloc # objects ?x) [] ?x v"
    using recorded_handled [of Act_realloc n a ra c1 ?x v k] y(6) rx(1,4) unfolding mx by simp
  then have rv: "ready v" "child v = c1" by (simp_all add: handled_def)
  have len: "unat (if sz < n then sz else n) = l" using l(1) sz(2) by (auto simp: word_less_nat_alt)
  obtain e where e: "mut_process_memcpy a old (if sz < n then sz else n) v = Some (True, set_mem m (v\<lparr>c_errno := e\<rparr>))"
    using memcpy_ok [OF rv(1) mem(1,2), of "if sz < n then sz else n" m] mem(3-5) l(2) rv(2) unfolding len by auto
  let ?v = "set_mem m (v\<lparr>c_errno := e\<rparr>)"
  let ?l = "trace_line (tracing w) (program_name (the_log w)) [LString (a_name (actions w Act_realloc)), LHex old, LUlong sz, LUlong n, LHex a]"
  have same: "tracing ?v = tracing w" "program_name (the_log ?v) = program_name (the_log w)" "action_name b ?v = a_name (actions w b)" for b
    using h rx(2) by (simp_all add: handled_def unchanging_def ctl_def action_name_def set_mem_def)
  have "handled k ra c1 (new_object a n Act_realloc # consumed old Act_realloc (objects w)) [] w v"
    using h rx R(3) by (simp add: handled_def)
  from handled_mem [OF this] have hv: "handled k ra (c1\<lparr>cmem := m\<rparr>) (new_object a n Act_realloc # consumed old Act_realloc (objects w)) [] w ?v" .
  then have tv: "ready ?v" "tracking ?v" "tracking v" using rv(1) ready_tracking [of ?v] ready_tracking [OF rv(1)] by (simp_all add: handled_def)
  have "old \<noteq> a" using assms(10) x(1) by (auto simp: object_at_def find_Some_iff)
  have "mut_realloc_realloc_no_free (r_self r) n 0 ?u = Some (True, log_emit ?l ?v)"
    using r(3-6) sz R(1,2) y tv e t assms(9) \<open>old \<noteq> a\<close> same
    by (simp add: mut_realloc_realloc_no_free_def call_result [OF assms(1,8)] off try_c_def try_ok_def trace_lines Let_def)
  then have "mut_do_realloc Act_realloc w = Some (True, log_emit ?l ?v)"
    using t assms(4) r sz(3)
    by (simp add: mut_do_realloc_def call_frame_ok [OF assms(1,3)] call_done [OF assms(1,7)] off write_size_off
        mut_resources_resource_deleted_def try_c_def try_ok_def Let_def)
  moreover have "report (tracing w) (program_name (the_log w)) (\<lambda>a. a_name (actions w a)) (objects w) (Realloc old n a) = ?l"
    using x(1) assms(4) sz(2) by simp
  ultimately show ?thesis using handled_emit [OF hv, of ?l] by auto
qed

section \<open>The run\<close>

text \<open>The actions as \<open>mut_manage_actions\<close> of \<open>mut_open\<close> leaves them: the type of each, and no two at the same address.\<close>

definition managed :: "('p, 'a) mut_world_scheme \<Rightarrow> bool" where
  "managed w \<longleftrightarrow> distinct (map (\<lambda>a. a_addr (actions w a)) (a_root w)) \<and> a_type (actions w Act_malloc) = Type_malloc \<and>
     a_type (actions w Act_calloc) = Type_calloc \<and> a_type (actions w Act_realloc) = Type_realloc \<and>
     a_type (actions w Act_free) = Type_consumer \<and> a_type (actions w Act_cfree) = Type_consumer"

lemma dispatch_handled:
  fixes w :: "('p, 'a) mut_world_scheme"
  assumes "performs (os w) (objects w) act (child w) (p_pc (process w)) cl ra c'" and "ready w" and "managed w" and "room (k + 2) w"
  shows "\<exists>v. mut_dispatch act w = Some (True, v) \<and> handled k ra c' (track cl (objects w))
    (report (tracing w) (program_name (the_log w)) (\<lambda>a. a_name (actions w a)) (objects w) cl) w v"
  using assms(1)
proof cases
  case (malloc sp n a)
  then show ?thesis using malloc_handled [OF assms(2,4)] assms(3) by (simp add: mut_dispatch_def managed_def)
next
  case (calloc sp m n a)
  then show ?thesis using calloc_handled [OF assms(2,4)] assms(3) by (simp add: mut_dispatch_def managed_def)
next
  case (free_null sp)
  then show ?thesis using free_null_handled [OF assms(2,4)] assms(3) by (auto simp: mut_dispatch_def managed_def)
next
  case (free sp a)
  then show ?thesis using free_handled [OF assms(2,4), of sp ra a act] assms(3) by (auto simp: mut_dispatch_def managed_def)
next
  case (realloc_new sp n a)
  then show ?thesis using realloc_new_handled [OF assms(2,4)] assms(3) by (simp add: mut_dispatch_def managed_def)
next
  case (realloc_unknown sp old n a)
  then show ?thesis using realloc_unknown_handled [OF assms(2,4)] assms(3)
    by (simp add: mut_dispatch_def managed_def consumed_unknown)
next
  case (realloc sp old n x c1 a l m)
  then show ?thesis using realloc_handled [OF assms(2,4)] assms(3) by (simp add: mut_dispatch_def managed_def)
qed

text \<open>The breakpoints around a call.\<close>

definition saved :: "('p, 'a) mut_world_scheme \<Rightarrow> u32 list" where
  "saved w = map (\<lambda>a. a_instr (actions w a)) (a_root w)"

text \<open>A round of the loop in which a call is made.\<close>

lemma fields_update:
  "managed (moved pc c w) = managed w" "managed (log_emit s w) = managed w" "saved (moved pc c w) = saved w"
  by (simp_all add: managed_def saved_def moved_def log_emit_def)

text \<open>What stays the same during a run.\<close>

definition frame where
  "frame w v \<longleftrightarrow> ready v \<and> managed v \<and> os v = os w \<and> a_root v = a_root w \<and> program_name (the_log v) = program_name (the_log w) \<and>
    sink (the_log v) = sink (the_log w) \<and> mem_report (store v) = mem_report (store w) \<and>
    m_flags v = m_flags w \<and> (\<forall>a. a_addr (actions v a) = a_addr (actions w a) \<and> a_name (actions v a) = a_name (actions w a))"

lemma install_handled:
  assumes "handled k pc c objs txt w v" and "managed w"
    and "child_memory.patch mut_instr_bp (map (\<lambda>a. a_addr (actions w a)) (a_root w)) (cmem c) = Some (ins, m)"
  shows "\<exists>u. mut_install_action_breakpoints v = Some (True, u) \<and> frame w u \<and> saved u = ins \<and> child u = c\<lparr>cmem := m\<rparr> \<and>
    p_pc (process u) = pc \<and> objects u = objs \<and> log_text u = log_text w @ txt \<and> room k u"
proof -
  have v: "ready v" "actions v = actions w" "a_root v = a_root w" "child v = c" "os v = os w"
    "program_name (the_log v) = program_name (the_log w)" "sink (the_log v) = sink (the_log w)"
    "mem_report (store v) = mem_report (store w)" "m_flags v = m_flags w"
    using assms(1) by (simp_all add: handled_def unchanging_def)
  have d: "distinct (a_root w)" using assms(2) by (simp add: managed_def distinct_map)
  obtain e A where A: "mut_install_action_breakpoints v = Some (True, v\<lparr>c_errno := e, child := c\<lparr>cmem := m\<rparr>, actions := A\<rparr>)"
    "map (\<lambda>a. a_instr (A a)) (a_root w) = ins" "\<And>b. A b = (actions w b)\<lparr>a_instr := a_instr (A b)\<rparr>"
    using break_actions_ok [of v "a_root w" ins m] v d assms(3) by (auto simp: ready_def mut_install_action_breakpoints_def)
  let ?u = "v\<lparr>c_errno := e, child := c\<lparr>cmem := m\<rparr>, actions := A\<rparr>"
  have f: "a_addr (A b) = a_addr (actions w b)" "a_name (A b) = a_name (actions w b)" "a_type (A b) = a_type (actions w b)" for b
    by (subst A(3), simp)+
  have "tracking ?u" using v(1) by (simp add: ready_def tracking_def res_inv_def refs_ok_def bts_ok_def
      mem_wf_def mem_in_use_def malloc_fresh_def plain_blocks_def bt_refs_def)
  then have "ready ?u" using v(1) by (simp add: ready_def clean_def p_stopped_def log_idle_def writes_ok_def)
  then show ?thesis
    using A(1,2) f v assms(1,2)
    by (intro exI [of _ ?u]) (simp add: frame_def managed_def saved_def handled_def objects_def log_text_def room_def)
qed

lemma lookup_action:
  assumes "managed w"
  shows "act \<in> set (a_root w) \<Longrightarrow> mut_actions_lookup (a_addr (actions w act)) w = Some act"
    and "pc \<notin> (\<lambda>a. a_addr (actions w a)) ` set (a_root w) \<Longrightarrow> mut_actions_lookup pc w = None"
proof -
  assume act: "act \<in> set (a_root w)"
  obtain a where a: "mut_actions_lookup (a_addr (actions w act)) w = Some a"
    using act by (cases "mut_actions_lookup (a_addr (actions w act)) w") (auto simp: mut_actions_lookup_def find_None_iff)
  then have "a \<in> set (a_root w)" "a_addr (actions w a) = a_addr (actions w act)"
    by (auto simp: mut_actions_lookup_def find_Some_iff)
  with act assms have "a = act" by (auto simp: managed_def distinct_map dest!: inj_onD)
  with a show "mut_actions_lookup (a_addr (actions w act)) w = Some act" by simp
next
  show "pc \<notin> (\<lambda>a. a_addr (actions w a)) ` set (a_root w) \<Longrightarrow> mut_actions_lookup pc w = None"
    by (auto simp: mut_actions_lookup_def find_None_iff)
qed

lemma call_round:
  fixes w :: "('p, 'a) mut_world_scheme"
  assumes "ready w" and "managed w" and "room (k + 2) w" and "act \<in> set (a_root w)"
    and "stops (os w) (p_pc (process w)) (child w) (a_addr (actions w act)) c1"
    and "child_memory.unpatch (zip (map (\<lambda>a. a_addr (actions w a)) (a_root w)) (saved w)) (cmem c1) = Some m"
    and "performs (os w) (objects w) act (c1\<lparr>cmem := m\<rparr>) (a_addr (actions w act)) cl ra c2"
    and "child_memory.patch mut_instr_bp (map (\<lambda>a. a_addr (actions w a)) (a_root w)) (cmem c2) = Some (ins, m')"
  shows "\<exists>u. run_round w = Some (None, u) \<and> frame w u \<and> saved u = ins \<and> child u = c2\<lparr>cmem := m'\<rparr> \<and> p_pc (process u) = ra \<and>
    objects u = track cl (objects w) \<and> room k u \<and>
    log_text u = log_text w @ report (tracing w) (program_name (the_log w)) (\<lambda>a. a_name (actions w a)) (objects w) cl"
proof -
  let ?pc = "a_addr (actions w act)"
  have w: "p_stopped w" "clean w" using assms(1) by (simp_all add: ready_def)
  obtain x where x: "mut_process_resume w = Some (True, x)" "mut_process_wait x = Some ((1, Some ?pc), moved ?pc c1 w)"
    using stops_ok [OF w assms(5)] by blast
  have look: "mut_actions_lookup ?pc (moved ?pc c1 w) = Some act"
    using lookup_action(1) [OF assms(2,4)] by (simp add: mut_actions_lookup_def moved_def)
  have "zip (map (\<lambda>a. a_addr (actions w a)) (a_root w)) (saved w) = map (\<lambda>a. (a_addr (actions w a), a_instr (actions w a))) (a_root w)"
    by (simp add: saved_def zip_map_map) (simp add: zip_same_conv_map)
  then have rm: "mut_remove_action_breakpoints (moved ?pc c1 w) = Some (True, moved ?pc (c1\<lparr>cmem := m\<rparr>) w)"
    using restore_actions_ok [of "moved ?pc c1 w" "a_root w" m] assms(6) w(1)
    by (simp add: mut_remove_action_breakpoints_def)
  let ?v = "moved ?pc (c1\<lparr>cmem := m\<rparr>) w"
  have v: "ready ?v" "managed ?v" "room (k + 2) ?v" using assms(1-3) by (simp_all add: fields_update)
  have "performs (os ?v) (objects ?v) act (child ?v) (p_pc (process ?v)) cl ra c2" using assms(7) by simp
  from dispatch_handled [OF this v] obtain y where y: "mut_dispatch act ?v = Some (True, y)"
    "handled k ra c2 (track cl (objects w)) (report (tracing w) (program_name (the_log w)) (\<lambda>a. a_name (actions w a)) (objects w) cl) ?v y"
    by auto
  then have h: "handled k ra c2 (track cl (objects w)) (report (tracing w) (program_name (the_log w)) (\<lambda>a. a_name (actions w a)) (objects w) cl) w y"
    by (simp add: handled_def)
  from install_handled [OF this assms(2,8)] obtain u where u: "mut_install_action_breakpoints y = Some (True, u)"
    "frame w u" "saved u = ins" "child u = c2\<lparr>cmem := m'\<rparr>" "p_pc (process u) = ra" "objects u = track cl (objects w)"
    "log_text u = log_text w @ report (tracing w) (program_name (the_log w)) (\<lambda>a. a_name (actions w a)) (objects w) cl" "room k u" by blast
  have "run_round w = Some (None, u)"
    using x look rm y(1) u(1) by (simp add: run_round_def serve_action_def try_ok_def)
  with u show ?thesis by blast
qed

text \<open>The end: the target is gone, the map, and a log that is idle again.\<close>

definition run_done where
  "run_done w cs s v \<longleftrightarrow> p_status (process v) = Status_exited \<and> tracking v \<and> log_idle v \<and> writes_ok v \<and> objects v = fold track cs (objects w) \<and>
     program_name (the_log v) = program_name (the_log w) \<and> sink (the_log v) = sink (the_log w) \<and>
     mem_report (store v) = mem_report (store w) \<and> (\<forall>a. a_name (actions v a) = a_name (actions w a)) \<and>
     log_text v = log_text w @ reports (tracing w) (program_name (the_log w)) (\<lambda>a. a_name (actions w a)) (objects w) cs @
       exit_report (program_name (the_log w)) s"

lemma run_tracks:
  fixes w :: "('p, 'a) mut_world_scheme"
  shows "target sys ad root ins objs pc c cs s \<Longrightarrow> ready w \<Longrightarrow> managed w \<Longrightarrow> room (2 * length cs) w \<Longrightarrow>
    sys = os w \<Longrightarrow> ad = (\<lambda>a. a_addr (actions w a)) \<Longrightarrow> root = a_root w \<Longrightarrow> ins = saved w \<Longrightarrow> objs = objects w \<Longrightarrow>
    pc = p_pc (process w) \<Longrightarrow> c = child w \<Longrightarrow> \<exists>v. mut_run w = Some (True, v) \<and> run_done w cs s v"
proof (induction arbitrary: w rule: target.induct)
  case (ends pc c s ins objs)
  then obtain u c' where u: "mut_process_resume w = Some (True, u)" "mut_process_wait u = Some ((-1, None),
      set_status Status_exited (log_emit (exit_report (program_name (the_log w)) s) (w\<lparr>child := c'\<rparr>)))"
    using finishes_ok [of w s] by (auto simp: ready_def)
  let ?v = "set_status Status_exited (log_emit (exit_report (program_name (the_log w)) s) (w\<lparr>child := c'\<rparr>))"
  have "mut_run w = Some (True, ?v)" by (simp add: mut_run.simps [of w] run_round_def u)
  moreover have "run_done w [] s ?v"
  proof -
    have "tracking w" "log_idle w" "writes_ok w" using ends by (simp_all add: ready_def)
    then show ?thesis
      by (simp add: run_done_def set_status_def log_emit_def log_idle_def writes_ok_def objects_def log_text_def tracking_def res_inv_def
        refs_ok_def bts_ok_def mem_wf_def mem_in_use_def malloc_fresh_def plain_blocks_def bt_refs_def)
  qed
  ultimately show ?case by blast
next
  case (passes pc c pc' c' ins objs cs s)
  have w: "p_stopped w" "clean w" using passes.prems(1) by (simp_all add: ready_def)
  obtain x where x: "mut_process_resume w = Some (True, x)" "mut_process_wait x = Some ((1, Some pc'), moved pc' c' w)"
    using stops_ok [OF w, of pc' c'] passes by blast
  have "mut_actions_lookup pc' (moved pc' c' w) = None"
    using lookup_action(2) [OF passes.prems(2), of pc'] passes by (simp add: mut_actions_lookup_def moved_def)
  then have "run_round w = Some (None, moved pc' c' w)" by (simp add: run_round_def x)
  moreover obtain v where "mut_run (moved pc' c' w) = Some (True, v)" "run_done (moved pc' c' w) cs s v"
    using passes.IH [of "moved pc' c' w"] passes.prems by (auto simp: fields_update)
  ultimately show ?case by (auto simp: mut_run.simps [of w] run_done_def)
next
  case (calls pc c act c1 ins m objs cl ra c2 ins' m' cs s)
  have room: "room (2 * length cs + 2) w" using calls.prems(3) by (simp add: add.commute)
  obtain u where u: "run_round w = Some (None, u)" "frame w u" "saved u = ins'" "child u = c2\<lparr>cmem := m'\<rparr>" "p_pc (process u) = ra"
    "objects u = track cl (objects w)" "room (2 * length cs) u"
    "log_text u = log_text w @ report (tracing w) (program_name (the_log w)) (\<lambda>a. a_name (actions w a)) (objects w) cl"
    using call_round [OF calls.prems(1,2) room] calls.hyps calls.prems by blast
  obtain v where v: "mut_run u = Some (True, v)" "run_done u cs s v"
    using calls.IH [of u] u calls.prems by (auto simp: frame_def)
  have "run_done w (cl # cs) s v" using v(2) u by (simp add: run_done_def frame_def ctl_def)
  with u(1) v(1) show ?case by (auto simp: mut_run.simps [of w])
qed

section \<open>The leaks\<close>

lemma leak_lines:
  "concat (map (leak_line w) (filter (\<lambda>r. consumer_action r = None) rs)) =
   leak_report (program_name (the_log w)) (\<lambda>a. a_name (actions w a)) (map object_of rs)"
  by (simp add: leak_report_def filter_map comp_def object_of_def leak_line_def [abs_def] action_name_def)

lemma leaks_tracked:
  assumes "tracking w" and "log_idle w" and "writes_ok w"
  shows "\<exists>u. mut_log_leaks w = Some u \<and> log_text u = log_text w @
    leak_report (program_name (the_log w)) (\<lambda>a. a_name (actions w a)) (objects w)"
proof -
  have "mut_log_leaks w = Some (log_emit (leak_report (program_name (the_log w)) (\<lambda>a. a_name (actions w a)) (objects w)) w)"
    using log_leaks_ok [of w "\<lambda>_. 0"] assms tracking_ctl [OF assms(1)]
    by (simp add: leak_lines objects_def tracking_def list_all_iff)
  then show ?thesis by simp
qed

section \<open>A sample target\<close>

text \<open>It calls \<open>malloc(8)\<close>, which returns 0x80, then \<open>free\<close> of 0x90, and exits with 0.\<close>

definition sample_script :: "nat \<Rightarrow> u32 \<Rightarrow> u32 option" where
  "sample_script k = (if k = 0 then [mut_process_arch_regs_esp \<mapsto> 0x100, mut_process_arch_regs_eip \<mapsto> 0x8001]
     else if k = 1 then [mut_process_arch_regs_eip \<mapsto> 0x301, mut_process_arch_regs_eax \<mapsto> 0x80]
     else [mut_process_arch_regs_esp \<mapsto> 0x200, mut_process_arch_regs_eip \<mapsto> 0x9001])"

definition sample_code :: bytes where
  "sample_code = put_word 0x100 0x300 (put_word 0x104 8 (put_word 0x200 0x300 (put_word 0x204 0x90 (\<lambda>_. Some 0))))"

definition sample_patched :: bytes where
  "sample_patched = put_word 0x9000 mut_instr_bp (put_word 0x8000 mut_instr_bp sample_code)"

definition scripted :: "nat os" where
  "scripted = \<lparr>os_continue = (\<lambda>c sig. Some (c\<lparr>regs := sample_script (prog c), prog := prog c + 1\<rparr>)),
     os_wait = (\<lambda>c. (Wait_status (if prog c < 4 then 0x57f else 0), c)), os_kill = Some, os_fork = (\<lambda>_. None),
     os_traceme_fails = False, os_execv_fails = False, os_peek_clears_errno = True\<rparr>"

definition scripted_actions :: "mut_action_id \<Rightarrow> mut_action" where
  "scripted_actions a = \<lparr>a_addr = (if a = Act_malloc then 0x8000 else 0x9000), a_instr = 0,
     a_type = (case a of Act_malloc \<Rightarrow> Type_malloc | Act_calloc \<Rightarrow> Type_calloc | Act_realloc \<Rightarrow> Type_realloc | _ \<Rightarrow> Type_consumer),
     a_name = (if a = Act_malloc then ''malloc'' else ''free''), a_hits = mut_counter_from_uint 0\<rparr>"

definition scripted_child :: "nat \<Rightarrow> (u32 \<Rightarrow> u32 option) \<Rightarrow> bytes \<Rightarrow> nat child" where
  "scripted_child k r m = \<lparr>regs = r, cmem = m, prog = k\<rparr>"

definition scripted_run :: "(nat, unit) mut_world_scheme" where
  "scripted_run = sample_world (log_world_ext sample_log_state
     (symtab_world_ext \<lparr>st_head = [], st_cache = 0, st_end = 0\<rparr>
     (exec_world_ext sample_exec (bt_world_ext Map.empty (res_world_ext
        \<lparr>elems = [], really_free = False, n_active_elems = 0, n_consumed_elems = 0\<rparr>
        (proc_world_ext \<lparr>p_child = 7, p_status = Status_stopped, p_pc = 0x1000\<rparr>
          (scripted_child 0 [mut_process_arch_regs_eip \<mapsto> 0x1001] sample_patched) scripted
        (mut_world_ext scripted_actions [Act_malloc, Act_free] 0 sample_stats ())))))))"

lemma scripted_run [simp]:
  "os scripted_run = scripted" "a_root scripted_run = [Act_malloc, Act_free]" "actions scripted_run = scripted_actions"
  "child scripted_run = scripted_child 0 [mut_process_arch_regs_eip \<mapsto> 0x1001] sample_patched" "p_pc (process scripted_run) = 0x1000"
  "objects scripted_run = []" "saved scripted_run = [0, 0]" "program_name (the_log scripted_run) = ''mut''" "log_text scripted_run = []"
  by (simp_all add: scripted_run_def objects_def saved_def log_text_def sample_log_state_def scripted_actions_def)
     (simp_all add: sample_world_def scripted_actions_def)

lemma scripted_run_ready: "ready scripted_run" "managed scripted_run"
proof -
  have f: "bts scripted_run = Map.empty" "m_flags scripted_run = 0" "p_status (process scripted_run) = Status_stopped"
    "the_log scripted_run = sample_log_state" "writes_ok scripted_run" "mem_wf scripted_run"
    "resources scripted_run = \<lparr>elems = [], really_free = False, n_active_elems = 0, n_consumed_elems = 0\<rparr>"
    by (simp_all add: scripted_run_def) (simp_all add: sample_world_def)
  have "res_inv (\<lambda>_. 0) scripted_run" by (simp add: res_inv_def refs_ok_def bts_ok_def bt_refs_def f)
  then show "ready scripted_run"
    using f by (simp add: ready_def tracking_def clean_def p_stopped_def log_idle_def scripted_def sample_log_state_def)
  show "managed scripted_run" by (simp add: managed_def) (simp add: scripted_actions_def)
qed

lemma scripted_run_flags: "m_flags scripted_run = 0"
  by (simp add: scripted_run_def) (simp add: sample_world_def)

lemma scripted_run_room: "room 4 scripted_run"
proof -
  have "sample_pick h n \<noteq> 0" if "card (dom h) < 4" for h n
  proof
    assume "sample_pick h n = 0"
    then have "{0x1000, 0x2000, 0x3000, 0x4000, 0x5000, 0x6000} \<subseteq> dom h"
      by (auto simp: sample_pick_def dom_def split: if_splits)
    then have "card {0x1000, 0x2000, 0x3000, 0x4000, 0x5000, 0x6000 :: u32} \<le> card (dom h)" by (intro card_mono) simp_all
    with that show False by simp
  qed
  then show ?thesis by (simp add: room_def scripted_run_def)
qed

lemma sample_code_reads:
  "read_word sample_code 0x100 = Some 0x300" "read_word sample_code 0x104 = Some 8" "read_word sample_code 0x200 = Some 0x300"
  "read_word sample_code 0x204 = Some 0x90" "read_word sample_code 0x300 = Some 0" "read_word sample_code 0x8000 = Some 0"
  "read_word sample_code 0x9000 = Some 0"
  by (simp_all add: sample_code_def put_word_def read_word_def word_of_bytes_def byte_of_word_def)

lemma sample_patch: "child_memory.patch mut_instr_bp [0x8000, 0x9000] sample_code = Some ([0, 0], sample_patched)"
proof -
  have "read_word (put_word 0x8000 mut_instr_bp sample_code) 0x9000 = Some 0"
    using sample_code_reads(7) by (simp add: put_word_def read_word_def)
  then show ?thesis using sample_code_reads(6) by (simp add: write_word_def sample_patched_def)
qed

lemma sample_unpatch: "child_memory.unpatch [(0x8000, 0), (0x9000, 0)] sample_patched = Some sample_code"
  using child_memory.unpatch_patch [OF _ sample_patch] by (simp add: words_apart_def word_addrs_def)

lemma scripted_stops:
  assumes sys: "os_continue sys = os_continue scripted" "os_wait sys = os_wait scripted"
    and "r mut_process_arch_regs_eip \<noteq> None" and "k < 3" and "sample_script k mut_process_arch_regs_eip = Some (pc' + 1)" and "j = k + 1"
  shows "stops sys pc (scripted_child k r m) pc' (scripted_child j (sample_script k) m)"
proof -
  let ?c = "scripted_child j (sample_script k) m"
  have "signals_then sys ?c [] (Wait_status 0x57f) ?c"
    by (rule signals_then.now) (use assms(4,6) in \<open>simp add: sys scripted_def scripted_child_def\<close>)
  then have "continues sys pc (scripted_child k r m) 0x57f ?c"
    using assms(3,6) by (auto simp: continues_def sys scripted_def scripted_child_def)
  moreover have "WIFSTOPPED 0x57f" "WSTOPSIG 0x57f = SIGTRAP" by (simp_all add: WIFSTOPPED_def WSTOPSIG_def WEXITSTATUS_def SIGTRAP_def)
  ultimately show ?thesis using assms(5) by (auto simp: stops_def scripted_child_def)
qed

lemma sample_target:
  "target scripted (\<lambda>a. a_addr (scripted_actions a)) [Act_malloc, Act_free] [0, 0] [] 0x1000
     (scripted_child 0 [mut_process_arch_regs_eip \<mapsto> 0x1001] sample_patched) [Malloc 8 0x80, Consume Act_free 0x90] 0"
  (is "target _ ?ad ?root _ _ _ _ _ _")
proof -
  note regs = sample_script_def mut_process_arch_regs_eip_def mut_process_arch_regs_eax_def mut_process_arch_regs_esp_def
  note r = sample_code_reads
  let ?c1 = "scripted_child 1 (sample_script 0)" and ?c2 = "scripted_child 2 (sample_script 1)"
    and ?c3 = "scripted_child 3 (sample_script 2)"
  let ?last = "(?c3 sample_code)\<lparr>regs := (sample_script 2)(mut_process_arch_regs_esp \<mapsto> 0x204)\<rparr>"
  have ends: "target scripted ?ad ?root [0, 0] [new_object 0x80 8 Act_malloc] 0x300 (?last\<lparr>cmem := sample_patched\<rparr>) [] 0"
    (is "target _ _ _ _ _ _ ?e _ _")
  proof (rule target.ends)
    have "\<exists>c. continues scripted 0x300 ?e 0 c"
      by (auto simp: continues_def scripted_def scripted_child_def regs intro!: exI signals_then.now)
    then show "finishes scripted 0x300 ?e 0" by (simp add: finishes_def WIFEXITED_def WTERMSIG_def)
  qed
  have free: "target scripted ?ad ?root [0, 0] [new_object 0x80 8 Act_malloc] 0x300 (?c2 sample_patched) [Consume Act_free 0x90] 0"
  proof (rule target.calls [where act = Act_free and ra = "0x300" and m' = sample_patched])
    show "stops scripted 0x300 (?c2 sample_patched) (?ad Act_free) (?c3 sample_patched)"
      by (rule scripted_stops) (simp_all add: regs scripted_actions_def)
    show "performs scripted [new_object 0x80 8 Act_malloc] Act_free ((?c3 sample_patched)\<lparr>cmem := sample_code\<rparr>) (?ad Act_free)
        (Consume Act_free 0x90) 0x300 ?last"
      using performs.free [of Act_free "?c3 sample_code" "0x200" "0x300" "0x90"] r
      by (simp add: call_frame_def scripted_child_def regs)
    show "target scripted ?ad ?root [0, 0] (track (Consume Act_free 0x90) [new_object 0x80 8 Act_malloc]) 0x300
        (?last\<lparr>cmem := sample_patched\<rparr>) [] 0"
      using ends by (simp add: consumed_def new_object_def)
  qed (use sample_patch sample_unpatch in \<open>simp_all add: scripted_actions_def scripted_child_def\<close>)
  let ?m = "put_word 0x300 mut_instr_bp sample_code"
  have "stops scripted 0x8000 (?c1 ?m) 0x300 (?c2 ?m)"
    by (rule scripted_stops) (simp_all add: regs)
  then have call: "runs_call scripted 0x8000 0x300 (?c1 sample_code) (?c2 sample_code)"
    using r(5) by (auto simp: runs_call_def scripted_child_def put_word_same intro!: exI [of _ "?c2 ?m", unfolded scripted_child_def])
  show ?thesis
  proof (rule target.calls [where act = Act_malloc and ra = "0x300" and m' = sample_patched and ?c2.0 = "?c2 sample_code"])
    show "stops scripted 0x1000 (scripted_child 0 [mut_process_arch_regs_eip \<mapsto> 0x1001] sample_patched) (?ad Act_malloc) (?c1 sample_patched)"
      by (rule scripted_stops) (simp_all add: regs scripted_actions_def)
    show "performs scripted [] Act_malloc ((?c1 sample_patched)\<lparr>cmem := sample_code\<rparr>) (?ad Act_malloc) (Malloc 8 0x80) 0x300 (?c2 sample_code)"
      using performs.malloc [OF _ call, of "0x100" 8 "0x80" "[]"] r
      by (simp add: call_frame_def scripted_child_def regs scripted_actions_def)
    show "target scripted ?ad ?root [0, 0] (track (Malloc 8 0x80) []) 0x300 ((?c2 sample_code)\<lparr>cmem := sample_patched\<rparr>) [Consume Act_free 0x90] 0"
      using free by (simp add: scripted_child_def)
  qed (use sample_patch sample_unpatch in \<open>simp_all add: scripted_actions_def scripted_child_def\<close>)
qed

section \<open>Properties\<close>

text \<open>
  C2: A run in the default mode, or with -t, tracks the target. Whatever calls of the allocator a target makes, the map holds the objects that the
  specification computes from the calls alone, the log has the lines that it prescribes, in order, and
  then one for the end of the target, and at the close exactly the objects that were never freed are reported as leaks.
\<close>

theorem mut_run_tracks_target:
  fixes w :: "('p, 'a) mut_world_scheme"
  assumes "ready w" and "managed w" and "room (2 * length cs) w"
    and "target (os w) (\<lambda>a. a_addr (actions w a)) (a_root w) (saved w) (objects w) (p_pc (process w)) (child w) cs s"
  defines "nm \<equiv> \<lambda>a. a_name (actions w a)" and "pn \<equiv> program_name (the_log w)"
  shows "\<exists>v u. mut_run w = Some (True, v) \<and> objects v = fold track cs (objects w) \<and> mut_log_leaks v = Some u \<and>
    log_text u = log_text w @ reports (tracing w) pn nm (objects w) cs @ exit_report pn s @ leak_report pn nm (fold track cs (objects w))"
proof -
  obtain v where v: "mut_run w = Some (True, v)" "run_done w cs s v"
    using run_tracks [OF assms(4,1-3)] by blast
  then obtain u where "mut_log_leaks v = Some u"
    "log_text u = log_text v @ leak_report (program_name (the_log v)) (\<lambda>a. a_name (actions v a)) (objects v)"
    using leaks_tracked [of v] by (auto simp: run_done_def)
  with v show ?thesis by (auto simp: run_done_def nm_def pn_def)
qed

lemma mut_run_tracks_target_witness:
  "\<exists>v u. mut_run scripted_run = Some (True, v) \<and> objects v = [new_object 0x80 8 Act_malloc] \<and> mut_log_leaks v = Some u \<and>
    log_text u = ''mut error FUM free 90\<newline>mut info process.exited 0\<newline>mut error MLK malloc 8 80\<newline>''"
  using mut_run_tracks_target [OF scripted_run_ready, of "[Malloc 8 0x80, Consume Act_free 0x90]" 0] sample_target scripted_run_room
  by (simp add: ctl_def trace_line_def scripted_run_flags new_object_def consumed_def object_at_def leak_report_def exit_report_def WIFEXITED_def WTERMSIG_def WEXITSTATUS_def fmt_d_def
    sample_service scripted_actions_def)

end
