(* ===== verification/MutWhole.thy ===== *)
theory MutWhole
  imports MutSession MutTracked
begin

text \<open>
  The program from the command line to its exit, as one statement about the target: what \<open>main\<close> of src/src/ui/tty/mut_ui.c
  writes in the log when it is run without options that change the mode, or with -t. The parts are \<open>mut_open\<close>, which sets up the
  state in which the refinement of MutTracked starts, \<open>mut_run\<close>, and the closing, which writes nothing after the leaks.
\<close>

section \<open>What mut_open sets up\<close>

lemma io_only_process: "io_only w v \<Longrightarrow> process v = process (w :: ('p, 'a) proc_world_scheme)"
  by (erule io_onlyE) simp

lemma trace_failure_process:
  assumes "trace_failure msg w arg = Some v" and "\<And>x y. arg x = Some y \<Longrightarrow> io_only x y"
  shows "process v = process w"
  using assms(1) by (auto simp: trace_failure_def split: bind_splits dest!: mut_io_only(1,13) assms(2) io_only_process)

lemma breakpoint_process: "mut_process_breakpoint pc w = Some (r, v) \<Longrightarrow> process v = process w"
  by (auto simp: mut_process_breakpoint_def mut_trace_read_text_def mut_trace_write_text_def ptrace_peek_def Let_def
      split: bind_splits if_splits option.splits dest!: trace_failure_process [OF _ mut_io_only(10)])

text \<open>The actions that are entered have different addresses, and each keeps its type and its name.\<close>

definition entered :: "mut_action_id set \<Rightarrow> ('p, 'a) mut_world_scheme \<Rightarrow> bool" where
  "entered A w \<longleftrightarrow> p_stopped w \<and> distinct (map (\<lambda>a. a_addr (actions w a)) (a_root w)) \<and> set (a_root w) \<subseteq> A"

definition labelled :: "('p, 'a) mut_world_scheme \<Rightarrow> mut_action_id \<Rightarrow> mut_action_type \<times> string" where
  "labelled w a = (a_type (actions w a), a_name (actions w a))"

lemma io_only_actions: "io_only w v \<Longrightarrow> actions v = actions w \<and> a_root v = a_root (w :: ('p, 'a) mut_world_scheme)"
  by (erule io_onlyE) simp

lemma tr_only_actions: "tr_only w v \<Longrightarrow> actions v = actions w \<and> a_root v = a_root (w :: ('p, 'a) mut_world_scheme)"
  by (erule tr_onlyE) simp

lemma manage_action_entered:
  fixes w :: "('p, 'a) mut_world_scheme"
  assumes w: "entered A w" and new: "a \<notin> A" and run: "mut_manage_action a f w = Some (True, v)"
  shows "entered (insert a A) v \<and> labelled v = labelled w"
proof -
  let ?h = "set_action a (\<lambda>x. x\<lparr>a_hits := mut_counter_from_uint 0\<rparr>) w"
  let ?w = "set_action a (\<lambda>x. x\<lparr>a_addr := fst f\<rparr>) ?h"
  have out: "a \<notin> set (a_root w)" using w new by (auto simp: entered_def)
  have set: "entered A (set_action a g w')" if "entered A w'" for g and w' :: "('p, 'a) mut_world_scheme"
  proof -
    have "a \<notin> set (a_root w')" using that new by (auto simp: entered_def)
    then have m: "map (\<lambda>b. a_addr (actions (set_action a g w') b)) (a_root w') = map (\<lambda>b. a_addr (actions w' b)) (a_root w')"
      by (intro map_cong) (auto simp: set_action_def)
    have "p_stopped (set_action a g w') = p_stopped w'" "a_root (set_action a g w') = a_root w'"
      by (simp_all add: set_action_def p_stopped_def)
    with that show ?thesis unfolding entered_def by (simp only: m)
  qed
  have e: "entered A ?h" "entered A ?w" by (intro set w)+
  have l: "labelled ?w = labelled w" "labelled ?h = labelled w" by (auto simp: labelled_def set_action_def fun_eq_iff)
  show ?thesis
  proof (cases "snd f")
    case False
    then show ?thesis using run e(1) l(2) by (auto simp: mut_manage_action_def Let_def entered_def)
  next
    case True
    show ?thesis
    proof (cases "find (\<lambda>b. a_addr (actions ?w b) = a_addr (actions ?w a)) (a_root ?w)")
      case None
      let ?u = "?w\<lparr>a_root := a # a_root ?w\<rparr>"
      obtain i x where x: "mut_process_breakpoint (a_addr (actions ?u a)) ?u = Some (Some i, x)"
        "v = set_action a (\<lambda>z. z\<lparr>a_instr := i\<rparr>) x"
        using run True None by (auto simp: mut_manage_action_def mut_actions_enter_def Let_def try_c_def fail_c_def split: bind_splits option.splits)
      have "\<forall>b \<in> set (a_root ?w). a_addr (actions ?w b) \<noteq> a_addr (actions ?w a)" using None by (simp add: find_None_iff)
      then have u: "entered (insert a A) ?u" using e(2) by (auto simp: entered_def p_stopped_def)
      have "process x = process ?u" "actions x = actions ?u" "a_root x = a_root ?u"
        using breakpoint_process [OF x(1)] tr_only_actions [OF withinD [OF tr_process(1) [OF tr_refl] x(1)]] by simp_all
      then have "entered (insert a A) x" "labelled x = labelled w" using u l(1) by (simp_all add: entered_def p_stopped_def labelled_def fun_eq_iff)
      moreover have "(\<lambda>b. a_addr (actions v b)) = (\<lambda>b. a_addr (actions x b))" "p_stopped v = p_stopped x" "a_root v = a_root x"
        "labelled v = labelled x"
        by (auto simp: x(2) set_action_def p_stopped_def labelled_def)
      ultimately show ?thesis unfolding entered_def by (simp only:)
    next
      case (Some b)
      then have "b \<in> set (a_root ?w)" by (auto simp: find_Some_iff)
      then have b: "b \<noteq> a" using out by (auto simp: set_action_def)
      have "io_only ?w v"
        using run True Some b by (auto simp: mut_manage_action_def mut_actions_enter_def Let_def end_log_def split: bind_splits
            dest!: mut_io_only(5,6,10,13)) (meson io_only_trans)
      then have "process v = process ?w" "actions v = actions ?w" "a_root v = a_root ?w"
        using io_only_process io_only_actions by blast+
      then show ?thesis using e(2) l(1) by (auto simp: entered_def p_stopped_def labelled_def fun_eq_iff)
    qed
  qed
qed


text \<open>The actions one after the other.\<close>

fun manage_all where
  "manage_all [] w = Some (True, w)"
| "manage_all ((a, t, f) # xs) w = try_ok (mut_manage_action a f (type_action a t w)) fail_c (manage_all xs)"

lemma manage_step:
  assumes "try_ok (mut_manage_action a f (type_action a t w)) fail_c k = Some (True, v)" and "entered A w" and "a \<notin> A"
  obtains u where "entered (insert a A) u" "labelled u = (labelled w)(a := (t, a_name (actions w a)))" "k u = Some (True, v)"
proof -
  obtain u where u: "mut_manage_action a f (type_action a t w) = Some (True, u)" "k u = Some (True, v)"
    using assms(1) by (auto simp: try_ok_def fail_c_def split: bind_splits if_splits)
  have "entered A (type_action a t w)"
  proof -
    have "(\<lambda>b. a_addr (actions (type_action a t w) b)) = (\<lambda>b. a_addr (actions w b))" "p_stopped (type_action a t w) = p_stopped w"
      "a_root (type_action a t w) = a_root w"
      by (auto simp: type_action_def set_action_def p_stopped_def)
    with assms(2) show ?thesis unfolding entered_def by (simp only:)
  qed
  from manage_action_entered [OF this assms(3) u(1)] have "entered (insert a A) u" "labelled u = labelled (type_action a t w)" by simp_all
  with u(2) show thesis using that by (auto simp: labelled_def type_action_def set_action_def fun_eq_iff)
qed

lemma manage_all_eta:
  "manage_all [] = (\<lambda>w. Some (True, w))"
  "manage_all ((a, t, f) # xs) = (\<lambda>w. try_ok (mut_manage_action a f (type_action a t w)) fail_c (manage_all xs))"
  by (simp_all add: fun_eq_iff)

lemma manage_all_entered:
  "manage_all xs w = Some (True, v) \<Longrightarrow> entered A w \<Longrightarrow> distinct (map fst xs) \<Longrightarrow> fst ` set xs \<inter> A = {} \<Longrightarrow>
   entered (A \<union> fst ` set xs) v \<and> (\<forall>b. labelled v b = (case map_of (map (\<lambda>(a, t, f). (a, t)) xs) b of
     None \<Rightarrow> labelled w b | Some t \<Rightarrow> (t, a_name (actions w b))))"
proof (induction xs arbitrary: w A)
  case (Cons x xs)
  obtain a t f where x: "x = (a, t, f)" by (cases x)
  obtain u where u: "entered (insert a A) u" "labelled u = (labelled w)(a := (t, a_name (actions w a)))" "manage_all xs u = Some (True, v)"
    using manage_step [of a f t w "manage_all xs" v A] Cons.prems x by auto
  have n: "a_name (actions u b) = a_name (actions w b)" for b
    using fun_cong [OF u(2), of b] by (auto simp: labelled_def split: if_splits)
  have "map_of (map (\<lambda>(a, t, f). (a, t)) xs) a = None"
    using Cons.prems(3) by (force simp: x map_of_eq_None_iff)
  with Cons.IH [OF u(3,1)] Cons.prems x u(2) n show ?case by (auto split: option.splits)
qed simp

lemma manage_actions_entered:
  fixes w :: "('p, 'a) mut_world_scheme"
  assumes w: "p_stopped w" "a_root w = []" and run: "mut_manage_actions None w = Some (True, v)"
  shows "p_stopped v" and "managed v" and "a_name (actions v a) = (case a of Act_malloc \<Rightarrow> ''malloc'' | Act_calloc \<Rightarrow> ''calloc''
    | Act_realloc \<Rightarrow> ''realloc'' | Act_free \<Rightarrow> ''free'' | Act_cfree \<Rightarrow> ''cfree'' | _ \<Rightarrow> a_name (actions v a))"
proof -
  let ?x = "name_action Act_cfree ''cfree'' (name_action Act_free ''free'' (name_action Act_realloc ''realloc''
        (name_action Act_calloc ''calloc'' (name_action Act_malloc ''malloc'' w))))"
  have x: "entered {} ?x" using w by (simp add: entered_def name_action_def set_action_def p_stopped_def)
  obtain fs where "manage_all [(Act_malloc, Type_malloc, fs ! 0), (Act_calloc, Type_calloc, fs ! 1), (Act_realloc, Type_realloc, fs ! 2),
      (Act_free, Type_consumer, fs ! 3), (Act_cfree, Type_consumer, fs ! 4)] ?x = Some (True, v)"
    using run unfolding mut_manage_actions_def Let_def Option.bind_eq_Some_conv option.case manage_all_eta if_True simp_thms(6) by blast
  from manage_all_entered [OF this x]
  have e: "p_stopped v" "distinct (map (\<lambda>a. a_addr (actions v a)) (a_root v))"
    and l: "labelled v Act_malloc = (Type_malloc, ''malloc'')" "labelled v Act_calloc = (Type_calloc, ''calloc'')"
      "labelled v Act_realloc = (Type_realloc, ''realloc'')" "labelled v Act_free = (Type_consumer, ''free'')"
      "labelled v Act_cfree = (Type_consumer, ''cfree'')"
    by (simp_all add: entered_def name_action_def set_action_def)
  show "p_stopped v" by (rule e)
  show "managed v" using e l by (simp add: managed_def labelled_def)
  show "a_name (actions v a) = (case a of Act_malloc \<Rightarrow> ''malloc'' | Act_calloc \<Rightarrow> ''calloc''
    | Act_realloc \<Rightarrow> ''realloc'' | Act_free \<Rightarrow> ''free'' | Act_cfree \<Rightarrow> ''cfree'' | _ \<Rightarrow> a_name (actions v a))"
    using l by (simp add: labelled_def split: mut_action_id.split)
qed


lemma process_open_stopped: "mut_process_open argv w = Some (True, v) \<Longrightarrow> p_stopped v"
proof -
  assume run: "mut_process_open argv w = Some (True, v)"
  obtain pid c where f: "os_fork (os w) argv = Some (pid, c)"
    using run by (cases "os_fork (os w) argv") (auto simp: mut_process_open_def split: bind_splits)
  let ?w = "mut_trace_open pid ((set_status Status_running w)\<lparr>child := c\<rparr>)"
  obtain r c' where o: "os_wait (os ?w) (child ?w) = (r, c')" by fastforce
  note run' = run [unfolded mut_process_open_def f option.case prod.case Let_def o]
  obtain st where r: "r = Wait_status st" using run' by (cases r) (auto split: bind_splits)
  have st: "\<not> WIFEXITED st" "\<not> WIFSIGNALED st" "WIFSTOPPED st"
    using run' unfolding r wait_result.case by (auto split: bind_splits if_splits)
  let ?x = "set_status Status_stopped (?w\<lparr>child := c'\<rparr>)"
  have k: "do { (pc, w) \<leftarrow> mut_process_read_pc ?x; case pc of None \<Rightarrow> Some (False, w) | Some pc \<Rightarrow> Some (True, set_pc pc w) } = Some (True, v)"
    using run' unfolding r wait_result.case using st by simp
  obtain y pc where x: "mut_process_read_pc ?x = Some (Some pc, y)" "v = set_pc pc y"
    using k by (auto split: bind_splits option.splits)
  have "process y = process ?x"
    using x(1) by (auto simp: mut_process_read_pc_def mut_trace_read_reg_def ptrace_peek_def Let_def
      split: bind_splits if_splits option.splits dest!: trace_failure_process [OF _ mut_io_only(8)])
  with x show ?thesis by (simp add: p_stopped_def set_pc_def set_status_def)
qed

text \<open>The start of a run without options, or with -t.\<close>

lemma mut_open_ready:
  fixes w :: "('p, 'a) mut_world_scheme"
  assumes wf: "mem_wf w" "bts w = Map.empty" "mem_in_use w = {}" and run: "mut_open src argv f suffix None w = Some (True, v)"
    and "clean v" "log_idle v" "writes_ok v" and f: "f \<in> {0, mut_control_trace}"
  shows "ready v" and "m_flags v = f" and "managed v" and "objects v = []" and "a_name (actions v a) = (case a of Act_malloc \<Rightarrow> ''malloc''
    | Act_calloc \<Rightarrow> ''calloc'' | Act_realloc \<Rightarrow> ''realloc'' | Act_free \<Rightarrow> ''free'' | Act_cfree \<Rightarrow> ''cfree'' | _ \<Rightarrow> a_name (actions v a))"
proof -
  obtain u x y where u: "mut_exec_open src (hd argv) suffix w = Some (True, u)" and x: "mut_process_open argv u = Some (True, x)"
    and y: "mut_manage_actions None (x\<lparr>m_flags := f, stats := zero_stats, a_root := []\<rparr>) = Some (True, y)" "v = mut_resources_open False y"
    using run f by (auto simp: mut_open_def try_ok_def when_c_def ctl_def fail_c_def Let_def mut_control_trace_def mut_control_backtrace_def
      mut_control_free_def split: bind_splits if_splits)
  let ?x = "x\<lparr>m_flags := f, stats := zero_stats, a_root := []\<rparr>"
  have "p_stopped ?x" using process_open_stopped [OF x] by (simp add: p_stopped_def)
  note m = manage_actions_entered [OF this _ y(1)]
  have r: "process v = process y" "actions v = actions y" "a_root v = a_root y" "m_flags v = m_flags y" "elems (resources v) = []"
    "\<not> really_free (resources v)"
    by (simp_all add: y(2) mut_resources_open_def)
  have fl: "m_flags y = f" using setup_only_same(2) [OF manage_actions_setup [OF setup_only_refl y(1)]] by simp
  have "res_inv (\<lambda>_. 0) v" using mut_open_result [OF wf run] by (simp add: core_inv_def)
  then have "tracking v" using r f fl by (simp add: tracking_def)
  then show "ready v" using assms(5-7) m(1) r by (simp add: ready_def p_stopped_def)
  show "m_flags v = f" using r fl by simp
  show "managed v" using m(2) r by (simp add: managed_def)
  show "objects v = []" using r by (simp add: objects_def)
  show "a_name (actions v a) = (case a of Act_malloc \<Rightarrow> ''malloc'' | Act_calloc \<Rightarrow> ''calloc''
    | Act_realloc \<Rightarrow> ''realloc'' | Act_free \<Rightarrow> ''free'' | Act_cfree \<Rightarrow> ''cfree'' | _ \<Rightarrow> a_name (actions v a))"
    unfolding r by (rule m(3)) simp
qed

section \<open>Closing writes nothing after the leaks\<close>

text \<open>What releasing memory leaves alone: the output, the log and the settings of the allocator.\<close>

definition silent :: "'a log_world_scheme \<Rightarrow> 'a log_world_scheme \<Rightarrow> bool" where
  "silent w v \<longleftrightarrow> c_out v = c_out w \<and> the_log v = the_log w \<and> c_write_fails v = c_write_fails w \<and>
     mem_report (store v) = mem_report (store w) \<and> mem_log (store v) = mem_log (store w)"

lemma silent_refl [simp]: "silent w w"
  by (simp add: silent_def)

lemma silent_trans: "silent u v \<Longrightarrow> silent v w \<Longrightarrow> silent u w"
  by (simp add: silent_def)

lemma silent_free: "mut_mem__free p l f w = Some v \<Longrightarrow> silent w v"
  by (auto simp: mut_mem__free_def mem_bad_addr_def mem_halt_def libc_memset_def mem_retire_def silent_def Let_def
      split: if_splits option.splits bind_splits)

lemma silent_symtab: "mut_exec_symtab_close w = Some v \<Longrightarrow> silent w v"
proof -
  have lines: "symtab_close_lines fls w = Some v \<Longrightarrow> silent w v" for fls and w v :: "'a symtab_world_scheme"
    by (induction fls arbitrary: w) (auto split: bind_splits dest!: silent_free intro: silent_trans)
  have "symtab_close_funs fs w = Some v \<Longrightarrow> silent w v" for fs and w v :: "'a symtab_world_scheme"
    by (induction fs arbitrary: w) (auto split: bind_splits dest!: silent_free lines intro: silent_trans)
  then show "mut_exec_symtab_close w = Some v \<Longrightarrow> silent w v" unfolding mut_exec_symtab_close_def .
qed

lemma silent_exec: "mut_exec_close w = Some (b, v) \<Longrightarrow> silent w v"
  by (auto simp: mut_exec_close_def mut_exec_stabstr_close_def mut_exec_strtab_close_def split: bind_splits if_splits
      dest!: silent_free silent_symtab intro: silent_trans)

lemma silent_backtrace: "mut_backtrace_close p w = Some v \<Longrightarrow> silent w v"
  by (auto simp: mut_backtrace_close_def Let_def silent_def split: bind_splits if_splits dest!: silent_free)

lemma silent_nodes: "close_nodes rs w = Some v \<Longrightarrow> silent w v"
  by (induction rs arbitrary: w) (auto simp: close_if_def split: bind_splits if_splits dest!: silent_free silent_backtrace intro: silent_trans)

lemma silent_process: "mut_process_close w = Some v \<Longrightarrow> p_status (process w) = Status_exited \<Longrightarrow> silent w v"
  by (auto simp: mut_process_close_def mut_trace_close_def silent_def split: bind_splits)



lemma mut_close_text:
  fixes v :: "('p, 'a) mut_world_scheme"
  assumes inv: "core_inv K (\<lambda>_. 0) v" and own: "exec_owned v" and foreign: "foreign v = exec_blocks v"
    and fin: "run_done w cs s v" and rep: "mem_report (store v) = None"
  shows "\<exists>x st z. mut_close v = Some (True, x) \<and> mut_mem_close x = Some (st, z) \<and> c_heap z = Map.empty \<and>
    c_out z = (c_out v)(sink (the_log v) := log_text v @
      leak_report (program_name (the_log v)) (\<lambda>a. a_name (actions v a)) (objects v))"
proof -
  have t: "tracking v" "log_idle v" "writes_ok v" "p_status (process v) = Status_exited" using fin by (simp_all add: run_done_def)
  let ?l = "leak_report (program_name (the_log v)) (\<lambda>a. a_name (actions v a)) (objects v)"
  let ?p = "log_emit ?l v"
  have p: "mut_log_leaks v = Some ?p"
    using log_leaks_ok [of v "\<lambda>_. 0"] t tracking_ctl [OF t(1)]
    by (simp add: leak_lines objects_def tracking_def list_all_iff)
  have cp: "\<not> ctl mut_control_stats ?p" "tracking ?p" using tracking_ctl [of ?p] t(1) by simp_all
  have "res_inv (\<lambda>_. 0) ?p" using cp(2) by (simp add: tracking_def)
  from mut_resources_close_result [OF this] obtain r where r: "mut_resources_close ?p = Some r" "bt_only ?p r" by blast
  have pr: "process r = process ?p" by (rule bt_onlyE [OF r(2)]) simp
  then have st: "p_status (process r) = Status_exited" using t(4) by (simp add: log_emit_def)
  then obtain q where q: "mut_process_close r = Some q" by (simp add: mut_process_close_def)
  have "tr_only v ?p" by (simp add: tr_only_def log_emit_def)
  then have ip: "core_inv K (\<lambda>_. 0) ?p" using core_inv_tr inv by blast
  have op: "exec_owned ?p" "foreign ?p = exec_blocks ?p"
    using own foreign by (simp_all add: exec_owned_def exec_blocks_def foreign_def log_emit_def plain_blocks_def mem_in_use_def)
  obtain b x where x: "mut_exec_close q = Some (b, x)"
    using closing_blocks [OF ip op r(1) q] mut_exec_close_result [of q] by auto
  have run: "mut_close v = Some (b, x)" using p r q x cp(1) by (simp add: mut_close_def when_c_def)
  have c: "b" "mem_wf x" "mem_in_use x = {}" using close_releases [OF inv own foreign run] by simp_all
  have "silent ?p x"
    using silent_nodes [of _ ?p r] r(1) silent_process [OF q st] silent_exec [OF x] silent_trans
    by (metis mut_resources_close_def)
  then have s: "c_out x = c_out ?p" "writes_ok x" "mem_report (store x) = None"
    using t(3) rep by (simp_all add: silent_def writes_ok_def log_emit_def)
  have "in_use (store x) = []" using c(3) by (simp add: mem_in_use_def)
  with mut_mem_close_result [OF c(2)] s obtain st z where "mut_mem_close x = Some (st, z)" "c_heap z = Map.empty" "c_out z = c_out ?p"
    by auto
  with run c(1) show ?thesis by (auto simp: log_emit_def log_text_def)
qed


section \<open>The names of the actions in the log\<close>

fun action_title :: "mut_action_id \<Rightarrow> string" where
  "action_title Act_malloc = ''malloc''"
| "action_title Act_calloc = ''calloc''"
| "action_title Act_realloc = ''realloc''"
| "action_title Act_free = ''free''"
| "action_title Act_cfree = ''cfree''"
| "action_title _ = []"

definition named :: "object \<Rightarrow> bool" where
  "named x \<longleftrightarrow> o_producer x \<noteq> Act_usage \<and> o_consumer x \<noteq> Some Act_usage"

fun call_named :: "call \<Rightarrow> bool" where
  "call_named (Consume c a) \<longleftrightarrow> c \<noteq> Act_usage"
| "call_named _ \<longleftrightarrow> True"

lemma target_named: "target sys ad root ins objs pc c cs s \<Longrightarrow> list_all call_named cs"
  by (induction rule: target.induct) (auto elim!: performs.cases)

lemma track_named: "call_named cl \<Longrightarrow> list_all named objs \<Longrightarrow> list_all named (track cl objs)"
  by (cases cl) (auto simp: named_def new_object_def consumed_def list_all_iff)

lemma fold_track_named: "list_all call_named cs \<Longrightarrow> list_all named objs \<Longrightarrow> list_all named (fold track cs objs)"
  by (induction cs arbitrary: objs) (simp_all add: track_named)

lemma object_at_named: "list_all named objs \<Longrightarrow> object_at a objs = Some x \<Longrightarrow> named x"
  by (auto simp: object_at_def list_all_iff find_Some_iff)

lemma report_names:
  assumes nm: "\<And>a. a \<noteq> Act_usage \<Longrightarrow> nm a = nm' a" and "call_named cl" and "list_all named objs"
  shows "report tr pn nm objs cl = report tr pn nm' objs cl"
  using assms(2,3) by (cases cl) (auto simp: nm named_def dest: object_at_named split: option.split)

lemma reports_names:
  assumes nm: "\<And>a. a \<noteq> Act_usage \<Longrightarrow> nm a = nm' a"
  shows "list_all call_named cs \<Longrightarrow> list_all named objs \<Longrightarrow> reports tr pn nm objs cs = reports tr pn nm' objs cs"
  using report_names [of nm nm'] nm by (induction cs arbitrary: objs) (simp_all add: track_named)

lemma leak_report_names:
  assumes nm: "\<And>a. a \<noteq> Act_usage \<Longrightarrow> nm a = nm' a" and "list_all named objs"
  shows "leak_report pn nm objs = leak_report pn nm' objs"
  unfolding leak_report_def using assms(2) by (intro arg_cong [where f = concat] map_cong) (auto simp: nm named_def list_all_iff)

section \<open>The program up to the loop\<close>

text \<open>The part of \<open>main\<close> up to the return of a successful \<open>mut_open\<close>.\<close>

definition main_opened ::
  "(string \<Rightarrow> source) \<Rightarrow> string list \<Rightarrow> ('p, 'a) mut_world_scheme \<Rightarrow> (mut_ui_arg_info \<times> ('p, 'a) mut_world_scheme) option" where
  "main_opened files argv w = do {
     let w = mut_mem_open (w\<lparr>store := mut_mem_init\<rparr>);
     let w = mut_log_open (hd argv) w;
     let w = set_exec (\<lambda>e. e\<lparr>has_full_symbols := None\<rparr>) w;
     let info = \<lparr>i_argv = [], i_log_file_name = None, i_mut_name = None, i_flags = 0,
                 i_undesirable_suffix = Some ''@@GLIBC_2.0'', i_usage_function = None\<rparr>;
     (r, w) \<leftarrow> mut_ui_process_args info argv w;
     info \<leftarrow> r;
     w \<leftarrow> (case i_log_file_name info of None \<Rightarrow> Some w | Some f \<Rightarrow> mut_log_file f w);
     let w = (case i_mut_name info of None \<Rightarrow> w | Some n \<Rightarrow> mut_log_prog_name n w);
     (ok, w) \<leftarrow> mut_open (files (hd (i_argv info))) (i_argv info) (i_flags info) (i_undesirable_suffix info) (i_usage_function info) w;
     if ok then Some (info, w) else None
   }"

definition main_init :: "string \<Rightarrow> ('p, 'a) mut_world_scheme \<Rightarrow> ('p, 'a) mut_world_scheme" where
  "main_init n w = set_exec (\<lambda>e. e\<lparr>has_full_symbols := None\<rparr>) (mut_log_open n (mut_mem_open (w\<lparr>store := mut_mem_init\<rparr>)))"

lemma main_opened_parts:
  assumes "main_opened files argv w = Some (info, t)"
  obtains u x where "mut_ui_process_args \<lparr>i_argv = [], i_log_file_name = None, i_mut_name = None, i_flags = 0,
       i_undesirable_suffix = Some ''@@GLIBC_2.0'', i_usage_function = None\<rparr> argv (main_init (hd argv) w) = Some (Some info, u)"
    and "(case i_log_file_name info of None \<Rightarrow> Some u | Some f \<Rightarrow> mut_log_file f u) = Some x"
    and "mut_open (files (hd (i_argv info))) (i_argv info) (i_flags info) (i_undesirable_suffix info) (i_usage_function info)
      (case i_mut_name info of None \<Rightarrow> x | Some n \<Rightarrow> mut_log_prog_name n x) = Some (True, t)"
  using assms unfolding main_opened_def Let_def main_init_def [symmetric] by (auto split: bind_splits if_splits)

lemma main_after_opened:
  assumes "main_opened files argv w = Some (info, t)" and run: "mut_run t = Some (True, v)" and close: "mut_close v = Some (True, x)"
    and mem: "mut_mem_close x = Some (st, z)"
  shows "main files argv w = Some (EXIT_SUCCESS, z)"
proof -
  obtain u y where u: "mut_ui_process_args \<lparr>i_argv = [], i_log_file_name = None, i_mut_name = None, i_flags = 0,
       i_undesirable_suffix = Some ''@@GLIBC_2.0'', i_usage_function = None\<rparr> argv (main_init (hd argv) w) = Some (Some info, u)"
    and y: "(case i_log_file_name info of None \<Rightarrow> Some u | Some f \<Rightarrow> mut_log_file f u) = Some y"
    and o: "mut_open (files (hd (i_argv info))) (i_argv info) (i_flags info) (i_undesirable_suffix info) (i_usage_function info)
      (case i_mut_name info of None \<Rightarrow> y | Some n \<Rightarrow> mut_log_prog_name n y) = Some (True, t)"
    using assms(1) by (rule main_opened_parts)
  show ?thesis
    unfolding main_def Let_def main_init_def [symmetric] u
    by (simp only: Option.bind.bind_lunit prod.case option.case y o not_True_eq_False if_False run close mut_log_close_def mem)
qed

lemma main_opened_result:
  fixes w :: "('p, 'a) mut_world_scheme"
  assumes w: "malloc_fresh w" "c_heap w = Map.empty" "bts w = Map.empty"
    and run: "main_opened files argv w = Some (info, t)"
  obtains y where "mem_wf y" "bts y = Map.empty" "mem_in_use y = {}"
    "mut_open (files (hd (i_argv info))) (i_argv info) (i_flags info) (i_undesirable_suffix info) (i_usage_function info) y = Some (True, t)"
proof -
  define z where "z = main_init (hd argv) w"
  have "mem_wf (w\<lparr>store := mut_mem_init\<rparr>)" using w(1,2) by (intro mem_wf_init) simp_all
  then have z: "mem_wf z" "bts z = Map.empty" "mem_in_use z = {}"
    using w(3) by (simp_all add: z_def main_init_def set_exec_def mut_log_open_def mut_mem_open_def mem_wf_def malloc_fresh_def mem_in_use_def mut_mem_init_def)
  then have start: "restored z z" by (simp add: restored_def)
  obtain u x where u: "mut_ui_process_args \<lparr>i_argv = [], i_log_file_name = None, i_mut_name = None, i_flags = 0,
       i_undesirable_suffix = Some ''@@GLIBC_2.0'', i_usage_function = None\<rparr> argv z = Some (Some info, u)"
    and x: "(case i_log_file_name info of None \<Rightarrow> Some u | Some f \<Rightarrow> mut_log_file f u) = Some x"
    and o: "mut_open (files (hd (i_argv info))) (i_argv info) (i_flags info) (i_undesirable_suffix info) (i_usage_function info)
      (case i_mut_name info of None \<Rightarrow> x | Some n \<Rightarrow> mut_log_prog_name n x) = Some (True, t)"
    using run unfolding z_def by (rule main_opened_parts)
  have "restored z u"
    using u start by (auto simp: mut_ui_process_args_def split: list.splits dest: options_loop_restored)
  then have "restored z x" using x log_file_restored by (auto split: option.splits)
  then have r: "restored z (case i_mut_name info of None \<Rightarrow> x | Some n \<Rightarrow> mut_log_prog_name n x)" (is "restored z ?y")
    using prog_name_restored by (auto split: option.splits)
  then have y: "mem_wf ?y" "mem_in_use ?y = {}" "exec_only z ?y" using z by (simp_all add: restored_def)
  have "bts ?y = Map.empty" using exec_only_bts [OF y(3)] z by simp
  with o y that show thesis by blast
qed


section \<open>The whole program\<close>

lemma main_tracks:
  fixes w :: "('p, 'a) mut_world_scheme"
  assumes start: "malloc_fresh w" "c_heap w = Map.empty" "bts w = Map.empty"
    and opened: "main_opened files argv w = Some (info, t)" "i_flags info \<in> {0, mut_control_trace}" "i_usage_function info = None"
    and env: "clean t" "log_idle t" "writes_ok t" "mem_report (store t) = None" "room (2 * length cs) t"
    and tgt: "target (os t) (\<lambda>a. a_addr (actions t a)) (a_root t) (saved t) [] (p_pc (process t)) (child t) cs s"
  shows "\<exists>v. main files argv w = Some (EXIT_SUCCESS, v) \<and> c_heap v = Map.empty \<and>
    c_out v (sink (the_log t)) = log_text t @ reports (i_flags info \<noteq> 0) (program_name (the_log t)) action_title [] cs @
      exit_report (program_name (the_log t)) s @ leak_report (program_name (the_log t)) action_title (fold track cs [])"
proof -
  obtain y where y: "mem_wf y" "bts y = Map.empty" "mem_in_use y = {}" and
    o: "mut_open (files (hd (i_argv info))) (i_argv info) (i_flags info) (i_undesirable_suffix info) None y = Some (True, t)"
    using main_opened_result [OF start opened(1)] opened(3) by auto
  note r = mut_open_ready [OF y o env(1-3) opened(2)]
  have tr: "tracing t = (i_flags info \<noteq> 0)" using r(2) opened(2) by (auto simp: ctl_def mut_control_trace_def)
  have nm: "a_name (actions t a) = action_title a" if "a \<noteq> Act_usage" for a
    using r(5) [of a] that by (cases a) simp_all
  have inv: "core_inv (kept t) (\<lambda>_. 0) t" "exec_owned t" "foreign t = exec_blocks t" "\<not> ctl mut_control_free t"
    using mut_open_result [OF y o] opened(2) by (auto simp: mut_control_trace_def mut_control_free_def)
  obtain v where v: "mut_run t = Some (True, v)" "run_done t cs s v"
    using run_tracks [OF tgt r(1,3) env(5)] r(4) by auto
  have safe: "safe_mode (kept t)" using inv(4) core_inv_ctl [OF inv(1)] by (simp add: safe_mode_def)
  have iv: "core_inv (kept t) (\<lambda>_. 0) v" using mut_run_inv [OF safe v(1) inv(1)] by simp
  have "kept v = kept t" using iv by (simp add: core_inv_def)
  then have same: "exec v = exec t" "symtab v = symtab t" "foreign v = foreign t" by (simp_all add: kept_def)
  then have "foreign v = exec_blocks v" using inv(3) by (simp add: exec_blocks_def)
  moreover have "foreign v \<subseteq> mem_in_use v" by (auto simp: foreign_def plain_blocks_def)
  ultimately have own: "exec_owned v" "foreign v = exec_blocks v"
    using inv(2) same by (simp_all add: exec_owned_def exec_blocks_def)
  have rep: "mem_report (store v) = None" using v(2) env(4) by (simp add: run_done_def)
  obtain x st z where x: "mut_close v = Some (True, x)" "mut_mem_close x = Some (st, z)" "c_heap z = Map.empty"
    "c_out z = (c_out v)(sink (the_log v) := log_text v @
      leak_report (program_name (the_log v)) (\<lambda>a. a_name (actions v a)) (objects v))"
    using mut_close_text [OF iv own v(2) rep] by blast
  have c: "list_all call_named cs" by (rule target_named [OF tgt])
  let ?pn = "program_name (the_log t)"
  have nv: "a_name (actions v a) = action_title a" if "a \<noteq> Act_usage" for a using v(2) nm [OF that] by (simp add: run_done_def)
  have "reports (i_flags info \<noteq> 0) ?pn (\<lambda>a. a_name (actions t a)) [] cs = reports (i_flags info \<noteq> 0) ?pn action_title [] cs"
    by (rule reports_names [OF nm c]) simp_all
  then have "log_text v = log_text t @ reports (i_flags info \<noteq> 0) ?pn action_title [] cs @ exit_report ?pn s"
    using v(2) r(4) tr by (simp add: run_done_def)
  moreover have "objects v = fold track cs []" "program_name (the_log v) = ?pn" "sink (the_log v) = sink (the_log t)"
    using v(2) r(4) by (simp_all add: run_done_def)
  moreover have "leak_report ?pn (\<lambda>a. a_name (actions v a)) (fold track cs []) = leak_report ?pn action_title (fold track cs [])"
    by (rule leak_report_names [OF nv fold_track_named [OF c]]) simp_all
  moreover have "main files argv w = Some (EXIT_SUCCESS, z)" by (rule main_after_opened [OF opened(1) v(1) x(1,2)])
  ultimately show ?thesis using x(3,4) by simp
qed


section \<open>A sample program\<close>

text \<open>The executable of MutSession, of which only \<open>malloc\<close> is known, run as the target of MutTracked: it calls \<open>malloc(8)\<close>, is stopped once more, and exits.\<close>

definition whole_system :: "nat os" where
  "whole_system = scripted\<lparr>os_fork := (\<lambda>_. Some (7, scripted_child 0 [mut_process_arch_regs_eip \<mapsto> 0x1001] sample_code))\<rparr>"

definition whole_tail where
  "whole_tail p c as root st = bt_world_ext Map.empty (res_world_ext
     \<lparr>elems = [], really_free = False, n_active_elems = 0, n_consumed_elems = 0\<rparr>
     (proc_world_ext p (c :: nat child) whole_system (mut_world_ext as root 0 st ())))"

definition whole_machine :: "(nat, unit) mut_world_scheme" where
  "whole_machine = sample_start (whole_tail \<lparr>p_child = 0, p_status = Status_exited, p_pc = 0\<rparr>
     (scripted_child 0 Map.empty Map.empty) (\<lambda>_. sample_action) [] sample_stats)"

definition whole_patched :: bytes where
  "whole_patched = put_word 0x8000 mut_instr_bp sample_code"

definition whole_session :: "(nat, unit) mut_world_scheme" where
  "whole_session = sample_opened (whole_tail \<lparr>p_child = 7, p_status = Status_stopped, p_pc = 0x1001\<rparr>
     (scripted_child 0 [mut_process_arch_regs_eip \<mapsto> 0x1001] whole_patched) sample_named_actions [Act_malloc] zero_stats)"

text \<open>It can be opened without options, and with -t.\<close>

abbreviation whole_options :: "u32 \<Rightarrow> mut_ui_arg_info" where
  "whole_options f \<equiv> \<lparr>i_argv = [''a.out''], i_log_file_name = None, i_mut_name = None, i_flags = f,
     i_undesirable_suffix = Some ''@@GLIBC_2.0'', i_usage_function = None\<rparr>"

lemma whole_mut_open:
  "f AND mut_control_backtrace = 0 \<Longrightarrow> f AND mut_control_free = 0 \<Longrightarrow>
   mut_open sample_source [''a.out''] f (Some ''@@GLIBC_2.0'') None whole_machine = Some (True, whole_session\<lparr>m_flags := f\<rparr>)"
  by (simp only: whole_machine_def mut_open_def list.sel sample_exec_open try_ok_Some if_True, simp add: try_ok_def sample_action_def
    whole_tail_def sample_opened_def sample_start_def sample_world_def mut_process_open_def whole_system_def scripted_def set_status_def
    mut_trace_open_def WIFEXITED_def WIFSIGNALED_def WIFSTOPPED_def WTERMSIG_def mut_process_read_pc_def mut_trace_read_reg_def
    ptrace_peek_def scripted_child_def p_stopped_def set_pc_def when_c_def ctl_def Let_def mut_manage_actions_def mut_manage_action_def
    name_action_def type_action_def set_action_def mut_exec_functions_addr.simps mut_exec_symtab_lookup_name_def string_at_def
    sample_heap_def sample_strings_def char_of_def bit_simps mut_actions_enter_def mut_process_breakpoint_def
    mut_trace_read_text_def mut_trace_write_text_def try_c_def fail_c_def sample_code_reads write_word_def mut_resources_open_def
    whole_session_def whole_patched_def sample_named_actions_def fun_eq_iff)

lemma whole_opened:
  "main_opened (\<lambda>_. sample_source) [''mut'', ''a.out''] whole_machine = Some (whole_options 0, whole_session)"
  "main_opened (\<lambda>_. sample_source) [''mut'', ''-t'', ''a.out''] whole_machine =
     Some (whole_options mut_control_trace, whole_session\<lparr>m_flags := mut_control_trace\<rparr>)"
proof -
  have z: "set_exec (\<lambda>e. e\<lparr>has_full_symbols := None\<rparr>) (mut_log_open ''mut'' (mut_mem_open (whole_machine\<lparr>store := mut_mem_init\<rparr>))) = whole_machine"
    by (simp add: set_exec_def mut_log_open_def mut_mem_open_def whole_machine_def sample_start_def sample_world_def
        sample_log_state_def sample_exec_def)
  have plain: "whole_session\<lparr>m_flags := 0\<rparr> = whole_session"
    by (simp add: whole_session_def whole_tail_def sample_opened_def sample_start_def sample_world_def)
  show "main_opened (\<lambda>_. sample_source) [''mut'', ''a.out''] whole_machine = Some (whole_options 0, whole_session)"
    unfolding main_opened_def Let_def list.sel z by (simp add: mut_ui_process_args_def whole_mut_open plain)
  show "main_opened (\<lambda>_. sample_source) [''mut'', ''-t'', ''a.out''] whole_machine =
     Some (whole_options mut_control_trace, whole_session\<lparr>m_flags := mut_control_trace\<rparr>)"
    unfolding main_opened_def Let_def list.sel z by (simp add: mut_ui_process_args_def whole_mut_open or_flags_def mut_control_trace_def
      mut_control_backtrace_def mut_control_free_def)
qed

lemma whole_session_facts:
  "clean whole_session" "log_idle whole_session" "writes_ok whole_session" "mem_report (store whole_session) = None"
  "os whole_session = whole_system" "p_pc (process whole_session) = 0x1001" "actions whole_session = sample_named_actions"
  "a_root whole_session = [Act_malloc]" "saved whole_session = [0]" "the_log whole_session = sample_log_state" "log_text whole_session = []"
  "child whole_session = scripted_child 0 [mut_process_arch_regs_eip \<mapsto> 0x1001] whole_patched"
  by (simp_all add: whole_session_def whole_tail_def sample_opened_def sample_start_def sample_world_def clean_def log_idle_def writes_ok_def
    sample_log_state_def whole_system_def scripted_def sample_store_def saved_def sample_named_actions_def sample_action_def log_text_def)

lemma whole_session_room: "room 2 whole_session"
proof -
  have h: "dom (c_heap whole_session) = {0x1000, 0x2000, 0x3000, 0x4000, 0x5000, 0x6000, 0x7000, 0x8000}"
    by (auto simp: whole_session_def sample_opened_def sample_heap_def)
  have "sample_blocks h n \<noteq> 0" if "card (dom h) < 10" for h n
  proof
    assume "sample_blocks h n = 0"
    then have "{0x1000, 0x2000, 0x3000, 0x4000, 0x5000, 0x6000, 0x7000, 0x8000, 0x9000, 0xA000} \<subseteq> dom h"
      by (auto simp: sample_blocks_def dom_def split: if_splits)
    then have "card {0x1000, 0x2000, 0x3000, 0x4000, 0x5000, 0x6000, 0x7000, 0x8000, 0x9000, 0xA000 :: u32} \<le> card (dom h)"
      by (intro card_mono) simp_all
    with that show False by simp
  qed
  moreover have "c_pick whole_session = sample_blocks" by (simp add: whole_session_def sample_opened_def sample_start_def)
  ultimately show ?thesis by (simp add: room_def h)
qed

lemma flags_session:
  fixes w :: "('p, 'a) mut_world_scheme"
  shows "clean (w\<lparr>m_flags := f\<rparr>) = clean w" "log_idle (w\<lparr>m_flags := f\<rparr>) = log_idle w" "writes_ok (w\<lparr>m_flags := f\<rparr>) = writes_ok w"
    "saved (w\<lparr>m_flags := f\<rparr>) = saved w" "log_text (w\<lparr>m_flags := f\<rparr>) = log_text w" "room k (w\<lparr>m_flags := f\<rparr>) = room k w"
  by (simp_all add: clean_def log_idle_def writes_ok_def saved_def log_text_def room_def)

lemma whole_target:
  "target whole_system (\<lambda>a. a_addr (sample_named_actions a)) [Act_malloc] [0] [] 0x1001
     (scripted_child 0 [mut_process_arch_regs_eip \<mapsto> 0x1001] whole_patched) [Malloc 8 0x80] 0"
  (is "target _ ?ad ?root _ _ _ _ _ _")
proof -
  note regs = sample_script_def mut_process_arch_regs_eip_def mut_process_arch_regs_eax_def mut_process_arch_regs_esp_def
  have sys: "os_continue whole_system = os_continue scripted" "os_wait whole_system = os_wait scripted" by (simp_all add: whole_system_def)
  note stop = scripted_stops [OF sys]
  let ?c1 = "scripted_child 1 (sample_script 0)" and ?c2 = "scripted_child 2 (sample_script 1)" and ?c3 = "scripted_child 3 (sample_script 2)"
  have "\<exists>c. continues whole_system 0x9000 (?c3 whole_patched) 0 c"
    by (auto simp: continues_def whole_system_def scripted_def scripted_child_def regs intro!: exI signals_then.now)
  then have "finishes whole_system 0x9000 (?c3 whole_patched) 0" by (simp add: finishes_def WIFEXITED_def WTERMSIG_def)
  then have last: "target whole_system ?ad ?root [0] [new_object 0x80 8 Act_malloc] 0x9000 (?c3 whole_patched) [] 0" by (rule target.ends)
  have passed: "target whole_system ?ad ?root [0] [new_object 0x80 8 Act_malloc] 0x300 (?c2 whole_patched) [] 0"
  proof (rule target.passes [OF _ _ last])
    show "stops whole_system 0x300 (?c2 whole_patched) 0x9000 (?c3 whole_patched)" by (rule stop) (simp_all add: regs)
    show "0x9000 \<notin> ?ad ` set ?root" by (simp add: sample_named_actions_def)
  qed
  let ?m = "put_word 0x300 mut_instr_bp sample_code"
  have "stops whole_system 0x8000 (?c1 ?m) 0x300 (?c2 ?m)" by (rule stop) (simp_all add: regs)
  then have call: "runs_call whole_system 0x8000 0x300 (?c1 sample_code) (?c2 sample_code)"
    using sample_code_reads(5) by (auto simp: runs_call_def scripted_child_def put_word_same intro!: exI [of _ "?c2 ?m", unfolded scripted_child_def])
  have p: "child_memory.patch mut_instr_bp [0x8000] sample_code = Some ([0], whole_patched)"
    using sample_code_reads(6) by (simp add: write_word_def whole_patched_def)
  show ?thesis
  proof (rule target.calls [where act = Act_malloc and ra = "0x300" and m' = whole_patched and ?c2.0 = "?c2 sample_code"])
    show "stops whole_system 0x1001 (scripted_child 0 [mut_process_arch_regs_eip \<mapsto> 0x1001] whole_patched) (?ad Act_malloc) (?c1 whole_patched)"
      by (rule stop) (simp_all add: regs sample_named_actions_def)
    show "performs whole_system [] Act_malloc ((?c1 whole_patched)\<lparr>cmem := sample_code\<rparr>) (?ad Act_malloc) (Malloc 8 0x80) 0x300 (?c2 sample_code)"
      using performs.malloc [OF _ call, of "0x100" 8 "0x80" "[]"] sample_code_reads
      by (simp add: call_frame_def scripted_child_def regs sample_named_actions_def)
    show "target whole_system ?ad ?root [0] (track (Malloc 8 0x80) []) 0x300 ((?c2 sample_code)\<lparr>cmem := whole_patched\<rparr>) [] 0"
      using passed by (simp add: scripted_child_def)
    show "child_memory.unpatch (zip (map ?ad ?root) [0]) (cmem (?c1 whole_patched)) = Some sample_code"
      using child_memory.unpatch_patch [OF _ p] by (simp add: words_apart_def word_addrs_def scripted_child_def sample_named_actions_def)
  qed (use p in \<open>simp_all add: sample_named_actions_def scripted_child_def\<close>)
qed

section \<open>Properties\<close>

text \<open>
  C1: The program as a whole. When the executable is opened without an option that changes the mode, or with -t, and whatever calls of the allocator the target then
  makes, \<open>main\<close> returns success with nothing left allocated, and its log gets, after what opening has written, exactly the lines that the
  specification computes from the calls, with -t also the lines that trace them, then the line for the end of the target, and one line for each object that was never freed.
\<close>

theorem main_tracks_target:
  fixes w :: "('p, 'a) mut_world_scheme"
  assumes "malloc_fresh w" "c_heap w = Map.empty" "bts w = Map.empty"
    and "main_opened files argv w = Some (info, t)" "i_flags info \<in> {0, mut_control_trace}" "i_usage_function info = None"
    and "clean t" "log_idle t" "writes_ok t" "mem_report (store t) = None" "room (2 * length cs) t"
    and "target (os t) (\<lambda>a. a_addr (actions t a)) (a_root t) (saved t) [] (p_pc (process t)) (child t) cs s"
  shows "\<exists>v. main files argv w = Some (EXIT_SUCCESS, v) \<and> c_heap v = Map.empty \<and>
    c_out v (sink (the_log t)) = log_text t @ reports (i_flags info \<noteq> 0) (program_name (the_log t)) action_title [] cs @
      exit_report (program_name (the_log t)) s @ leak_report (program_name (the_log t)) action_title (fold track cs [])"
  using assms by (rule main_tracks)

lemma main_tracks_target_witness:
  "(\<exists>v. main (\<lambda>_. sample_source) [''mut'', ''a.out''] whole_machine = Some (EXIT_SUCCESS, v) \<and> c_heap v = Map.empty \<and>
     c_out v Stderr = ''mut info process.exited 0\<newline>mut error MLK malloc 8 80\<newline>'') \<and>
   (\<exists>v. main (\<lambda>_. sample_source) [''mut'', ''-t'', ''a.out''] whole_machine = Some (EXIT_SUCCESS, v) \<and> c_heap v = Map.empty \<and>
     c_out v Stderr = ''mut info trace malloc 8 80\<newline>mut info process.exited 0\<newline>mut error MLK malloc 8 80\<newline>'')"
  (is "?plain \<and> ?traced")
proof
  have m: "malloc_fresh whole_machine" "c_heap whole_machine = Map.empty" "bts whole_machine = Map.empty"
    by (simp_all add: whole_machine_def whole_tail_def sample_start_def sample_world_def malloc_fresh_def sample_blocks_def)
  note log = trace_line_def new_object_def leak_report_def exit_report_def WIFEXITED_def WTERMSIG_def WEXITSTATUS_def fmt_d_def
    sample_service sample_log_state_def mut_control_trace_def
  show ?plain
    using main_tracks_target [OF m whole_opened(1), of "[Malloc 8 0x80]" 0] whole_session_facts whole_session_room whole_target
    by (simp add: log)
  show ?traced
    using main_tracks_target [OF m whole_opened(2), of "[Malloc 8 0x80]" 0] whole_session_facts whole_session_room whole_target
    by (simp add: log flags_session)
qed

end
