(* ===== verification/MutTests.thy ===== *)
theory MutTests
  imports MutWhole
begin

text \<open>
  The programs of src/tests/src, on which MUT is tried. A program is a function of its memory and of the answers of the allocator, which is a parameter;
  it collects the calls of the allocator that MUT gets to see and the text it writes. Free leaves the memory as it is, since without the
  option -f the call is not made. The log that the specification of MutTracker computes from the calls is compared with the results that
  the repository keeps in src/tests/gen/results.x86/correct for runs without options and for runs with -t alone.
\<close>

section \<open>Programs\<close>

text \<open>\<open>t_answer k\<close> is the address that the allocator returns for the call number \<open>k\<close>.\<close>

record test =
  t_mem :: bytes
  t_calls :: "call list"
  t_out :: string
  t_answer :: "nat \<Rightarrow> u32"

text \<open>The outcome is the value, or None if the program has been ended by SIGSEGV; no outcome at all is a program that does not end.\<close>

type_synonym 'r test_result = "('r option \<times> test) option"

definition t_write :: "string \<Rightarrow> test \<Rightarrow> test" where
  "t_write s w = w\<lparr>t_out := t_out w @ s\<rparr>"

definition t_made :: "call \<Rightarrow> test \<Rightarrow> test" where
  "t_made c w = w\<lparr>t_calls := t_calls w @ [c]\<rparr>"

definition t_malloc :: "u32 \<Rightarrow> test \<Rightarrow> u32 \<times> test" where
  "t_malloc n w = (let a = t_answer w (length (t_calls w)) in (a, t_made (Malloc n a) w))"

definition in_block :: "u32 \<Rightarrow> u32 \<Rightarrow> u32 \<Rightarrow> bool" where
  "in_block a n x \<longleftrightarrow> unat (x - a) < unat n"

definition t_calloc :: "u32 \<Rightarrow> u32 \<Rightarrow> test \<Rightarrow> u32 \<times> test" where
  "t_calloc k n w =
     (let a = t_answer w (length (t_calls w));
          m = (if a = 0 then t_mem w else (\<lambda>x. if in_block a (k * n) x then Some 0 else t_mem w x))
      in (a, t_made (Calloc k n a) (w\<lparr>t_mem := m\<rparr>)))"

text \<open>The words of the old object are copied, as many as both have.\<close>

definition t_realloc :: "u32 \<Rightarrow> u32 \<Rightarrow> test \<Rightarrow> u32 \<times> test" where
  "t_realloc old n w =
     (let a = t_answer w (length (t_calls w));
          m = (case object_at old (fold track (t_calls w) []) of
                 None \<Rightarrow> t_mem w
               | Some x \<Rightarrow> if a = 0 then t_mem w
                   else (\<lambda>y. if in_block a (min n (o_size x)) y then t_mem w (old + (y - a)) else t_mem w y))
      in (a, t_made (Realloc old n a) (w\<lparr>t_mem := m\<rparr>)))"

definition t_free :: "u32 \<Rightarrow> test \<Rightarrow> test" where
  "t_free a = t_made (Consume Act_free a)"

definition t_cfree :: "u32 \<Rightarrow> test \<Rightarrow> test" where
  "t_cfree a = t_made (Consume Act_cfree a)"

definition t_store :: "u32 \<Rightarrow> u8 \<Rightarrow> (test \<Rightarrow> 'r test_result) \<Rightarrow> test \<Rightarrow> 'r test_result" where
  "t_store a b k w = (if t_mem w a = None then Some (None, w) else k (w\<lparr>t_mem := (t_mem w)(a \<mapsto> b)\<rparr>))"

definition t_store_int :: "u32 \<Rightarrow> u32 \<Rightarrow> (test \<Rightarrow> 'r test_result) \<Rightarrow> test \<Rightarrow> 'r test_result" where
  "t_store_int a x k w = (case write_word a x (t_mem w) of None \<Rightarrow> Some (None, w) | Some m \<Rightarrow> k (w\<lparr>t_mem := m\<rparr>))"

definition t_load_int :: "u32 \<Rightarrow> (u32 \<Rightarrow> test \<Rightarrow> 'r test_result) \<Rightarrow> test \<Rightarrow> 'r test_result" where
  "t_load_int a k w = (case read_word (t_mem w) a of None \<Rightarrow> Some (None, w) | Some x \<Rightarrow> k x w)"

definition t_exit :: "u32 \<Rightarrow> test \<Rightarrow> u32 test_result" where
  "t_exit s w = Some (Some s, w)"

section \<open>Legal programs\<close>

definition test_malloc0 :: "test \<Rightarrow> u32 test_result" where
  "test_malloc0 w =
     (let w = t_write ''A\<newline>'' w;
          (x, w) = t_malloc 8 w;
          w = t_write ''B\<newline>'' w;
          (y, w) = t_malloc 16 w;
          w = t_write ''C\<newline>'' w;
          w = t_free y w;
          w = t_write ''D\<newline>'' w;
          w = t_free x w;
          w = t_write ''E\<newline>'' w
      in t_exit 0 w)"

definition test_malloc1 :: "test \<Rightarrow> u32 test_result" where
  "test_malloc1 w =
     (let w = t_write ''A\<newline>'' w;
          (x, w) = t_malloc 8 w;
          w = t_write ''B\<newline>'' w;
          w = t_free x w;
          w = t_write ''C\<newline>'' w;
          (y, w) = t_malloc 16 w;
          w = t_write ''D\<newline>'' w;
          w = t_free y w;
          w = t_write ''E\<newline>'' w
      in t_exit 0 w)"

definition test_calloc :: "test \<Rightarrow> u32 test_result" where
  "test_calloc w =
     (let w = t_write ''A\<newline>'' w;
          (x, w) = t_calloc 8 8 w;
          w = t_write ''B\<newline>'' w;
          (y, w) = t_calloc 16 8 w;
          w = t_write ''C\<newline>'' w;
          w = t_cfree y w;
          w = t_write ''D\<newline>'' w;
          w = t_cfree x w;
          w = t_write ''E\<newline>'' w
      in t_exit 0 w)"

definition test_realloc :: "test \<Rightarrow> u32 test_result" where
  "test_realloc w =
     (let w = t_write ''A\<newline>'' w;
          (x, w) = t_realloc 0 8 w;
          w = t_write ''B\<newline>'' w;
          (y, w) = t_realloc x 16 w;
          w = t_write ''C\<newline>'' w;
          w = t_free y w;
          w = t_write ''D\<newline>'' w
      in t_exit 0 w)"

definition test_space_count :: "test \<Rightarrow> u32 test_result" where
  "test_space_count w =
     (let (a0, w) = t_malloc 10 w;
          (a1, w) = t_malloc 10 w;
          (a2, w) = t_malloc 10 w;
          (a3, w) = t_malloc 10 w;
          (a4, w) = t_malloc 10 w;
          (a5, w) = t_malloc 10 w;
          (a6, w) = t_malloc 10 w;
          (a7, w) = t_malloc 10 w;
          (a8, w) = t_malloc 10 w;
          (a9, w) = t_malloc 10 w;
          w = t_free a0 w;
          w = t_free a1 w;
          w = t_free a2 w;
          w = t_free a3 w;
          w = t_free a4 w;
          w = t_free a5 w;
          w = t_free a6 w;
          w = t_free a7 w;
          w = t_free a8 w;
          w = t_free a9 w;
          (big, w) = t_malloc 1000 w;
          w = t_free big w
      in t_exit 0 w)"

text \<open>A global variable named malloc, and no calls.\<close>

definition test_not_func :: "test \<Rightarrow> u32 test_result" where
  "test_not_func w = t_exit 0 w"

section \<open>Programs with errors\<close>

definition test_ffm :: "test \<Rightarrow> u32 test_result" where
  "test_ffm w =
     (let w = t_write ''A\<newline>'' w;
          (x, w) = t_malloc 8 w;
          w = t_write ''B\<newline>'' w;
          w = t_free x w;
          w = t_write ''C\<newline>'' w;
          w = t_free x w
      in t_exit 0 w)"

definition test_fum_free :: "test \<Rightarrow> u32 test_result" where
  "test_fum_free w =
     (let x = 0x10;
          w = t_write ''A\<newline>'' w;
          w = t_free x w;
          w = t_write ''B\<newline>'' w;
          (y, w) = t_malloc 8 w;
          w = t_write ''C\<newline>'' w;
          w = t_free y w
      in t_exit 0 w)"

definition foo :: "test \<Rightarrow> test" where
  "foo w = (let x = 0x10 in t_free x w)"

definition test_fum_free_chain :: "test \<Rightarrow> u32 test_result" where
  "test_fum_free_chain w =
     (let w = t_write ''A\<newline>'' w;
          w = foo w;
          w = t_write ''B\<newline>'' w;
          (y, w) = t_malloc 8 w;
          w = t_write ''C\<newline>'' w;
          w = t_free y w
      in t_exit 0 w)"

definition test_fum_realloc :: "test \<Rightarrow> u32 test_result" where
  "test_fum_realloc w =
     (let x = 0x10;
          w = t_write ''A\<newline>'' w;
          (z, w) = t_realloc x 30 w;
          w = t_write ''B\<newline>'' w;
          (y, w) = t_malloc 8 w;
          w = t_write ''C\<newline>'' w;
          w = t_free y w;
          w = t_free z w
      in t_exit 0 w)"

definition test_mlk_malloc :: "test \<Rightarrow> u32 test_result" where
  "test_mlk_malloc w =
     (let w = t_write ''A\<newline>'' w;
          (x, w) = t_malloc 8 w;
          w = t_write ''B\<newline>'' w
      in t_store x 10 (t_exit 0) w)"

definition test_mlk_realloc0 :: "test \<Rightarrow> u32 test_result" where
  "test_mlk_realloc0 w =
     (let w = t_write ''A\<newline>'' w;
          (x, w) = t_realloc 0 8 w;
          w = t_write ''B\<newline>'' w
      in t_store x 10 (t_exit 0) w)"

definition test_mlk_realloc1 :: "test \<Rightarrow> u32 test_result" where
  "test_mlk_realloc1 w =
     (let w = t_write ''A\<newline>'' w;
          (x, w) = t_realloc 0 8 w;
          w = t_write ''B\<newline>'' w;
          (y, w) = t_realloc 0 16 w;
          w = t_write ''C\<newline>'' w
      in t_store y 10 (\<lambda>w.
         let w = t_free x w;
             w = t_write ''D\<newline>'' w
         in t_exit 0 w) w)"

definition test_segv :: "test \<Rightarrow> u32 test_result" where
  "test_segv w =
     (let x = 0;
          w = t_write ''A\<newline>'' w
      in t_store x 0x20 (\<lambda>w. t_exit 0 (t_write ''B\<newline>'' w)) w)"

text \<open>Reading an object after it has been freed.\<close>

definition test_afm_free :: "test \<Rightarrow> u32 test_result" where
  "test_afm_free w =
     (let w = t_write ''A\<newline>'' w;
          (x, w) = t_malloc 4 w;
          w = t_write ''B\<newline>'' w
      in t_store_int x 0xdeadbeef (\<lambda>w.
         let w = t_write ''C\<newline>'' w
         in t_load_int x (\<lambda>y w.
            let w = t_write ''D\<newline>'' w;
                w = t_free x w;
                w = t_write ''E\<newline>'' w
            in t_load_int x (\<lambda>z w.
               let w = t_write ''F\<newline>'' w;
                   w = (if y = z then t_write ''G\<newline>'' w else t_write ''H\<newline>'' w)
               in t_exit 0 w) w) w) w)"

text \<open>Writing behind an object.\<close>

definition wum_stores :: "u32 \<Rightarrow> (test \<Rightarrow> u32 test_result) \<Rightarrow> test \<Rightarrow> u32 test_result" where
  "wum_stores x k =
     t_store (x + 0) 0x41 (t_store (x + 1) 0x42 (t_store (x + 10) 0x57 (t_store (x + 11) 0x58 (t_store (x + 12) 0x59 (t_store (x + 13) 0x5A k)))))"

definition test_wum_malloc :: "test \<Rightarrow> u32 test_result" where
  "test_wum_malloc w =
     (let (x, w) = t_malloc 10 w;
          w = t_write ''A\<newline>'' w
      in wum_stores x (\<lambda>w.
         let w = t_write ''B\<newline>'' w;
             w = t_free x w;
             w = t_write ''C\<newline>'' w
         in t_exit 0 w) w)"

definition test_wum_calloc :: "test \<Rightarrow> u32 test_result" where
  "test_wum_calloc w =
     (let (x, w) = t_calloc 10 1 w;
          w = t_write ''A\<newline>'' w
      in wum_stores x (\<lambda>w.
         let w = t_write ''B\<newline>'' w;
             w = t_free x w;
             w = t_write ''C\<newline>'' w
         in t_exit 0 w) w)"


section \<open>A program with its own allocator\<close>

text \<open>\<open>buf\<close> is the address of the buffer, \<open>p\<close> the static variable. MUT sees the calls that \<open>main\<close> makes, as the breakpoints are out while one runs.\<close>

definition incest_malloc :: "u32 \<Rightarrow> u32 \<Rightarrow> u32 \<Rightarrow> u32 \<times> u32" where
  "incest_malloc buf nbytes p = (if nbytes < buf + 4096 - p then (p, p + nbytes) else (0, p))"

definition incest_free :: "u32 \<Rightarrow> u32 \<Rightarrow> u32" where
  "incest_free addr p = p"

definition incest_realloc :: "u32 \<Rightarrow> u32 \<Rightarrow> u32 \<Rightarrow> u32 \<Rightarrow> u32 \<times> u32" where
  "incest_realloc buf addr nbytes p =
     (if addr = 0 then incest_malloc buf nbytes p
      else if nbytes = 0 then (0, incest_free addr p)
      else (0, p))"

definition test_incest :: "u32 \<Rightarrow> test \<Rightarrow> u32 test_result" where
  "test_incest buf w =
     (let p = buf;
          w = t_write ''A\<newline>'' w;
          (x, p) = incest_realloc buf 0 8 p;
          w = t_made (Realloc 0 8 x) w;
          w = t_write ''B\<newline>'' w;
          p = incest_free x p;
          w = t_free x w;
          w = t_write ''C\<newline>'' w
      in t_exit 0 w)"

section \<open>Loops\<close>

text \<open>The loops that count up to 5000, by the number of rounds that are left.\<close>

fun callocn_loop :: "nat \<Rightarrow> test \<Rightarrow> u32 test_result" where
  "callocn_loop 0 w = t_exit 0 w"
| "callocn_loop (Suc i) w =
     (let (x, w) = t_calloc 16 65536 w
      in if x = 0 then t_exit 0 (t_write ''X\<newline>'' w) else callocn_loop i (t_free x w))"

definition test_callocn :: "test \<Rightarrow> u32 test_result" where
  "test_callocn w = callocn_loop 5000 w"

fun count64_loop :: "nat \<Rightarrow> test \<Rightarrow> u32 test_result" where
  "count64_loop 0 w = t_exit 0 w"
| "count64_loop (Suc i) w =
     (let (x, w) = t_malloc 1048576 w
      in if x = 0 then t_exit 0 (t_write ''X\<newline>'' w) else count64_loop i (t_free x w))"

definition test_count64 :: "test \<Rightarrow> u32 test_result" where
  "test_count64 w = count64_loop 5000 w"

text \<open>The endless ones, which end when there is no memory.\<close>

partial_function (option) test_mallocn :: "test \<Rightarrow> u32 test_result" where
  "test_mallocn w =
     (let (x, w) = t_malloc 1048576 w
      in if x = 0 then t_exit 0 (t_write ''X\<newline>'' w) else test_mallocn (t_free x w))"

definition t_memset :: "u32 \<Rightarrow> u8 \<Rightarrow> u32 \<Rightarrow> test \<Rightarrow> test option" where
  "t_memset a b n w =
     (if list_all (\<lambda>i. t_mem w (a + of_nat i) \<noteq> None) [0..<unat n]
      then Some (w\<lparr>t_mem := (\<lambda>x. if in_block a n x then Some b else t_mem w x)\<rparr>) else None)"

partial_function (option) test_callocv :: "test \<Rightarrow> u32 test_result" where
  "test_callocv w =
     (let (x, w) = t_calloc 2 1048576 w
      in if x = 0 then t_exit 1 (t_write ''X\<newline>'' w)
         else case t_memset x 0xff 2097152 w of None \<Rightarrow> Some (None, w) | Some w \<Rightarrow> test_callocv w)"

partial_function (option) reallocn_loop :: "u32 \<Rightarrow> test \<Rightarrow> u32 test_result" where
  "reallocn_loop x w =
     (let (y, w) = t_realloc x 524288 w
      in if y = 0 then t_exit 0 (t_free x (t_write ''X\<newline>'' w))
         else let (x, w) = t_realloc y 524288 w
              in if x = 0 then t_exit 0 (t_free y (t_write ''Y\<newline>'' w)) else reallocn_loop x w)"

definition test_reallocn :: "test \<Rightarrow> u32 test_result" where
  "test_reallocn w = reallocn_loop 0 w"

section \<open>The log of MUT\<close>

definition exit_word :: "u32 option \<Rightarrow> u32" where
  "exit_word r = (case r of Some s \<Rightarrow> push_bit 8 (s AND 255) | None \<Rightarrow> 11)"

definition mut_log_text :: "bool \<Rightarrow> string \<Rightarrow> u32 option \<times> test \<Rightarrow> string" where
  "mut_log_text tr pn r = (case r of (x, w) \<Rightarrow> reports tr pn action_title [] (t_calls w) @ exit_report pn (exit_word x) @
     leak_report pn action_title (fold track (t_calls w) []))"

text \<open>The program ends, with this output, and this is the log of MUT for it, with -t or without.\<close>

definition conforms :: "bool \<Rightarrow> (test \<Rightarrow> u32 test_result) \<Rightarrow> test \<Rightarrow> string \<Rightarrow> string \<Rightarrow> bool" where
  "conforms tr p w out log \<longleftrightarrow> (case p w of None \<Rightarrow> False | Some r \<Rightarrow> t_out (snd r) = out \<and> mut_log_text tr ''mut'' r = log)"

definition fresh_test :: "bytes \<Rightarrow> (nat \<Rightarrow> u32) \<Rightarrow> test" where
  "fresh_test m f = \<lparr>t_mem = m, t_calls = [], t_out = [], t_answer = f\<rparr>"

lemmas t_defs = Let_def t_write_def t_made_def t_malloc_def t_calloc_def t_realloc_def t_free_def t_cfree_def t_exit_def

lemma exit_reports:
  "exit_report ''mut'' (exit_word (Some 0)) = ''mut info process.exited 0\<newline>''"
  "exit_report ''mut'' (exit_word None) = ''mut info process.signaled 11\<newline>''"
  by (simp_all add: exit_report_def exit_word_def WIFEXITED_def WTERMSIG_def WEXITSTATUS_def fmt_d_def log_line_def
      dec_string.simps digit_char_def char_of_def bit_simps)

lemmas test_defs = t_defs conforms_def trace_line_def fresh_test_def mut_log_text_def exit_reports new_object_def consumed_def object_at_def
  leak_report_def log_line_def

text \<open>The addresses returned for the first calls are different.\<close>

definition fresh_answers :: "(nat \<Rightarrow> u32) \<Rightarrow> bool" where
  "fresh_answers f \<longleftrightarrow> distinct (0 # map f [0..<24])"

lemma fresh_answers_less: "fresh_answers f \<Longrightarrow> k < 24 \<Longrightarrow> f k \<noteq> 0"
  by (force simp: fresh_answers_def)

lemma fresh_answers_distinct: "fresh_answers f \<Longrightarrow> j < 24 \<Longrightarrow> k < 24 \<Longrightarrow> f j = f k \<longleftrightarrow> j = k"
  by (auto simp: fresh_answers_def distinct_map inj_on_def)

lemmas fresh_simps = fresh_answers_less fresh_answers_distinct

lemma conforms_legal:
  assumes "fresh_answers f"
  shows "conforms False test_malloc0 (fresh_test m f) ''A\<newline>B\<newline>C\<newline>D\<newline>E\<newline>'' ''mut info process.exited 0\<newline>''"
    and "conforms False test_malloc1 (fresh_test m f) ''A\<newline>B\<newline>C\<newline>D\<newline>E\<newline>'' ''mut info process.exited 0\<newline>''"
    and "conforms False test_calloc (fresh_test m f) ''A\<newline>B\<newline>C\<newline>D\<newline>E\<newline>'' ''mut info process.exited 0\<newline>''"
    and "conforms False test_realloc (fresh_test m f) ''A\<newline>B\<newline>C\<newline>D\<newline>'' ''mut info process.exited 0\<newline>''"
    and "conforms False test_not_func (fresh_test m f) [] ''mut info process.exited 0\<newline>''"
    and "conforms False test_space_count (fresh_test m f) [] ''mut info process.exited 0\<newline>''"
  using assms by (simp_all add: fresh_simps test_defs test_malloc0_def test_malloc1_def test_calloc_def test_realloc_def test_not_func_def
      test_space_count_def)

lemma conforms_errors:
  assumes "fresh_answers f"
  shows "conforms False test_ffm (fresh_test m f) ''A\<newline>B\<newline>C\<newline>'' (''mut error FFM free '' @ fmt_X (f 0) @ '' free\<newline>mut info process.exited 0\<newline>'')"
    and "conforms False test_fum_free (fresh_test m f) ''A\<newline>B\<newline>C\<newline>'' ''mut error FUM free 10\<newline>mut info process.exited 0\<newline>''"
    and "conforms False test_fum_free_chain (fresh_test m f) ''A\<newline>B\<newline>C\<newline>'' ''mut error FUM free 10\<newline>mut info process.exited 0\<newline>''"
    and "conforms False test_fum_realloc (fresh_test m f) ''A\<newline>B\<newline>C\<newline>'' ''mut error FUM realloc 10\<newline>mut info process.exited 0\<newline>''"
  using assms by (simp_all add: fresh_simps test_defs foo_def test_ffm_def test_fum_free_def test_fum_free_chain_def test_fum_realloc_def
      fmt_X_def hex_string.simps digit_char_def char_of_def bit_simps)


text \<open>The programs that access memory: an object does not lie at the end of the address space, and every address but 0 exists.\<close>

definition usual_memory :: "bytes \<Rightarrow> (nat \<Rightarrow> u32) \<Rightarrow> bool" where
  "usual_memory m f \<longleftrightarrow> (\<forall>x. m x = None \<longleftrightarrow> x = 0) \<and> (\<forall>k. unat (f k) + 16 < 2 ^ 32)"

lemma usual_mapped:
  assumes "usual_memory m f" and "f k \<noteq> 0" and "i < 16"
  shows "m (f k + i) \<noteq> None"
proof -
  have "unat (f k) + 16 < 2 ^ 32" using assms(1) by (simp add: usual_memory_def)
  moreover have "unat i < 16" using assms(3) by (simp add: word_less_nat_alt)
  ultimately have "unat (f k + i) = unat (f k) + unat i" by (simp add: unat_word_ariths)
  moreover have "unat (f k) \<noteq> 0" using assms(2) by (simp add: unat_eq_0)
  ultimately have "unat (f k + i) \<noteq> 0" by linarith
  then have "f k + i \<noteq> 0" by (metis unat_0)
  then show ?thesis using assms(1) by (simp add: usual_memory_def)
qed

lemma usual_mapped_0: "usual_memory m f \<Longrightarrow> f k \<noteq> 0 \<Longrightarrow> m (f k) \<noteq> None"
  by (simp add: usual_memory_def)

lemma read_put_word_usual:
  assumes "usual_memory m f" and "f k \<noteq> 0"
  shows "write_word (f k) x m = Some (put_word (f k) x m)" and "read_word (put_word (f k) x m) (f k) = Some x"
proof -
  have "read_word m (f k) \<noteq> None" using usual_mapped [OF assms, of 1] usual_mapped [OF assms, of 2] usual_mapped [OF assms, of 3] usual_mapped_0 [OF assms]
    by (auto simp: read_word_def)
  then show "write_word (f k) x m = Some (put_word (f k) x m)" "read_word (put_word (f k) x m) (f k) = Some x"
    by (simp_all add: write_word_def put_word_same)
qed

lemma numerals: "fmt_u 0 = ''0''" "fmt_u 8 = ''8''" "fmt_u 16 = ''16''" "fmt_u 64 = ''64''" "fmt_u 128 = ''128''" "fmt_u 10 = ''10''"
  "fmt_u 1000 = ''1000''" "fmt_X 0 = ''0''"
  by (simp_all add: fmt_u_def fmt_X_def dec_string.simps hex_string.simps digit_char_def char_of_def bit_simps)

lemma conforms_memory:
  assumes "fresh_answers f" and "usual_memory m f"
  shows "conforms False test_mlk_malloc (fresh_test m f) ''A\<newline>B\<newline>''
      (''mut info process.exited 0\<newline>mut error MLK malloc 8 '' @ fmt_X (f 0) @ ''\<newline>'')"
    and "conforms False test_mlk_realloc0 (fresh_test m f) ''A\<newline>B\<newline>''
      (''mut info process.exited 0\<newline>mut error MLK realloc 8 '' @ fmt_X (f 0) @ ''\<newline>'')"
    and "conforms False test_mlk_realloc1 (fresh_test m f) ''A\<newline>B\<newline>C\<newline>D\<newline>''
      (''mut info process.exited 0\<newline>mut error MLK realloc 16 '' @ fmt_X (f 1) @ ''\<newline>'')"
    and "conforms False test_segv (fresh_test m f) ''A\<newline>'' ''mut info process.signaled 11\<newline>''"
    and "conforms False test_afm_free (fresh_test m f) ''A\<newline>B\<newline>C\<newline>D\<newline>E\<newline>F\<newline>G\<newline>'' ''mut info process.exited 0\<newline>''"
    and "conforms False test_wum_malloc (fresh_test m f) ''A\<newline>B\<newline>C\<newline>'' ''mut info process.exited 0\<newline>''"
    and "conforms False test_wum_calloc (fresh_test m f) ''A\<newline>B\<newline>C\<newline>'' ''mut info process.exited 0\<newline>''"
proof -
  have m: "m 0 = None" using assms(2) by (simp add: usual_memory_def)
  note mapped = usual_mapped [OF assms(2)] usual_mapped_0 [OF assms(2)] read_put_word_usual [OF assms(2)]
  show "conforms False test_mlk_malloc (fresh_test m f) ''A\<newline>B\<newline>''
      (''mut info process.exited 0\<newline>mut error MLK malloc 8 '' @ fmt_X (f 0) @ ''\<newline>'')"
    using assms(1) by (simp add: test_mlk_malloc_def test_defs t_store_def fresh_simps mapped numerals)
  show "conforms False test_mlk_realloc0 (fresh_test m f) ''A\<newline>B\<newline>''
      (''mut info process.exited 0\<newline>mut error MLK realloc 8 '' @ fmt_X (f 0) @ ''\<newline>'')"
    using assms(1) by (simp add: test_mlk_realloc0_def test_defs t_store_def fresh_simps mapped numerals)
  show "conforms False test_mlk_realloc1 (fresh_test m f) ''A\<newline>B\<newline>C\<newline>D\<newline>''
      (''mut info process.exited 0\<newline>mut error MLK realloc 16 '' @ fmt_X (f 1) @ ''\<newline>'')"
    using assms(1) by (simp add: test_mlk_realloc1_def test_defs t_store_def fresh_simps mapped numerals)
  show "conforms False test_segv (fresh_test m f) ''A\<newline>'' ''mut info process.signaled 11\<newline>''"
    by (simp add: test_segv_def test_defs t_store_def m)
  show "conforms False test_afm_free (fresh_test m f) ''A\<newline>B\<newline>C\<newline>D\<newline>E\<newline>F\<newline>G\<newline>'' ''mut info process.exited 0\<newline>''"
    using assms(1) by (simp add: test_afm_free_def test_defs t_store_int_def t_load_int_def fresh_simps mapped)
  show "conforms False test_wum_malloc (fresh_test m f) ''A\<newline>B\<newline>C\<newline>'' ''mut info process.exited 0\<newline>''"
    using assms(1) by (simp add: test_wum_malloc_def wum_stores_def test_defs t_store_def fresh_simps mapped)
  show "conforms False test_wum_calloc (fresh_test m f) ''A\<newline>B\<newline>C\<newline>'' ''mut info process.exited 0\<newline>''"
    using assms(1) by (simp add: test_wum_calloc_def wum_stores_def test_defs t_store_def in_block_def fresh_simps mapped)
qed

lemma conforms_incest:
  "0 < buf \<Longrightarrow> buf \<le> - 4096 \<Longrightarrow> conforms False (test_incest buf) (fresh_test m f) ''A\<newline>B\<newline>C\<newline>'' ''mut info process.exited 0\<newline>''"
  by (simp add: test_incest_def incest_realloc_def incest_malloc_def incest_free_def test_defs)

text \<open>
  The loops without an end: different answers cannot all be different from 0.
\<close>

definition never_again :: "(nat \<Rightarrow> u32) \<Rightarrow> bool" where
  "never_again f \<longleftrightarrow> (\<forall>j k. f j = f k \<longrightarrow> f j \<noteq> 0 \<longrightarrow> j = k)"

lemma never_again_ends:
  assumes "never_again f" and "0 < c"
  shows "\<exists>k. f (n + c * k) = 0"
proof (rule ccontr)
  assume "\<nexists>k. f (n + c * k) = 0"
  then have "inj (\<lambda>k. f (n + c * k))" using assms by (intro injI) (metis add_left_cancel never_again_def mult_cancel1 not_gr0)
  then have "finite (UNIV :: nat set)" by (rule finite_imageD [rotated]) simp
  then show False by simp
qed

lemma mallocn_ends:
  "t_answer w (length (t_calls w) + 2 * k) = 0 \<Longrightarrow>
   \<exists>v. test_mallocn w = Some (Some 0, v) \<and> t_out v = t_out w @ ''X\<newline>''"
proof (induction k arbitrary: w)
  case 0
  then show ?case by (simp add: test_mallocn.simps [of w] t_defs)
next
  case (Suc k)
  let ?a = "t_answer w (length (t_calls w))"
  show ?case
  proof (cases "?a = 0")
    case True
    then show ?thesis by (simp add: test_mallocn.simps [of w] t_defs)
  next
    case False
    let ?w = "w\<lparr>t_calls := t_calls w @ [Malloc 1048576 ?a, Consume Act_free ?a]\<rparr>"
    have "t_answer ?w (length (t_calls ?w) + 2 * k) = 0" using Suc.prems by simp
    from Suc.IH [OF this] False show ?thesis by (simp add: test_mallocn.simps [of w] t_defs)
  qed
qed

lemma reallocn_ends:
  "t_answer w (length (t_calls w) + k) = 0 \<Longrightarrow> \<exists>v l. reallocn_loop x w = Some (Some 0, v) \<and> l \<in> {''X'', ''Y''} \<and> t_out v = t_out w @ l @ ''\<newline>''"
proof (induction k arbitrary: x w rule: less_induct)
  case (less k)
  obtain y u where y: "t_realloc x 524288 w = (y, u)" "y = t_answer w (length (t_calls w))" "t_out u = t_out w"
    "length (t_calls u) = length (t_calls w) + 1" "t_answer u = t_answer w"
    by (simp add: t_realloc_def t_made_def Let_def)
  obtain z v where z: "t_realloc y 524288 u = (z, v)" "z = t_answer w (length (t_calls w) + 1)" "t_out v = t_out w"
    "length (t_calls v) = length (t_calls w) + 2" "t_answer v = t_answer w"
    using y by (simp add: t_realloc_def t_made_def Let_def)
  have unf: "reallocn_loop x w = (if y = 0 then t_exit 0 (t_free x (t_write ''X\<newline>'' u))
     else if z = 0 then t_exit 0 (t_free y (t_write ''Y\<newline>'' v)) else reallocn_loop z v)"
    by (simp add: reallocn_loop.simps [of x w] y(1) z(1))
  show ?case
  proof (cases "y = 0 \<or> z = 0")
    case True
    then show ?thesis using y(3) z(3) by (auto simp: unf t_exit_def t_free_def t_made_def t_write_def)
  next
    case False
    then have "2 \<le> k" using less.prems y(2) z(2) by (cases k; cases "k - 1") auto
    then obtain j where k: "k = 2 + j" using le_Suc_ex by blast
    then have "t_answer v (length (t_calls v) + j) = 0" using less.prems z(4,5) by simp
    from less.IH [OF _ this, of z] k False show ?thesis by (simp add: unf z(3))
  qed
qed

lemma memset_mapped:
  assumes "\<And>x. t_mem w x \<noteq> None"
  shows "t_memset a b n w = Some (w\<lparr>t_mem := (\<lambda>x. if in_block a n x then Some b else t_mem w x)\<rparr>)"
  using assms by (simp add: t_memset_def list_all_iff)

lemma callocv_ends:
  "t_answer w (length (t_calls w) + k) = 0 \<Longrightarrow> \<forall>x. t_mem w x \<noteq> None \<Longrightarrow>
   \<exists>v. test_callocv w = Some (Some 1, v) \<and> t_out v = t_out w @ ''X\<newline>''"
proof (induction k arbitrary: w)
  case 0
  then show ?case by (simp add: test_callocv.simps [of w] t_defs)
next
  case (Suc k)
  let ?a = "t_answer w (length (t_calls w))"
  show ?case
  proof (cases "?a = 0")
    case True
    then show ?thesis by (simp add: test_callocv.simps [of w] t_defs)
  next
    case False
    obtain u where u: "t_calloc 2 1048576 w = (?a, u)" "t_out u = t_out w" "length (t_calls u) = length (t_calls w) + 1"
      "t_answer u = t_answer w" "\<forall>x. t_mem u x \<noteq> None"
      using Suc.prems(2) by (simp add: t_calloc_def t_made_def Let_def)
    let ?v = "u\<lparr>t_mem := (\<lambda>x. if in_block ?a 2097152 x then Some 0xff else t_mem u x)\<rparr>"
    have "t_memset ?a 0xff 2097152 u = Some ?v" using memset_mapped [of u] u(5) by simp
    then have "test_callocv w = test_callocv ?v" using False by (simp add: test_callocv.simps [of w] u(1))
    moreover have "t_answer ?v (length (t_calls ?v) + k) = 0" "\<forall>x. t_mem ?v x \<noteq> None" using Suc.prems(1) u by simp_all
    ultimately show ?thesis using Suc.IH [of ?v] u(2) by simp
  qed
qed

text \<open>The counting loops.\<close>

lemma count64_ends: "\<exists>v. count64_loop i w = Some (Some 0, v)"
  by (induction i arbitrary: w) (simp_all add: t_exit_def Let_def split: prod.split)

lemma callocn_ends: "\<exists>v. callocn_loop i w = Some (Some 0, v)"
  by (induction i arbitrary: w) (simp_all add: t_exit_def Let_def split: prod.split)

lemmas trace_defs = test_defs numerals

definition traced :: "string \<Rightarrow> string list \<Rightarrow> string" where
  "traced call args = ''mut info trace '' @ call @ concat (map (\<lambda>x. '' '' @ x) args) @ ''\<newline>''"

text \<open>The lines of -t have the size and the address in hexadecimal, a \<open>realloc\<close> of nothing an old address and size 0.\<close>

definition traced_results :: "u32 \<Rightarrow> (nat \<Rightarrow> u32) \<Rightarrow> (bool \<times> (test \<Rightarrow> u32 test_result) \<times> string \<times> string) list" where
  "traced_results buf f =
     [(True, test_malloc0, ''A\<newline>B\<newline>C\<newline>D\<newline>E\<newline>'',
        traced ''malloc'' [''8'', fmt_X (f 0)] @ traced ''malloc'' [''16'', fmt_X (f 1)] @ traced ''free'' [fmt_X (f 1), ''16''] @
        traced ''free'' [fmt_X (f 0), ''8''] @ ''mut info process.exited 0\<newline>''),
      (True, test_malloc1, ''A\<newline>B\<newline>C\<newline>D\<newline>E\<newline>'',
        traced ''malloc'' [''8'', fmt_X (f 0)] @ traced ''free'' [fmt_X (f 0), ''8''] @ traced ''malloc'' [''16'', fmt_X (f 2)] @
        traced ''free'' [fmt_X (f 2), ''16''] @ ''mut info process.exited 0\<newline>''),
      (True, test_calloc, ''A\<newline>B\<newline>C\<newline>D\<newline>E\<newline>'',
        traced ''calloc'' [''8'', ''8'', fmt_X (f 0)] @ traced ''calloc'' [''16'', ''8'', fmt_X (f 1)] @ traced ''cfree'' [fmt_X (f 1), ''128''] @
        traced ''cfree'' [fmt_X (f 0), ''64''] @ ''mut info process.exited 0\<newline>''),
      (True, test_realloc, ''A\<newline>B\<newline>C\<newline>D\<newline>'',
        traced ''realloc'' [''0'', ''0'', ''8'', fmt_X (f 0)] @ traced ''realloc'' [fmt_X (f 0), ''8'', ''16'', fmt_X (f 1)] @
        traced ''free'' [fmt_X (f 1), ''16''] @ ''mut info process.exited 0\<newline>''),
      (True, test_space_count, [],
        concat (map (\<lambda>i. traced ''malloc'' [''10'', fmt_X (f i)]) [0..<10]) @ concat (map (\<lambda>i. traced ''free'' [fmt_X (f i), ''10'']) [0..<10]) @
        traced ''malloc'' [''1000'', fmt_X (f 20)] @ traced ''free'' [fmt_X (f 20), ''1000''] @ ''mut info process.exited 0\<newline>''),
      (True, test_mlk_malloc, ''A\<newline>B\<newline>'', traced ''malloc'' [''8'', fmt_X (f 0)] @
        ''mut info process.exited 0\<newline>mut error MLK malloc 8 '' @ fmt_X (f 0) @ ''\<newline>''),
      (True, test_mlk_realloc0, ''A\<newline>B\<newline>'', traced ''realloc'' [''0'', ''0'', ''8'', fmt_X (f 0)] @
        ''mut info process.exited 0\<newline>mut error MLK realloc 8 '' @ fmt_X (f 0) @ ''\<newline>''),
      (True, test_mlk_realloc1, ''A\<newline>B\<newline>C\<newline>D\<newline>'', traced ''realloc'' [''0'', ''0'', ''8'', fmt_X (f 0)] @
        traced ''realloc'' [''0'', ''0'', ''16'', fmt_X (f 1)] @ traced ''free'' [fmt_X (f 0), ''8''] @
        ''mut info process.exited 0\<newline>mut error MLK realloc 16 '' @ fmt_X (f 1) @ ''\<newline>''),
      (True, test_segv, ''A\<newline>'', ''mut info process.signaled 11\<newline>''),
      (True, test_incest buf, ''A\<newline>B\<newline>C\<newline>'',
        traced ''realloc'' [''0'', ''0'', ''8'', fmt_X buf] @ traced ''free'' [fmt_X buf, ''8''] @ ''mut info process.exited 0\<newline>'')]"

lemma traced_conform:
  assumes "fresh_answers f" and "usual_memory m f" and "0 < buf" and "buf \<le> - 4096"
  shows "\<forall>(tr, p, out, log) \<in> set (traced_results buf f). conforms tr p (fresh_test m f) out log"
proof -
  have m: "m 0 = None" using assms(2) by (simp add: usual_memory_def)
  note mapped = m usual_mapped [OF assms(2)] usual_mapped_0 [OF assms(2)] read_put_word_usual [OF assms(2)]
  note programs = test_malloc0_def test_malloc1_def test_calloc_def test_realloc_def test_space_count_def test_mlk_malloc_def
    test_mlk_realloc0_def test_mlk_realloc1_def test_segv_def test_incest_def incest_realloc_def incest_malloc_def incest_free_def
  show ?thesis
    using assms by (simp add: traced_results_def traced_def programs trace_defs t_store_def fresh_simps mapped numeral_2_eq_2 [symmetric] upt_rec)
qed

text \<open>The results that the repository keeps in src/tests/gen/results.x86/correct for runs without options and with -t alone: whether it is traced, the program, its output, and the log of MUT.\<close>

definition recorded_results :: "u32 \<Rightarrow> (nat \<Rightarrow> u32) \<Rightarrow> (bool \<times> (test \<Rightarrow> u32 test_result) \<times> string \<times> string) list" where
  "recorded_results buf f =
     [(False, test_afm_free, ''A\<newline>B\<newline>C\<newline>D\<newline>E\<newline>F\<newline>G\<newline>'', ''mut info process.exited 0\<newline>''),
      (False, test_calloc, ''A\<newline>B\<newline>C\<newline>D\<newline>E\<newline>'', ''mut info process.exited 0\<newline>''),
      (False, test_ffm, ''A\<newline>B\<newline>C\<newline>'', ''mut error FFM free '' @ fmt_X (f 0) @ '' free\<newline>mut info process.exited 0\<newline>''),
      (False, test_fum_free, ''A\<newline>B\<newline>C\<newline>'', ''mut error FUM free 10\<newline>mut info process.exited 0\<newline>''),
      (False, test_fum_free_chain, ''A\<newline>B\<newline>C\<newline>'', ''mut error FUM free 10\<newline>mut info process.exited 0\<newline>''),
      (False, test_fum_realloc, ''A\<newline>B\<newline>C\<newline>'', ''mut error FUM realloc 10\<newline>mut info process.exited 0\<newline>''),
      (False, test_incest buf, ''A\<newline>B\<newline>C\<newline>'', ''mut info process.exited 0\<newline>''),
      (False, test_malloc0, ''A\<newline>B\<newline>C\<newline>D\<newline>E\<newline>'', ''mut info process.exited 0\<newline>''),
      (False, test_malloc1, ''A\<newline>B\<newline>C\<newline>D\<newline>E\<newline>'', ''mut info process.exited 0\<newline>''),
      (False, test_mlk_malloc, ''A\<newline>B\<newline>'', ''mut info process.exited 0\<newline>mut error MLK malloc 8 '' @ fmt_X (f 0) @ ''\<newline>''),
      (False, test_mlk_realloc0, ''A\<newline>B\<newline>'', ''mut info process.exited 0\<newline>mut error MLK realloc 8 '' @ fmt_X (f 0) @ ''\<newline>''),
      (False, test_mlk_realloc1, ''A\<newline>B\<newline>C\<newline>D\<newline>'', ''mut info process.exited 0\<newline>mut error MLK realloc 16 '' @ fmt_X (f 1) @ ''\<newline>''),
      (False, test_realloc, ''A\<newline>B\<newline>C\<newline>D\<newline>'', ''mut info process.exited 0\<newline>''),
      (False, test_segv, ''A\<newline>'', ''mut info process.signaled 11\<newline>''),
      (False, test_space_count, [], ''mut info process.exited 0\<newline>'')] @ traced_results buf f"

lemma recorded_conform:
  assumes "fresh_answers f" and "usual_memory m f" and "0 < buf" and "buf \<le> - 4096"
  shows "\<forall>(tr, p, out, log) \<in> set (recorded_results buf f). conforms tr p (fresh_test m f) out log"
  using conforms_legal [OF assms(1)] conforms_errors [OF assms(1)] conforms_memory [OF assms(1,2)] conforms_incest [OF assms(3,4)]
    traced_conform [OF assms]
  by (simp add: recorded_results_def ball_Un)

text \<open>
  MUT is run without options, or with -t, on a target that makes these calls and ends with this status: the machine has nothing allocated, the executable can be opened,
  which leads to the state \<open>t\<close>, the log can be written to and there is memory for two blocks a call.
\<close>

definition run_under_mut ::
  "bool \<Rightarrow> (string \<Rightarrow> source) \<Rightarrow> string list \<Rightarrow> ('p, 'a) mut_world_scheme \<Rightarrow> ('p, 'a) mut_world_scheme \<Rightarrow> call list \<Rightarrow> u32 \<Rightarrow> bool" where
  "run_under_mut tr files argv w t cs s \<longleftrightarrow>
     malloc_fresh w \<and> c_heap w = Map.empty \<and> bts w = Map.empty \<and>
     (\<exists>info. main_opened files argv w = Some (info, t) \<and> i_flags info = (if tr then mut_control_trace else 0) \<and> i_usage_function info = None) \<and>
     clean t \<and> log_idle t \<and> writes_ok t \<and> mem_report (store t) = None \<and> room (2 * length cs) t \<and>
     target (os t) (\<lambda>a. a_addr (actions t a)) (a_root t) (saved t) [] (p_pc (process t)) (child t) cs s"

lemma main_log_of_test:
  assumes "run_under_mut tr files argv w t (t_calls (snd r)) (exit_word (fst r))"
  shows "\<exists>v. main files argv w = Some (EXIT_SUCCESS, v) \<and>
    c_out v (sink (the_log t)) = log_text t @ mut_log_text tr (program_name (the_log t)) r"
proof -
  from assms obtain info where "main_opened files argv w = Some (info, t)" "i_flags info = (if tr then mut_control_trace else 0)" "i_usage_function info = None"
    by (auto simp: run_under_mut_def)
  with assms main_tracks [of w files argv info t "t_calls (snd r)" "exit_word (fst r)"] show ?thesis
    by (cases tr) (auto simp: run_under_mut_def mut_log_text_def mut_control_trace_def split: prod.split)
qed

section \<open>Properties\<close>


text \<open>Answers like those of an allocator.\<close>

definition sample_answers :: "nat \<Rightarrow> u32" where
  "sample_answers k = of_nat (if k < 24 then 0x80 + 16 * k else 0x80)"

lemma sample_answers_ok: "fresh_answers sample_answers" "usual_memory (\<lambda>x. if x = 0 then None else Some 0) sample_answers"
proof -
  have "unat (sample_answers k) + 16 < 2 ^ 32" for k
    by (simp add: sample_answers_def unsigned_of_nat take_bit_eq_mod)
  then show "usual_memory (\<lambda>x. if x = 0 then None else Some 0) sample_answers" by (simp add: usual_memory_def)
  have u: "unat (sample_answers k) = 0x80 + 16 * k" if "k < 24" for k
  proof -
    have "unat (of_nat n :: u32) = n" if "n < 2 ^ 32" for n
      using that by (simp add: unsigned_of_nat take_bit_eq_mod)
    moreover have "0x80 + 16 * k < 2 ^ 32" using that by simp
    ultimately show ?thesis using that by (simp only: sample_answers_def if_True)
  qed
  have "inj_on sample_answers {0..<24}"
  proof (rule inj_onI)
    fix j k :: nat
    assume jk: "j \<in> {0..<24}" "k \<in> {0..<24}" and eq: "sample_answers j = sample_answers k"
    have "0x80 + 16 * j = 0x80 + 16 * k"
      using u [of j] u [of k] jk unfolding eq by (simp only: atLeastLessThan_iff)
    then show "j = k" by simp
  qed
  moreover have "0 \<notin> sample_answers ` {0..<24}"
  proof
    assume "0 \<in> sample_answers ` {0..<24}"
    then obtain k where "k < 24" "sample_answers k = 0" by (metis atLeastLessThan_iff imageE)
    with u [of k] have "unat (0 :: u32) = 0x80 + 16 * k" by (simp only:)
    then show False by simp
  qed
  ultimately show "fresh_answers sample_answers" by (simp only: fresh_answers_def distinct.simps distinct_map set_map set_upt) simp
qed




end
