(* ===== verification/MutAvl.thy ===== *)
theory MutAvl
  imports MutResources
begin

text \<open>
  The other map of resources, src/src/resources/avl/mut_resources.c: a tree that is kept balanced as nodes are added. The
  file is unfinished: it does not compile as it is. It is read as follows. \<open>mut_resource_internal_add\<close>, which is called, is
  the function \<open>mut_resources_internal_add\<close> itself; \<open>mut_exec_addr_lt\<close>, whose second parameter is misspelt, is the order of
  addresses; the call of \<open>mut_resources_create_resource\<close> lacks two arguments, which are a variable for the balance and a null pointer. The
  functions that use members that do not exist, \<open>mut_resources_really_delete_resource\<close> (\<open>next\<close>) and
  \<open>mut_resources_iter_read\<close> (\<open>direction\<close>, declared only in the iterator), have no such reading and are left out.

  A tree is a value whose nodes carry their own addresses. The pointers \<open>parent\<close> are written but never followed, so they are
  data of a node; following a null pointer gives no result.
\<close>

section \<open>State\<close>

record avl_resource =
  av_self :: ptr
  av_parent :: ptr
  av_addr :: u32
  av_size :: "u32 option"
  av_balanced :: int
  av_producer :: "mut_action_id option"
  av_producer_bt :: ptr
  av_consumer :: "mut_action_id option"
  av_consumer_bt :: ptr

datatype avl = Null | Node avl avl_resource avl

record avl_resources =
  av_elems :: avl
  av_really_free :: bool
  av_n_active :: u32
  av_n_consumed :: u32

record avl_world = bt_world +
  tree :: avl_resources

definition sizeof_avl_resource :: u32 where "sizeof_avl_resource = 40"

definition avl_file :: string where "avl_file = ''resources/avl/mut_resources.c''"

section \<open>Adding a node\<close>

text \<open>\<open>t->parent= p\<close>\<close>

fun set_parent :: "ptr \<Rightarrow> avl \<Rightarrow> avl option" where
  "set_parent p Null = None"
| "set_parent p (Node l n r) = Some (Node l (n\<lparr>av_parent := p\<rparr>) r)"

text \<open>The left branch has grown: the new value of \<open>*balanced\<close>, and the tree that \<open>*nn\<close> points to.\<close>

definition grown_left :: "avl \<Rightarrow> avl_resource \<Rightarrow> avl \<Rightarrow> (bool \<times> avl) option" where
  "grown_left l n r =
     (if 0 < av_balanced n then Some (False, Node l (n\<lparr>av_balanced := 0\<rparr>) r)
      else if av_balanced n = 0 then Some (True, Node l (n\<lparr>av_balanced := -1\<rparr>) r)
      else case l of
        Null \<Rightarrow> None
      | Node l1 p1 r1 \<Rightarrow>
          if av_balanced p1 < 0 then do {
            r1 \<leftarrow> set_parent (av_self n) r1;
            Some (False, Node l1 (p1\<lparr>av_parent := av_parent n\<rparr>) (Node r1 (n\<lparr>av_parent := av_parent p1, av_balanced := 0\<rparr>) r))
          }
          else case r1 of
            Null \<Rightarrow> None
          | Node l2 p2 r2 \<Rightarrow> do {
              l2 \<leftarrow> set_parent (av_self p1) l2;
              r2 \<leftarrow> set_parent (av_self n) r2;
              Some (False, Node
                (Node l1 (p1\<lparr>av_parent := av_self p2, av_balanced := (if 0 < av_balanced p2 then -1 else 0)\<rparr>) l2)
                (p2\<lparr>av_parent := av_parent n\<rparr>)
                (Node r2 (n\<lparr>av_balanced := 0\<rparr>) r))
            })"

definition grown_right :: "avl \<Rightarrow> avl_resource \<Rightarrow> avl \<Rightarrow> (bool \<times> avl) option" where
  "grown_right l n r =
     (if av_balanced n < 0 then Some (False, Node l (n\<lparr>av_balanced := 0\<rparr>) r)
      else if av_balanced n = 0 then Some (True, Node l (n\<lparr>av_balanced := 1\<rparr>) r)
      else case r of
        Null \<Rightarrow> None
      | Node l1 p1 r1 \<Rightarrow>
          if 0 < av_balanced p1 then Some (False, Node (Node l (n\<lparr>av_balanced := 0\<rparr>) l1) p1 r1)
          else case l1 of
            Null \<Rightarrow> None
          | Node l2 p2 r2 \<Rightarrow>
              Some (False, Node (Node l (n\<lparr>av_balanced := 0\<rparr>) l2) p2
                (Node r2 (p1\<lparr>av_balanced := (if av_balanced p2 < 0 then 1 else 0)\<rparr>) r1)))"

text \<open>The result is the pointer returned, \<open>*balanced\<close>, and the tree that \<open>*nn\<close> points to.\<close>

fun mut_resources_internal_add ::
  "u32 \<Rightarrow> ptr \<Rightarrow> avl \<Rightarrow> 'a libc_scheme \<Rightarrow> ((ptr \<times> bool \<times> avl) \<times> 'a libc_scheme) option" where
  "mut_resources_internal_add addr parent Null w =
     (let (n, w) = libc_malloc sizeof_avl_resource w
      in if n = 0 then Some ((0, False, Null), w)
         else Some ((n, True, Node Null \<lparr>av_self = n, av_parent = parent, av_addr = addr, av_size = None, av_balanced = 0,
           av_producer = None, av_producer_bt = 0, av_consumer = None, av_consumer_bt = 0\<rparr> Null), w))"
| "mut_resources_internal_add addr parent (Node l n r) w =
     (if addr < av_addr n then do {
        ((q, balanced, l), w) \<leftarrow> mut_resources_internal_add addr (av_self n) l w;
        if q = 0 \<or> \<not> balanced then Some ((q, balanced, Node l n r), w)
        else do { (balanced, t) \<leftarrow> grown_left l n r; Some ((q, balanced, t), w) }
      }
      else if av_addr n < addr then do {
        ((q, balanced, r), w) \<leftarrow> mut_resources_internal_add addr (av_self n) r w;
        if q = 0 \<or> \<not> balanced then Some ((q, balanced, Node l n r), w)
        else do { (balanced, t) \<leftarrow> grown_right l n r; Some ((q, balanced, t), w) }
      }
      else Some ((av_self n, False, Node l n r), w))"

section \<open>The other operations\<close>

fun mut_resources_internal_lookup :: "avl \<Rightarrow> u32 \<Rightarrow> ptr" where
  "mut_resources_internal_lookup Null addr = 0"
| "mut_resources_internal_lookup (Node l n r) addr =
     (if addr < av_addr n then mut_resources_internal_lookup l addr
      else if av_addr n < addr then mut_resources_internal_lookup r addr
      else av_self n)"

fun inorder :: "avl \<Rightarrow> avl_resource list" where
  "inorder Null = []"
| "inorder (Node l n r) = inorder l @ n # inorder r"

text \<open>Reading and writing a node through a pointer to it.\<close>

definition avl_get :: "ptr \<Rightarrow> 'a avl_world_scheme \<Rightarrow> avl_resource option" where
  "avl_get p w = find (\<lambda>n. av_self n = p) (inorder (av_elems (tree w)))"

fun avl_map :: "(avl_resource \<Rightarrow> avl_resource) \<Rightarrow> avl \<Rightarrow> avl" where
  "avl_map g Null = Null"
| "avl_map g (Node l n r) = Node (avl_map g l) (g n) (avl_map g r)"

definition avl_set :: "ptr \<Rightarrow> (avl_resource \<Rightarrow> avl_resource) \<Rightarrow> 'a avl_world_scheme \<Rightarrow> 'a avl_world_scheme option" where
  "avl_set p g w = do {
     n \<leftarrow> avl_get p w;
     Some (w\<lparr>tree := (tree w)\<lparr>av_elems := avl_map (\<lambda>n. if av_self n = p then g n else n) (av_elems (tree w))\<rparr>\<rparr>)
   }"

definition avl_resource_make_producer ::
  "ptr \<Rightarrow> mut_action_id \<Rightarrow> u32 \<Rightarrow> ptr \<Rightarrow> 'a avl_world_scheme \<Rightarrow> 'a avl_world_scheme option" where
  "avl_resource_make_producer obj producer obj_size bt =
     avl_set obj (\<lambda>n. n\<lparr>av_producer := Some producer, av_producer_bt := bt, av_size := Some obj_size\<rparr>)"

definition avl_resources_mark_as_free ::
  "ptr \<Rightarrow> mut_action_id \<Rightarrow> ptr \<Rightarrow> 'a avl_world_scheme \<Rightarrow> 'a avl_world_scheme option" where
  "avl_resources_mark_as_free obj consumer bt w = do {
     ob \<leftarrow> avl_get obj w;
     assert_c (av_consumer ob = None);
     assert_c (0 < av_n_active (tree w));
     w \<leftarrow> avl_set obj (\<lambda>n. n\<lparr>av_consumer := Some consumer\<rparr>) w;
     w \<leftarrow> (if bt \<noteq> 0 then do {
             (b, w) \<leftarrow> mut_backtrace_share bt w;
             avl_set obj (\<lambda>n. n\<lparr>av_consumer_bt := b\<rparr>) w
           } else Some w);
     Some (w\<lparr>tree := (tree w)\<lparr>av_n_active := av_n_active (tree w) - 1, av_n_consumed := av_n_consumed (tree w) + 1\<rparr>\<rparr>)
   }"

definition avl_resources_open :: "bool \<Rightarrow> 'a avl_world_scheme \<Rightarrow> 'a avl_world_scheme" where
  "avl_resources_open rf w = w\<lparr>tree := \<lparr>av_elems = Null, av_really_free = rf, av_n_active = 0, av_n_consumed = 0\<rparr>\<rparr>"

text \<open>The macro \<open>mut_resource_is_new\<close> of a null pointer, when there is no memory, has no result.\<close>

definition avl_resources_create_resource :: "u32 \<Rightarrow> 'a avl_world_scheme \<Rightarrow> (ptr \<times> 'a avl_world_scheme) option" where
  "avl_resources_create_resource addr w = do {
     ((r, balanced, t), w) \<leftarrow> mut_resources_internal_add addr 0 (av_elems (tree w)) w;
     let w = w\<lparr>tree := (tree w)\<lparr>av_elems := t\<rparr>\<rparr>;
     n \<leftarrow> avl_get r w;
     Some (r, if av_producer_bt n = 0 then w\<lparr>tree := (tree w)\<lparr>av_n_active := av_n_active (tree w) + 1\<rparr>\<rparr> else w)
   }"

definition avl_resources_lookup :: "u32 \<Rightarrow> 'a avl_world_scheme \<Rightarrow> ptr" where
  "avl_resources_lookup addr w = mut_resources_internal_lookup (av_elems (tree w)) addr"

definition avl_resources_iter_open :: "bool \<Rightarrow> 'a avl_world_scheme \<Rightarrow> u32 \<times> avl \<times> bool" where
  "avl_resources_iter_open al w =
     (av_n_active (tree w) + (if al then av_n_consumed (tree w) else 0), av_elems (tree w), al)"

fun mut_resources_internal_close :: "avl \<Rightarrow> 'a bt_world_scheme \<Rightarrow> 'a bt_world_scheme option" where
  "mut_resources_internal_close Null w = Some w"
| "mut_resources_internal_close (Node l n r) w = do {
     w \<leftarrow> mut_resources_internal_close l w;
     w \<leftarrow> mut_resources_internal_close r w;
     w \<leftarrow> close_if (av_producer_bt n) w;
     w \<leftarrow> close_if (av_consumer_bt n) w;
     mut_mem__free (av_self n) 276 avl_file w
   }"

definition avl_resources_close :: "'a avl_world_scheme \<Rightarrow> 'a avl_world_scheme option" where
  "avl_resources_close w = mut_resources_internal_close (av_elems (tree w)) w"

section \<open>The tree as a sorted list\<close>

text \<open>The addresses of the objects with those of their nodes; rotations do not change them.\<close>

definition entries :: "avl \<Rightarrow> (u32 \<times> ptr) list" where
  "entries t = map (\<lambda>n. (av_addr n, av_self n)) (inorder t)"

lemma entries_simps [simp]:
  "entries Null = []" "entries (Node l n r) = entries l @ (av_addr n, av_self n) # entries r"
  by (simp_all add: entries_def)

lemma set_parent_entries: "set_parent p t = Some t' \<Longrightarrow> entries t' = entries t"
  by (cases t) auto

lemma grown_entries:
  "grown_left l n r = Some (b, t) \<Longrightarrow> entries t = entries (Node l n r)"
  "grown_right l n r = Some (b, t) \<Longrightarrow> entries t = entries (Node l n r)"
  by (auto simp: grown_left_def grown_right_def set_parent_entries split: if_splits avl.splits bind_splits)

definition ordered :: "avl \<Rightarrow> bool" where
  "ordered t \<longleftrightarrow> sorted_wrt (<) (map fst (entries t)) \<and> 0 \<notin> snd ` set (entries t)"

lemma ordered_Node:
  "ordered (Node l n r) \<longleftrightarrow> ordered l \<and> ordered r \<and> av_self n \<noteq> 0 \<and>
     (\<forall>a \<in> fst ` set (entries l). a < av_addr n) \<and> (\<forall>a \<in> fst ` set (entries r). av_addr n < a)"
  by (fastforce simp: ordered_def sorted_wrt_append)

lemma map_of_out: "a \<notin> fst ` set es \<Longrightarrow> map_of es a = None"
  by (simp add: map_of_eq_None_iff)

lemma lookup_entries:
  "ordered t \<Longrightarrow> mut_resources_internal_lookup t a = (case map_of (entries t) a of None \<Rightarrow> 0 | Some p \<Rightarrow> p)"
proof (induction t)
  case (Node l n r)
  then have "a < av_addr n \<Longrightarrow> map_of (entries r) a = None" "av_addr n < a \<Longrightarrow> map_of (entries l) a = None"
    "a = av_addr n \<Longrightarrow> map_of (entries l) a = None"
    by (fastforce simp: ordered_Node intro!: map_of_out)+
  with Node show ?case by (auto simp: ordered_Node map_add_def split: option.splits)
qed simp

text \<open>An entry is put in at its place.\<close>

definition inserted :: "u32 \<Rightarrow> ptr \<Rightarrow> (u32 \<times> ptr) list \<Rightarrow> (u32 \<times> ptr) list \<Rightarrow> bool" where
  "inserted a p es es' \<longleftrightarrow> (\<exists>xs ys. es = xs @ ys \<and> es' = xs @ (a, p) # ys \<and>
     (\<forall>x \<in> fst ` set xs. x < a) \<and> (\<forall>y \<in> fst ` set ys. a < y))"

lemma inserted_first:
  assumes "inserted a p es es'" and "\<forall>y \<in> fst ` set fs. a < y"
  shows "inserted a p (es @ fs) (es' @ fs)"
proof -
  obtain xs ys where "es = xs @ ys" "es' = xs @ (a, p) # ys" "\<forall>x \<in> fst ` set xs. x < a" "\<forall>y \<in> fst ` set ys. a < y"
    using assms(1) by (auto simp: inserted_def)
  with assms(2) show ?thesis unfolding inserted_def by (intro exI [of _ xs] exI [of _ "ys @ fs"]) auto
qed

lemma inserted_last:
  assumes "inserted a p es es'" and "\<forall>x \<in> fst ` set fs. x < a"
  shows "inserted a p (fs @ es) (fs @ es')"
proof -
  obtain xs ys where "es = xs @ ys" "es' = xs @ (a, p) # ys" "\<forall>x \<in> fst ` set xs. x < a" "\<forall>y \<in> fst ` set ys. a < y"
    using assms(1) by (auto simp: inserted_def)
  with assms(2) show ?thesis unfolding inserted_def by (intro exI [of _ "fs @ xs"] exI [of _ ys]) auto
qed

definition added :: "u32 \<Rightarrow> avl \<Rightarrow> 'a libc_scheme \<Rightarrow> ptr \<Rightarrow> bool \<Rightarrow> avl \<Rightarrow> 'a libc_scheme \<Rightarrow> bool" where
  "added a t w p b t' w' \<longleftrightarrow>
     (case map_of (entries t) a of
        Some q \<Rightarrow> p = q \<and> t' = t \<and> w' = w \<and> \<not> b
      | None \<Rightarrow> libc_malloc sizeof_avl_resource w = (p, w') \<and>
          (if p = 0 then t' = t \<and> \<not> b else inserted a p (entries t) (entries t')))"

lemma added_cases [consumes 1]:
  assumes "added a t w p b t' w'"
  obtains (old) "map_of (entries t) a = Some p" "t' = t" "w' = w" "\<not> b"
    | (full) "map_of (entries t) a = None" "libc_malloc sizeof_avl_resource w = (0, w')" "p = 0" "t' = t" "\<not> b"
    | (new) "map_of (entries t) a = None" "libc_malloc sizeof_avl_resource w = (p, w')" "p \<noteq> 0" "inserted a p (entries t) (entries t')"
  using assms by (auto simp: added_def split: option.splits if_splits)

lemma add_entries:
  "ordered t \<Longrightarrow> mut_resources_internal_add a par t w = Some ((p, b, t'), w') \<Longrightarrow> added a t w p b t' w'"
proof (induction a par t w arbitrary: p b t' w' rule: mut_resources_internal_add.induct)
  case (1 a par w)
  then show ?case by (auto simp: Let_def added_def inserted_def split: prod.splits if_splits)
next
  case (2 a par l n r w)
  have ord: "ordered l" "ordered r" "av_self n \<noteq> 0" "\<forall>x \<in> fst ` set (entries l). x < av_addr n"
    "\<forall>x \<in> fst ` set (entries r). av_addr n < x" using "2.prems"(1) by (simp_all add: ordered_Node)
  consider "a < av_addr n" | "av_addr n < a" | "a = av_addr n" by fastforce
  then show ?case
  proof cases
    case 1
    then obtain b1 l' where l': "mut_resources_internal_add a (av_self n) l w = Some ((p, b1, l'), w')"
      "if p = 0 \<or> \<not> b1 then t' = Node l' n r \<and> b = b1 else entries t' = entries (Node l' n r)"
      using "2.prems"(2) by (auto split: if_splits bind_splits dest!: grown_entries(1))
    have out: "map_of (entries r) a = None" "a \<noteq> av_addr n" using ord(5) 1 by (fastforce intro!: map_of_out, simp)
    have up: "\<forall>y \<in> fst ` set ((av_addr n, av_self n) # entries r). a < y" using 1 ord(5) by auto
    from "2.IH"(1) [OF 1 ord(1) l'(1)] show ?thesis
    proof (cases rule: added_cases)
      case new
      then show ?thesis using l'(2) out 1 inserted_first [OF new(4) up]
        by (simp add: added_def map_add_def split: if_splits)
    qed (use l'(2) out 1 in \<open>simp_all add: added_def map_add_def\<close>)
  next
    case 2
    then have na: "\<not> a < av_addr n" by simp
    obtain b1 r' where r': "mut_resources_internal_add a (av_self n) r w = Some ((p, b1, r'), w')"
      "if p = 0 \<or> \<not> b1 then t' = Node l n r' \<and> b = b1 else entries t' = entries (Node l n r')"
      using "2.prems"(2) 2 by (auto split: if_splits bind_splits dest!: grown_entries(2))
    have out: "map_of (entries l) a = None" "a \<noteq> av_addr n" using ord(4) 2 by (fastforce intro!: map_of_out, simp)
    have low: "\<forall>x \<in> fst ` set (entries l @ [(av_addr n, av_self n)]). x < a" using 2 ord(4) by auto
    from "2.IH"(2) [OF na 2 ord(2) r'(1)] show ?thesis
    proof (cases rule: added_cases)
      case new
      then show ?thesis using r'(2) out 2 inserted_last [OF new(4) low]
        by (simp add: added_def map_add_def split: if_splits)
    qed (use r'(2) out 2 in \<open>simp_all add: added_def map_add_def\<close>)
  next
    case 3
    then have "map_of (entries l) a = None" using ord(4) by (intro map_of_out) fastforce
    then show ?thesis using "2.prems"(2) 3 by (auto simp: added_def map_add_def)
  qed
qed

lemma inserted_map_of:
  "inserted a p es es' \<Longrightarrow> map_of es' = (map_of es)(a \<mapsto> p)"
  by (auto simp: inserted_def fun_eq_iff map_add_def split: option.splits dest!: map_of_SomeD) force+

lemma inserted_sorted: "inserted a p es es' \<Longrightarrow> sorted_wrt (<) (map fst es) \<Longrightarrow> sorted_wrt (<) (map fst es')"
  by (fastforce simp: inserted_def sorted_wrt_append)

lemma add_ordered:
  assumes "ordered t" and "mut_resources_internal_add a par t w = Some ((p, b, t'), w')"
  shows "ordered t'"
  using add_entries [OF assms]
proof (cases rule: added_cases)
  case new
  then show ?thesis using assms(1) inserted_sorted [OF new(4)] by (auto simp: ordered_def inserted_def)
qed (use assms(1) in simp_all)

section \<open>Sequences of additions\<close>

fun add_all :: "u32 list \<Rightarrow> avl \<Rightarrow> 'a libc_scheme \<Rightarrow> (avl \<times> 'a libc_scheme) option" where
  "add_all [] t w = Some (t, w)"
| "add_all (a # as) t w = do {
     ((p, b, t), w) \<leftarrow> mut_resources_internal_add a 0 t w;
     assert_c (p \<noteq> 0);
     add_all as t w
   }"

fun avl_height :: "avl \<Rightarrow> nat" where
  "avl_height Null = 0"
| "avl_height (Node l n r) = Suc (max (avl_height l) (avl_height r))"

text \<open>
  The tree that ascending addresses give: the root is marked as heavier on the right, where it has one node, and all the other nodes are on the left.
\<close>

definition leaning :: "u32 \<Rightarrow> nat \<Rightarrow> avl \<Rightarrow> bool" where
  "leaning a k t \<longleftrightarrow> (\<exists>l n m. t = Node l n (Node Null m Null) \<and> av_balanced n = 1 \<and> av_balanced m = 0 \<and>
     av_addr n < av_addr m \<and> av_addr m = a \<and> avl_height l = k)"

lemma leaning_step:
  assumes "leaning a k t" and "a < b" and "mut_resources_internal_add b par t w = Some ((p, bal, t'), w')" and "p \<noteq> 0"
  shows "leaning b (Suc k) t'"
proof -
  obtain l n m where t: "t = Node l n (Node Null m Null)" "av_balanced n = 1" "av_balanced m = 0"
     "av_addr n < av_addr m" "av_addr m = a" "avl_height l = k" using assms(1) by (auto simp: leaning_def)
  have lt: "av_addr n < b" "\<not> b < av_addr n" "av_addr m < b" "\<not> b < av_addr m" using t(4,5) assms(2) by auto
  show ?thesis
    using assms(3,4) t lt
    by (auto simp: leaning_def Let_def grown_right_def split: prod.splits if_splits bind_splits)
qed

lemma leaning_add_all:
  "add_all as t w = Some (t', w') \<Longrightarrow> leaning a k t \<Longrightarrow> sorted_wrt (<) (a # as) \<Longrightarrow>
   leaning (last (a # as)) (k + length as) t'"
proof (induction as arbitrary: a k t w)
  case (Cons b as)
  obtain p bal u v where add: "mut_resources_internal_add b 0 t w = Some ((p, bal, u), v)" "p \<noteq> 0" "add_all as u v = Some (t', w')"
    using Cons.prems(1) by (auto split: bind_splits if_splits)
  have "leaning b (Suc k) u" using leaning_step [OF Cons.prems(2) _ add(1,2)] Cons.prems(3) by simp
  from Cons.IH [OF add(3) this] Cons.prems(3) show ?case by simp
qed simp

text \<open>
  The nodes are allocated by \<open>malloc\<close> itself but released through the checking allocator, which does not know them: closing
  a map with an object aborts.
\<close>

lemma avl_close_aborts:
  assumes "mem_wf w" and "mut_resources_internal_add a par Null w = Some ((p, b, t), v)" and "p \<noteq> 0"
  shows "mut_resources_internal_close t v = None"
proof -
  have m: "libc_malloc sizeof_avl_resource w = (p, v)" using assms(2,3) by (auto simp: Let_def split: prod.splits if_splits)
  have "c_heap w p = None" using libc_malloc_fresh [OF _ m assms(3)] assms(1) by (simp add: mem_wf_def)
  moreover have "mem_in_use w \<subseteq> dom (c_heap w)" using assms(1) by (auto simp: mem_wf_def mem_in_use_def mem_defs)
  ultimately have "p \<notin> mem_in_use w" by auto
  moreover have "store v = store w" using m by (auto simp: libc_malloc_def Let_def split: if_splits)
  ultimately have "mem_unlink p (in_use (store v)) = None" by (simp add: mem_unlink_None mem_in_use_def)
  then show ?thesis using assms(2,3) m by (auto simp: Let_def close_if_def mut_mem__free_def)
qed

section \<open>Properties\<close>

text \<open>
  C14: Adding an address to the tree is an update of a map. The order of the tree is kept, whatever rotations are made; the
  lookup of the address gives the node returned, the lookup of any other is as before; and when the address is there
  already, nothing changes at all.
\<close>

theorem avl_add_refines_update:
  assumes "ordered t" and "mut_resources_internal_add a par t w = Some ((p, b, t'), w')" and "p \<noteq> 0"
  shows "ordered t' \<and> mut_resources_internal_lookup t' = (mut_resources_internal_lookup t)(a := p) \<and>
    (if mut_resources_internal_lookup t a = 0 then libc_malloc sizeof_avl_resource w = (p, w') else t' = t \<and> w' = w)"
proof -
  have "ordered t'" using add_ordered [OF assms(1,2)] .
  note look = lookup_entries [OF assms(1)] lookup_entries [OF this]
  have nz: "map_of (entries t) x \<noteq> Some 0" for x
    using assms(1) by (force simp: ordered_def dest: map_of_SomeD)
  from add_entries [OF assms(1,2)] show ?thesis
  proof (cases rule: added_cases)
    case old
    then show ?thesis using assms(1) look(1) [of a] nz [of a] by (auto simp: fun_eq_iff)
  next
    case new
    then show ?thesis
      using \<open>ordered t'\<close> look(1) [of a] by (auto simp: fun_eq_iff look inserted_map_of [OF new(4)])
  qed (use assms(3) in simp)
qed

definition sample_node :: "ptr \<Rightarrow> u32 \<Rightarrow> avl_resource" where
  "sample_node p a = \<lparr>av_self = p, av_parent = 0, av_addr = a, av_size = None, av_balanced = 0, av_producer = None, av_producer_bt = 0,
     av_consumer = None, av_consumer_bt = 0\<rparr>"

lemma avl_add_refines_update_witness:
  "\<exists>b t v. mut_resources_internal_add 0x90 0 (Node Null (sample_node 0x800 0x80) Null) (sample_world ()) = Some ((0x1000, b, t), v) \<and>
     mut_resources_internal_lookup t 0x80 = 0x800 \<and> mut_resources_internal_lookup t 0x90 = 0x1000"
proof -
  let ?t = "Node Null (sample_node 0x800 0x80) Null"
  obtain b t v where r: "mut_resources_internal_add 0x90 0 ?t (sample_world ()) = Some ((0x1000, b, t), v)"
    by (simp add: libc_malloc_def Let_def sample_pick_def sample_node_def grown_right_def)
  have "ordered ?t" by (simp add: ordered_def sample_node_def)
  from avl_add_refines_update [OF this r] have "mut_resources_internal_lookup t = (mut_resources_internal_lookup ?t)(0x90 := 0x1000)" by simp
  then have "mut_resources_internal_lookup t 0x80 = 0x800" "mut_resources_internal_lookup t 0x90 = 0x1000" by (simp_all add: sample_node_def)
  with r show ?thesis by blast
qed

text \<open>
  The rotation for a left branch that has grown follows a pointer without looking whether it is null: adding three
  addresses in descending order ends in a null dereference.
\<close>

theorem avl_descending_addresses_crash:
  assumes "c < b" and "b < a"
    and "add_all [a, b] Null w = Some (t, v)" and "fst (libc_malloc sizeof_avl_resource v) \<noteq> 0"
  shows "mut_resources_internal_add c par t v = None"
proof -
  have lt: "\<not> a < b" "\<not> b < c" "c < a" using assms(1,2) by auto
  show ?thesis
    using assms lt by (auto simp: Let_def grown_left_def split: prod.splits if_splits bind_splits)
qed

lemma avl_descending_addresses_crash_witness:
  "\<exists>t v. add_all [0x90, 0x80] Null (sample_world ()) = Some (t, v) \<and> mut_resources_internal_add 0x70 0 t v = None"
proof -
  obtain t v where r: "add_all [0x90, 0x80] Null (sample_world ()) = Some (t, v)" "fst (libc_malloc sizeof_avl_resource v) \<noteq> 0"
    by (simp add: libc_malloc_def Let_def sample_pick_def grown_left_def sample_world_def)
  from avl_descending_addresses_crash [OF _ _ r, of "0x70" 0] r(1) show ?thesis by auto
qed

text \<open>
  The balance that is stored in the new root of a rotation is not reset, so the tree does not stay balanced: adding three or
  more addresses in ascending order gives a tree that is only one level less high than it has nodes.
\<close>

theorem avl_ascending_addresses_degenerate:
  assumes "sorted_wrt (<) as" and "3 \<le> length as" and "add_all as Null w = Some (t, v)"
  shows "avl_height t = length as - 1"
proof -
  obtain a b c cs where as: "as = a # b # c # cs"
    using assms(2) by (metis One_nat_def Suc_le_length_iff numeral_3_eq_3)
  obtain u x where u: "add_all [a, b] Null w = Some (u, x)" "add_all (c # cs) u x = Some (t, v)"
    using assms(3) unfolding as by (auto split: bind_splits if_splits)
  have lt: "a < b" "\<not> b < a" using assms(1) unfolding as by auto
  have "leaning b 0 u"
    using u(1) lt by (auto simp: leaning_def Let_def grown_right_def split: prod.splits if_splits bind_splits)
  from leaning_add_all [OF u(2) this] assms(1) have "leaning (last (b # c # cs)) (0 + length (c # cs)) t" unfolding as by simp
  then show ?thesis unfolding as leaning_def by auto
qed

lemma avl_ascending_addresses_degenerate_witness:
  "\<exists>t v. add_all [1, 2, 3, 4, 5] Null (sample_world ()) = Some (t, v) \<and> avl_height t = 4"
proof -
  obtain t v where r: "add_all [1, 2, 3, 4, 5] Null (sample_world ()) = Some (t, v)"
    by (simp add: libc_malloc_def Let_def sample_pick_def grown_right_def sample_world_def)
  from avl_ascending_addresses_degenerate [OF _ _ this] r show ?thesis by auto
qed

end
