(* ===== verification/MutVendor.thy ===== *)
theory MutVendor
  imports MutCounter MutLog
begin

text \<open>
  The other choices of the build: the allocator of the C library (src/src/mem/vendor), which keeps the same contract as the
  checking one, and the output of the counters that are not pairs of words (src/src/uint64/longlong,
  src/src/counter/ulong).
\<close>

section \<open>The allocator of the C library\<close>

text \<open>\<open>realloc\<close> moves a block to one that is free, which may be its own; what is beyond the old size is indeterminate.\<close>

definition libc_realloc :: "ptr \<Rightarrow> u32 \<Rightarrow> 'a libc_scheme \<Rightarrow> (ptr \<times> 'a libc_scheme) option" where
  "libc_realloc p n w =
     (if p = 0 then Some (libc_malloc n w)
      else case c_heap w p of
        None \<Rightarrow> None
      | Some bs \<Rightarrow>
          let h = (c_heap w)(p := None); q = c_pick w h n
          in if q = 0 then Some (0, w\<lparr>c_errno := ENOMEM\<rparr>)
             else Some (q, w\<lparr>c_heap := h(q \<mapsto> take (unat n) bs @ map (c_fill w q) [length bs..<unat n])\<rparr>))"

definition vendor_malloc :: "u32 \<Rightarrow> 'a libc_scheme \<Rightarrow> ptr \<times> 'a libc_scheme" where
  "vendor_malloc n_bytes w = libc_malloc n_bytes w"

definition vendor_realloc :: "ptr \<Rightarrow> u32 \<Rightarrow> 'a libc_scheme \<Rightarrow> (ptr \<times> 'a libc_scheme) option" where
  "vendor_realloc addr n_bytes w = libc_realloc addr n_bytes w"

definition vendor_free :: "ptr \<Rightarrow> 'a libc_scheme \<Rightarrow> 'a libc_scheme option" where
  "vendor_free addr w = libc_free addr w"

definition vendor_mem_init :: "'a libc_scheme \<Rightarrow> 'a libc_scheme" where "vendor_mem_init w = w"
definition vendor_mem_open :: "'a libc_scheme \<Rightarrow> 'a libc_scheme" where "vendor_mem_open w = w"
definition vendor_mem_log :: "stream \<Rightarrow> stream option" where "vendor_mem_log ignore = None"
definition vendor_mem_report :: "stream \<Rightarrow> stream option" where "vendor_mem_report ignore = None"
definition vendor_mem_close :: "'a libc_scheme \<Rightarrow> u32 \<times> 'a libc_scheme" where "vendor_mem_close w = (0, w)"

definition vendor_alloc_at :: "u32 \<times> string \<Rightarrow> u32 \<Rightarrow> 'a libc_scheme \<Rightarrow> (ptr \<times> 'a libc_scheme) option" where
  "vendor_alloc_at l n w = Some (vendor_malloc n w)"

definition vendor_free_at :: "u32 \<times> string \<Rightarrow> ptr \<Rightarrow> 'a libc_scheme \<Rightarrow> 'a libc_scheme option" where
  "vendor_free_at l p w = vendor_free p w"

definition vendor_wf :: "'a libc_scheme \<Rightarrow> bool" where
  "vendor_wf w \<longleftrightarrow> malloc_fresh w \<and> c_heap w 0 = None"

interpretation vendor_mem: allocator vendor_alloc_at vendor_free_at "\<lambda>w. dom (c_heap w)" vendor_wf
proof (unfold_locales, goal_cases)
  case (1 s l n)
  then show ?case by (cases "libc_malloc n s") (simp add: vendor_alloc_at_def vendor_malloc_def)
next
  case (2 s l n p s')
  then show ?case
    by (auto simp: vendor_alloc_at_def vendor_malloc_def vendor_wf_def libc_malloc_def Let_def split: if_splits)
next
  case (3 s l n s')
  then show ?case by (auto simp: vendor_alloc_at_def vendor_malloc_def libc_malloc_def Let_def split: if_splits)
next
  case (4 s l n p s')
  then have m: "libc_malloc n s = (p, s')" by (simp add: vendor_alloc_at_def vendor_malloc_def)
  with 4 have "c_heap s p = None" by (intro libc_malloc_fresh [of s n p s']) (simp_all add: vendor_wf_def)
  with m 4(3) show ?case by (auto simp: libc_malloc_def Let_def split: if_splits)
next
  case (5 s p l)
  then show ?case by (auto simp: vendor_free_at_def vendor_free_def libc_free_def vendor_wf_def)
next
  case (6 p s l)
  then show ?case by (auto simp: vendor_free_at_def vendor_free_def libc_free_def domIff)
qed

text \<open>The old contents are kept up to the smaller size, and a \<open>realloc\<close> that fails leaves the block alone, unlike that of the checking allocator.\<close>

lemma vendor_realloc_contents:
  assumes "vendor_wf w" and "c_heap w p = Some bs" and "p \<noteq> 0" and "vendor_realloc p n w = Some (q, v)"
  shows "if q = 0 then c_heap v = c_heap w
    else \<exists>cs. c_heap v q = Some cs \<and> take (min (unat n) (length bs)) cs = take (min (unat n) (length bs)) bs \<and>
      dom (c_heap v) = insert q (dom (c_heap w) - {p})"
  using assms by (auto simp: vendor_realloc_def libc_realloc_def Let_def min_def split: if_splits)

section \<open>The output of the counters\<close>

text \<open>\<open>fprintf(sink, "%Lu", ui) > 0\<close>\<close>

definition longlong_out :: "stream \<Rightarrow> 64 word \<Rightarrow> 'a libc_scheme \<Rightarrow> bool \<times> 'a libc_scheme" where
  "longlong_out strm ui w = libc_fput strm (dec_string (unat ui)) w"

definition ulong_log_counter :: "u32 \<Rightarrow> 'a log_world_scheme \<Rightarrow> 'a log_world_scheme option" where
  "ulong_log_counter c w = mut_log_ulong c w"

text \<open>
  The division by ten of the pair of words is not visible outside: both 64-bit providers write the same text for
  the same value, with the same result.
\<close>

theorem counter_outputs_agree:
  assumes "u64_val x = unat u"
  shows "mut_uint64_out strm x w = Some (longlong_out strm u w)"
  using assms by (simp add: mut_uint64_out_dec longlong_out_def)

end
