(* ===== verification/MutAout.thy ===== *)
theory MutAout
  imports MutSession
begin

text \<open>
  The reader of a.out executables, src/src/exec/aout/mut_exec.c. What \<open><a.out.h>\<close> and mut_aout_mach.h give for a machine, the macros on
  the header and the number of the machine, is a parameter (\<open>aout_host\<close>); the structures have the layout
  of a 32-bit machine. The state is that of the other reader: \<open>exec->strings\<close> is \<open>strtab\<close> of \<open>exec\<close>, and the other string tables
  are not used. The misspelt parameter of \<open>mut_exec_addr_lt\<close> is read as the one meant, and addresses are ordered as unsigned, as
  they are in the other reader.
\<close>

section \<open>The format\<close>

record aout_host =
  n_badmag :: "u8 list \<Rightarrow> bool"
  n_getmagic :: "u8 list \<Rightarrow> u32"
  n_getmid :: "u8 list \<Rightarrow> u32"
  n_stroff :: "u8 list \<Rightarrow> u32"
  n_symoff :: "u8 list \<Rightarrow> u32"
  mut_aout_mach :: u32

record nlist =
  n_strx :: u32
  n_type :: u8
  n_value :: u32

definition sizeof_exec_header :: u32 where "sizeof_exec_header = 32"
definition sizeof_nlist :: u32 where "sizeof_nlist = 12"
definition sizeof_size_t :: u32 where "sizeof_size_t = 4"

definition a_syms :: "u8 list \<Rightarrow> u32" where "a_syms h = le32 16 h"

definition nlist_of :: "u8 list \<Rightarrow> nlist" where
  "nlist_of bs = \<lparr>n_strx = le32 0 bs, n_type = bs ! 4, n_value = le32 8 bs\<rparr>"

definition N_TEXT :: u8 where "N_TEXT = 4"
definition N_TYPE :: u8 where "N_TYPE = 0x1E"

record aout_reader =
  ar_host :: aout_host
  ar_header :: "u8 list"
  ar_source :: source
  ar_file_name :: string
  ar_elems :: ptr
  ar_symbols :: "nlist list"

definition aout_file :: string where "aout_file = ''exec/aout/mut_exec.c''"

section \<open>Operations\<close>

definition mut_exec_check_magic ::
  "aout_reader \<Rightarrow> 'a log_world_scheme \<Rightarrow> (bool \<times> 'a log_world_scheme) option" where
  "mut_exec_check_magic r w =
     (if n_badmag (ar_host r) (ar_header r) then do {
        let magic = n_getmagic (ar_host r) (ar_header r);
        w \<leftarrow> complain 0 ''aout.bad-magic'' [LString (ar_file_name r), LHex magic] w;
        Some (False, w)
      }
      else Some (True, w))"

definition aout_check_type ::
  "aout_reader \<Rightarrow> 'a log_world_scheme \<Rightarrow> (bool \<times> 'a log_world_scheme) option" where
  "aout_check_type r w =
     (let mach_type = n_getmid (ar_host r) (ar_header r)
      in if mach_type \<noteq> mut_aout_mach (ar_host r) then do {
           w \<leftarrow> complain 0 ''aout.bad-magic'' [LString (ar_file_name r), LUint mach_type, LUint (mut_aout_mach (ar_host r))] w;
           Some (False, w)
         }
         else Some (True, w))"

text \<open>\<open>fread\<close> of \<open>n\<close> bytes in items of any size gives 0 of 0 items, and that is no failure here.\<close>

definition fread_items :: "nat \<Rightarrow> u32 \<Rightarrow> source \<Rightarrow> u8 list option" where
  "fread_items pos n src = (if n = 0 then Some [] else libc_fread pos n src)"

definition heap_fill_from :: "nat \<Rightarrow> ptr \<Rightarrow> u8 list \<Rightarrow> 'a libc_scheme \<Rightarrow> 'a libc_scheme option" where
  "heap_fill_from i p bs w = do {
     old \<leftarrow> c_heap w p;
     assert_c (i + length bs \<le> length old);
     Some (w\<lparr>c_heap := (c_heap w)(p \<mapsto> take i old @ bs @ drop (i + length bs) old)\<rparr>)
   }"

text \<open>
  With a size less than that of its own field the number of bytes to read wraps around, and everything that is left of the
  file is written behind the block: undefined, unless nothing is left.
\<close>

definition aout_strtab_open ::
  "aout_reader \<Rightarrow> 'a exec_world_scheme \<Rightarrow> (bool \<times> 'a exec_world_scheme) option" where
  "aout_strtab_open r w =
     (let name = LString (ar_file_name r);
          src = ar_source r;
          offset = n_stroff (ar_host r) (ar_header r)
      in case libc_fseek offset src of
           None \<Rightarrow> do { w \<leftarrow> complain 0 ''io.seek'' [name, LLong offset] (io_error src w); Some (False, w) }
         | Some pos \<Rightarrow> (case libc_fread pos sizeof_size_t src of
             None \<Rightarrow> do { w \<leftarrow> complain 0 ''io.read'' [name, LUlong sizeof_size_t] (io_error src w); Some (False, w) }
           | Some bs \<Rightarrow> do {
               let size = le32 0 bs;
               (data, w) \<leftarrow> mut_mem__malloc size 94 aout_file w;
               let w = set_exec (\<lambda>e. e\<lparr>strtab := \<lparr>es_data = data, es_size = size\<rparr>\<rparr>) w;
               if data = 0 then do { w \<leftarrow> mut_log_mem_full (c_errno w) w; Some (False, w) }
               else do {
                 let n = size - sizeof_size_t;
                 assert_c (sizeof_size_t \<le> size \<or> length (s_bytes src) \<le> pos + 4);
                 case fread_items (pos + 4) n src of
                   None \<Rightarrow> do {
                     let w = io_error src w;
                     w \<leftarrow> complain (c_errno w) ''io.read'' [name, LUlong n] w;
                     w \<leftarrow> mut_mem__free data 108 aout_file w;
                     Some (False, w)
                   }
                 | Some cs \<Rightarrow> do { w \<leftarrow> heap_fill_from 4 data cs w; Some (True, w) }
               }
             }))"

definition aout_strtab_lookup :: "mut_exec \<Rightarrow> u32 \<Rightarrow> char_ptr option" where
  "aout_strtab_lookup e str = do { assert_c (str < es_size (strtab e)); Some (At (es_data (strtab e)) (unat str)) }"

definition aout_strtab_close :: "'a exec_world_scheme \<Rightarrow> 'a exec_world_scheme option" where
  "aout_strtab_close w = mut_mem__free (es_data (strtab (exec w))) 126 aout_file w"

definition mut_exec_reader_symtab_open ::
  "aout_reader \<Rightarrow> 'a log_world_scheme \<Rightarrow> ((bool \<times> aout_reader) \<times> 'a log_world_scheme) option" where
  "mut_exec_reader_symtab_open r w =
     (let name = LString (ar_file_name r);
          src = ar_source r;
          syms = a_syms (ar_header r)
      in if syms mod sizeof_nlist \<noteq> 0 then do {
           w \<leftarrow> complain 0 ''aout.symbols.size'' [name, LUint syms, LUint sizeof_nlist] w;
           Some ((False, r), w)
         }
         else do {
           let nelems = syms div sizeof_nlist;
           (elems, w) \<leftarrow> mut_mem__malloc syms 143 aout_file w;
           if elems = 0 then do { w \<leftarrow> mut_log_mem_full (c_errno w) w; Some ((False, r), w) }
           else let offset = n_symoff (ar_host r) (ar_header r) in
             case libc_fseek offset src of
               None \<Rightarrow> do {
                 w \<leftarrow> complain 0 ''io.seek'' [name, LLong offset] (io_error src w);
                 w \<leftarrow> mut_mem__free elems 166 aout_file w;
                 Some ((False, r), w)
               }
             | Some pos \<Rightarrow> (case fread_items pos syms src of
                 None \<Rightarrow> do {
                   let w = io_error src w;
                   w \<leftarrow> complain (c_errno w) ''io.read'' [name, LUlong (sizeof_nlist * nelems)] w;
                   w \<leftarrow> mut_mem__free elems 166 aout_file w;
                   Some ((False, r), w)
                 }
               | Some bs \<Rightarrow> do {
                   w \<leftarrow> heap_fill elems bs w;
                   Some ((True, r\<lparr>ar_elems := elems, ar_symbols := map nlist_of (chunks (unat nelems) 12 bs)\<rparr>), w)
                 })
         })"

definition mut_exec_reader_symtab_close :: "aout_reader \<Rightarrow> 'a mem_world_scheme \<Rightarrow> 'a mem_world_scheme option" where
  "mut_exec_reader_symtab_close r w = mut_mem__free (ar_elems r) 176 aout_file w"

definition mut_exec_functions_is_function :: "nlist \<Rightarrow> bool" where
  "mut_exec_functions_is_function s \<longleftrightarrow> n_type s AND N_TEXT = N_TEXT \<and> n_type s < N_TYPE"

definition mut_exec_functions_count :: "aout_reader \<Rightarrow> u32" where
  "mut_exec_functions_count r = of_nat (length (filter mut_exec_functions_is_function (ar_symbols r)))"

text \<open>\<open>strlen\<close> runs to the end of the string, which has to be there.\<close>

fun functions_loop :: "nlist list \<Rightarrow> 'a exec_world_scheme \<Rightarrow> (bool \<times> 'a exec_world_scheme) option" where
  "functions_loop [] w = Some (True, w)"
| "functions_loop (s # ss) w = do {
     name \<leftarrow> aout_strtab_lookup (exec w) (n_strx s);
     if mut_exec_functions_is_function s then do {
       chars \<leftarrow> string_at w name;
       let addr = n_value s;
       let n = (case (chars, name) of (c # _, At b i) \<Rightarrow> if c = CHR ''_'' then At b (i + 1) else name | _ \<Rightarrow> name);
       (ok, w) \<leftarrow> mut_exec_symtab_add_fun n addr w;
       if \<not> ok then Some (False, w) else functions_loop ss w
     }
     else functions_loop ss w
   }"

definition mut_exec_extract_functions ::
  "aout_reader \<Rightarrow> 'a exec_world_scheme \<Rightarrow> (bool \<times> 'a exec_world_scheme) option" where
  "mut_exec_extract_functions r w = (let n_functions_ub = mut_exec_functions_count r in functions_loop (ar_symbols r) w)"

text \<open>What follows the string table. The labels of the failures all end in closing the file.\<close>

definition read_functions :: "aout_reader \<Rightarrow> 'a exec_world_scheme \<Rightarrow> (bool \<times> 'a exec_world_scheme) option" where
  "read_functions r w = do {
     ((ok, r), w) \<leftarrow> mut_exec_reader_symtab_open r w;
     if \<not> ok then Some (False, w)
     else do {
       let w = mut_exec_symtab_open w;
       (ok, w) \<leftarrow> mut_exec_extract_functions r w;
       if \<not> ok then do { w \<leftarrow> mut_exec_reader_symtab_close r w; Some (False, w) }
       else do {
         w \<leftarrow> mut_exec_reader_symtab_close r w;
         if s_close_fails (ar_source r) then do {
           (x, w) \<leftarrow> log_message Warning ''io.close'' [LString (ar_file_name r)] (io_error (ar_source r) w);
           Some (True, w)
         }
         else Some (True, w)
       }
     }
   }"

definition aout_exec_open ::
  "aout_host \<Rightarrow> source \<Rightarrow> string \<Rightarrow> string option \<Rightarrow> 'a exec_world_scheme \<Rightarrow> (bool \<times> 'a exec_world_scheme) option" where
  "aout_exec_open host src file undesirable_suffix w =
     (if c_fopen_fails w file then do {
        let w = w\<lparr>c_errno := ENOENT\<rparr>;
        w \<leftarrow> complain (c_errno w) ''io.open'' [LString file] w;
        Some (False, w)
      }
      else case libc_fread 0 sizeof_exec_header src of
        None \<Rightarrow> do {
          let w = io_error src w;
          w \<leftarrow> complain (c_errno w) ''io.read'' [LString file, LUlong sizeof_exec_header] w;
          Some (False, w)
        }
      | Some bs \<Rightarrow> do {
          let r = \<lparr>ar_host = host, ar_header = bs, ar_source = src, ar_file_name = file, ar_elems = 0, ar_symbols = []\<rparr>;
          (ok, w) \<leftarrow> mut_exec_check_magic r w;
          if \<not> ok then Some (False, w)
          else do {
            (ok, w) \<leftarrow> aout_check_type r w;
            if \<not> ok then Some (False, w)
            else do {
              (ok, w) \<leftarrow> aout_strtab_open r w;
              if \<not> ok then Some (False, w) else read_functions r w
            }
          }
        })"

fun aout_functions_addr :: "string list \<Rightarrow> 'a exec_world_scheme \<Rightarrow> (u32 \<times> bool) list option" where
  "aout_functions_addr [] w = Some []"
| "aout_functions_addr (n # fs) w = do {
     sa \<leftarrow> mut_exec_symtab_lookup_name n w;
     rest \<leftarrow> aout_functions_addr fs w;
     Some ((sa, sa \<noteq> 0) # rest)
   }"

definition aout_addr_name :: "u32 \<Rightarrow> 'a exec_world_scheme \<Rightarrow> (u32 \<times> char_ptr \<times> char_ptr \<times> u32) option" where
  "aout_addr_name a w = mut_exec_symtab_lookup_addr (symtab w) a"

definition aout_has_backtrace_symbols :: "'a exec_world_scheme \<Rightarrow> bool" where
  "aout_has_backtrace_symbols w = True"

definition aout_close :: "'a exec_world_scheme \<Rightarrow> (bool \<times> 'a exec_world_scheme) option" where
  "aout_close w = do {
     w \<leftarrow> aout_strtab_close w;
     w \<leftarrow> mut_exec_symtab_close w;
     Some (True, w)
   }"

section \<open>The blocks on every path\<close>

lemma loads_fill_from [loads]:
  assumes "loading z B S X w" and "\<And>v. loading z B S X v \<Longrightarrow> whenever (k v) Q"
  shows "whenever (heap_fill_from i p bs w \<bind> k) Q"
proof (cases "heap_fill_from i p bs w")
  case (Some v)
  then have "loading z B S X v"
    using loading_heap_write [OF assms(1)] by (auto simp: heap_fill_from_def split: bind_splits)
  then show ?thesis using assms(2) Some by simp
qed simp

lemma loads_option [loads]:
  "whenever a Q \<Longrightarrow> (\<And>x. whenever (f x) Q) \<Longrightarrow> whenever (case m of None \<Rightarrow> a | Some x \<Rightarrow> f x) Q"
  by (cases m) simp_all

lemma loads_assert [loads]: "(c \<Longrightarrow> whenever (f ()) Q) \<Longrightarrow> whenever (assert_c c \<bind> f) Q"
  by (cases c) (simp_all add: assert_c_def)

lemma aout_strtab_loads:
  assumes "loading z B S X w"
  shows "whenever (aout_strtab_open r w) (\<lambda>(ok, v). \<exists>t.
    if ok then es_data t \<noteq> 0 \<and> es_data t \<notin> B \<and> loading z (insert (es_data t) B) S (X\<lparr>strtab := t\<rparr>) v
    else loading z B S (X\<lparr>strtab := t\<rparr>) v)"
proof -
  have X: "loading z B S (X\<lparr>strtab := strtab X\<rparr>) v = loading z B S X v" for v by simp
  have step: "loading z C S (X\<lparr>strtab := t\<rparr>) (set_exec (\<lambda>e. e\<lparr>strtab := t\<rparr>) v)" if "loading z C S X v" for C v t
    using loading_set_exec [OF that, of "\<lambda>e. e\<lparr>strtab := t\<rparr>"] .
  let ?Q = "\<lambda>(ok, v). \<exists>t. if ok then es_data t \<noteq> 0 \<and> es_data t \<notin> B \<and> loading z (insert (es_data t) B) S (X\<lparr>strtab := t\<rparr>) v
    else loading z B S (X\<lparr>strtab := t\<rparr>) v"
  have opened: "whenever (Some (True, v)) ?Q"
    if "d \<noteq> 0" "d \<notin> B" "loading z (insert d B) S (X\<lparr>strtab := \<lparr>es_data = d, es_size = n\<rparr>\<rparr>) v" for d n v
    using that by (simp, intro exI [of _ "\<lparr>es_data = d, es_size = n\<rparr>"]) simp
  have failed: "whenever (Some (False, v)) ?Q" if "loading z B S (X\<lparr>strtab := t\<rparr>) v" for t v
    using that by auto
  have failed0: "whenever (Some (False, v)) ?Q" if "loading z B S X v" for v
    using that by (intro failed [of "strtab X"]) simp
  show ?thesis
    unfolding aout_strtab_open_def Let_def
    by (insert assms, (rule loads_if loads_option loads_assert
        | (rule loads_complain loads_malloc loads_fill_from loads_free_new loads_mem_full, (assumption | (simp; fail) | (rule step, assumption) | (subst loading_errno, rule step, assumption)))
        | (rule opened, assumption+) | (rule failed0, assumption) | (rule failed, assumption) | (simp; fail))+)
qed

lemma reader_symtab_loads:
  assumes "loading z B S X w"
  shows "whenever (mut_exec_reader_symtab_open r w) (\<lambda>((ok, r'), v).
    if ok then ar_elems r' \<noteq> 0 \<and> ar_elems r' \<notin> B \<and> loading z (insert (ar_elems r') B) S X v \<and> ar_source r' = ar_source r
    else loading z B S X v)"
  unfolding mut_exec_reader_symtab_open_def Let_def
  by (insert assms, (rule loads_if loads_option
      | (rule loads_complain loads_malloc loads_fill loads_free_new loads_mem_full, (assumption | simp; fail)) | (simp; fail))+)

lemma functions_loop_reading:
  "reading z B X w \<Longrightarrow> functions_loop ss w = Some (ok, v) \<Longrightarrow> reading z B X v"
proof (induction ss arbitrary: w)
  case (Cons s ss)
  then show ?case
    by (auto simp: Let_def split: bind_splits if_splits dest: reading_add_fun)
qed simp

lemma reading_symtab_open:
  assumes "loading z B S X w"
  shows "reading z B X (mut_exec_symtab_open w)"
proof -
  let ?S = "\<lparr>st_head = [], st_cache = 0, st_end = 0\<rparr>"
  have "loading z B ?S X (mut_exec_symtab_open w)"
    using assms exec_only_trans [OF _ exec_only_update(2)] by (auto simp: mut_exec_symtab_open_def loading_def)
  then show ?thesis by (intro readingI [of ?S]) (simp_all add: table_ok_def symtab_sorted_def)
qed

lemma read_functions_blocks:
  assumes "loading z B S X w"
  shows "whenever (read_functions r w) (\<lambda>(ok, v). reading z B X v \<or> \<not> ok \<and> loading z B S X v)"
  unfolding read_functions_def
proof (rule whenever_bind [OF reader_symtab_loads [OF assms]], goal_cases)
  case (1 x)
  obtain ok r' u where x: "x = ((ok, r'), u)" by (metis prod.exhaust)
  show ?case
  proof (cases ok)
    case False
    then show ?thesis using 1 x by simp
  next
    case True
    let ?p = "ar_elems r'"
    have n: "?p \<notin> B" and u: "reading z (insert ?p B) X (mut_exec_symtab_open u)"
      using 1 True x by (auto intro: reading_symtab_open)
    have free: "whenever (mut_mem__free ?p 176 aout_file v \<bind> k) Q"
      if "reading z (insert ?p B) X v" "\<And>v. reading z B X v \<Longrightarrow> whenever (k v) Q"
      for v k and Q :: "bool \<times> 'a exec_world_scheme \<Rightarrow> bool"
      by (rule reads_free_new [OF that(1) n that(2)])
    show ?thesis
    proof (cases "mut_exec_extract_functions r' (mut_exec_symtab_open u)")
      case None
      then show ?thesis using True x by (simp add: Let_def)
    next
      case (Some y)
      obtain ok' v where y: "y = (ok', v)" by fastforce
      then have v: "reading z (insert ?p B) X v"
        using Some functions_loop_reading [OF u] by (simp add: mut_exec_extract_functions_def Let_def)
      have warned: "whenever (log_message Warning m as (io_error s u) \<bind> (\<lambda>(x, w). Some (True, w)))
          (\<lambda>(ok, v). reading z B X v \<or> \<not> ok \<and> loading z B S X v)" if "reading z B X u" for m as s u
        by (rule reads_message [of z B X]) (use that in simp_all)
      have "whenever (mut_mem__free ?p 176 aout_file v \<bind> (\<lambda>w. if s_close_fails (ar_source r')
            then log_message Warning ''io.close'' [LString (ar_file_name r')] (io_error (ar_source r') w) \<bind> (\<lambda>(x, w). Some (True, w))
            else Some (True, w))) (\<lambda>(ok, v). reading z B X v \<or> \<not> ok \<and> loading z B S X v)"
        by (rule free [OF v]) (simp add: warned)
      moreover have "whenever (mut_mem__free ?p 176 aout_file v \<bind> (\<lambda>w. Some (False, w)))
          (\<lambda>(ok, v). reading z B X v \<or> \<not> ok \<and> loading z B S X v)"
        by (rule free [OF v]) simp
      ultimately show ?thesis
        using True x Some y by (simp add: Let_def mut_exec_reader_symtab_close_def)
    qed
  qed
qed

definition aout_blocks :: "'a exec_world_scheme \<Rightarrow> ptr set" where
  "aout_blocks w = insert (es_data (strtab (exec w))) (blocks_of (symtab w))"

text \<open>Open, and what a failure leaves: nothing, the string table alone, or all that a success leaves.\<close>

definition aout_opened :: "'a exec_world_scheme \<Rightarrow> 'a exec_world_scheme \<Rightarrow> bool" where
  "aout_opened w v \<longleftrightarrow> aout_blocks v \<inter> mem_in_use w = {} \<and> mem_in_use v = mem_in_use w \<union> aout_blocks v"

definition aout_strings_left :: "'a exec_world_scheme \<Rightarrow> 'a exec_world_scheme \<Rightarrow> bool" where
  "aout_strings_left w v \<longleftrightarrow> es_data (strtab (exec v)) \<notin> mem_in_use w \<and>
     mem_in_use v = insert (es_data (strtab (exec v))) (mem_in_use w)"

lemma reading_aout_opened:
  assumes "reading w (insert (es_data (strtab X)) (mem_in_use w)) X v" and "es_data (strtab X) \<notin> mem_in_use w"
  shows "mem_wf v \<and> aout_opened w v \<and> symtab_sorted (symtab v)"
  using assms by (auto simp: reading_def aout_opened_def aout_blocks_def loading_def table_ok_def)

lemma aout_close_reading:
  assumes "reading w (insert (es_data (strtab X)) (mem_in_use w)) X v" and "es_data (strtab X) \<notin> mem_in_use w"
  shows "\<exists>u. aout_close v = Some (True, u) \<and> mem_wf u \<and> mem_in_use u = mem_in_use w"
proof -
  have X: "exec v = X" using assms(1) by (rule reading_exec)
  obtain x where x: "mut_mem__free (es_data (strtab X)) 126 aout_file v = Some x" "reading w (mem_in_use w) X x"
    using reading_free [OF assms(1), of "es_data (strtab X)" 126 aout_file] assms(2) by auto
  from reading_close [OF x(2)] obtain u where "mut_exec_symtab_close x = Some u" "closed w (mem_in_use w) X u" by blast
  with x(1) X show ?thesis by (auto simp: aout_close_def aout_strtab_close_def closed_def loading_def)
qed

definition aout_outcome where
  "aout_outcome w = (\<lambda>(ok, v). mem_wf v \<and>
     (if ok then aout_opened w v \<and> symtab_sorted (symtab v) \<and>
        (\<exists>u. aout_close v = Some (True, u) \<and> mem_wf u \<and> mem_in_use u = mem_in_use w)
      else mem_in_use v = mem_in_use w \<or> aout_strings_left w v \<or> aout_opened w v))"

lemma read_functions_outcome:
  assumes "loading w (insert (es_data (strtab X)) (mem_in_use w)) S X u" and "es_data (strtab X) \<notin> mem_in_use w"
  shows "whenever (read_functions r u) (\<lambda>(ok, v). aout_outcome w (ok, v) \<and> es_data (strtab (exec v)) = es_data (strtab X) \<and>
    es_data (strtab X) \<in> mem_in_use v)"
proof (rule whenever_mono [OF read_functions_blocks [OF assms(1)]], goal_cases)
  case (1 x)
  obtain ok v where x: "x = (ok, v)" by fastforce
  show ?case
  proof (cases "reading w (insert (es_data (strtab X)) (mem_in_use w)) X v")
    case True
    from reading_aout_opened [OF this assms(2)] aout_close_reading [OF this assms(2)] reading_exec [OF this]
    show ?thesis by (auto simp: x aout_outcome_def aout_opened_def aout_blocks_def)
  next
    case False
    with 1 x have "\<not> ok" "loading w (insert (es_data (strtab X)) (mem_in_use w)) S X v" by auto
    then show ?thesis using assms(2) by (auto simp: x aout_outcome_def aout_strings_left_def loading_def)
  qed
qed

lemma aout_checks:
  assumes "loading z B S X w" and "\<And>ok v. loading z B S X v \<Longrightarrow> whenever (k ok v) Q"
  shows "whenever (mut_exec_check_magic r w \<bind> (\<lambda>(ok, v). k ok v)) Q"
    and "whenever (aout_check_type r w \<bind> (\<lambda>(ok, v). k ok v)) Q"
proof -
  have "whenever (mut_exec_check_magic r w) (\<lambda>(ok, v). loading z B S X v)"
    "whenever (aout_check_type r w) (\<lambda>(ok, v). loading z B S X v)"
    unfolding mut_exec_check_magic_def aout_check_type_def Let_def
    by (insert assms(1), ((rule loads_if | (rule loads_complain loads_message, assumption) | (simp; fail))+)[2])
  then show "whenever (mut_exec_check_magic r w \<bind> (\<lambda>(ok, v). k ok v)) Q"
    "whenever (aout_check_type r w \<bind> (\<lambda>(ok, v). k ok v)) Q"
    using assms(2) by (auto elim!: whenever_bind)
qed

lemma loading_outcome: "loading w (mem_in_use w) S X v \<Longrightarrow> aout_outcome w (False, v)"
  by (simp add: aout_outcome_def loading_def)

lemma aout_strtab_new:
  assumes "loading w (mem_in_use w) S X v" and "aout_strtab_open r v = Some (ok, u)"
  shows "\<exists>Y. if ok then es_data (strtab Y) \<notin> mem_in_use w \<and> loading w (insert (es_data (strtab Y)) (mem_in_use w)) S Y u
    else loading w (mem_in_use w) S Y u"
proof -
  obtain t where "if ok then es_data t \<notin> mem_in_use w \<and> loading w (insert (es_data t) (mem_in_use w)) S (X\<lparr>strtab := t\<rparr>) u
      else loading w (mem_in_use w) S (X\<lparr>strtab := t\<rparr>) u"
    using wheneverD [OF aout_strtab_loads [OF assms(1)] assms(2)] by (cases ok) auto
  then show ?thesis by (intro exI [of _ "X\<lparr>strtab := t\<rparr>"]) simp
qed

lemma aout_exec_open_all:
  assumes "mem_wf w"
  shows "whenever (aout_exec_open host src f suffix w) (aout_outcome w)"
proof -
  note start = loading_start [OF assms]
  have e: "loading w (mem_in_use w) (symtab w) (exec w) (w\<lparr>c_errno := ENOENT\<rparr>)"
    "loading w (mem_in_use w) (symtab w) (exec w) (io_error src w)" using start by simp_all
  have rest: "whenever (aout_strtab_open r v \<bind> (\<lambda>(ok, v). if \<not> ok then Some (False, v) else read_functions r v)) (aout_outcome w)"
    if v: "loading w (mem_in_use w) (symtab w) (exec w) v" for r v
  proof (cases "aout_strtab_open r v")
    case (Some x)
    obtain ok u where x: "x = (ok, u)" by fastforce
    obtain Y where Y: "if ok then es_data (strtab Y) \<notin> mem_in_use w \<and> loading w (insert (es_data (strtab Y)) (mem_in_use w)) (symtab w) Y u
        else loading w (mem_in_use w) (symtab w) Y u"
      using aout_strtab_new [OF v] Some x by blast
    have "whenever (read_functions r u) (aout_outcome w)" if ok
      by (rule whenever_mono [OF read_functions_outcome [of w Y "symtab w"]]) (use Y that in auto)
    then show ?thesis using Y Some x by (cases ok) (simp_all add: loading_outcome)
  qed simp
  show ?thesis
  proof (cases "c_fopen_fails w f")
    case True
    then show ?thesis
      unfolding aout_exec_open_def Let_def
      by simp (rule loads_complain [OF e(1)], simp add: loading_outcome)
  next
    case opens: False
    show ?thesis
    proof (cases "libc_fread 0 sizeof_exec_header src")
      case None
      then show ?thesis
        using opens unfolding aout_exec_open_def Let_def
        by simp (rule loads_complain [OF e(2)], simp add: loading_outcome)
    next
      case (Some bs)
      show ?thesis
        unfolding aout_exec_open_def Let_def using opens Some start
        by simp ((rule aout_checks | assumption | rule loads_if rest | (simp add: loading_outcome; fail))+)
    qed
  qed
qed

section \<open>The functions of the table\<close>

text \<open>The address and the name of the entry for a symbol: the name without a leading underscore.\<close>

definition function_entry :: "'a exec_world_scheme \<Rightarrow> nlist \<Rightarrow> u32 \<times> char_ptr" where
  "function_entry w s =
     (let d = es_data (strtab (exec w)); i = unat (n_strx s)
      in (n_value s, if \<exists>cs. string_at w (At d i) = Some (CHR ''_'' # cs) then At d (i + 1) else At d i))"

lemma symtab_add_fun_keeps:
  assumes "malloc_fresh w" and "mut_exec_symtab_add_fun n a w = Some (ok, v)"
  shows "malloc_fresh v \<and> c_heap w \<subseteq>\<^sub>m c_heap v \<and> exec v = exec (w :: 'a exec_world_scheme)"
proof (cases "symtab_place a (st_head (symtab w))")
  case None
  with assms show ?thesis by (simp add: mut_exec_symtab_add_fun_def)
next
  case (Some pl)
  obtain p u where m: "mut_mem__malloc sizeof_mut_exec_symtab_fun 49 symtab_file w = Some (p, u)"
    using assms(2) Some by (cases pl) (auto simp: mut_exec_symtab_add_fun_def mut_exec_symtab_fun_open_def split: bind_splits)
  have "malloc_fresh u \<and> c_heap w \<subseteq>\<^sub>m c_heap u \<and> exec u = exec w"
    using assms(1) m by (cases rule: mut_mem__malloc_cases) (auto simp: map_le_def assms(1))
  moreover have "malloc_fresh v = malloc_fresh u \<and> c_heap v = c_heap u \<and> exec v = exec u"
    using assms(2) Some m symtab_mem_full_frame [of u v] by (cases pl; cases "p = 0")
      (auto elim!: io_onlyE simp: malloc_fresh_def mut_exec_symtab_add_fun_def mut_exec_symtab_fun_open_def split: bind_splits)
  ultimately show ?thesis by simp
qed

lemma string_at_keeps:
  assumes "c_heap w \<subseteq>\<^sub>m c_heap v" and "d \<in> dom (c_heap w)"
  shows "string_at v (At d i) = string_at w (At d i)"
  using assms by (auto simp: string_at_def map_le_def)

lemma functions_loop_names:
  "functions_loop ss w = Some (True, v) \<Longrightarrow> malloc_fresh w \<Longrightarrow> es_data (strtab (exec w)) \<in> dom (c_heap w) \<Longrightarrow>
   symtab_sorted (symtab w) \<Longrightarrow>
   symtab_sorted (symtab v) \<and> symtab_names (symtab v) =
     map_of (map (function_entry w) (filter mut_exec_functions_is_function ss)) ++ symtab_names (symtab w)"
proof (induction ss arbitrary: w)
  case (Cons s ss)
  show ?case
  proof (cases "mut_exec_functions_is_function s")
    case False
    then show ?thesis using Cons by (auto split: bind_splits)
  next
    case True
    let ?e = "function_entry w s" and ?d = "es_data (strtab (exec w))"
    obtain x where x: "mut_exec_symtab_add_fun (snd ?e) (fst ?e) w = Some (True, x)" "functions_loop ss x = Some (True, v)"
      using Cons.prems(1) True
      by (auto simp: function_entry_def aout_strtab_lookup_def Let_def split: bind_splits if_splits list.splits)
    note keeps = symtab_add_fun_keeps [OF Cons.prems(2) x(1)]
    then have entry: "function_entry x = function_entry w"
      using string_at_keeps [of w x ?d] Cons.prems(3) by (auto simp: function_entry_def fun_eq_iff Let_def)
    have "symtab_sorted (symtab x)" "symtab_names (symtab x) =
        (if fst ?e \<notin> dom (symtab_names (symtab w)) then (symtab_names (symtab w))(fst ?e \<mapsto> snd ?e) else symtab_names (symtab w))"
      using mut_exec_symtab_add_fun_result [OF Cons.prems(4) x(1)] by simp_all
    moreover have "?d \<in> dom (c_heap x)" using keeps Cons.prems(3) by (auto dest: map_le_implies_dom_le)
    ultimately show ?thesis
      using Cons.IH [OF x(2)] keeps entry True by (cases ?e) (auto simp: map_add_def fun_eq_iff split: option.splits)
  qed
qed simp

text \<open>The test of the type looks at one bit, which symbols in the data segment have too.\<close>

lemma is_function_values:
  "n_type s = 4 \<Longrightarrow> mut_exec_functions_is_function s" "n_type s = 6 \<Longrightarrow> mut_exec_functions_is_function s"
  "n_type s = 8 \<Longrightarrow> \<not> mut_exec_functions_is_function s" "n_type s = 30 \<Longrightarrow> \<not> mut_exec_functions_is_function s"
  by (simp_all add: mut_exec_functions_is_function_def N_TEXT_def N_TYPE_def)

section \<open>Properties\<close>


definition sample_host :: aout_host where
  "sample_host = \<lparr>n_badmag = (\<lambda>h. le16 0 h \<noteq> 0x10B), n_getmagic = le16 0, n_getmid = (\<lambda>h. ucast (h ! 2)),
     n_stroff = (\<lambda>h. 32 + a_syms h), n_symoff = (\<lambda>h. 32), mut_aout_mach = 100\<rparr>"

definition sample_aout_header :: "u8 \<Rightarrow> u8 list" where
  "sample_aout_header n = [0x0B, 1, 100, 0, 0, 0, 0, 0, 0, 0, 0, 0, 0, 0, 0, 0, n, 0, 0, 0, 0, 0, 0, 0, 0, 0, 0, 0, 0, 0, 0, 0]"

definition sample_names :: "u8 list" where
  "sample_names = [13, 0, 0, 0, 0x5F, 0x6D, 0x61, 0x69, 0x6E, 0, 0x64, 0x31, 0]"

text \<open>A file whose symbols do not fill their section.\<close>

definition sample_bad_aout :: source where
  "sample_bad_aout = \<lparr>s_bytes = sample_aout_header 1 @ [0] @ sample_names, s_seek_fails = (\<lambda>_. False),
     s_read_fails = (\<lambda>_ _. False), s_close_fails = False, s_errno = (\<lambda>e. e)\<rparr>"

definition sample_aout_reader :: aout_reader where
  "sample_aout_reader = \<lparr>ar_host = sample_host, ar_header = sample_aout_header 1, ar_source = sample_bad_aout,
     ar_file_name = ''a.out'', ar_elems = 0, ar_symbols = []\<rparr>"

lemma sample_start_facts: "mem_wf (sample_start ())" "mem_in_use (sample_start ()) = {}"
  by (simp_all add: sample_start_def sample_world_def mem_in_use_def mut_mem_init_def mem_wf_def mem_defs malloc_fresh_def sample_blocks_def)

lemma sample_aout_strings:
  "\<exists>u. aout_strtab_open sample_aout_reader (sample_start ()) = Some (True, u) \<and> log_idle u \<and> writes_ok u"
  by (simp add: aout_strtab_open_def Let_def sample_aout_reader_def sample_host_def a_syms_def sample_aout_header_def sample_bad_aout_def
      sample_names_def libc_fseek_def libc_fread_def fread_items_def le32_def word_of_bytes_def sizeof_size_t_def sample_mallocs set_exec_def
      heap_fill_from_def log_idle_def sample_log_state_def writes_ok_def)

lemma sample_aout_symbols:
  assumes "log_idle u" and "writes_ok u"
  shows "\<exists>v. read_functions sample_aout_reader u = Some (False, v)"
  using mut_log_message_is_one_line [OF assms]
  by (simp add: read_functions_def mut_exec_reader_symtab_open_def Let_def sample_aout_reader_def a_syms_def sample_aout_header_def
      le32_def word_of_bytes_def sizeof_nlist_def complain_def)


text \<open>
  A failure after the string table has been read leaves it allocated, although no one will close the executable: the
  labels at the end of \<open>mut_exec_open\<close> do not release it.
\<close>

theorem aout_failure_leaks_strings:
  assumes "mem_wf w" and "aout_strtab_open r w = Some (True, u)" and "read_functions r u = Some (False, v)"
  shows "es_data (strtab (exec v)) \<in> mem_in_use v - mem_in_use w"
proof -
  obtain X where X: "es_data (strtab X) \<notin> mem_in_use w" "loading w (insert (es_data (strtab X)) (mem_in_use w)) (symtab w) X u"
    using aout_strtab_new [OF loading_start [OF assms(1)] assms(2)] by auto
  from wheneverD [OF read_functions_outcome [OF X(2,1)] assms(3)] X(1) show ?thesis by simp
qed

lemma aout_failure_leaks_strings_witness:
  "\<exists>u v. aout_strtab_open sample_aout_reader (sample_start ()) = Some (True, u) \<and>
     read_functions sample_aout_reader u = Some (False, v) \<and> mem_in_use v \<noteq> {}"
proof -
  obtain u v where r: "aout_strtab_open sample_aout_reader (sample_start ()) = Some (True, u)"
     "read_functions sample_aout_reader u = Some (False, v)"
    using sample_aout_strings sample_aout_symbols by blast
  from aout_failure_leaks_strings [OF sample_start_facts(1) this] r show ?thesis by blast
qed


definition sample_symbols :: "nlist list" where
  "sample_symbols = [\<lparr>n_strx = 4, n_type = 4, n_value = 0x2000\<rparr>, \<lparr>n_strx = 10, n_type = 6, n_value = 0x3000\<rparr>,
     \<lparr>n_strx = 10, n_type = 8, n_value = 0x4000\<rparr>, \<lparr>n_strx = 10, n_type = 4, n_value = 0x2000\<rparr>]"

definition sample_loaded :: exec_world where
  "sample_loaded = mut_exec_symtab_open ((sample_start ())\<lparr>c_heap := [0x8000 \<mapsto> sample_names],
     exec := (sample_exec\<lparr>strtab := \<lparr>es_data = 0x8000, es_size = 13\<rparr>\<rparr>)\<rparr>)"


end
