(* ===== verification/MutDiv.thy ===== *)
theory MutDiv
  imports MutUint64
begin

text \<open>
  The experiments with division by ten that the output of the counters grew out of, src/misc/div: the two approximations by
  shifts with the correction that makes them exact (div_8_10.c, div_16_10.c), and the division by nibbles of
  32-bit and 64-bit numbers (div_32_16.c, div_64_16.c).
\<close>

section \<open>Approximations by shifts\<close>

definition div_8_10_shift :: "u32 \<Rightarrow> u32" where
  "div_8_10_shift i = drop_bit 4 i + drop_bit 5 i + drop_bit 7 i"

definition div_16_10_shift :: "u32 \<Rightarrow> u32" where
  "div_16_10_shift i =
     drop_bit 3 i - drop_bit 5 i + drop_bit 8 i + drop_bit 9 i + drop_bit 11 i - drop_bit 13 i + drop_bit 16 i"

text \<open>
  The branches that the two programs share: the corrected quotient, how far the approximation was off, and the greatest errors
  so far, above and below.
\<close>

definition div_correct :: "u32 \<Rightarrow> u32 \<Rightarrow> u32 \<times> u32 \<Rightarrow> u32 \<times> u32 \<times> u32 \<times> u32" where
  "div_correct i shift_quotient maxima =
     (let (max_over, max_under) = maxima;
          approx = push_bit 3 shift_quotient + push_bit 1 shift_quotient
      in if i < approx then
           let diff = approx - i
           in (shift_quotient - (diff - 1) div 10 - 1, diff, (if max_over < diff then diff else max_over), max_under)
         else if approx < i then
           let diff = i - approx
           in (shift_quotient + diff div 10, diff, max_over, (if max_under < diff then diff else max_under))
         else (shift_quotient, 0, max_over, max_under))"

text \<open>The main programs: the numbers on each line they print for a wrong quotient, and those of the last line.\<close>

definition USHRT_MAX :: nat where "USHRT_MAX = 65535"

definition div_8_10_round :: "u32 \<Rightarrow> u32 list list \<times> u32 \<times> u32 \<Rightarrow> u32 list list \<times> u32 \<times> u32" where
  "div_8_10_round i out =
     (let (ls, maxima) = out;
          exact_answer = i div 10;
          shift_answer = div_8_10_shift i;
          approx = push_bit 3 shift_answer + push_bit 1 shift_answer;
          (xxx, diff, maxima) = div_correct i shift_answer maxima
      in (if xxx \<noteq> exact_answer then ls @ [[i, exact_answer, shift_answer, approx, diff, xxx]] else ls, maxima))"

definition div_16_10_round :: "u32 \<Rightarrow> u32 list list \<times> u32 \<times> u32 \<Rightarrow> u32 list list \<times> u32 \<times> u32" where
  "div_16_10_round i out =
     (let (ls, maxima) = out;
          exact_answer = i div 10;
          shift_quotient = div_16_10_shift i;
          approx = push_bit 3 shift_quotient + push_bit 1 shift_quotient;
          (xxx, diff, maxima) = div_correct i shift_quotient maxima
      in (if xxx \<noteq> exact_answer then ls @ [[i, exact_answer, shift_quotient, approx, xxx]] else ls, maxima))"

definition div_8_10_main :: "u32 list list \<times> u32 \<times> u32" where
  "div_8_10_main = fold (\<lambda>i. div_8_10_round (of_nat i)) [0..<Suc (USHRT_MAX * 1000)] ([], 0, 0)"

definition div_16_10_main :: "u32 list list \<times> u32 \<times> u32" where
  "div_16_10_main = fold (\<lambda>i. div_16_10_round (of_nat i)) [0..<Suc (USHRT_MAX * 10000)] ([], 0, 0)"

section \<open>Division by nibbles\<close>

definition nibble_bits :: nat where "nibble_bits = 4"
definition nibble_mask :: u32 where "nibble_mask = push_bit nibble_bits 1 - 1"
definition byte_bits :: nat where "byte_bits = nibble_bits * 2"
definition byte_mask :: u32 where "byte_mask = push_bit byte_bits 1 - 1"

text \<open>The loops count the iterations left; the shift is a natural number, as it is negative in C only after its last use.\<close>

fun udiv32_loop :: "nat \<Rightarrow> nat \<Rightarrow> u32 \<Rightarrow> u32 \<Rightarrow> u32 \<Rightarrow> u32" where
  "udiv32_loop 0 s n msk ans = ans"
| "udiv32_loop (Suc i) s n msk ans =
     (let x = drop_bit s n AND msk;
          q = x div 10;
          m = x mod 10;
          ans = push_bit nibble_bits ans OR q;
          msk = (if x = 0 then push_bit nibble_bits msk OR msk else byte_mask);
          n = push_bit s m OR (n AND NOT (push_bit s nibble_mask));
          s = s - nibble_bits
      in udiv32_loop i s n msk ans)"

definition udiv32 :: "u32 \<Rightarrow> u32" where
  "udiv32 n = udiv32_loop ((4 * byte_bits) div nibble_bits) (4 * byte_bits - nibble_bits) n nibble_mask 0"

function udiv_hi_loop :: "nat \<Rightarrow> u32 \<Rightarrow> u32 \<Rightarrow> u32 \<Rightarrow> u32 \<times> u32 \<times> u32" where
  "udiv_hi_loop s h msk ans_hi =
     (let x = drop_bit s h AND msk;
          q = x div 10;
          m = x mod 10;
          ans_hi = push_bit nibble_bits ans_hi OR q;
          msk = (if x = 0 then push_bit nibble_bits msk OR msk else byte_mask);
          h = push_bit s m OR (h AND NOT (push_bit s nibble_mask));
          s = s - nibble_bits
      in if s \<noteq> 0 then udiv_hi_loop s h msk ans_hi else (h, msk, ans_hi))"
  by pat_completeness auto
termination by (relation "measure fst") (auto simp: nibble_bits_def)

declare udiv_hi_loop.simps [simp del]

definition udiv :: "mut_uint64 \<Rightarrow> mut_uint64" where
  "udiv n =
     (let s = 4 * byte_bits - nibble_bits;
          (h, msk, ans_hi) = udiv_hi_loop s (hi n) nibble_mask 0;
          x = h AND msk;
          q = x div 10;
          m = x mod 10;
          ans_hi = push_bit nibble_bits ans_hi OR q;
          msk = byte_mask;
          s = 4 * byte_bits - nibble_bits;
          l = lo n;
          x = (push_bit nibble_bits m OR drop_bit s l) AND msk;
          q = x div 10;
          m = x mod 10;
          ans_lo = push_bit nibble_bits 0 OR q;
          msk = (if x = 0 then push_bit nibble_bits msk OR msk else byte_mask);
          l = push_bit s m OR (l AND NOT (push_bit s nibble_mask));
          s = s - nibble_bits;
          ans_lo = udiv32_loop ((4 * byte_bits) div nibble_bits - 1) s l msk ans_lo
      in \<lparr>hi = ans_hi, lo = ans_lo\<rparr>)"

text \<open>The conversions of div_64_16.c, where \<open>ULONG_MAX\<close> is that of 32 bits.\<close>

definition uint64_from_ulong_long :: "64 word \<Rightarrow> mut_uint64" where
  "uint64_from_ulong_long x = \<lparr>hi = ucast (x div 0x100000000), lo = ucast (x mod 0x100000000)\<rparr>"

definition uint64_to_ulong_long :: "mut_uint64 \<Rightarrow> 64 word" where
  "uint64_to_ulong_long x = ucast (hi x) * 0x100000000 + ucast (lo x)"

text \<open>The main programs: each line that is printed, a wrong quotient after the letter W.\<close>

definition div_32_16_round :: "u32 \<Rightarrow> (string \<times> u32 list) list" where
  "div_32_16_round i =
     (let exact_answer = i div 10; xxx = udiv32 i
      in (if xxx \<noteq> exact_answer then [(''W'', [i, exact_answer, xxx])] else []) @ [([], [i, exact_answer, xxx])])"

definition div_32_16_main :: "(string \<times> u32 list) list" where
  "div_32_16_main = concat (map (\<lambda>i. div_32_16_round (of_nat i)) [0x6000..<0x6010])"

definition div_64_16_round :: "64 word \<Rightarrow> (string \<times> 64 word list) list" where
  "div_64_16_round i =
     (let exact_answer = i div 10;
          uii = uint64_from_ulong_long i;
          xxx = udiv uii;
          yyy = uint64_to_ulong_long xxx
      in (if i mod push_bit 20 1 = 0 then [(''I='', [i])] else []) @
         (if yyy \<noteq> exact_answer then [(''W'', [i, exact_answer, yyy])] else []))"

definition div_64_16_main :: "(string \<times> 64 word list) list" where
  "div_64_16_main = concat (map (\<lambda>i. div_64_16_round (of_nat i)) [2 ^ 64 - 1 - 20..<2 ^ 64 - 1])"

section \<open>The division by nibbles is that of the counters\<close>

lemmas nibble_consts = nibble_bits_def nibble_mask_def byte_bits_def byte_mask_def

lemma nibble_vals: "nibble_bits = 4" "byte_bits = 8" "nibble_mask = 15" "byte_mask = 255"
  by (simp_all add: nibble_consts)

lemma udiv32_loop_lo: "udiv32_loop i s n msk ans = fst (udiv10_lo i s n msk ans r)"
  by (induction i arbitrary: s n msk ans r)
    (simp_all add: Let_def nibble_vals udiv10_vals udiv10_mask_def udiv10_put_def)

lemma udiv_hi_loop_hi: "udiv_hi_loop s h msk ans = udiv10_hi s h msk ans"
  by (induction s h msk ans rule: udiv_hi_loop.induct)
    (subst udiv_hi_loop.simps, subst udiv10_hi.simps,
      simp add: Let_def nibble_vals udiv10_vals udiv10_mask_def udiv10_put_def)

lemma udiv_udiv10: "udiv n = fst (mut_uint64_udiv10 n)"
  by (simp add: udiv_def mut_uint64_udiv10_def Let_def nibble_vals udiv10_vals udiv_hi_loop_hi udiv10_mask_def udiv10_put_def
      udiv32_loop_lo [symmetric] case_prod_beta)

text \<open>The loop over the high word and the nibble after it are the loop over one word.\<close>

lemma udiv10_hi_lo:
  "0 < i \<Longrightarrow> (case udiv10_hi (4 * i) n msk ans of (h, msk, ans) \<Rightarrow> push_bit 4 ans OR (h AND msk) div 10) =
     udiv32_loop (Suc i) (4 * i) n msk ans"
proof (induction i arbitrary: n msk ans)
  case (Suc i)
  then show ?case
    by (cases i; subst udiv10_hi.simps) (simp_all add: Let_def nibble_vals udiv10_vals udiv10_mask_def udiv10_put_def)
qed simp

lemma udiv32_hi: "udiv32 n = hi (fst (mut_uint64_udiv10 \<lparr>hi = n, lo = 0\<rparr>))"
  using udiv10_hi_lo [of 7 n 15 0]
  by (simp add: udiv32_def mut_uint64_udiv10_def Let_def nibble_vals udiv10_vals split: prod.splits)

section \<open>The correction is exact\<close>

text \<open>Whatever the approximation is: the correction gives the quotient as long as ten times the approximation fits into a word.\<close>

lemma div_correct_exact:
  assumes "10 * unat q < 2 ^ 32"
  shows "fst (div_correct i q maxima) = i div 10"
proof -
  have "push_bit 3 q + push_bit 1 q = 10 * q" by (simp add: push_bit_eq_mult algebra_simps flip: distrib_left)
  then have a: "push_bit 3 q + push_bit (Suc 0) q = 10 * q" by simp
  have ua: "unat (10 * q) = 10 * unat q" using assms by (simp add: unat_word_ariths)
  consider "unat i < 10 * unat q" | "10 * unat q < unat i" | "10 * unat q = unat i" by linarith
  then have "unat (fst (div_correct i q maxima)) = unat i div 10"
  proof cases
    case 1
    then have lt: "i < 10 * q" by (simp add: word_less_nat_alt ua)
    have d: "unat (10 * q - i) = 10 * unat q - unat i" using 1 ua by (simp add: unat_sub word_le_nat_alt)
    have d1: "unat (10 * q - i - 1) = 10 * unat q - unat i - 1" using 1 d by (subst unat_sub) (simp_all add: word_le_nat_alt)
    have "(10 * unat q - unat i - 1) div 10 + 1 \<le> unat q" using 1 by linarith
    then have "unat (q - (10 * q - i - 1) div 10 - 1) = unat q - (10 * unat q - unat i - 1) div 10 - 1"
      using d1 by (subst unat_sub, simp add: word_le_nat_alt unat_sub unat_div)
        (simp add: unat_sub word_le_nat_alt unat_div)
    then show ?thesis using 1 lt a by (simp add: div_correct_def Let_def split_beta)
  next
    case 2
    then have gt: "10 * q < i" "\<not> i < 10 * q" by (simp_all add: word_less_nat_alt ua)
    have d: "unat (i - 10 * q) = unat i - 10 * unat q" using 2 ua by (simp add: unat_sub word_le_nat_alt)
    have "(unat i - 10 * unat q) div 10 \<le> unat i - 10 * unat q" by simp
    then have "unat q + (unat i - 10 * unat q) div 10 < 2 ^ 32" using unat_u32_less [of i] 2 by simp
    then have "unat (q + (i - 10 * q) div 10) = unat q + (unat i - 10 * unat q) div 10"
      using d by (simp add: unat_word_ariths unat_div)
    then show ?thesis using 2 gt a by (simp add: div_correct_def Let_def split_beta)
  next
    case 3
    then have "\<not> i < 10 * q" "\<not> 10 * q < i" by (simp_all add: word_less_nat_alt ua)
    then show ?thesis using 3 a by (simp add: div_correct_def Let_def split_beta)
  qed
  then show ?thesis by (simp add: word_unat_eq_iff unat_div)
qed

lemma drop_bit_of_nat: "drop_bit n i = (of_nat (unat i div 2 ^ n) :: u32)"
  using arg_cong [OF unat_drop_bit_eq [of n i], where f = "of_nat :: nat \<Rightarrow> u32"] by (simp add: drop_bit_eq_div)

lemma unat_of_nat_le: "unat (of_nat k :: u32) \<le> k"
  by (simp add: unat_of_nat)

lemma div_8_10_small: "unat i \<le> 65535000 \<Longrightarrow> 10 * unat (div_8_10_shift i) < 2 ^ 32"
proof -
  assume i: "unat i \<le> 65535000"
  have "div_8_10_shift i = of_nat (unat i div 16 + unat i div 32 + unat i div 128)"
    by (simp add: div_8_10_shift_def drop_bit_of_nat)
  then have "unat (div_8_10_shift i) \<le> unat i div 16 + unat i div 32 + unat i div 128" by (simp only: unat_of_nat_le)
  also have "\<dots> \<le> unat i + unat i + unat i" by (intro add_mono div_le_dividend)
  finally show ?thesis using i by simp
qed

lemma div_16_10_small: "unat i \<le> 655350000 \<Longrightarrow> 10 * unat (div_16_10_shift i) < 2 ^ 32"
proof -
  assume i: "unat i \<le> 655350000"
  let ?n = "unat i"
  have le: "?n div 32 \<le> ?n div 8" "?n div 8192 \<le> ?n div 2048" by (intro div_le_mono2; simp)+
  then have "div_16_10_shift i =
      of_nat (?n div 8 - ?n div 32 + ?n div 256 + ?n div 512 + (?n div 2048 - ?n div 8192) + ?n div 65536)"
    by (simp add: div_16_10_shift_def drop_bit_of_nat of_nat_diff)
  then have "unat (div_16_10_shift i) \<le> ?n div 8 - ?n div 32 + ?n div 256 + ?n div 512 + (?n div 2048 - ?n div 8192) + ?n div 65536"
    by (simp only: unat_of_nat_le)
  also have "\<dots> \<le> ?n div 8 + ?n div 8 + ?n div 8 + ?n div 8 + ?n div 8"
    by (intro add_mono diff_le_self [THEN order_trans] div_le_mono2) simp_all
  finally have "unat (div_16_10_shift i) \<le> 5 * (?n div 8)" by simp
  moreover have "8 * (?n div 8) \<le> ?n" by simp
  ultimately have "10 * unat (div_16_10_shift i) < 4294967296" using i by linarith
  then show ?thesis by simp
qed

section \<open>The main programs\<close>

lemma fold_keeps: "(\<And>i x. i \<in> set is \<Longrightarrow> P x \<Longrightarrow> P (f i x)) \<Longrightarrow> P x \<Longrightarrow> P (fold f is x)"
  by (induction "is" arbitrary: x) auto

lemma div_8_10_main_silent: "fst div_8_10_main = []"
  unfolding div_8_10_main_def
proof (rule fold_keeps [where P = "\<lambda>x. fst x = []"], goal_cases)
  case (1 i x)
  then have "unat (of_nat i :: u32) \<le> 65535000" using unat_of_nat_le [of i] by (simp add: USHRT_MAX_def)
  from div_correct_exact [OF div_8_10_small [OF this]] 1 show ?case
    by (auto simp: div_8_10_round_def Let_def split: prod.splits) (metis fst_conv)+
qed simp

lemma div_16_10_main_silent: "fst div_16_10_main = []"
  unfolding div_16_10_main_def
proof (rule fold_keeps [where P = "\<lambda>x. fst x = []"], goal_cases)
  case (1 i x)
  then have "unat (of_nat i :: u32) \<le> 655350000" using unat_of_nat_le [of i] by (simp add: USHRT_MAX_def)
  from div_correct_exact [OF div_16_10_small [OF this]] 1 show ?case
    by (auto simp: div_16_10_round_def Let_def split: prod.splits) (metis fst_conv)+
qed simp

lemma udiv_val: "u64_val (udiv n) = u64_val n div 10"
  by (simp add: udiv_udiv10 udiv10_fst)

lemma udiv32_div: "udiv32 n = n div 10"
proof -
  let ?q = "fst (mut_uint64_udiv10 \<lparr>hi = n, lo = 0\<rparr>)"
  have "(a * 2 ^ 32 + b) div 2 ^ 32 = a" if "b < 2 ^ 32" for a b :: nat using that by simp
  moreover have "unat (lo ?q) < 2 ^ 32" using unat_u32_less [of "lo ?q"] by simp
  ultimately have "unat (hi ?q) = u64_val ?q div 2 ^ 32" by (simp only: u64_val_def)
  also have "\<dots> = unat n * 2 ^ 32 div 10 div 2 ^ 32"
    by (simp add: udiv10_fst u64_val_def [of "\<lparr>hi = n, lo = 0\<rparr>"])
  also have "\<dots> = unat n * 2 ^ 32 div 2 ^ 32 div 10" by (metis div_mult2_eq mult.commute)
  also have "\<dots> = unat n div 10" by simp
  finally show ?thesis by (simp add: udiv32_hi word_unat_eq_iff unat_div)
qed

lemma unat_u64_less: "unat (x :: 64 word) < 2 ^ 64"
  using unsigned_less [of x, where 'a = nat] by simp

lemma from_ulong_long_val: "u64_val (uint64_from_ulong_long x) = unat x"
proof -
  have "unat (x div 0x100000000) < 2 ^ 32" using unat_u64_less [of x] by (simp add: unat_div less_mult_imp_div_less)
  moreover have "unat (x mod 0x100000000) < 2 ^ 32" by (simp add: unat_mod)
  ultimately have "unat (ucast (x div 0x100000000) :: u32) = unat x div 2 ^ 32" "unat (ucast (x mod 0x100000000) :: u32) = unat x mod 2 ^ 32"
    by (simp_all add: unsigned_ucast_eq take_bit_nat_eq_self_iff take_bit_nat_eq_self unat_div unat_mod)
  then show ?thesis by (simp add: uint64_from_ulong_long_def u64_val_def)
qed

lemma to_ulong_long_val: "unat (uint64_to_ulong_long x) = u64_val x"
proof -
  have "unat (ucast (hi x) :: 64 word) = unat (hi x)" "unat (ucast (lo x) :: 64 word) = unat (lo x)"
    using unat_u32_less [of "hi x"] unat_u32_less [of "lo x"] by (auto simp: unsigned_ucast_eq take_bit_nat_eq_self_iff)
  moreover have "unat (hi x) * 2 ^ 32 + unat (lo x) < 2 ^ 64" using unat_u32_less [of "hi x"] unat_u32_less [of "lo x"] by simp
  ultimately show ?thesis by (simp add: uint64_to_ulong_long_def u64_val_def unat_word_ariths)
qed

lemma div_64_16_exact: "uint64_to_ulong_long (udiv (uint64_from_ulong_long i)) = i div 10"
  by (simp add: word_unat_eq_iff to_ulong_long_val udiv_val from_ulong_long_val unat_div)

section \<open>Properties\<close>

text \<open>
  C33: The experiments show what they are written to show. The two approximations by shifts, once corrected, are exact on all the values
  they are tried on, so no line is printed; the division by nibbles is exact on every value.
\<close>

theorem division_experiments_exact:
  "fst div_8_10_main = [] \<and> fst div_16_10_main = [] \<and>
   (\<forall>n. div_32_16_round n = [([], [n, n div 10, n div 10])]) \<and>
   (\<forall>n. div_64_16_round n = (if n mod push_bit 20 1 = 0 then [(''I='', [n])] else []))"
  by (simp add: div_8_10_main_silent div_16_10_main_silent div_32_16_round_def div_64_16_round_def udiv32_div div_64_16_exact Let_def)

text \<open>The comment of div_8_10.c claims all of the 32-bit numbers: the approximation of the greatest is too large to be checked by the sum of shifts.\<close>

lemma div_8_10_not_exact: "fst (div_correct 0xFFFFFFFF (div_8_10_shift 0xFFFFFFFF) (0, 0)) \<noteq> 0xFFFFFFFF div 10"
  by (simp add: div_correct_def div_8_10_shift_def Let_def)

end
