(* ===== verification/MutDump.thy ===== *)
theory MutDump
  imports MutSession
begin

text \<open>
  The programs that the reader of ELF files grew out of: src/misc/elfd/elf.c, which dumps dynamic executables, src/misc/elfs/elf.c, which dumps
  static ones, and src/misc/stabs/elf.c, the latter with a search for the stabs. They read the whole file into one block and follow
  the offsets in it: a pointer is an offset into the block, and a member read outside of it has no value. What is printed is a
  string, as nothing depends on whether printing succeeds.
\<close>

section \<open>The contents of the file\<close>

type_synonym contents = "u8 list"

definition get8 :: "contents \<Rightarrow> nat \<Rightarrow> u32 option" where
  "get8 f i = (if i < length f then Some (ucast (f ! i)) else None)"

definition get16 :: "contents \<Rightarrow> nat \<Rightarrow> u32 option" where
  "get16 f i = (if i + 2 \<le> length f then Some (le16 i f) else None)"

definition get32 :: "contents \<Rightarrow> nat \<Rightarrow> u32 option" where
  "get32 f i = (if i + 4 \<le> length f then Some (le32 i f) else None)"

definition cstring :: "contents \<Rightarrow> nat \<Rightarrow> string option" where
  "cstring f i = (if 0 \<in> set (drop i f) then Some (map (\<lambda>x. char_of (unat x)) (takeWhile (\<lambda>x. x \<noteq> 0) (drop i f))) else None)"

text \<open>Members of the header of the file, and of the section headers at an offset.\<close>

definition h_type :: "contents \<Rightarrow> u32 option" where "h_type f = get16 f 16"
definition h_phoff :: "contents \<Rightarrow> u32 option" where "h_phoff f = get32 f 28"
definition h_shoff :: "contents \<Rightarrow> u32 option" where "h_shoff f = get32 f 32"
definition h_phentsize :: "contents \<Rightarrow> u32 option" where "h_phentsize f = get16 f 42"
definition h_phnum :: "contents \<Rightarrow> u32 option" where "h_phnum f = get16 f 44"
definition h_shentsize :: "contents \<Rightarrow> u32 option" where "h_shentsize f = get16 f 46"
definition h_shnum :: "contents \<Rightarrow> u32 option" where "h_shnum f = get16 f 48"
definition h_shstrndx :: "contents \<Rightarrow> u32 option" where "h_shstrndx f = get16 f 50"

definition s_name :: "contents \<Rightarrow> nat \<Rightarrow> u32 option" where "s_name f sh = get32 f sh"
definition s_type :: "contents \<Rightarrow> nat \<Rightarrow> u32 option" where "s_type f sh = get32 f (sh + 4)"
definition s_flags :: "contents \<Rightarrow> nat \<Rightarrow> u32 option" where "s_flags f sh = get32 f (sh + 8)"
definition s_addr :: "contents \<Rightarrow> nat \<Rightarrow> u32 option" where "s_addr f sh = get32 f (sh + 12)"
definition s_offset :: "contents \<Rightarrow> nat \<Rightarrow> u32 option" where "s_offset f sh = get32 f (sh + 16)"
definition s_size :: "contents \<Rightarrow> nat \<Rightarrow> u32 option" where "s_size f sh = get32 f (sh + 20)"
definition s_link :: "contents \<Rightarrow> nat \<Rightarrow> u32 option" where "s_link f sh = get32 f (sh + 24)"
definition s_info :: "contents \<Rightarrow> nat \<Rightarrow> u32 option" where "s_info f sh = get32 f (sh + 28)"
definition s_addralign :: "contents \<Rightarrow> nat \<Rightarrow> u32 option" where "s_addralign f sh = get32 f (sh + 32)"
definition s_entsize :: "contents \<Rightarrow> nat \<Rightarrow> u32 option" where "s_entsize f sh = get32 f (sh + 36)"

definition SHT_HASH :: u32 where "SHT_HASH = 5"
definition SHT_DYNAMIC :: u32 where "SHT_DYNAMIC = 6"

text \<open>\<open>&file_contents[h->e_shoff + n*h->e_shentsize]\<close>, with an index of 32 bits.\<close>

definition section_at :: "contents \<Rightarrow> u32 \<Rightarrow> nat option" where
  "section_at f n = do { shoff \<leftarrow> h_shoff f; es \<leftarrow> h_shentsize f; Some (unat (shoff + n * es)) }"

definition fmt_x :: "u32 \<Rightarrow> string" where
  "fmt_x x = map (\<lambda>c. if CHR ''A'' \<le> c then char_of (of_char c + 32 :: nat) else c) (fmt_X x)"

definition nl :: string where "nl = ''\<newline>''"

text \<open>What the host does: the texts of the errors, the file, and the block that \<open>malloc\<close> returns.\<close>

record dump_host =
  dh_open_error :: "string option"
  dh_stat_error :: "string option"
  dh_malloc_error :: "string option"
  dh_read_error :: "string option"
  dh_close_error :: "string option"
  dh_contents :: contents
  dh_block :: u32

text \<open>The status, and what is written to the two streams.\<close>

type_synonym dump_result = "bool \<times> string \<times> string"

section \<open>The dynamic dumper\<close>

definition usage_line :: "string \<Rightarrow> string" where
  "usage_line prog_name = prog_name @ '': executable'' @ nl"

definition display_type :: "u32 \<Rightarrow> string" where
  "display_type t =
     (if t = 0 then '' NONE''
      else if t = 1 then '' relocatable''
      else if t = 2 then ''executable''
      else if t = 3 then ''shared object''
      else if t = 4 then ''core''
      else if t = 0xFF00 then ''processor specific LO type''
      else if t = 0xFFFF then ''processor specific HI type''
      else ''UNKNOWN'')"

definition locate_section_header_string :: "contents \<Rightarrow> u32 \<Rightarrow> string option" where
  "locate_section_header_string f name = do {
     shoff \<leftarrow> h_shoff f;
     ndx \<leftarrow> h_shstrndx f;
     if ndx = 0 then Some ''NONE''
     else do {
       off \<leftarrow> s_offset f (unat shoff + unat sizeof_shdr * unat ndx);
       cstring f (unat off + unat name)
     }
   }"

record table_headers =
  symbol_table_header :: "nat option"
  hash_table_header :: "nat option"
  string_table_header :: "nat option"
  dynamic_table_header :: "nat option"
  plt_header :: "nat option"

text \<open>One turn of the loop: what is printed, the new headers, and whether the function returns.\<close>

definition locate_table_round :: "contents \<Rightarrow> nat \<Rightarrow> table_headers \<Rightarrow> (string \<times> table_headers \<times> bool) option" where
  "locate_table_round f n hs = do {
     sh \<leftarrow> section_at f (of_nat n);
     nm \<leftarrow> s_name f sh;
     name \<leftarrow> locate_section_header_string f nm;
     ty \<leftarrow> s_type f sh;
     off \<leftarrow> s_offset f sh;
     let text = ''TYPE '' @ fmt_d ty @ '' NAME '' @ name @ '' o '' @ fmt_u off @ nl;
     if ty = SHT_HASH then do {
       link \<leftarrow> s_link f sh;
       shnum \<leftarrow> h_shnum f;
       assert_c (link \<le> shnum);
       symbols \<leftarrow> section_at f link;
       symbols_link \<leftarrow> s_link f symbols;
       assert_c (symbols_link \<le> shnum);
       strings \<leftarrow> section_at f symbols_link;
       Some (text @ ''HASHTAB '' @ fmt_u (of_nat n) @ nl @ ''SYMTAB '' @ fmt_d link @ nl @ ''STRTAB '' @ fmt_d symbols_link @ nl,
         hs\<lparr>symbol_table_header := Some symbols, hash_table_header := Some sh, string_table_header := Some strings\<rparr>, True)
     }
     else if ty = SHT_SYMTAB then
       if symbol_table_header hs = None then do {
         link \<leftarrow> s_link f sh;
         strings \<leftarrow> section_at f link;
         Some (text, hs\<lparr>symbol_table_header := Some sh, string_table_header := Some strings\<rparr>, False)
       }
       else Some (text, hs, False)
     else if ty = SHT_DYNSYM then do {
       link \<leftarrow> s_link f sh;
       strings \<leftarrow> section_at f link;
       Some (text, hs\<lparr>symbol_table_header := Some sh, string_table_header := Some strings\<rparr>, False)
     }
     else if ty = SHT_STRTAB then
       Some (text, if string_table_header hs = None then hs\<lparr>string_table_header := Some sh\<rparr> else hs, False)
     else if ty = SHT_PROGBITS then
       Some (text, if name = ''.plt'' then hs\<lparr>plt_header := Some sh\<rparr> else hs, False)
     else if ty = SHT_DYNAMIC then Some (text, hs\<lparr>dynamic_table_header := Some sh\<rparr>, False)
     else Some (text, hs, False)
   }"

fun locate_table_loop :: "contents \<Rightarrow> nat list \<Rightarrow> table_headers \<Rightarrow> (string \<times> table_headers) option" where
  "locate_table_loop f [] hs = Some ([], hs)"
| "locate_table_loop f (n # ns) hs = do {
     (text, hs, stop) \<leftarrow> locate_table_round f n hs;
     if stop then Some (text, hs)
     else do { (rest, hs) \<leftarrow> locate_table_loop f ns hs; Some (text @ rest, hs) }
   }"

definition locate_table_headers :: "contents \<Rightarrow> (string \<times> table_headers) option" where
  "locate_table_headers f = do {
     max \<leftarrow> h_shnum f;
     locate_table_loop f [1..<unat max] \<lparr>symbol_table_header = None, hash_table_header = None, string_table_header = None,
       dynamic_table_header = None, plt_header = None\<rparr>
   }"

definition locate_string :: "contents \<Rightarrow> table_headers \<Rightarrow> u32 \<Rightarrow> string option" where
  "locate_string f hs name = do {
     sth \<leftarrow> string_table_header hs;
     off \<leftarrow> s_offset f sth;
     size \<leftarrow> s_size f sth;
     assert_c (name < size);
     cstring f (unat off + unat name)
   }"

definition hash_step :: "u32 \<Rightarrow> char \<Rightarrow> u32" where
  "hash_step h c =
     (let h = push_bit 4 h + of_nat (of_char c);
          g = h AND 0xF0000000
      in if g \<noteq> 0 then let h = h XOR drop_bit 24 g in h XOR g else h)"

definition elf_hash :: "string \<Rightarrow> u32" where
  "elf_hash name = foldl hash_step 0 name"

fun display_symbols :: "string list \<Rightarrow> string" where
  "display_symbols [] = []"
| "display_symbols (n # ns) = ''XXX '' @ n @ ''='' @ fmt_u (elf_hash n) @ nl @ display_symbols ns"

text \<open>The line for a symbol, and the one that may follow it, where \<open>func\<close> is the number of the function.\<close>

definition display_symbol :: "u32 \<Rightarrow> contents \<Rightarrow> table_headers \<Rightarrow> u32 \<Rightarrow> nat \<Rightarrow> string option" where
  "display_symbol block f hs i symbol = do {
     name \<leftarrow> get32 f symbol;
     str \<leftarrow> locate_string f hs name;
     val \<leftarrow> get32 f (symbol + 4);
     size \<leftarrow> get32 f (symbol + 8);
     info \<leftarrow> get8 f (symbol + 12);
     oth \<leftarrow> get8 f (symbol + 13);
     shndx \<leftarrow> get16 f (symbol + 14);
     Some (''SYM'' @ fmt_u i @ '' ('' @ fmt_p (block + of_nat symbol) @ '') name='' @ fmt_u name @ '' ('' @ str @ ''), addr='' @
       fmt_x val @ '', size='' @ fmt_u size @ '', bind='' @ fmt_u (drop_bit 4 info) @ '', type='' @ fmt_u (mut_elf_st_type info) @
       '', other='' @ fmt_x oth @ '', shndx='' @ fmt_u shndx @ nl)
   }"

definition display_plt :: "contents \<Rightarrow> table_headers \<Rightarrow> u32 \<Rightarrow> nat \<Rightarrow> string option" where
  "display_plt f hs func symbol = do {
     val \<leftarrow> get32 f (symbol + 4);
     case plt_header hs of
       None \<Rightarrow> Some []
     | Some p \<Rightarrow>
         if val = 0 then do {
           addr \<leftarrow> s_addr f p;
           align \<leftarrow> s_addralign f p;
           Some (''PLT addr '' @ fmt_x (addr + func * align) @ nl)
         }
         else Some []
   }"

text \<open>The first argument is the number of symbols left, of \<open>sizeof(Elf32_Sym)\<close> bytes each.\<close>

fun display_symbol_loop :: "nat \<Rightarrow> u32 \<Rightarrow> contents \<Rightarrow> table_headers \<Rightarrow> u32 \<Rightarrow> nat \<Rightarrow> u32 \<Rightarrow> string option" where
  "display_symbol_loop 0 block f hs i symbol func = Some []"
| "display_symbol_loop (Suc k) block f hs i symbol func = do {
     first \<leftarrow> display_symbol block f hs i symbol;
     info \<leftarrow> get8 f (symbol + 12);
     if mut_elf_st_type info = STT_FUNC then do {
       plt \<leftarrow> display_plt f hs func symbol;
       rest \<leftarrow> display_symbol_loop k block f hs (i + 1) (symbol + 16) (func + 1);
       Some (first @ plt @ rest)
     }
     else do {
       rest \<leftarrow> display_symbol_loop k block f hs (i + 1) (symbol + 16) func;
       Some (first @ rest)
     }
   }"

definition display_symbol_table :: "u32 \<Rightarrow> contents \<Rightarrow> table_headers \<Rightarrow> string option" where
  "display_symbol_table block f hs =
     (case symbol_table_header hs of
        None \<Rightarrow> Some []
      | Some sth \<Rightarrow> do {
          off \<leftarrow> s_offset f sth;
          n \<leftarrow> s_size f sth;
          assert_c (n mod sizeof_sym = 0);
          rest \<leftarrow> display_symbol_loop (unat (n div sizeof_sym)) block f hs 1 (unat off) 1;
          Some (''SYMSIZE= '' @ fmt_d sizeof_sym @ '', '' @ fmt_x sizeof_sym @ nl @ rest)
        })"

definition sizeof_dyn :: u32 where "sizeof_dyn = 8"

fun display_dynamic_loop :: "nat \<Rightarrow> contents \<Rightarrow> u32 \<Rightarrow> nat \<Rightarrow> string option" where
  "display_dynamic_loop 0 f i d = Some []"
| "display_dynamic_loop (Suc k) f i d = do {
     tag \<leftarrow> get32 f d;
     val \<leftarrow> get32 f (d + 4);
     rest \<leftarrow> display_dynamic_loop k f (i + 1) (d + 8);
     Some (''DYN'' @ fmt_u i @ '' tag '' @ fmt_u tag @ '' val '' @ fmt_u val @ '' '' @ fmt_x val @ nl @ rest)
   }"

definition display_dynamic_table :: "contents \<Rightarrow> table_headers \<Rightarrow> string option" where
  "display_dynamic_table f hs =
     (case dynamic_table_header hs of
        None \<Rightarrow> Some []
      | Some dth \<Rightarrow> do {
          off \<leftarrow> s_offset f dth;
          n \<leftarrow> s_size f dth;
          entsize \<leftarrow> s_entsize f dth;
          assert_c (sizeof_dyn = entsize);
          assert_c (n mod sizeof_dyn = 0);
          display_dynamic_loop (unat (n div sizeof_dyn)) f 1 (unat off)
        })"

definition section_line :: "nat \<Rightarrow> string \<Rightarrow> string \<Rightarrow> string" where
  "section_line n key val = ''S'' @ fmt_u (of_nat n) @ '' sh_'' @ key @ ''= '' @ val @ nl"

text \<open>The lines for one section; the dumpers differ in how they find its name.\<close>

definition display_section :: "contents \<Rightarrow> (u32 \<Rightarrow> string option) \<Rightarrow> nat \<Rightarrow> string option" where
  "display_section f str n = do {
     sh \<leftarrow> section_at f (of_nat n);
     name \<leftarrow> s_name f sh;
     name_str \<leftarrow> str name;
     ty \<leftarrow> s_type f sh;
     flags \<leftarrow> s_flags f sh;
     addr \<leftarrow> s_addr f sh;
     off \<leftarrow> s_offset f sh;
     size \<leftarrow> s_size f sh;
     link \<leftarrow> s_link f sh;
     info \<leftarrow> s_info f sh;
     align \<leftarrow> s_addralign f sh;
     entsize \<leftarrow> s_entsize f sh;
     Some (section_line n ''name'' (fmt_u name @ '' ('' @ name_str @ '')'') @ section_line n ''type'' (fmt_u ty) @
       section_line n ''flags'' (fmt_x flags) @ section_line n ''addr'' (fmt_x addr) @ section_line n ''offset'' (fmt_u off) @
       section_line n ''size'' (fmt_u size) @ section_line n ''link'' (fmt_u link) @ section_line n ''info'' (fmt_u info) @
       section_line n ''addralign'' (fmt_x align) @ section_line n ''entsize'' (fmt_u entsize))
   }"

fun display_all :: "(nat \<Rightarrow> string option) \<Rightarrow> nat list \<Rightarrow> string option" where
  "display_all g [] = Some []"
| "display_all g (n # ns) = do { text \<leftarrow> g n; rest \<leftarrow> display_all g ns; Some (text @ rest) }"

definition display_section_headers :: "contents \<Rightarrow> string option" where
  "display_section_headers f = do {
     shoff \<leftarrow> h_shoff f;
     if shoff = 0 then Some []
     else do { max \<leftarrow> h_shnum f; display_all (display_section f (locate_section_header_string f)) [1..<unat max] }
   }"

text \<open>The lines for one program header, with the separator of the dumper.\<close>

definition display_program :: "contents \<Rightarrow> string \<Rightarrow> nat \<Rightarrow> string option" where
  "display_program f sep n = do {
     phoff \<leftarrow> h_phoff f;
     es \<leftarrow> h_phentsize f;
     let ph = unat (phoff + of_nat n * es);
     ty \<leftarrow> get32 f ph;
     off \<leftarrow> get32 f (ph + 4);
     vaddr \<leftarrow> get32 f (ph + 8);
     filesz \<leftarrow> get32 f (ph + 16);
     memsz \<leftarrow> get32 f (ph + 20);
     flags \<leftarrow> get32 f (ph + 24);
     align \<leftarrow> get32 f (ph + 28);
     Some (''P'' @ fmt_u (of_nat n) @ '' type'' @ sep @ fmt_u ty @ '' '' @ ''offset'' @ sep @ fmt_u off @ '' '' @ ''vaddr'' @ sep @ fmt_x vaddr @ '' '' @
       ''filesz'' @ sep @ fmt_u filesz @ '' '' @ ''memsz'' @ sep @ fmt_u memsz @ '' '' @ ''flags'' @ sep @ fmt_x flags @ '' '' @ ''align'' @ sep @ fmt_x align @ nl)
   }"

definition display_program_headers :: "contents \<Rightarrow> string option" where
  "display_program_headers f = do {
     phoff \<leftarrow> h_phoff f;
     if phoff = 0 then Some []
     else do { max \<leftarrow> h_phnum f; display_all (display_program f '' '') [0..<unat max] }
   }"

definition display_header :: "contents \<Rightarrow> string option" where
  "display_header f = do {
     ty \<leftarrow> h_type f;
     phentsize \<leftarrow> h_phentsize f;
     phnum \<leftarrow> h_phnum f;
     shentsize \<leftarrow> h_shentsize f;
     shnum \<leftarrow> h_shnum f;
     shstrndx \<leftarrow> h_shstrndx f;
     Some (''E type= '' @ fmt_d ty @ '' ('' @ display_type ty @ '')'' @ nl @ ''E phentsize= '' @ fmt_u phentsize @ nl @
       ''E phnum= '' @ fmt_u phnum @ nl @ ''E shentsize= '' @ fmt_u shentsize @ nl @ ''E shnum= '' @ fmt_u shnum @ nl @
       ''E shstrndx= '' @ fmt_u shstrndx @ nl)
   }"

text \<open>The opening and the closing of \<open>debug\<close>, around what is displayed and whether that counts as a success.\<close>

definition debug_with :: "string \<Rightarrow> dump_host \<Rightarrow> string \<Rightarrow> (contents \<Rightarrow> (bool \<times> string) option) \<Rightarrow> dump_result option" where
  "debug_with prog_name h elf_file_name display =
     (case dh_open_error h of
        Some e \<Rightarrow> Some (False, [], prog_name @ '': could not open '' @ elf_file_name @ '' due to '' @ e @ nl)
      | None \<Rightarrow> (case dh_stat_error h of
        Some e \<Rightarrow> Some (False, [], prog_name @ '': could not determine size of '' @ elf_file_name @ '' due to '' @ e @ nl)
      | None \<Rightarrow> (case dh_malloc_error h of
        Some e \<Rightarrow> Some (False, [], prog_name @ '': could not malloc due to '' @ e @ nl)
      | None \<Rightarrow> (case dh_read_error h of
        Some e \<Rightarrow> Some (False, [], prog_name @ '': could not read '' @ elf_file_name @ '' header due to '' @ e @ nl)
      | None \<Rightarrow> do {
          (ok, text) \<leftarrow> display (dh_contents h);
          if \<not> ok then Some (False, text, [])
          else (case dh_close_error h of
            Some e \<Rightarrow> Some (False, text, prog_name @ '': could not close '' @ elf_file_name @ '' due to '' @ e @ nl)
          | None \<Rightarrow> Some (True, text, []))
        }))))"

definition elfd_display :: "u32 \<Rightarrow> string list \<Rightarrow> contents \<Rightarrow> (bool \<times> string) option" where
  "elfd_display block symbol_names f = do {
     t1 \<leftarrow> display_header f;
     (t2, hs) \<leftarrow> locate_table_headers f;
     t3 \<leftarrow> display_program_headers f;
     t4 \<leftarrow> display_section_headers f;
     t5 \<leftarrow> display_symbol_table block f hs;
     t6 \<leftarrow> display_dynamic_table f hs;
     Some (True, t1 @ t2 @ t3 @ t4 @ t5 @ t6 @ display_symbols symbol_names)
   }"

definition elfd_debug :: "string \<Rightarrow> dump_host \<Rightarrow> string \<Rightarrow> string list \<Rightarrow> dump_result option" where
  "elfd_debug prog_name h elf_file_name symbol_names =
     debug_with prog_name h elf_file_name (elfd_display (dh_block h) symbol_names)"

text \<open>There is no option, so the loop over the options does not get past the first one.\<close>

definition main_with :: "(string \<Rightarrow> string \<Rightarrow> string list \<Rightarrow> dump_result option) \<Rightarrow> string list \<Rightarrow> dump_result option" where
  "main_with debug argv =
     (case argv of
        prog_name # file # names \<Rightarrow>
          if file \<noteq> [] \<and> hd file = CHR ''-'' then Some (False, [], usage_line prog_name) else debug prog_name file names
      | prog_name # [] \<Rightarrow> Some (False, [], usage_line prog_name)
      | [] \<Rightarrow> None)"

definition elfd_main :: "dump_host \<Rightarrow> string list \<Rightarrow> dump_result option" where
  "elfd_main h argv = main_with (\<lambda>prog_name. elfd_debug prog_name h) argv"

section \<open>The static dumper\<close>

text \<open>The first functions are those of the other dumper. The product of the two numbers is one of signed integers.\<close>

definition static_usage_line :: "string \<Rightarrow> string" where "static_usage_line prog_name = usage_line prog_name"
definition static_display_type :: "u32 \<Rightarrow> string" where "static_display_type t = display_type t"

definition static_section_string :: "contents \<Rightarrow> u32 \<Rightarrow> string option" where
  "static_section_string f name = do {
     shoff \<leftarrow> h_shoff f;
     es \<leftarrow> h_shentsize f;
     ndx \<leftarrow> h_shstrndx f;
     assert_c (unat es * unat ndx < 2 ^ 31);
     let section_header = unat (shoff + es * ndx);
     if ndx = 0 then Some ''NONE''
     else do { off \<leftarrow> s_offset f section_header; cstring f (unat off + unat name) }
   }"

text \<open>The loops that look for a section: the first of the sections with a property.\<close>

fun first_section :: "contents \<Rightarrow> (nat \<Rightarrow> nat \<Rightarrow> bool option) \<Rightarrow> nat list \<Rightarrow> nat option option" where
  "first_section f found [] = Some None"
| "first_section f found (n # ns) = do {
     sh \<leftarrow> section_at f (of_nat n);
     yes \<leftarrow> found n sh;
     if yes then Some (Some sh) else first_section f found ns
   }"

definition locate_symbol_table_header :: "contents \<Rightarrow> nat option option" where
  "locate_symbol_table_header f = do {
     max \<leftarrow> h_shnum f;
     first_section f (\<lambda>n sh. do { ty \<leftarrow> s_type f sh; Some (ty = SHT_SYMTAB) }) [1..<unat max]
   }"

definition locate_string_table :: "contents \<Rightarrow> (u32 \<times> u32) option" where
  "locate_string_table f = do {
     max \<leftarrow> h_shnum f;
     table \<leftarrow> first_section f (\<lambda>n sh. do {
         ty \<leftarrow> s_type f sh;
         ndx \<leftarrow> h_shstrndx f;
         if ty = SHT_STRTAB \<and> of_nat n \<noteq> ndx then do {
           nm \<leftarrow> s_name f sh;
           name \<leftarrow> static_section_string f nm;
           Some (name = ''.strtab'')
         }
         else Some False
       }) [1..<unat max];
     sh \<leftarrow> table;
     off \<leftarrow> s_offset f sh;
     assert_c (off \<noteq> 0);
     size \<leftarrow> s_size f sh;
     Some (off, size)
   }"

text \<open>The static variables of the function, once they have been set, are in the second argument and in the result.\<close>

definition static_locate_string :: "contents \<Rightarrow> (u32 \<times> u32) option \<Rightarrow> u32 \<Rightarrow> (string \<times> (u32 \<times> u32) option) option" where
  "static_locate_string f table name = do {
     (off, size) \<leftarrow> (case table of
         None \<Rightarrow> do { (off, size) \<leftarrow> locate_string_table f; assert_c (size > 0); Some (off, size) }
       | Some t \<Rightarrow> Some t);
     assert_c (name < size);
     str \<leftarrow> cstring f (unat off + unat name);
     Some (str, Some (off, size))
   }"

definition static_hash_step :: "u32 \<Rightarrow> char \<Rightarrow> u32" where
  "static_hash_step h c =
     (let h = push_bit 4 h + of_nat (of_char c);
          g = h AND 0xF0000000
      in if g \<noteq> 0 then let h = h XOR drop_bit 24 g in h AND NOT g else h)"

definition static_elf_hash :: "string \<Rightarrow> u32" where
  "static_elf_hash name = foldl static_hash_step 0 name"

fun static_display_symbols :: "string list \<Rightarrow> string" where
  "static_display_symbols [] = []"
| "static_display_symbols (n # ns) =
     (let hash = static_elf_hash n
      in ''XXX '' @ n @ ''='' @ fmt_u hash @ ''/'' @ fmt_u (hash mod 188) @ ''/'' @ fmt_u (hash mod 189) @ ''/'' @ fmt_u (hash mod 190) @ nl @
         static_display_symbols ns)"

fun static_symbol_loop :: "nat \<Rightarrow> u32 \<Rightarrow> contents \<Rightarrow> (u32 \<times> u32) option \<Rightarrow> u32 \<Rightarrow> nat \<Rightarrow> string option" where
  "static_symbol_loop 0 block f table i symbol = Some []"
| "static_symbol_loop (Suc k) block f table i symbol = do {
     name \<leftarrow> get32 f symbol;
     (str, table) \<leftarrow> static_locate_string f table name;
     val \<leftarrow> get32 f (symbol + 4);
     shndx \<leftarrow> get16 f (symbol + 14);
     rest \<leftarrow> static_symbol_loop k block f table (i + 1) (symbol + 16);
     Some (''SYM'' @ fmt_u i @ '' ('' @ fmt_p (block + of_nat symbol) @ '') name='' @ fmt_u name @ '' ('' @ str @ ''), addr='' @ fmt_x val @
       '', shndx='' @ fmt_u shndx @ nl @ rest)
   }"

definition static_display_symbol_table :: "u32 \<Rightarrow> contents \<Rightarrow> string option" where
  "static_display_symbol_table block f = do {
     header \<leftarrow> locate_symbol_table_header f;
     sth \<leftarrow> header;
     off \<leftarrow> s_offset f sth;
     n \<leftarrow> s_size f sth;
     assert_c (n mod sizeof_sym = 0);
     static_symbol_loop (unat (n div sizeof_sym)) block f None 1 (unat off)
   }"

definition static_display_section_headers :: "contents \<Rightarrow> string option" where
  "static_display_section_headers f = do {
     shoff \<leftarrow> h_shoff f;
     if shoff = 0 then Some []
     else do { max \<leftarrow> h_shnum f; display_all (display_section f (static_section_string f)) [1..<unat max] }
   }"

definition static_display_program_headers :: "contents \<Rightarrow> string option" where
  "static_display_program_headers f = do {
     phoff \<leftarrow> h_phoff f;
     if phoff = 0 then Some []
     else do { max \<leftarrow> h_phnum f; display_all (display_program f ''='') [0..<unat max] }
   }"

definition static_display_header :: "contents \<Rightarrow> string option" where "static_display_header f = display_header f"

definition elfs_display :: "u32 \<Rightarrow> string list \<Rightarrow> contents \<Rightarrow> (bool \<times> string) option" where
  "elfs_display block symbol_names f = do {
     t1 \<leftarrow> static_display_header f;
     t2 \<leftarrow> static_display_program_headers f;
     t3 \<leftarrow> static_display_section_headers f;
     t4 \<leftarrow> static_display_symbol_table block f;
     Some (True, t1 @ t2 @ t3 @ t4 @ static_display_symbols symbol_names)
   }"

definition elfs_debug :: "string \<Rightarrow> dump_host \<Rightarrow> string \<Rightarrow> string list \<Rightarrow> dump_result option" where
  "elfs_debug prog_name h elf_file_name symbol_names =
     debug_with prog_name h elf_file_name (elfs_display (dh_block h) symbol_names)"

definition elfs_main :: "dump_host \<Rightarrow> string list \<Rightarrow> dump_result option" where
  "elfs_main h argv = main_with (\<lambda>prog_name. elfs_debug prog_name h) argv"

section \<open>The search for the stabs\<close>

text \<open>Most functions of this dumper are, word for word, those of the static one.\<close>

definition stabs_usage_line :: "string \<Rightarrow> string" where "stabs_usage_line = static_usage_line"
definition stabs_display_type :: "u32 \<Rightarrow> string" where "stabs_display_type = static_display_type"

definition stabs_section_string :: "contents \<Rightarrow> u32 \<Rightarrow> string option" where "stabs_section_string = static_section_string"

definition stabs_locate_symbol_table_header :: "contents \<Rightarrow> nat option option" where
  "stabs_locate_symbol_table_header = locate_symbol_table_header"

definition stabs_locate_string_table :: "contents \<Rightarrow> (u32 \<times> u32) option" where
  "stabs_locate_string_table = locate_string_table"

definition stabs_locate_string :: "contents \<Rightarrow> (u32 \<times> u32) option \<Rightarrow> u32 \<Rightarrow> (string \<times> (u32 \<times> u32) option) option" where
  "stabs_locate_string = static_locate_string"

definition stabs_elf_hash :: "string \<Rightarrow> u32" where "stabs_elf_hash = static_elf_hash"
definition stabs_display_symbols :: "string list \<Rightarrow> string" where "stabs_display_symbols = static_display_symbols"

definition stabs_display_symbol_table :: "u32 \<Rightarrow> contents \<Rightarrow> string option" where
  "stabs_display_symbol_table = static_display_symbol_table"

definition stabs_display_section_headers :: "contents \<Rightarrow> string option" where
  "stabs_display_section_headers = static_display_section_headers"

definition stabs_display_program_headers :: "contents \<Rightarrow> string option" where
  "stabs_display_program_headers = static_display_program_headers"

definition stabs_display_header :: "contents \<Rightarrow> string option" where "stabs_display_header = static_display_header"

definition locate_stab_header :: "contents \<Rightarrow> nat option option" where
  "locate_stab_header f = do {
     max \<leftarrow> h_shnum f;
     first_section f (\<lambda>n sh. do {
         ty \<leftarrow> s_type f sh;
         if ty = SHT_PROGBITS then do {
           nm \<leftarrow> s_name f sh;
           name \<leftarrow> stabs_section_string f nm;
           Some (name = ''.stab'')
         }
         else Some False
       }) [1..<unat max]
   }"

text \<open>The offset that is computed but not used, and the status, which is always a failure.\<close>

definition display_stabs :: "contents \<Rightarrow> (bool \<times> u32) option" where
  "display_stabs f = do {
     header \<leftarrow> locate_stab_header f;
     sh \<leftarrow> header;
     xxx \<leftarrow> s_offset f sh;
     Some (False, xxx)
   }"

definition stabs_display :: "u32 \<Rightarrow> string list \<Rightarrow> contents \<Rightarrow> (bool \<times> string) option" where
  "stabs_display block symbol_names f = do {
     t1 \<leftarrow> stabs_display_header f;
     t2 \<leftarrow> stabs_display_program_headers f;
     t3 \<leftarrow> stabs_display_section_headers f;
     t4 \<leftarrow> stabs_display_symbol_table block f;
     (ok, xxx) \<leftarrow> display_stabs f;
     Some (ok, t1 @ t2 @ t3 @ t4 @ stabs_display_symbols symbol_names)
   }"

definition stabs_debug :: "string \<Rightarrow> dump_host \<Rightarrow> string \<Rightarrow> string list \<Rightarrow> dump_result option" where
  "stabs_debug prog_name h elf_file_name symbol_names =
     debug_with prog_name h elf_file_name (stabs_display (dh_block h) symbol_names)"

definition stabs_main :: "dump_host \<Rightarrow> string list \<Rightarrow> dump_result option" where
  "stabs_main h argv = main_with (\<lambda>prog_name. stabs_debug prog_name h) argv"

section \<open>The hash function\<close>

text \<open>Removing the upper bits by \<open>XOR\<close> or by masking is the same, and what is left always fits into 28 bits.\<close>

lemma top_bits: "bit (0xF0000000 :: u32) n \<longleftrightarrow> 28 \<le> n \<and> n < 32"
proof -
  have "(0xF0000000 :: u32) = push_bit 28 (mask 4)" by (simp add: mask_eq_exp_minus_1)
  then have "bit (0xF0000000 :: u32) n \<longleftrightarrow> bit (push_bit 28 (mask 4 :: u32)) n" by simp
  also have "\<dots> \<longleftrightarrow> 28 \<le> n \<and> n < 32" by (simp only: bit_push_bit_iff bit_mask_iff) auto
  finally show ?thesis .
qed

lemma folded_top:
  fixes x m :: u32
  assumes "\<And>n. bit m n \<longleftrightarrow> 28 \<le> n \<and> n < 32"
  shows "(x XOR drop_bit 24 (x AND m)) XOR (x AND m) = (x XOR drop_bit 24 (x AND m)) AND NOT (x AND m)"
    and "28 \<le> n \<Longrightarrow> \<not> bit ((x XOR drop_bit 24 (x AND m)) AND NOT (x AND m)) n"
    and "x AND m = 0 \<Longrightarrow> 28 \<le> n \<Longrightarrow> \<not> bit x n"
proof -
  show "(x XOR drop_bit 24 (x AND m)) XOR (x AND m) = (x XOR drop_bit 24 (x AND m)) AND NOT (x AND m)"
    by (rule bit_eqI) (auto simp: bit_simps assms)
  show "28 \<le> n \<Longrightarrow> \<not> bit ((x XOR drop_bit 24 (x AND m)) AND NOT (x AND m)) n"
    by (auto simp: bit_simps assms dest: bit_imp_le_length)
  show "\<not> bit x n" if "x AND m = 0" "28 \<le> n"
  proof
    assume b: "bit x n"
    then have "n < 32" by (auto dest: bit_imp_le_length)
    with b that(2) have "bit (x AND m) n" by (simp add: bit_and_iff assms)
    with that(1) show False by simp
  qed
qed

lemma hash_steps_agree: "hash_step h c = static_hash_step h c"
  by (simp only: hash_step_def static_hash_step_def Let_def folded_top(1) [OF top_bits] cong: if_cong)

lemma no_top_bits:
  assumes "\<And>n. 28 \<le> n \<Longrightarrow> \<not> bit (w :: u32) n"
  shows "w < 2 ^ 28"
proof -
  have "take_bit 28 w = w" by (rule bit_eqI) (use assms not_le in \<open>auto simp: bit_take_bit_iff\<close>)
  then have "unat w = take_bit 28 (unat w)" by (metis unsigned_take_bit_eq)
  also have "\<dots> < 2 ^ 28" by (rule take_bit_nat_less_exp)
  finally show ?thesis by (simp add: word_less_nat_alt)
qed

lemma static_hash_step_bound: "static_hash_step h c < 2 ^ 28"
  unfolding static_hash_step_def Let_def
  by (intro no_top_bits) (use folded_top(2,3) [OF top_bits] in \<open>auto split: if_splits\<close>)

lemma elf_hash_agree: "elf_hash name = static_elf_hash name"
  by (simp add: elf_hash_def static_elf_hash_def hash_steps_agree [abs_def])

lemma static_elf_hash_bound: "static_elf_hash name < 2 ^ 28"
proof (cases name rule: rev_cases)
  case (snoc cs c)
  then show ?thesis by (simp add: static_elf_hash_def) (use static_hash_step_bound in simp)
qed (simp add: static_elf_hash_def)

section \<open>The entries of the procedure linkage table\<close>

text \<open>What follows the line of each symbol, where \<open>n\<close> is the number of the next function.\<close>

fun plt_texts :: "mut_elf_shdr option \<Rightarrow> nat \<Rightarrow> mut_elf_sym list \<Rightarrow> string list" where
  "plt_texts pl n [] = []"
| "plt_texts pl n (s # ss) =
     (if is_func s \<and> st_value s = 0 \<and> pl \<noteq> None then ''PLT addr '' @ fmt_x (symbol_addr pl n s) @ nl else []) #
     plt_texts pl (if is_func s then Suc n else n) ss"

lemma le32_drop: "p + i + 4 \<le> length f \<Longrightarrow> le32 i (drop p f) = le32 (p + i) f"
  by (simp add: le32_def add.assoc)

lemma get_le32: "get32 f i = Some v \<Longrightarrow> v = le32 i f \<and> i + 4 \<le> length f"
  by (simp add: get32_def split: if_splits)

lemma sym_of_get:
  assumes "get32 f p = Some name" and "get32 f (p + 4) = Some val" and "get8 f (p + 12) = Some info" and "get16 f (p + 14) = Some x"
  shows "sym_of (take 16 (drop p f)) = \<lparr>st_name = name, st_value = val, st_info = info\<rparr>"
  using assms by (auto simp: sym_of_def get32_def get8_def get16_def le32_def add.assoc add.commute [of p] split: if_splits)

lemma symbol_loop_plt:
  "display_symbol_loop k block f hs i p (of_nat n) = Some text \<Longrightarrow>
   \<exists>ls. length ls = k \<and> text = concat (map2 (@) ls
     (plt_texts (map_option (\<lambda>q. shdr_of (drop q f)) (plt_header hs)) n (map sym_of (chunks k 16 (drop p f)))))"
proof (induction k arbitrary: i p n "text")
  case (Suc k)
  let ?pl = "map_option (\<lambda>q. shdr_of (drop q f)) (plt_header hs)"
  obtain first info where first: "display_symbol block f hs i p = Some first" and info: "get8 f (p + 12) = Some info"
    using Suc.prems by (auto split: bind_splits)
  obtain name val x where get: "get32 f p = Some name" "get32 f (p + 4) = Some val" "get16 f (p + 14) = Some x"
    using first by (auto simp: display_symbol_def split: bind_splits)
  define s where "s = sym_of (take 16 (drop p f))"
  have s: "st_value s = val" "is_func s = (mut_elf_st_type info = STT_FUNC)"
    unfolding s_def by (simp_all add: sym_of_get [OF get(1,2) info get(3)] is_func_def)
  let ?n = "if is_func s then Suc n else n"
  obtain plt rest where rest: "display_symbol_loop k block f hs (i + 1) (p + 16) (of_nat ?n) = Some rest"
    and plt: "if is_func s then display_plt f hs (of_nat n) p = Some plt else plt = []" and tx: "text = first @ plt @ rest"
    using Suc.prems first info s(2) by (auto simp: add.commute split: bind_splits if_splits)
  obtain ls where ls: "length ls = k" "rest = concat (map2 (@) ls (plt_texts ?pl ?n (map sym_of (chunks k 16 (drop (p + 16) f)))))"
    using Suc.IH [OF rest] by blast
  have "plt = (if is_func s \<and> st_value s = 0 \<and> ?pl \<noteq> None then ''PLT addr '' @ fmt_x (symbol_addr ?pl n s) @ nl else [])"
    using plt get(2) by (auto simp: display_plt_def s symbol_addr_def shdr_of_def s_addr_def s_addralign_def le32_drop
        dest!: get_le32 split: if_splits option.splits bind_splits)
  then show ?case
    using ls tx by (intro exI [of _ "first # ls"]) (simp add: s_def add.commute)
qed simp

section \<open>Properties\<close>

text \<open>The hash functions of the dumpers are the same function, with values of 28 bits.\<close>

theorem elf_hash_variants_agree: "elf_hash name = static_elf_hash name \<and> elf_hash name < 2 ^ 28"
  using static_elf_hash_bound by (simp add: elf_hash_agree)

text \<open>
  C32: What the dynamic dumper was written to find out: after the line of a function without an address it prints, when there is a
  procedure linkage table, the address that the reader of MUT enters for this symbol, numbering the functions as the reader does.
\<close>

theorem dump_plt_addresses_of_reader:
  assumes "symbol_table_header hs = Some sth" and "display_symbol_table block f hs = Some text"
  shows "\<exists>off n ls. s_offset f sth = Some off \<and> s_size f sth = Some n \<and> length ls = unat n div 16 \<and>
    text = ''SYMSIZE= 16, 10'' @ nl @ concat (map2 (@) ls
      (plt_texts (map_option (\<lambda>q. shdr_of (drop q f)) (plt_header hs)) 1 (map sym_of (chunks (unat n div 16) 16 (drop (unat off) f)))))"
proof -
  obtain off n rest where r: "s_offset f sth = Some off" "s_size f sth = Some n"
     "display_symbol_loop (unat n div 16) block f hs 1 (unat off) (of_nat 1) = Some rest"
     "text = ''SYMSIZE= '' @ fmt_d sizeof_sym @ '', '' @ fmt_x sizeof_sym @ nl @ rest"
    using assms by (auto simp: display_symbol_table_def sizeof_sym_def unat_div split: bind_splits)
  have "fmt_d sizeof_sym = ''16''" "fmt_x sizeof_sym = ''10''"
    by (simp_all add: sizeof_sym_def fmt_d_def fmt_x_def fmt_X_def hex_string.simps dec_string.simps digit_char_def char_of_def bit_simps)
  with r symbol_loop_plt [OF r(3)] show ?thesis by auto
qed

text \<open>The header of a procedure linkage table and of a string table, a function without an address, and the strings.\<close>

definition sample_dump :: contents where
  "sample_dump = [0, 0, 0, 0, 0, 0, 0, 0, 0, 0, 0, 0, 0, 0x70, 0, 0, 0, 0, 0, 0, 0, 0, 0, 0, 0, 0, 0, 0, 0, 0, 0, 0, 16, 0, 0, 0, 0, 0, 0, 0,
     0, 0, 0, 0, 0, 0, 0, 0, 0, 0, 0, 0, 0, 0, 0, 0, 96, 0, 0, 0, 8, 0, 0, 0, 0, 0, 0, 0, 0, 0, 0, 0, 0, 0, 0, 0, 0, 0, 0, 0,
     1, 0, 0, 0, 0, 0, 0, 0, 0, 0, 0, 0, 0x12, 0, 0, 0, 0, 0x66, 0, 0, 0, 0, 0, 0,
     0, 0, 0, 0, 0, 0, 0, 0, 0, 0, 0, 0, 0, 0, 0, 0, 80, 0, 0, 0, 16, 0, 0, 0, 0, 0, 0, 0, 0, 0, 0, 0, 0, 0, 0, 0, 0, 0, 0, 0]"

definition sample_tables :: table_headers where
  "sample_tables = \<lparr>symbol_table_header = Some 104, hash_table_header = None, string_table_header = Some 40,
     dynamic_table_header = None, plt_header = Some 0\<rparr>"

lemma dump_plt_addresses_of_reader_witness:
  "\<exists>out l. display_symbol_table 0 sample_dump sample_tables = Some out \<and>
     out = ''SYMSIZE= 16, 10'' @ nl @ l @ ''PLT addr 7010'' @ nl"
proof -
  obtain out where r: "display_symbol_table 0 sample_dump sample_tables = Some out"
    by (simp add: display_symbol_table_def sample_tables_def sample_dump_def s_offset_def s_size_def get32_def get8_def get16_def le32_def le16_def
        word_of_bytes_def sizeof_sym_def display_symbol_def display_plt_def locate_string_def cstring_def mut_elf_st_type_def STT_FUNC_def
        s_addr_def s_addralign_def)
  have h: "s_offset sample_dump 104 = Some 80" "s_size sample_dump 104 = Some 16"
    "plt_texts (Some (shdr_of (drop 0 sample_dump))) 1 (map sym_of (chunks 1 16 (drop 80 sample_dump))) = [''PLT addr 7010'' @ nl]"
    by (simp_all add: sample_dump_def s_offset_def s_size_def get32_def le32_def le16_def word_of_bytes_def shdr_of_def sym_of_def is_func_def
        symbol_addr_def mut_elf_st_type_def STT_FUNC_def fmt_x_def fmt_X_def hex_string.simps digit_char_def char_of_def bit_simps)
  have "symbol_table_header sample_tables = Some 104" "plt_header sample_tables = Some 0" by (simp_all add: sample_tables_def)
  with dump_plt_addresses_of_reader [OF this(1) r] h r show ?thesis by (auto simp: length_Suc_conv)
qed

end
