(* ===== verification/MutAoutd.thy ===== *)
theory MutAoutd
  imports MutDump MutAout
begin

text \<open>
  The dumper of a.out files, src/misc/aout/aout.c: what the reader of a.out executables grew out of. The macros on the header are those of the reader,
  as are the structures. The blocks and the file that the program holds are listed in \<open>ad_held\<close>. The first bytes of the block for the strings
  are never written, and are a parameter (\<open>ad_fill\<close>). The constants are those of \<open><nlist.h>\<close> on the BSD systems.
\<close>

section \<open>State\<close>

record aout_dump_host =
  ad_host :: aout_host
  ad_file :: "source option"
  ad_malloc_fails :: "u32 \<Rightarrow> bool"
  ad_fill :: "nat \<Rightarrow> u8"
  ad_reason :: string

record aout_dump =
  ad_out :: string
  ad_err :: string
  ad_held :: "string list"

definition N_ABS :: u8 where "N_ABS = 2"
definition N_DATA :: u8 where "N_DATA = 6"
definition N_BSS :: u8 where "N_BSS = 8"
definition N_FN :: u8 where "N_FN = 0x1E"
definition N_EXT :: u8 where "N_EXT = 1"
definition N_STAB :: u8 where "N_STAB = 0xE0"

fun oct_string :: "nat \<Rightarrow> string" where
  "oct_string n = (if n < 8 then [digit_char n] else oct_string (n div 8) @ [digit_char (n mod 8)])"

declare oct_string.simps [simp del]

definition hold :: "string \<Rightarrow> aout_dump \<Rightarrow> aout_dump" where
  "hold x w = w\<lparr>ad_held := x # ad_held w\<rparr>"

definition let_go :: "string \<Rightarrow> aout_dump \<Rightarrow> aout_dump" where
  "let_go x w = w\<lparr>ad_held := remove1 x (ad_held w)\<rparr>"

definition show_text :: "string \<Rightarrow> aout_dump \<Rightarrow> aout_dump" where
  "show_text s w = w\<lparr>ad_out := ad_out w @ s\<rparr>"

definition because :: "aout_dump_host \<Rightarrow> string \<Rightarrow> aout_dump \<Rightarrow> aout_dump" where
  "because h s w = w\<lparr>ad_err := ad_err w @ s @ '' because '' @ ad_reason h @ nl\<rparr>"

section \<open>A symbol\<close>

text \<open>What is said of a type. Only the last three are tests of bits; the others are values of a field, and are tested as if they were bits.\<close>

definition label_if :: "u8 \<Rightarrow> u8 \<Rightarrow> string \<Rightarrow> string" where
  "label_if ty n s = (if ty AND n = n then s else [])"

definition type_labels :: "u8 \<Rightarrow> string" where
  "type_labels ty =
     (if ty = 0 then ''UNDEF'' else []) @
     label_if ty N_ABS ''ABS'' @ label_if ty N_TEXT '' TEXT'' @ label_if ty N_DATA '' DATA'' @ label_if ty N_BSS '' BSS'' @
     label_if ty N_FN '' FN'' @ label_if ty N_EXT '' EXT'' @ label_if ty N_TYPE '' TYPE'' @ label_if ty N_STAB '' STAB''"

definition symbol_line :: "nat \<Rightarrow> nlist \<Rightarrow> string \<Rightarrow> string" where
  "symbol_line i s name =
     (let ty = ucast (n_type s) :: u32
      in fmt_u (of_nat i) @ '' x= '' @ fmt_x (n_strx s) @ '' ('' @ name @ ''), type '' @ fmt_d ty @ ''/'' @ fmt_x ty @ ''/'' @
         oct_string (unat ty) @ '', value '' @ fmt_u (n_value s) @ ''/'' @ fmt_d (n_value s) @ ''/'' @ fmt_x (n_value s) @ nl)"

text \<open>The block of the strings, of which the size is not read again, and the loop over the symbols.\<close>

fun show_symbols :: "u8 list \<Rightarrow> nat \<Rightarrow> nlist list \<Rightarrow> aout_dump \<Rightarrow> aout_dump option" where
  "show_symbols strings i [] w = Some w"
| "show_symbols strings i (s # ss) w = do {
     assert_c (unat (n_strx s) < length strings);
     name \<leftarrow> cstring strings (unat (n_strx s));
     show_symbols strings (i + 1) ss (show_text (symbol_line i s name @ type_labels (n_type s) @ nl) w)
   }"

section \<open>The program\<close>

text \<open>The ends of \<open>debug\<close>, from the label at which each starts.\<close>

definition could_not_read_aout_header :: "aout_dump \<Rightarrow> bool \<times> aout_dump" where
  "could_not_read_aout_header w = (False, let_go ''file'' w)"

definition could_not_seek_to_symbols :: "aout_dump \<Rightarrow> bool \<times> aout_dump" where
  "could_not_seek_to_symbols w = could_not_read_aout_header (let_go ''symbol'' w)"

definition could_not_read_strings :: "aout_dump \<Rightarrow> bool \<times> aout_dump" where
  "could_not_read_strings w = could_not_seek_to_symbols (let_go ''string'' w)"

text \<open>From the size of the strings on: their block, the symbols, and the end. \<open>pos\<close> is behind the size.\<close>

definition debug_strings ::
  "string \<Rightarrow> aout_dump_host \<Rightarrow> string \<Rightarrow> source \<Rightarrow> nat \<Rightarrow> u32 \<Rightarrow> nlist list \<Rightarrow> aout_dump \<Rightarrow> (bool \<times> aout_dump) option" where
  "debug_strings pname h aout_file_name src pos str_size symbols w =
     (let w = show_text (''STR_SIZE= '' @ fmt_d str_size @ nl) w
      in if ad_malloc_fails h str_size
         then Some (could_not_seek_to_symbols (because h (pname @ '': could not allocate space for strings'') w))
         else do {
           let w = hold ''string'' w;
           let n = str_size - sizeof_size_t;
           assert_c (sizeof_size_t \<le> str_size \<or> length (s_bytes src) \<le> pos);
           case fread_items pos n src of
             None \<Rightarrow> Some (could_not_read_strings (because h (pname @ '': could not read strings'') w))
           | Some bs \<Rightarrow> do {
               w \<leftarrow> show_symbols (map (ad_fill h) [0..<4] @ bs) 0 symbols w;
               let w = let_go ''symbol'' w;
               let w = let_go ''file'' w;
               if s_close_fails src then Some (False, because h (pname @ '': could not open '' @ aout_file_name) w)
               else Some (True, w)
             }
         })"

definition debug_symbols ::
  "string \<Rightarrow> aout_dump_host \<Rightarrow> string \<Rightarrow> source \<Rightarrow> u8 list \<Rightarrow> aout_dump \<Rightarrow> (bool \<times> aout_dump) option" where
  "debug_symbols pname h aout_file_name src header w =
     (let syms = a_syms header; symoff = n_symoff (ad_host h) header; stroff = n_stroff (ad_host h) header;
          w = show_text (''NSYMS= '' @ fmt_u (syms div sizeof_nlist) @ '', SYMS= '' @ fmt_u symoff @ '', STRS= '' @ fmt_u stroff @ nl) w
      in do {
        assert_c (syms mod sizeof_nlist = 0);
        if ad_malloc_fails h syms
        then Some (could_not_read_aout_header (because h (pname @ '': could not allocate space for symbols'') w))
        else let w = hold ''symbol'' w in
          case libc_fseek symoff src of
            None \<Rightarrow> Some (could_not_seek_to_symbols (because h (pname @ '': could not seek to symbols'') w))
          | Some pos \<Rightarrow> (case fread_items pos syms src of
              None \<Rightarrow> Some (could_not_seek_to_symbols (because h (pname @ '': could not read symbols'') w))
            | Some bs \<Rightarrow> (case libc_fseek stroff src of
                None \<Rightarrow> Some (could_not_seek_to_symbols (because h (pname @ '': could not seek to strings'') w))
              | Some pos \<Rightarrow> (case libc_fread pos sizeof_size_t src of
                  None \<Rightarrow> Some (could_not_seek_to_symbols (because h (pname @ '': could not read string table size'') w))
                | Some bytes \<Rightarrow>
                    debug_strings pname h aout_file_name src (pos + 4) (le32 0 bytes)
                      (map nlist_of (chunks (unat (syms div sizeof_nlist)) 12 bs)) w)))
      })"

definition aoutd_debug :: "string \<Rightarrow> aout_dump_host \<Rightarrow> string \<Rightarrow> (bool \<times> aout_dump) option" where
  "aoutd_debug pname h aout_file_name =
     (let w = \<lparr>ad_out = [], ad_err = [], ad_held = []\<rparr>
      in case ad_file h of
           None \<Rightarrow> Some (False, because h (pname @ '': could not open '' @ aout_file_name) w)
         | Some src \<Rightarrow>
             let w = hold ''file'' w in
             case libc_fread 0 sizeof_exec_header src of
               None \<Rightarrow> Some (could_not_read_aout_header (because h (pname @ '': could not read header from '' @ aout_file_name) w))
             | Some header \<Rightarrow> debug_symbols pname h aout_file_name src header w)"

text \<open>There is no option, and there has to be exactly one argument.\<close>

definition aoutd_main :: "aout_dump_host \<Rightarrow> string list \<Rightarrow> (bool \<times> aout_dump) option" where
  "aoutd_main h argv =
     (case argv of
        [] \<Rightarrow> None
      | pname # args \<Rightarrow>
          if length args = 1 \<and> take 1 (hd args) \<noteq> ''-'' then aoutd_debug pname h (hd args)
          else Some (False, \<lparr>ad_out = [], ad_err = usage_line pname, ad_held = []\<rparr>))"

section \<open>Lemmas\<close>

text \<open>
  The labels of the sample run in the README, for the types that are not a value beyond the first two of the field; a symbol of the data,
  there \<open>ABS TEXT\<close>, is now \<open>ABS TEXT DATA\<close>, although it is neither absolute nor of the text.
\<close>

lemma sample_labels:
  "type_labels 4 = '' TEXT''" "type_labels 3 = ''ABS EXT''" "type_labels 5 = '' TEXT EXT''" "type_labels 9 = '' BSS EXT''"
  "type_labels 128 = []" "type_labels 100 = '' TEXT''"
  by (simp_all add: type_labels_def label_if_def N_ABS_def N_TEXT_def N_DATA_def N_BSS_def N_FN_def N_EXT_def N_TYPE_def N_STAB_def)

lemma data_labels: "type_labels N_DATA = ''ABS TEXT DATA''"
  by (simp add: type_labels_def label_if_def N_ABS_def N_TEXT_def N_DATA_def N_BSS_def N_FN_def N_EXT_def N_TYPE_def N_STAB_def)

lemma held_simps [simp]:
  "ad_held (show_text s w) = ad_held w" "ad_held (because h s w) = ad_held w" "ad_held (hold x w) = x # ad_held w"
  "ad_held (let_go x w) = remove1 x (ad_held w)"
  by (simp_all add: show_text_def because_def hold_def let_go_def)

lemma show_symbols_held: "show_symbols strings i ss w = Some v \<Longrightarrow> ad_held v = ad_held w"
  by (induction strings i ss w rule: show_symbols.induct) (auto split: bind_splits)

lemmas ends = could_not_read_aout_header_def could_not_seek_to_symbols_def could_not_read_strings_def

text \<open>A run that fails has let go of everything, but for one that cannot close the file; a run that succeeds keeps the block of the strings.\<close>

lemma debug_strings_held:
  assumes "debug_strings pname h name src pos n ss w = Some (ok, v)" and "ad_held w = [''symbol'', ''file'']"
  shows "ad_held v = (if ok \<or> s_close_fails src \<and> ad_held v \<noteq> [] then [''string''] else [])"
proof (cases "ad_malloc_fails h n")
  case True
  with assms show ?thesis by (auto simp: debug_strings_def ends)
next
  case False
  with assms show ?thesis
    by (auto simp: debug_strings_def ends Let_def split: bind_splits option.splits if_splits dest!: show_symbols_held)
qed

lemma aoutd_held:
  assumes "aoutd_debug pname h name = Some (ok, v)"
  shows "ad_held v = (if ok \<or> (\<exists>src. ad_file h = Some src \<and> s_close_fails src) \<and> ad_held v \<noteq> [] then [''string''] else [])"
proof (cases "ad_file h")
  case None
  with assms show ?thesis by (auto simp: aoutd_debug_def)
next
  case (Some src)
  show ?thesis
  proof (cases "libc_fread 0 sizeof_exec_header src")
    case None
    with Some assms show ?thesis by (auto simp: aoutd_debug_def ends)
  next
    case (Some header)
    with \<open>ad_file h = _\<close> assms have
      d: "debug_symbols pname h name src header (hold ''file'' \<lparr>ad_out = [], ad_err = [], ad_held = []\<rparr>) = Some (ok, v)"
      by (simp add: aoutd_debug_def)
    show ?thesis
      using d \<open>ad_file h = _\<close>
      by (auto simp: debug_symbols_def ends Let_def split: bind_splits option.splits if_splits dest!: debug_strings_held)
  qed
qed

end
