(* ===== verification/MutPtrace.thy ===== *)
theory MutPtrace
  imports MutDump
begin

text \<open>
  The programs that tried out \<open>ptrace\<close> before the tracer was written: src/misc/ptrace-x86, src/misc/ptrace-sparc and src/misc/ptrace-mips,
  each a ptrace.c, and the two programs of src/misc/bach-ptrace. The child and the system are those of the tracer; \<open>dbg_sigterm\<close> is what
  the signal of that name does to a child that is stopped. What is printed is a string, as in the dumpers; printing may leave anything in
  \<open>errno\<close>. The numbers of the registers come from the headers of the system.
\<close>

section \<open>State\<close>

record 'p tracer =
  dbg_child :: "'p child"
  dbg_os :: "'p os"
  dbg_sigterm :: "'p child \<Rightarrow> 'p child"
  dbg_errno :: u32
  dbg_strerror :: "u32 \<Rightarrow> string"
  dbg_print_errno :: "string \<Rightarrow> u32 \<Rightarrow> u32"
  dbg_out :: string
  dbg_err :: string

definition dbg_print :: "string \<Rightarrow> 'p tracer \<Rightarrow> 'p tracer" where
  "dbg_print s w = w\<lparr>dbg_out := dbg_out w @ s, dbg_errno := dbg_print_errno w s (dbg_errno w)\<rparr>"

definition due_to :: "string \<Rightarrow> 'p tracer \<Rightarrow> 'p tracer" where
  "due_to s w = w\<lparr>dbg_err := dbg_err w @ s @ '' due to '' @ dbg_strerror w (dbg_errno w) @ nl\<rparr>"

definition dbg_peek :: "u32 option \<Rightarrow> 'p tracer \<Rightarrow> u32 \<times> 'p tracer" where
  "dbg_peek v w =
     (case v of
        None \<Rightarrow> (-1, w\<lparr>dbg_errno := EIO\<rparr>)
      | Some d \<Rightarrow> (d, if os_peek_clears_errno (dbg_os w) then w\<lparr>dbg_errno := 0\<rparr> else w))"

definition dbg_poke :: "u32 \<Rightarrow> u32 \<Rightarrow> 'p tracer \<Rightarrow> bool \<times> 'p tracer" where
  "dbg_poke a v w =
     (case write_word a v (cmem (dbg_child w)) of
        None \<Rightarrow> (False, w\<lparr>dbg_errno := EIO\<rparr>)
      | Some m \<Rightarrow> (True, w\<lparr>dbg_child := (dbg_child w)\<lparr>cmem := m\<rparr>\<rparr>))"

definition dbg_cont :: "'p tracer \<Rightarrow> bool \<times> 'p tracer" where
  "dbg_cont w =
     (case os_continue (dbg_os w) (dbg_child w) 0 of
        None \<Rightarrow> (False, w\<lparr>dbg_errno := ESRCH\<rparr>)
      | Some c \<Rightarrow> (True, w\<lparr>dbg_child := c\<rparr>))"

definition dbg_waitpid :: "'p tracer \<Rightarrow> u32 option \<times> 'p tracer" where
  "dbg_waitpid w =
     (let (r, c) = os_wait (dbg_os w) (dbg_child w); w = w\<lparr>dbg_child := c\<rparr>
      in case r of Wait_failed e \<Rightarrow> (None, w\<lparr>dbg_errno := e\<rparr>) | Wait_status s \<Rightarrow> (Some s, w))"

section \<open>What the three tracers share\<close>

definition kill_child :: "'p tracer \<Rightarrow> 'p tracer" where
  "kill_child w = w\<lparr>dbg_child := dbg_sigterm w (dbg_child w)\<rparr>"

text \<open>The child, which does not return: it becomes the program, or exits with a failure.\<close>

definition do_child :: "string \<Rightarrow> string list \<Rightarrow> 'p tracer \<Rightarrow> (child_fate \<times> 'p tracer) option" where
  "do_child pname argv w = do {
     assert_c (argv \<noteq> []);
     if os_traceme_fails (dbg_os w)
     then Some (Exits EXIT_FAILURE, due_to (pname @ '': could not trace '' @ hd argv) (w\<lparr>dbg_errno := EIO\<rparr>))
     else if \<not> os_execv_fails (dbg_os w) then Some (Execs, w)
     else Some (Exits EXIT_FAILURE, due_to (pname @ '': could not exec '' @ hd argv) (w\<lparr>dbg_errno := ENOENT\<rparr>))
   }"

definition could_not_wait :: "string \<Rightarrow> string \<Rightarrow> 'p tracer \<Rightarrow> bool \<times> 'p tracer" where
  "could_not_wait pname executable_name w =
     (False, kill_child (due_to (pname @ '': could not wait for '' @ executable_name) w))"

definition could_not_continue :: "string \<Rightarrow> string \<Rightarrow> 'p tracer \<Rightarrow> bool \<times> 'p tracer" where
  "could_not_continue pname executable_name w =
     (False, kill_child (due_to (pname @ '': could not continue '' @ executable_name) w))"

definition dbg_debug :: "(string \<Rightarrow> string \<Rightarrow> 'p tracer \<Rightarrow> bool \<times> 'p tracer) \<Rightarrow> string \<Rightarrow> string list \<Rightarrow> 'p tracer \<Rightarrow> bool \<times> 'p tracer" where
  "dbg_debug do_parent pname argv w =
     (case os_fork (dbg_os w) argv of
        None \<Rightarrow> (False, due_to (pname @ '': could not fork'') (w\<lparr>dbg_errno := EAGAIN\<rparr>))
      | Some (pid, c) \<Rightarrow> do_parent pname (hd argv) (w\<lparr>dbg_child := c\<rparr>))"

text \<open>There is no option, and there has to be exactly one argument.\<close>

definition dbg_main :: "(string \<Rightarrow> string list \<Rightarrow> 'p tracer \<Rightarrow> bool \<times> 'p tracer) \<Rightarrow> string list \<Rightarrow> 'p tracer \<Rightarrow> (bool \<times> 'p tracer) option" where
  "dbg_main debug argv w =
     (case argv of
        [] \<Rightarrow> None
      | pname # args \<Rightarrow>
          if length args = 1 \<and> take 1 (hd args) \<noteq> ''-'' then Some (debug pname args w)
          else Some (False, w\<lparr>dbg_err := dbg_err w @ usage_line pname\<rparr>))"

section \<open>The tracer for the x86\<close>

definition reg_offset :: "u32 \<Rightarrow> u32" where "reg_offset reg_num = reg_num * 4"

text \<open>The wait and the look at the instruction after it, which is done twice. A negative program counter counts as a failure.\<close>

datatype look = Not_waited | No_pc | Looked u32

definition x86_look :: "u32 \<Rightarrow> 'p tracer \<Rightarrow> look \<times> 'p tracer" where
  "x86_look EIP w =
     (let w = dbg_print (''Parent: waiting for child ... '' @ nl) w;
          (status, w) = dbg_waitpid w
      in case status of
           None \<Rightarrow> (Not_waited, w)
         | Some child_status \<Rightarrow>
             let w = dbg_print (''Extracting EIP ...'' @ nl) w;
                 (pc, w) = dbg_peek (regs (dbg_child w) (reg_offset EIP)) w
             in if pc <s 0 then (No_pc, w)
                else let (instr, w) = dbg_peek (read_word (cmem (dbg_child w)) pc) w
                     in (Looked pc, dbg_print (''EIP= '' @ fmt_x pc @ '', instr= '' @ fmt_x instr @ nl) w))"

definition x86_do_parent :: "u32 \<Rightarrow> string \<Rightarrow> string \<Rightarrow> 'p tracer \<Rightarrow> bool \<times> 'p tracer" where
  "x86_do_parent EIP pname executable_name w =
     (let no_pc = (\<lambda>w. (False, kill_child (due_to (pname @ '': could not determine PC'') w)));
          (r, w) = x86_look EIP w
      in case r of
           Not_waited \<Rightarrow> could_not_wait pname executable_name w
         | No_pc \<Rightarrow> no_pc w
         | Looked pc \<Rightarrow>
             let w = dbg_print (''Continuing at '' @ fmt_x pc @ ''...'' @ nl) w;
                 (ok, w) = dbg_cont w
             in if \<not> ok then could_not_continue pname executable_name w
                else let (r, w) = x86_look EIP w
                     in case r of
                          Not_waited \<Rightarrow> could_not_wait pname executable_name w
                        | No_pc \<Rightarrow> no_pc w
                        | Looked pc \<Rightarrow> (True, w))"

definition x86_debug :: "u32 \<Rightarrow> string \<Rightarrow> string list \<Rightarrow> 'p tracer \<Rightarrow> bool \<times> 'p tracer" where
  "x86_debug EIP = dbg_debug (x86_do_parent EIP)"

definition x86_main :: "u32 \<Rightarrow> string list \<Rightarrow> 'p tracer \<Rightarrow> (bool \<times> 'p tracer) option" where
  "x86_main EIP = dbg_main (x86_debug EIP)"

section \<open>The tracer for the SPARC\<close>

definition malloc_addr :: u32 where "malloc_addr = 0x1038c"

text \<open>It reads an instruction and writes it back. \<open>errno\<close> is looked at without having been cleared.\<close>

definition sparc_do_parent :: "string \<Rightarrow> string \<Rightarrow> 'p tracer \<Rightarrow> bool \<times> 'p tracer" where
  "sparc_do_parent pname executable_name w =
     (let w = dbg_print (''Parent: waiting for child ... '' @ nl) w;
          (status, w) = dbg_waitpid w
      in case status of
           None \<Rightarrow> could_not_wait pname executable_name w
         | Some child_status \<Rightarrow>
             let w = dbg_print (''Extracting instr ...'' @ nl) w;
                 (instr, w) = dbg_peek (read_word (cmem (dbg_child w)) malloc_addr) w
             in if instr <s 0 \<and> dbg_errno w \<noteq> 0
                then (False, kill_child (due_to (pname @ '': could not determine instr'') w))
                else let w = dbg_print (''instr= '' @ fmt_x instr @ nl) w;
                         (ok, w) = dbg_poke malloc_addr instr w
                     in if \<not> ok \<and> dbg_errno w \<noteq> 0
                        then (False, kill_child (due_to (pname @ '': could not write instr'') w))
                        else let w = dbg_print (''Continuing ...'' @ nl) w;
                                 (ok, w) = dbg_cont w
                             in if \<not> ok then could_not_continue pname executable_name w
                                else (True, w))"

definition sparc_do_child :: "string \<Rightarrow> string list \<Rightarrow> 'p tracer \<Rightarrow> (child_fate \<times> 'p tracer) option" where
  "sparc_do_child = do_child"

definition sparc_debug :: "string \<Rightarrow> string list \<Rightarrow> 'p tracer \<Rightarrow> bool \<times> 'p tracer" where
  "sparc_debug = dbg_debug sparc_do_parent"

definition sparc_main :: "string list \<Rightarrow> 'p tracer \<Rightarrow> (bool \<times> 'p tracer) option" where
  "sparc_main = dbg_main sparc_debug"

section \<open>The tracer for the MIPS\<close>

definition fmt_8x :: "u32 \<Rightarrow> string" where
  "fmt_8x x = replicate (8 - length (fmt_x x)) CHR '' '' @ fmt_x x"

definition reg_line :: "nat \<Rightarrow> u32 \<Rightarrow> string" where
  "reg_line n x = ''Reg '' @ dec_string n @ '' = '' @ fmt_8x x @ nl"

definition print_reg :: "nat \<Rightarrow> 'p tracer \<Rightarrow> bool \<times> 'p tracer" where
  "print_reg n w =
     (let w = w\<lparr>dbg_errno := 0\<rparr>;
          (x, w) = dbg_peek (regs (dbg_child w) (of_nat n)) w
      in if x <s 0 \<and> dbg_errno w \<noteq> 0 then (False, w) else (True, dbg_print (reg_line n x) w))"

fun print_regs :: "nat list \<Rightarrow> 'p tracer \<Rightarrow> bool \<times> 'p tracer" where
  "print_regs [] w = (True, w)"
| "print_regs (n # ns) w = (let (ok, w) = print_reg n w in if ok then print_regs ns w else (False, w))"

definition mips_do_parent :: "string \<Rightarrow> string \<Rightarrow> 'p tracer \<Rightarrow> bool \<times> 'p tracer" where
  "mips_do_parent pname executable_name w =
     (let w = dbg_print (''Parent: waiting for child ... '' @ nl) w;
          (status, w) = dbg_waitpid w
      in case status of
           None \<Rightarrow> could_not_wait pname executable_name w
         | Some child_status \<Rightarrow>
             if WIFEXITED child_status then (True, dbg_print (''Exited ...'' @ nl) w)
             else if WIFSIGNALED child_status then (True, dbg_print (''Signaled ...'' @ nl) w)
             else if \<not> WIFSTOPPED child_status then (True, dbg_print (''Unknown status ...'' @ nl) w)
             else let w = dbg_print (''Stopped ...'' @ nl) w;
                      w = dbg_print (''Extracting reg ...'' @ nl) w;
                      (ok, w) = print_regs [0..<256] w
                  in if \<not> ok then (False, kill_child w)
                     else let (ok, w) = dbg_cont w
                          in if \<not> ok then could_not_continue pname executable_name w
                             else (True, w))"

definition mips_do_child :: "string \<Rightarrow> string list \<Rightarrow> 'p tracer \<Rightarrow> (child_fate \<times> 'p tracer) option" where
  "mips_do_child = do_child"

definition mips_debug :: "string \<Rightarrow> string list \<Rightarrow> 'p tracer \<Rightarrow> bool \<times> 'p tracer" where
  "mips_debug = dbg_debug mips_do_parent"

definition mips_main :: "string list \<Rightarrow> 'p tracer \<Rightarrow> (bool \<times> 'p tracer) option" where
  "mips_main = dbg_main mips_debug"

section \<open>The debugger and the program of the book\<close>

text \<open>\<open>sscanf\<close> for \<open>%lx\<close>: the number at the start of a string. A number that does not fit has no value, and none at all leaves the variable alone.\<close>

definition hex_digit :: "char \<Rightarrow> nat option" where
  "hex_digit c =
     (if CHR ''0'' \<le> c \<and> c \<le> CHR ''9'' then Some (of_char c - 48)
      else if CHR ''a'' \<le> c \<and> c \<le> CHR ''f'' then Some (of_char c - 87)
      else if CHR ''A'' \<le> c \<and> c \<le> CHR ''F'' then Some (of_char c - 55)
      else None)"

fun hex_digits :: "string \<Rightarrow> nat list" where
  "hex_digits [] = []"
| "hex_digits (c # cs) = (case hex_digit c of None \<Rightarrow> [] | Some d \<Rightarrow> d # hex_digits cs)"

definition hex_value :: "nat list \<Rightarrow> nat" where "hex_value = foldl (\<lambda>n d. 16 * n + d) 0"

definition is_space :: "char \<Rightarrow> bool" where
  "is_space c \<longleftrightarrow> of_char c = (32 :: nat) \<or> 9 \<le> (of_char c :: nat) \<and> (of_char c :: nat) \<le> 13"

definition scan_sign :: "string \<Rightarrow> bool \<times> string" where
  "scan_sign s = (if take 1 s = ''-'' then (True, tl s) else if take 1 s = ''+'' then (False, tl s) else (False, s))"

definition scan_lx :: "string \<Rightarrow> u32 \<Rightarrow> u32 option" where
  "scan_lx s old =
     (let (negative, s) = scan_sign (dropWhile is_space s);
          ds = hex_digits (if take 2 s = ''0x'' \<or> take 2 s = ''0X'' then drop 2 s else s)
      in if ds = [] then Some old
         else if 2 ^ 32 \<le> hex_value ds then None
         else Some (if negative then - of_nat (hex_value ds) else of_nat (hex_value ds)))"

fun bach_fill :: "nat list \<Rightarrow> u32 \<Rightarrow> 'p tracer \<Rightarrow> bool \<times> 'p tracer" where
  "bach_fill [] addr w = (True, w)"
| "bach_fill (i # is) addr w =
     (let (ok, w) = dbg_poke addr (of_nat i) w in if \<not> ok then (False, w) else bach_fill is (addr + 4) w)"

text \<open>A \<open>fork\<close> that fails gives a process to which nothing can be written. The result of the last request is ignored.\<close>

definition bach_debug :: "string list \<Rightarrow> 'p tracer \<Rightarrow> (bool \<times> 'p tracer) option" where
  "bach_debug argv w = do {
     assert_c (2 \<le> length argv);
     addr \<leftarrow> scan_lx (argv ! 1) 0;
     case os_fork (dbg_os w) [''trace''] of
       None \<Rightarrow> Some (False, w\<lparr>dbg_errno := ESRCH\<rparr>)
     | Some (pid, c) \<Rightarrow>
         let (status, w) = dbg_waitpid (w\<lparr>dbg_child := c\<rparr>);
             (ok, w) = bach_fill [0..<32] addr w
         in Some (if \<not> ok then (False, w) else (True, snd (dbg_cont w)))
   }"

definition bach_trace :: "u32 \<Rightarrow> bytes \<Rightarrow> string option" where
  "bach_trace data m = do {
     lines \<leftarrow> those (map (\<lambda>i. do {
       x \<leftarrow> read_word m (data + 4 * of_nat i);
       Some (''data['' @ fmt_d (of_nat i) @ ''] = '' @ fmt_d x @ nl)
     }) [0..<32]);
     Some (concat lines @ ''ptrace data addr 0x'' @ fmt_p data @ nl)
   }"

section \<open>Lemmas\<close>

lemma dbg_print_simps [simp]:
  "dbg_child (dbg_print s w) = dbg_child w" "dbg_os (dbg_print s w) = dbg_os w" "dbg_out (dbg_print s w) = dbg_out w @ s"
  "dbg_err (dbg_print s w) = dbg_err w" "dbg_sigterm (dbg_print s w) = dbg_sigterm w"
  by (simp_all add: dbg_print_def)

lemma dbg_peek_simps [simp]:
  "dbg_child (snd (dbg_peek v w)) = dbg_child w" "dbg_os (snd (dbg_peek v w)) = dbg_os w" "dbg_out (snd (dbg_peek v w)) = dbg_out w"
  "dbg_err (snd (dbg_peek v w)) = dbg_err w" "dbg_sigterm (snd (dbg_peek v w)) = dbg_sigterm w"
  by (simp_all add: dbg_peek_def split: option.splits)

lemma dbg_peek_Some [simp]: "fst (dbg_peek (Some d) w) = d"
  by (simp add: dbg_peek_def)

text \<open>The registers are printed one to a line, whatever their values are: \<open>errno\<close> is cleared before each is read.\<close>

lemma print_reg_ok:
  assumes "regs (dbg_child w) (of_nat n) = Some x"
  shows "fst (print_reg n w)" "dbg_out (snd (print_reg n w)) = dbg_out w @ reg_line n x"
    "dbg_child (snd (print_reg n w)) = dbg_child w" "dbg_os (snd (print_reg n w)) = dbg_os w"
    "dbg_err (snd (print_reg n w)) = dbg_err w"
  using assms by (simp_all add: print_reg_def dbg_peek_def Let_def)

lemma print_regs_ok:
  assumes "\<And>n. n \<in> set ns \<Longrightarrow> regs (dbg_child w) (of_nat n) = Some (x n)"
  shows "\<exists>v. print_regs ns w = (True, v) \<and> dbg_out v = dbg_out w @ concat (map (\<lambda>n. reg_line n (x n)) ns) \<and>
    dbg_child v = dbg_child w \<and> dbg_os v = dbg_os w \<and> dbg_err v = dbg_err w"
  using assms
proof (induction ns arbitrary: w)
  case (Cons n ns)
  obtain ok u where u: "print_reg n w = (ok, u)" by (cases "print_reg n w")
  have "ok" "dbg_out u = dbg_out w @ reg_line n (x n)" "dbg_child u = dbg_child w" "dbg_os u = dbg_os w" "dbg_err u = dbg_err w"
    using print_reg_ok [of w n "x n"] Cons.prems u by auto
  with Cons.IH [of u] Cons.prems u show ?case by auto
qed simp

lemma mips_stopped:
  assumes "os_wait (dbg_os w) (dbg_child w) = (Wait_status s, c)" and "WIFSTOPPED s"
    and regs: "\<And>n. n < 256 \<Longrightarrow> regs c (of_nat n) = Some (x n)" and "os_continue (dbg_os w) c 0 = Some d"
  shows "\<exists>v. mips_do_parent pname exe w = (True, v) \<and> dbg_child v = d \<and> dbg_err v = dbg_err w \<and>
    dbg_out v = dbg_out w @ ''Parent: waiting for child ... '' @ nl @ ''Stopped ...'' @ nl @ ''Extracting reg ...'' @ nl @
      concat (map (\<lambda>n. reg_line n (x n)) [0..<256])"
proof -
  let ?u = "dbg_print (''Extracting reg ...'' @ nl) (dbg_print (''Stopped ...'' @ nl)
    (dbg_print (''Parent: waiting for child ... '' @ nl) w\<lparr>dbg_child := c\<rparr>))"
  obtain v where v: "print_regs [0..<256] ?u = (True, v)" "dbg_out v = dbg_out ?u @ concat (map (\<lambda>n. reg_line n (x n)) [0..<256])"
    "dbg_child v = c" "dbg_os v = dbg_os w" "dbg_err v = dbg_err w"
    using print_regs_ok [of "[0..<256]" ?u x] regs by (auto simp del: upt_rec_numeral)
  show ?thesis
    using assms(1,2,4) v WIFSTOPPED_cases [of s] by (simp add: mips_do_parent_def dbg_waitpid_def dbg_cont_def del: upt_rec_numeral)
qed

text \<open>A word is away from the words that follow it, as long as they do not come round.\<close>

lemma word_before_span: "4 * Suc n \<le> 2 ^ 32 \<Longrightarrow> word_addrs a \<inter> span (a + 4) (4 * n) = {}"
proof -
  assume n: "4 * Suc n \<le> 2 ^ 32"
  have "a + of_nat i \<noteq> a + 4 + of_nat j" if "i < 4" "j < 4 * n" for i j
    using span_inj [OF n, of i "4 + j" a] that by (simp add: add.assoc)
  then show ?thesis by (auto simp: span_def simp flip: span_4)
qed

lemma bach_fill_ok:
  assumes "4 * length is \<le> 2 ^ 32" and "span a (4 * length is) \<subseteq> dom (cmem (dbg_child w))"
  shows "\<exists>m. bach_fill is a w = (True, w\<lparr>dbg_child := (dbg_child w)\<lparr>cmem := m\<rparr>\<rparr>) \<and>
    (\<forall>k < length is. read_word m (a + 4 * of_nat k) = Some (of_nat (is ! k))) \<and>
    (\<forall>x. x \<notin> span a (4 * length is) \<longrightarrow> m x = cmem (dbg_child w) x)"
  using assms
proof (induction "is" arbitrary: a w)
  case Nil
  then show ?case by (intro exI [of _ "cmem (dbg_child w)"]) simp
next
  case (Cons i "is")
  let ?m = "put_word a (of_nat i) (cmem (dbg_child w))"
  let ?u = "w\<lparr>dbg_child := (dbg_child w)\<lparr>cmem := ?m\<rparr>\<rparr>"
  have all: "word_addrs a \<subseteq> dom (cmem (dbg_child w))" "span (a + 4) (4 * length is) \<subseteq> dom (cmem (dbg_child w))"
    using Cons.prems(2) span_Suc [of a "length is"] by auto
  have poke: "dbg_poke a (of_nat i) w = (True, ?u)"
    using all(1) read_word_None [of "cmem (dbg_child w)" a] by (auto simp: dbg_poke_def write_word_def)
  have apart: "word_addrs a \<inter> span (a + 4) (4 * length is) = {}"
    by (rule word_before_span) (use Cons.prems(1) in simp)
  have "span (a + 4) (4 * length is) \<subseteq> dom (cmem (dbg_child ?u))"
    using all put_word_dom [OF all(1)] by simp
  with Cons.prems(1) Cons.IH [of "a + 4" ?u] obtain m where
    m: "bach_fill is (a + 4) ?u = (True, ?u\<lparr>dbg_child := (dbg_child ?u)\<lparr>cmem := m\<rparr>\<rparr>)"
      "\<forall>k < length is. read_word m (a + 4 + 4 * of_nat k) = Some (of_nat (is ! k))"
      "\<forall>x. x \<notin> span (a + 4) (4 * length is) \<longrightarrow> m x = ?m x"
    by auto
  have "read_word m a = read_word ?m a"
    by (rule read_word_cong) (use m(3) apart in auto)
  then have first: "read_word m a = Some (of_nat i)" by simp
  have "read_word m (a + 4 * of_nat k) = Some (of_nat ((i # is) ! k))" if "k < length (i # is)" for k
    using that first m(2) by (cases k) (auto simp: algebra_simps)
  moreover have "m x = cmem (dbg_child w) x" if "x \<notin> span a (4 * length (i # is))" for x
    using that m(3) span_Suc [of a "length is"] by (simp add: put_word_other)
  ultimately show ?case using poke m(1) by (auto intro!: exI [of _ m])
qed

text \<open>The program of the book then prints the numbers from 0 to 31, as its README shows.\<close>

definition bach_output :: "u32 \<Rightarrow> string" where
  "bach_output data = concat (map (\<lambda>i. ''data['' @ dec_string i @ ''] = '' @ dec_string i @ nl) [0..<32]) @ ''ptrace data addr 0x'' @ fmt_p data @ nl"

lemma those_map: "(\<And>x. x \<in> set xs \<Longrightarrow> f x = Some (g x)) \<Longrightarrow> those (map f xs) = Some (map g xs)"
  by (induction xs) auto

lemma fmt_d_nat: "i < 2 ^ 31 \<Longrightarrow> fmt_d (of_nat i) = dec_string i"
  proof -
  assume i: "i < 2 ^ 31"
  then have "uint (of_nat i :: u32) = int i" by (simp add: unsigned_of_nat take_bit_nat_eq_self)
  with i have "sint (of_nat i :: u32) = int i" by (simp add: sint_uint signed_take_bit_eq_if_positive bit_iff_odd take_bit_int_eq_self)
  then show ?thesis by (simp add: fmt_d_def)
qed

lemma bach_trace_ok:
  assumes "\<And>k. k < 32 \<Longrightarrow> read_word m (data + 4 * of_nat k) = Some (of_nat k)"
  shows "bach_trace data m = Some (bach_output data)"
proof -
  have "those (map (\<lambda>i. do {
       x \<leftarrow> read_word m (data + 4 * of_nat i);
       Some (''data['' @ fmt_d (of_nat i) @ ''] = '' @ fmt_d x @ nl) }) [0..<32]) =
    Some (map (\<lambda>i. ''data['' @ dec_string i @ ''] = '' @ dec_string i @ nl) [0..<32])"
    by (rule those_map) (use assms in \<open>auto simp: fmt_d_nat\<close>)
  then show ?thesis by (simp add: bach_trace_def bach_output_def del: upt_rec_numeral)
qed


definition sample_book :: "nat tracer" where
  "sample_book = \<lparr>dbg_child = \<lparr>regs = Map.empty, cmem = Map.empty, prog = 0\<rparr>,
     dbg_os = \<lparr>os_continue = (\<lambda>c sig. Some c), os_wait = (\<lambda>c. (Wait_status 0x57f, c)), os_kill = Some,
       os_fork = (\<lambda>_. Some (7, \<lparr>regs = Map.empty, cmem = (\<lambda>x. if x = 0 then None else Some 0), prog = 0\<rparr>)),
       os_traceme_fails = False, os_execv_fails = False, os_peek_clears_errno = True\<rparr>,
     dbg_sigterm = (\<lambda>c. c), dbg_errno = 0, dbg_strerror = (\<lambda>_. []), dbg_print_errno = (\<lambda>_ e. e), dbg_out = [], dbg_err = []\<rparr>"

lemma sample_scan: "scan_lx ''1088'' 0 = Some 0x1088"
  by (simp add: scan_lx_def is_space_def scan_sign_def hex_digit_def hex_value_def)


text \<open>The tracer for the SPARC writes back the instruction that it has read, so the program that it started is not changed, if it says that all went well.\<close>

lemma sparc_transparent:
  assumes "os_wait (dbg_os w) (dbg_child w) = (Wait_status s, c)" and "read_word (cmem c) malloc_addr = Some i"
    and "sparc_do_parent pname exe w = (True, v)"
  shows "os_continue (dbg_os w) c 0 = Some (dbg_child v)"
  using assms
  by (auto simp: sparc_do_parent_def dbg_waitpid_def dbg_poke_def write_word_def put_word_same dbg_cont_def could_not_continue_def
      split_beta Let_def split: if_splits option.splits)

text \<open>
  A failure that is none: the tracer for the x86 takes a program counter from 0x80000000 on for an error, and the one for the SPARC, whose
  instructions for memory and arithmetic all have the upper bit, takes the \<open>errno\<close> that printing left for that of the request.
\<close>

lemma x86_high_pc:
  assumes "os_wait (dbg_os w) (dbg_child w) = (Wait_status s, c)" and "regs c (reg_offset EIP) = Some pc" and "pc <s 0"
  shows "\<not> fst (x86_do_parent EIP pname exe w)"
  using assms by (simp add: x86_do_parent_def x86_look_def dbg_waitpid_def split_beta Let_def)

lemma sparc_stale_errno:
  assumes "os_wait (dbg_os w) (dbg_child w) = (Wait_status s, c)" and "read_word (cmem c) malloc_addr = Some i" and "i <s 0"
    and "\<not> os_peek_clears_errno (dbg_os w)" and "\<And>s e. dbg_print_errno w s e \<noteq> 0"
  shows "\<not> fst (sparc_do_parent pname exe w)"
  using assms by (simp add: sparc_do_parent_def dbg_waitpid_def dbg_peek_def dbg_print_def Let_def)

end
