(* ===== verification/MutMips.thy ===== *)
theory MutMips
  imports MutSparc
begin

text \<open>
  The MIPS as the machine of the target, src/src/proc/ptrace/arch/mips/mut_process_arch.c with the headers of src/src/arch/mips. The repository
  has no access to single registers for it: reading and writing one are parameters, and so are the numbers of the registers, which come from the headers of
  the system. \<open>mut_process_function_backtrace\<close> uses variables that do not exist, and is left out; the walk that it calls is here.
\<close>

section \<open>The machine\<close>

definition mips_reg_size :: u32 where "mips_reg_size = 4"
definition mips_instr_bp :: u32 where "mips_instr_bp = 0xd"
definition mips_pc_adjust :: "u32 \<Rightarrow> u32" where "mips_pc_adjust pc = pc"
definition mips_n_arg_regs :: u32 where "mips_n_arg_regs = 4"

record mips_regs =
  mips_PCB_PC :: u32
  mips_PCB_SP :: u32
  mips_PC :: u32
  mips_a0 :: u32
  mips_ra :: u32
  mips_v0 :: u32

type_synonym 'w reg_reader = "u32 \<Rightarrow> 'w \<Rightarrow> (u32 option \<times> 'w) option"
type_synonym 'w reg_writer = "u32 \<Rightarrow> u32 \<Rightarrow> 'w \<Rightarrow> (bool \<times> 'w) option"

section \<open>Operations\<close>

definition mips_read_pc ::
  "('p, 'a) proc_world_scheme reg_reader \<Rightarrow> mips_regs \<Rightarrow> ('p, 'a) proc_world_scheme \<Rightarrow> (u32 option \<times> ('p, 'a) proc_world_scheme) option" where
  "mips_read_pc rd h w = do {
     assert_c (p_stopped w);
     (pc_reg, w) \<leftarrow> rd (mips_PCB_PC h) w;
     case pc_reg of None \<Rightarrow> Some (None, w) | Some pc_reg \<Rightarrow> Some (Some pc_reg, w)
   }"

definition mips_write_pc ::
  "('p, 'a) proc_world_scheme reg_writer \<Rightarrow> mips_regs \<Rightarrow> u32 \<Rightarrow> ('p, 'a) proc_world_scheme \<Rightarrow> (bool \<times> ('p, 'a) proc_world_scheme) option" where
  "mips_write_pc wr h addr w = do {
     let pc = addr;
     assert_c (p_stopped w);
     wr (mips_PC h) pc w
   }"

definition mips_read_arg ::
  "('p, 'a) proc_world_scheme reg_reader \<Rightarrow> mips_regs \<Rightarrow> u32 \<Rightarrow> ('p, 'a) proc_world_scheme \<Rightarrow> (u32 option \<times> ('p, 'a) proc_world_scheme) option" where
  "mips_read_arg rd h n w = do {
     assert_c (p_stopped w);
     assert_c (n < mips_n_arg_regs);
     rd (mips_a0 h + n) w
   }"

definition mips_write_arg ::
  "('p, 'a) proc_world_scheme reg_writer \<Rightarrow> mips_regs \<Rightarrow> u32 \<Rightarrow> u32 \<Rightarrow> ('p, 'a) proc_world_scheme \<Rightarrow> (bool \<times> ('p, 'a) proc_world_scheme) option" where
  "mips_write_arg wr h n arg w = do {
     assert_c (p_stopped w);
     assert_c (n < mips_n_arg_regs);
     wr (mips_a0 h + n) arg w
   }"

definition mips_function_return_addr ::
  "('p, 'a) proc_world_scheme reg_reader \<Rightarrow> mips_regs \<Rightarrow> ('p, 'a) proc_world_scheme \<Rightarrow> (u32 option \<times> ('p, 'a) proc_world_scheme) option" where
  "mips_function_return_addr rd h w = do {
     assert_c (p_stopped w);
     (a, w) \<leftarrow> rd (mips_ra h) w;
     case a of None \<Rightarrow> Some (None, w) | Some a \<Rightarrow> Some (Some a, w)
   }"

definition mips_function_result ::
  "('p, 'a) proc_world_scheme reg_reader \<Rightarrow> mips_regs \<Rightarrow> ('p, 'a) proc_world_scheme \<Rightarrow> (u32 option \<times> ('p, 'a) proc_world_scheme) option" where
  "mips_function_result rd h w = do {
     assert_c (p_stopped w);
     rd (mips_v0 h) w
   }"

text \<open>The walk along the frames is still that of the SPARC, as the README says, from the stack pointer.\<close>

partial_function (option) mips_walk ::
  "ptr \<Rightarrow> u32 \<Rightarrow> ('p, 'a) proc_world_scheme \<Rightarrow> (bool \<times> ('p, 'a) proc_world_scheme) option" where
  "mips_walk bt fp w =
     (if fp \<noteq> 0 then do {
        (link, w) \<leftarrow> mut_trace_read_data (fp + 15 * mips_reg_size) w;
        case link of
          None \<Rightarrow> Some (False, w)
        | Some link \<Rightarrow> do {
            (status, w) \<leftarrow> mut_backtrace_enter bt link w;
            if status < 0 then Some (True, w)
            else if status = 0 then Some (False, w)
            else do {
              (fp, w) \<leftarrow> mut_trace_read_data (fp + 14 * mips_reg_size) w;
              case fp of None \<Rightarrow> Some (False, w) | Some fp \<Rightarrow> mips_walk bt fp w
            }
          }
      }
      else Some (True, w))"

definition mips_function_xxx_backtrace ::
  "('p, 'a) proc_world_scheme reg_reader \<Rightarrow> mips_regs \<Rightarrow> ptr \<Rightarrow> ('p, 'a) proc_world_scheme \<Rightarrow> (bool \<times> ('p, 'a) proc_world_scheme) option" where
  "mips_function_xxx_backtrace rd h bt w = do {
     (fp, w) \<leftarrow> rd (mips_PCB_SP h) w;
     case fp of None \<Rightarrow> Some (False, w) | Some fp \<Rightarrow> mips_walk bt fp w
   }"

definition mips_skip_to :: "u32 \<Rightarrow> ('p, 'a) proc_world_scheme \<Rightarrow> (bool \<times> ('p, 'a) proc_world_scheme) option" where
  "mips_skip_to pc w = do {
     assert_c (p_stopped w);
     Some (True, set_pc pc w)
   }"

section \<open>Lemmas\<close>

text \<open>The walk is the one of the SPARC, and so it ends.\<close>

lemma mips_walk_sparc:
  fixes w :: "('p, 'a) proc_world_scheme"
  shows "mips_walk bt fp w = sparc_walk bt fp w"
proof -
  have le: "mips_walk bt fp w = Some r \<Longrightarrow> sparc_walk bt fp w = Some r" for fp r and w :: "('p, 'a) proc_world_scheme"
    by (erule mips_walk.raw_induct [where P = "\<lambda>bt fp w r. sparc_walk bt fp w = Some r", rotated])
      (subst sparc_walk.simps, auto simp: mips_reg_size_def sparc_reg_size_def split: if_splits bind_splits option.splits)
  have ge: "sparc_walk bt fp w = Some r \<Longrightarrow> mips_walk bt fp w = Some r" for fp r and w :: "('p, 'a) proc_world_scheme"
    by (erule sparc_walk.raw_induct [where P = "\<lambda>bt fp w r. mips_walk bt fp w = Some r", rotated])
      (subst mips_walk.simps, auto simp: mips_reg_size_def sparc_reg_size_def split: if_splits bind_splits option.splits)
  show ?thesis using le [of fp w] ge [of fp w] by (cases "mips_walk bt fp w"; cases "sparc_walk bt fp w") fastforce+
qed

lemma mips_backtrace_terminates:
  assumes "rd (mips_PCB_SP h) w = Some (Some fp, v)" and "bts v bt = Some b" "bt \<noteq> 0" and "log_idle v"
  shows "\<exists>r. mips_function_xxx_backtrace rd h bt w = Some r"
  using assms sparc_walk_returns [of v bt b _ fp] by (simp add: mips_function_xxx_backtrace_def mips_walk_sparc)

text \<open>An argument that is written is read back, if registers behave like registers.\<close>

lemma mips_args:
  assumes "p_stopped w" and "n < 4" and "wr (mips_a0 h + n) x w = Some (True, v)" and "p_stopped v"
    and "rd (mips_a0 h + n) v = Some (Some x, u)"
  shows "mips_write_arg wr h n x w = Some (True, v) \<and> mips_read_arg rd h n v = Some (Some x, u)"
  using assms by (simp add: mips_write_arg_def mips_read_arg_def mips_n_arg_regs_def)

text \<open>The registers of the other machines behave so, under other numbers.\<close>

lemma mips_args_on_ptrace:
  assumes "p_stopped w" and "clean w" and "n < 4" and "regs (child w) (mips_a0 h + n) = Some y"
  shows "\<exists>v. mips_write_arg mut_trace_write_reg h n x w = Some (True, v) \<and>
    mips_read_arg mut_trace_read_reg h n v = Some (Some x, v\<lparr>c_errno := 0\<rparr>)"
proof -
  let ?v = "w\<lparr>child := (child w)\<lparr>regs := (regs (child w))(mips_a0 h + n \<mapsto> x)\<rparr>\<rparr>"
  have w: "mut_trace_write_reg (mips_a0 h + n) x w = Some (True, ?v)" using assms(4) by (simp add: mut_trace_write_reg_def)
  have v: "clean ?v" "p_stopped ?v" using assms(1,2) by (simp_all add: clean_def p_stopped_def)
  then have "mut_trace_read_reg (mips_a0 h + n) ?v = Some (Some x, ?v\<lparr>c_errno := 0\<rparr>)" by (simp add: trace_read_reg_ok)
  from mips_args [where rd = mut_trace_read_reg and wr = mut_trace_write_reg, OF assms(1,3) w v(2) this] show ?thesis by blast
qed

end
