(* ===== verification/MutProcfs.thy ===== *)
theory MutProcfs
  imports MutProcess
begin

text \<open>
  The start of a process through the files of System V, src/src/proc/proc-sysVr4/mut_process.c, as far as the code goes: the functions after \<open>mut_process_open\<close>
  use a variable \<open>log\<close> and a member \<open>stopped\<close> that do not exist. The surplus argument of \<open>mut_log_warning\<close> is left out. What the
  system answers is a parameter, \<open>procfs\<close>; of an error it gives the number.
\<close>

section \<open>State\<close>

record procfs =
  pf_getpid :: u32
  pf_fork :: "u32 + u32"
  pf_open :: "string \<Rightarrow> u32 + u32"
  pf_sexit_error :: "u32 option"
  pf_close_error :: "u32 option"
  pf_execv_error :: "u32 option"

record procfs_process =
  pf_fd :: u32
  pf_status :: mut_process_status
  pf_pc :: u32

definition proc_complain :: "string \<Rightarrow> u32 \<Rightarrow> string \<Rightarrow> 'a log_world_scheme \<Rightarrow> 'a log_world_scheme option" where
  "proc_complain msg e name w = do {
     w \<leftarrow> mut_log_fatal msg e (w\<lparr>c_errno := e\<rparr>);
     w \<leftarrow> mut_log_string name w;
     (ok, w) \<leftarrow> mut_log_end w;
     Some w
   }"

section \<open>Operations\<close>

text \<open>\<open>sprintf\<close> into an array of 6 characters: a number of more than 5 digits is written past its end.\<close>

definition proc_file_name :: "u32 \<Rightarrow> string option" where
  "proc_file_name pid = do { assert_c (length (fmt_d pid) < 6); Some (fmt_d pid) }"

text \<open>The child ends by becoming the program or by exiting.\<close>

definition procfs_child :: "procfs \<Rightarrow> string list \<Rightarrow> 'a log_world_scheme \<Rightarrow> (child_fate \<times> 'a log_world_scheme) option" where
  "procfs_child sys argv w = do {
     name \<leftarrow> proc_file_name (pf_getpid sys);
     case pf_open sys name of
       Inl e \<Rightarrow> do { w \<leftarrow> proc_complain ''io.open'' e name w; Some (Exits EXIT_FAILURE, w) }
     | Inr fd \<Rightarrow> (case pf_sexit_error sys of
         Some e \<Rightarrow> do { w \<leftarrow> proc_complain ''ioctl'' e name w; Some (Exits EXIT_FAILURE, w) }
       | None \<Rightarrow> do {
           w \<leftarrow> (case pf_close_error sys of
             None \<Rightarrow> Some w
           | Some e \<Rightarrow> do {
               w \<leftarrow> mut_log_warning ''io.close'' (w\<lparr>c_errno := e\<rparr>);
               w \<leftarrow> mut_log_string name w;
               (ok, w) \<leftarrow> mut_log_end w;
               Some w
             });
           case pf_execv_error sys of
             None \<Rightarrow> Some (Execs, w)
           | Some e \<Rightarrow> do { w \<leftarrow> proc_complain ''execv'' e (hd argv) w; Some (Exits EXIT_FAILURE, w) }
         })
   }"

text \<open>The parent does not wait: the process counts as stopped as soon as its file is open.\<close>

definition procfs_parent ::
  "procfs \<Rightarrow> u32 \<Rightarrow> procfs_process \<times> 'a log_world_scheme \<Rightarrow> (bool \<times> procfs_process \<times> 'a log_world_scheme) option" where
  "procfs_parent sys child_pid = (\<lambda>(p, w). do {
     name \<leftarrow> proc_file_name child_pid;
     case pf_open sys name of
       Inl e \<Rightarrow> do { w \<leftarrow> proc_complain ''io.open'' e name w; Some (False, p\<lparr>pf_fd := -1\<rparr>, w) }
     | Inr fd \<Rightarrow> Some (True, p\<lparr>pf_fd := fd, pf_status := Status_stopped\<rparr>, w)
   })"

definition procfs_open ::
  "procfs \<Rightarrow> string list \<Rightarrow> procfs_process \<times> 'a log_world_scheme \<Rightarrow> (bool \<times> procfs_process \<times> 'a log_world_scheme) option" where
  "procfs_open sys argv = (\<lambda>(p, w).
     (case pf_fork sys of
        Inl e \<Rightarrow> do { w \<leftarrow> proc_complain ''fork'' e (hd argv) w; Some (False, p, w) }
      | Inr pid \<Rightarrow> procfs_parent sys pid (p, w)))"

section \<open>Lemmas\<close>

text \<open>A process started so is stopped, with its file open; a failure has been logged, and nothing else is touched.\<close>

lemma proc_complain_io: "proc_complain msg e name w = Some v \<Longrightarrow> io_only w v"
proof -
  assume "proc_complain msg e name w = Some v"
  then obtain u x y ok where "mut_log_fatal msg e (w\<lparr>c_errno := e\<rparr>) = Some u" "mut_log_string name u = Some x" "mut_log_end x = Some (ok, v)"
    by (auto simp: proc_complain_def split: bind_splits)
  then have "io_only (w\<lparr>c_errno := e\<rparr>) v" by (blast dest: mut_io_only intro: io_only_trans)
  moreover have "io_only w (w\<lparr>c_errno := e\<rparr>)" by (simp add: io_only_def)
  ultimately show ?thesis by (rule io_only_trans [rotated])
qed

lemma procfs_open_ok:
  assumes "procfs_open sys argv (p, w) = Some (ok, q, v)"
  shows "if ok then pf_status q = Status_stopped \<and> v = w \<and> (\<exists>pid. pf_fork sys = Inr pid \<and> pf_open sys (fmt_d pid) = Inr (pf_fd q))
    else pf_status q = pf_status p \<and> io_only w v"
  using assms
  by (auto simp: procfs_open_def procfs_parent_def proc_file_name_def split: sum.splits bind_splits if_splits dest: proc_complain_io)

text \<open>
  The file is looked for by the number alone, in the current directory and not in the one of the processes, and a number from 100000 on is written past the
  end of its array.
\<close>

lemma dec_string_long: "10 ^ k \<le> n \<Longrightarrow> k < length (dec_string n)"
proof (induction k arbitrary: n)
  case 0
  then show ?case by (subst dec_string.simps) simp
next
  case (Suc k)
  then have "10 ^ k \<le> n div 10" by (simp add: less_eq_div_iff_mult_less_eq)
  moreover from Suc.prems have "\<not> n < 10" using one_le_power [of "10 :: nat" k] unfolding power_Suc by linarith
  ultimately show ?case using Suc.IH [of "n div 10"] by (simp add: dec_string.simps [of n])
qed

lemma procfs_open_overflow:
  assumes "pf_fork sys = Inr pid" and "100000 \<le> sint pid"
  shows "procfs_open sys argv (p, w) = None"
proof -
  have "5 < length (dec_string (nat (sint pid)))"
    by (rule dec_string_long) (use assms(2) in simp)
  with assms have "proc_file_name pid = None" by (simp add: proc_file_name_def fmt_d_def)
  with assms(1) show ?thesis by (simp add: procfs_open_def procfs_parent_def)
qed

end
