(* ===== verification/Spec2Isabelle.thy ===== *)
theory Spec2Isabelle
  imports MutPrelude MutLibc MutUint64 MutCounter MutMem MutLog MutSymtab MutExec MutBacktrace MutResources MutTrace MutProcess
    MutCore MutProducer MutConsumer MutRealloc MutRun MutService MutElf MutOpen MutLoad MutMain MutSession MutSparc
    MutTracked MutWhole MutTests MutAvl MutVendor MutAout MutDiv MutDump MutAoutd MutPtrace MutMips MutProcfs
begin

text \<open>
  A verification development for MUT, the Memory Usage Tracker.

  The program. MUT runs another program, the target, under \<open>ptrace\<close>, and keeps account of the objects the target
  allocates. It reads the symbols of the target from its ELF file, puts a breakpoint on each of
  \<open>malloc\<close>, \<open>calloc\<close>, \<open>realloc\<close>, \<open>free\<close>, \<open>cfree\<close> and an optional usage function, and lets the target run. At
  every stop on such a breakpoint the handler of the action reads the arguments, lets the call run to its return address (or skips it),
  reads the result, and records the object as a resource. Freeing what was never allocated (FUM), freeing
  twice (FFM), writing outside of an object (WUM) and objects still alive at the end (MLK) are reported
  in the log. All paths of source files below are relative to src/src.

  How the parts interact. \<open>main\<close> (ui/tty/mut_ui.c) reads the command line and calls \<open>mut_open\<close>, \<open>mut_run\<close> and \<open>mut_close\<close>
  (mut.c). These use the executable (exec/elf/mut_exec.c with the symbol table of exec/mut_exec_symtab.c), the process
  (proc/ptrace/mut_process.c, over the wrappers of mut_trace.c and the machine in arch/x86), the map of resources
  (resources/list/mut_resources.c), whose entries share the backtraces of backtrace/fixed/mut_backtrace.c, and the
  counters (counter, uint64). All of them report through the log (log/tty/mut_log.c) and allocate
  with the checking allocator (mem/debug/mut_mem.c).

  How the code is modelled. The state is one record that grows with the components, in the order of the theories: \<open>libc\<close> (heap, streams, errno),
  \<open>mem_world\<close> (the store of the allocator), \<open>log_world\<close>, \<open>symtab_world\<close>, \<open>exec_world\<close>, \<open>bt_world\<close>,
  \<open>res_world\<close>, \<open>tr_world\<close> (the child), \<open>proc_world\<close> and \<open>mut_world\<close>. Every function of the code is a definition of
  the same name that takes the state and returns the new one; it works on all extensions of the record it needs, so it is called unchanged from the
  components above. The result is an option: None is a failed assertion, the call of \<open>abort\<close> in the allocator or undefined behaviour such as a
  wild pointer; everything else is Some of the result of the function with the new state. A status
  (0 or 1 in the code) is a bool, a value returned through a pointer together with a status is an option inside of the result.
  A pointer is the address of the block; a list linked through \<open>next\<close> is the list of its nodes, each with its own
  address, so that releasing, sharing and leaking are visible. Machine integers are words of 32 bits, as in the
  32-bit build of the Makefile, with their wrap-around.

  What is a parameter. The C library and the operating system are not code of the repository: the block that \<open>malloc\<close> picks, the
  contents of new blocks and of uninitialised variables, which writes fail (\<open>libc\<close>), the behaviour of \<open>ptrace\<close>, \<open>fork\<close> and
  \<open>waitpid\<close> with the course of the child between two stops (the record \<open>os\<close> of MutTrace), and the file with the seeks, reads and closes that fail on it (the record
  \<open>source\<close> of MutElf). The hypotheses about them are \<open>malloc_fresh\<close> (a block that malloc returns is
  not in use), which is part of \<open>mem_wf\<close>, \<open>writes_ok\<close>, and for a request to succeed \<open>clean\<close> and \<open>p_stopped\<close>.

  The theories.

  MutPrelude: words, results, the predicates \<open>returns\<close>, \<open>whenever\<close> and \<open>within\<close> that the lemmas are stated with, number formats.
  MutLibc: the heap and the streams of C.
  MutUint64, MutCounter: 64-bit counters of two words (uint64/struct), and the interface of the counters as a locale with its
  three providers (uint64/struct, uint64/longlong, counter/ulong). MutDiv: the programs of ../misc/div in which the ways of dividing by ten were tried.
  MutMem: mem/debug/mut_mem.c. The lists of blocks in use and freed, the statistics, poisoning, the halts and the final report. The contract is the locale
  \<open>allocator\<close>. MutVendor: mem/vendor, the allocator of the C library, a second provider of this contract, and the output of the other two counters.
  MutLog: log/tty/mut_log.c. The protocol of messages; a complete message is one line, locale \<open>message_log\<close>.
  MutSymtab, MutExec: exec/mut_exec_symtab.c and the part of exec/elf/mut_exec.c the running program uses (lookups, closing).
  MutBacktrace: backtrace/fixed/mut_backtrace.c, with reference counts.
  MutResources: resources/list/mut_resources.c; the map from addresses to entries is the locale \<open>resource_table\<close>.
  MutAvl: resources/avl/mut_resources.c, the map as a balanced tree.
  MutTrace, MutProcess: proc/ptrace/mut_trace.c, mut_process.c and arch/x86/mut_process_arch.c. The memory of the child is the locale \<open>patchable\<close>.
  MutSparc: proc/ptrace/arch/sparc and the access to registers on the BSDs. MutMips: proc/ptrace/arch/mips, with the registers as parameters.
  MutProcfs: the part of proc/proc-sysVr4/mut_process.c that starts a process.
  MutCore, MutProducer, MutConsumer, MutRealloc, MutRun: mut.c with mut.h and mut_action.h. First the state, the actions, zones, statistics and reports,
  then the handlers, then the loop and the end of a run.
  MutService: what each handler does to the map, the log and the child.
  MutTracker, MutTracked: the specification of a memory tracker over the calls of the target, and the proof that a run of MUT implements it.
  MutElf: exec/elf/mut_exec.c, the reader, one definition for each label of \<open>mut_exec_open\<close> that an error jumps to.
  MutAout: exec/aout/mut_exec.c, the reader of a.out files. MutDump, MutAoutd: ../misc/elfd, elfs and stabs, the programs that dump ELF files, and ../misc/aout,
  the one that dumps a.out files. MutPtrace: ../misc/ptrace-x86, ptrace-sparc, ptrace-mips and bach-ptrace, the programs in which \<open>ptrace\<close> was tried.
  MutOpen: \<open>mut_open\<close> of mut.c and ui/tty/mut_ui.c.
  MutLoad, MutMain, MutSession: what opening an executable and a whole run leave allocated, with a sample session
  that starts from the bytes of an ELF file.
  MutWhole: \<open>main\<close> against the specification of the tracker. MutTests: the programs of ../tests/src, and the log that MUT gives for each.

  What the lemmas show. Frames (\<open>mem_only\<close>, \<open>log_only\<close>, \<open>bt_only\<close>, \<open>tr_only\<close> and the like) say which part of the state an operation can change; they are
  proved once for each operation and composed by the rules for \<open>within\<close>. The invariants are \<open>mem_wf\<close> (the store lists exactly the blocks it owns,
  each once), \<open>symtab_sorted\<close>, \<open>bts_ok\<close>, \<open>res_inv E\<close> (the entries of the map are distinct, the numbers of live and consumed ones are right, and the reference
  count of every backtrace is the number of entries that hold it, plus the references E held elsewhere) and \<open>core_inv\<close>. Every handler is shown to
  keep them on every path, errors included (\<open>served\<close>, \<open>serves\<close>), and so does the main loop, by computation
  induction. From this follows what is released at the end of a run, and with the all-or-nothing theorem about opening an executable what is released at the
  end of the program. What a run says about the target is the refinement in MutTracked: a target is described by the calls it makes (\<open>performs\<close>, \<open>target\<close>), the specification folds
  \<open>track\<close> over them, and a simulation, one lemma for each handler, shows that the map, the log and the leak report are what the specification gives.
  MutWhole carries this through opening and closing to \<open>main\<close>: the text of the log of the whole program is computed from the calls. MutTests computes it for the
  test programs, each a function of what the allocator answers, and compares it with the results recorded in ../tests/gen/results.x86/correct.
  The other properties are about single components: refinement of maps by the symbol table and the resources, the effect of the
  requests on the child, round trips of breakpoints, zones and numbers, bounds of the counters, and the errors of the log and the allocator.

  Loops. \<open>mut_run\<close> and the loop of \<open>mut_process_wait\<close> end only if the target does, so they are partial functions in
  the option monad; a run that does not end has the value None, and the properties that claim a result prove it (\<open>mut_process_wait_outcome\<close>,
  \<open>sample_session_run\<close>). \<open>mut_run_is_a_chain_of_rounds\<close> relates the loop to its rounds. The walk along the frame pointers ends because the
  frame pointer must increase, the division by ten because its shift decreases; the
  other loops follow lists. No fuel is used.

  Where the code is wrong the model follows it, and the properties state what it does: see \<open>mut_uint64_inc_exact_iff\<close>,
  \<open>mut_uint64_lt_characterised\<close>, \<open>mut_mem_realloc_contents\<close>, \<open>mut_do_calloc_zone_mismatch\<close>,
  \<open>mut_process_memset_effect\<close>, \<open>avl_descending_addresses_crash\<close> and \<open>aout_failure_leaks_strings\<close>. That \<open>main_releases_everything\<close> leaves out the option that frees memory
  for real has such a reason, too: a realloc that fails then does not release its backtrace.

  The endless test programs are partial functions too, and are shown to end when the allocator gives up.

  Not modelled. Of the machine MIPS the function \<open>mut_process_function_backtrace\<close>, which uses variables that do not exist; of the process of System V everything after the start, which
  uses a variable and members that do not exist; of resources/avl, which does not compile either, the functions that use members that do not exist. The 64-bit types of
  ELF. The theories of the SPARC and the MIPS end with the process: the handlers of mut.c are modelled over the x86. The refinement of MutTracked and MutWhole
  is about runs without options and with -t; what the other options do is the subject of MutService. Of ../misc there remain the programs that only call the system (limit) or exist to be looked at
  by another program (backtrace, breakpoint.c, the sample targets of the dumpers).
\<close>

end
